(* ===== verification/Prelude.thy ===== *)
theory Prelude
  imports Main "HOL-Library.Word" "HOL-Library.Sublist" "HOL-Library.AList" "HOL-Library.Multiset"
    "HOL-Library.Char_ord" "HOL-Library.Code_Target_Nat" "HOL-Library.List_Lexorder"
begin

text \<open>
  Shared vocabulary of the development: the parts of Go's language and standard library that
  the modelled files use (\<open>strings\<close>, \<open>strconv\<close>, \<open>sort\<close>, \<open>slices\<close>, maps, 64-bit integers),
  and the generic lemmas the component theories rest on.

  Conventions:
  \<^item> A Go \<open>string\<close> is a \<open>string\<close> (a list of bytes); character classes are the ASCII ones.
  \<^item> \<open>uint64\<close> is \<open>64 word\<close> (wrapping). \<open>int64\<close> and \<open>int\<close> are \<open>int\<close>; where a sum can leave the
    range the wrap-around is written with \<open>s64\<close>.
  \<^item> A Go map is an association list with distinct keys. The list order stands for the iteration
    order, which Go leaves unspecified: a theorem about every such list holds for every order.
  \<^item> A run-time panic (nil dereference, index out of range, division by zero) is \<open>None\<close> of an
    \<open>option\<close> result.
\<close>

named_theorems go_str \<open>lemmas on the string functions\<close>
named_theorems go_map \<open>lemmas on maps as association lists\<close>

type_synonym u64 = "64 word"
type_synonym ('k, 'v) gomap = "('k \<times> 'v) list"

section \<open>Integers\<close>

text \<open>Two's complement normalisation of a 64-bit signed result.\<close>

definition s64 :: "int \<Rightarrow> int" where
  "s64 x = (x + 2 ^ 63) mod 2 ^ 64 - 2 ^ 63"

definition in_s64 :: "int \<Rightarrow> bool" where
  "in_s64 x \<longleftrightarrow> - (2 ^ 63) \<le> x \<and> x < 2 ^ 63"

text \<open>The same for \<open>int32\<close>.\<close>

definition s32 :: "int \<Rightarrow> int" where
  "s32 x = (x + 2 ^ 31) mod 2 ^ 32 - 2 ^ 31"

text \<open>Go's integer division truncates towards zero.\<close>

definition go_div :: "int \<Rightarrow> int \<Rightarrow> int" where
  "go_div a b = sgn a * sgn b * (\<bar>a\<bar> div \<bar>b\<bar>)"

section \<open>Strings\<close>

text \<open>\<open>strings.Contains\<close>\<close>

fun str_contains :: "string \<Rightarrow> string \<Rightarrow> bool" where
  "str_contains [] sub \<longleftrightarrow> sub = []"
| "str_contains (c # s) sub \<longleftrightarrow> prefix sub (c # s) \<or> str_contains s sub"

text \<open>\<open>strings.Split\<close> with a separator of one character.\<close>

fun str_split :: "char \<Rightarrow> string \<Rightarrow> string list" where
  "str_split sep [] = [[]]"
| "str_split sep (c # s) =
     (if c = sep then [] # str_split sep s
      else (case str_split sep s of [] \<Rightarrow> [[c]] | t # ts \<Rightarrow> (c # t) # ts))"

text \<open>\<open>strings.Join\<close> with a separator of one character.\<close>

fun str_join :: "char \<Rightarrow> string list \<Rightarrow> string" where
  "str_join sep [] = []"
| "str_join sep [s] = s"
| "str_join sep (s # t # ts) = s @ [sep] @ str_join sep (t # ts)"

text \<open>\<open>strings.ToUpper\<close> on ASCII.\<close>

definition char_upper :: "char \<Rightarrow> char" where
  "char_upper c = (if 97 \<le> (of_char c :: nat) \<and> (of_char c :: nat) \<le> 122
                   then char_of ((of_char c :: nat) - 32) else c)"

definition str_upper :: "string \<Rightarrow> string" where
  "str_upper = map char_upper"

definition is_digit :: "char \<Rightarrow> bool" where
  "is_digit c \<longleftrightarrow> 48 \<le> (of_char c :: nat) \<and> (of_char c :: nat) \<le> 57"

definition digit_val :: "char \<Rightarrow> nat" where
  "digit_val c = (of_char c :: nat) - 48"

definition is_alpha :: "char \<Rightarrow> bool" where
  "is_alpha c \<longleftrightarrow> 65 \<le> (of_char c :: nat) \<and> (of_char c :: nat) \<le> 90
                \<or> 97 \<le> (of_char c :: nat) \<and> (of_char c :: nat) \<le> 122"

section \<open>Numbers as text\<close>

text \<open>
  \<open>strconv.ParseUint(s, 10, bits)\<close> with its error dropped, as every caller does: 0 on a syntax
  error, the greatest value of the width once the value read so far leaves the range.
\<close>

fun parse_uint_loop :: "nat \<Rightarrow> nat \<Rightarrow> string \<Rightarrow> nat" where
  "parse_uint_loop mx n [] = n"
| "parse_uint_loop mx n (c # s) =
     (if \<not> is_digit c then 0
      else if mx < n * 10 + digit_val c then mx
      else parse_uint_loop mx (n * 10 + digit_val c) s)"

definition parse_uint :: "nat \<Rightarrow> string \<Rightarrow> nat" where
  "parse_uint bits s = parse_uint_loop (2 ^ bits - 1) 0 s"

text \<open>
  \<open>strconv.Atoi\<close> with its error dropped. A syntax error gives 0; a magnitude beyond the range of
  a 64-bit \<open>int\<close> gives the nearest bound.
\<close>

definition atoi_mag :: "string \<Rightarrow> int" where
  "atoi_mag s = int (parse_uint 64 s)"

definition atoi :: "string \<Rightarrow> int" where
  "atoi s =
     (case s of
        [] \<Rightarrow> 0
      | c # t \<Rightarrow>
          if c = CHR ''-'' then max (- atoi_mag t) (- (2 ^ 63))
          else if c = CHR ''+'' then min (atoi_mag t) (2 ^ 63 - 1)
          else min (atoi_mag s) (2 ^ 63 - 1))"

text \<open>\<open>strconv.ParseUint(s, 10, 64)\<close> and \<open>strconv.Atoi(s)\<close> return no error.\<close>

definition dec_value :: "string \<Rightarrow> nat" where
  "dec_value s = foldl (\<lambda>n c. n * 10 + digit_val c) 0 s"

definition uint_ok :: "string \<Rightarrow> bool" where
  "uint_ok s \<longleftrightarrow> s \<noteq> [] \<and> list_all is_digit s \<and> dec_value s < 2 ^ 64"

definition atoi_ok :: "string \<Rightarrow> bool" where
  "atoi_ok s =
     (case s of
        [] \<Rightarrow> False
      | c # t \<Rightarrow>
          let u = (if c = CHR ''-'' \<or> c = CHR ''+'' then t else s)
          in u \<noteq> [] \<and> list_all is_digit u \<and> (if c = CHR ''-'' then dec_value u \<le> 2 ^ 63 else dec_value u < 2 ^ 63))"

text \<open>Decimal printing, \<open>%d\<close> and \<open>strconv.FormatUint(_, 10)\<close>.\<close>

definition digit_char :: "nat \<Rightarrow> char" where
  "digit_char d = char_of (48 + d)"

fun dec :: "nat \<Rightarrow> string" where
  "dec n = (if n < 10 then [digit_char n] else dec (n div 10) @ [digit_char (n mod 10)])"

declare dec.simps [simp del]

definition dec_int :: "int \<Rightarrow> string" where
  "dec_int i = (if i < 0 then CHR ''-'' # dec (nat (- i)) else dec (nat i))"

section \<open>Slices and sorting\<close>

text \<open>
  \<open>sort.Slice\<close> and \<open>sort.Sort\<close>: the insertion sort Go runs on slices of up to twelve elements.
  Lemmas about it use only that the result is a permutation, and that it is sorted when the
  comparison is a strict weak order, so they hold for any length and any placement of ties.
\<close>

definition ins_right :: "('a \<Rightarrow> 'a \<Rightarrow> bool) \<Rightarrow> 'a \<Rightarrow> 'a list \<Rightarrow> 'a list" where
  "ins_right lt x acc =
     rev (dropWhile (lt x) (rev acc)) @ [x] @ rev (takeWhile (lt x) (rev acc))"

definition sort_slice :: "('a \<Rightarrow> 'a \<Rightarrow> bool) \<Rightarrow> 'a list \<Rightarrow> 'a list" where
  "sort_slice lt xs = foldl (\<lambda>acc x. ins_right lt x acc) [] xs"

text \<open>
  The removal idiom of the code base: the element at position \<open>k\<close> is overwritten with the last
  one and the slice is shortened by one.
\<close>

definition swap_remove :: "nat \<Rightarrow> 'a list \<Rightarrow> 'a list" where
  "swap_remove k xs = butlast (xs[k := last xs])"

text \<open>The index of the first element with a property, as a counting \<open>for ... range\<close> loop finds it.\<close>

fun find_index :: "('a \<Rightarrow> bool) \<Rightarrow> 'a list \<Rightarrow> nat option" where
  "find_index P [] = None"
| "find_index P (x # xs) = (if P x then Some 0 else map_option Suc (find_index P xs))"

section \<open>Lemmas\<close>

lemma s64_id [simp]: "in_s64 x \<Longrightarrow> s64 x = x"
  by (simp add: s64_def in_s64_def)

lemma in_s64_s64: "in_s64 (s64 x)"
proof -
  have "0 \<le> (x + 2 ^ 63) mod 2 ^ 64" and "(x + 2 ^ 63) mod 2 ^ 64 < 2 ^ 64"
    by simp_all
  then show ?thesis by (simp add: s64_def in_s64_def)
qed

lemma unat_lt_u64: "unat (w :: u64) < 2 ^ 64"
  using unsigned_less [of w, where 'a = nat] by simp

lemma str_contains_iff [go_str]: "str_contains s sub \<longleftrightarrow> sublist sub s"
  by (induction s) (auto simp: sublist_Cons_right)

lemma str_split_nonempty [simp, go_str]: "str_split sep s \<noteq> []"
  by (induction s) (auto split: list.splits)

lemma str_join_Cons [go_str]:
  "ts \<noteq> [] \<Longrightarrow> str_join sep (t # ts) = t @ sep # str_join sep ts"
  by (cases ts) auto

lemma str_split_no_sep: "sep \<notin> set s \<Longrightarrow> str_split sep s = [s]"
  by (induction s) auto

lemma str_split_append_sep:
  "sep \<notin> set s \<Longrightarrow> str_split sep (s @ sep # t) = s # str_split sep t"
  by (induction s) (auto split: list.splits)

lemma str_split_join [go_str]:
  "ss \<noteq> [] \<Longrightarrow> \<forall>s \<in> set ss. sep \<notin> set s \<Longrightarrow> str_split sep (str_join sep ss) = ss"
proof (induction ss)
  case Nil
  then show ?case by simp
next
  case (Cons s ss)
  show ?case
  proof (cases "ss = []")
    case True
    with Cons.prems show ?thesis by (simp add: str_split_no_sep)
  next
    case False
    with Cons show ?thesis
      by (simp add: str_join_Cons str_split_append_sep)
  qed
qed

lemma str_join_split [go_str]: "str_join sep (str_split sep s) = s"
proof (induction s)
  case Nil
  then show ?case by simp
next
  case (Cons c s)
  obtain t ts where ts: "str_split sep s = t # ts"
    using str_split_nonempty neq_Nil_conv by metis
  show ?case
  proof (cases "c = sep")
    case True
    then show ?thesis using Cons by (simp add: str_join_Cons)
  next
    case False
    with ts Cons show ?thesis by (cases ts) auto
  qed
qed

lemma str_split_parts_no_sep: "t \<in> set (str_split sep s) \<Longrightarrow> sep \<notin> set t"
proof (induction s arbitrary: t)
  case Nil
  then show ?case by simp
next
  case (Cons c s)
  obtain u us where us: "str_split sep s = u # us"
    using str_split_nonempty neq_Nil_conv by metis
  with Cons show ?case by (auto split: if_splits)
qed

lemma of_char_digit_char: "d < 10 \<Longrightarrow> (of_char (digit_char d) :: nat) = 48 + d"
  by (simp add: digit_char_def)

lemma is_digit_digit_char [simp]: "d < 10 \<Longrightarrow> is_digit (digit_char d)"
  by (simp add: is_digit_def of_char_digit_char)

lemma digit_val_digit_char [simp]: "d < 10 \<Longrightarrow> digit_val (digit_char d) = d"
  by (simp add: digit_val_def of_char_digit_char)

lemma dec_digits: "c \<in> set (dec n) \<Longrightarrow> is_digit c"
proof (induction n rule: dec.induct)
  case (1 n)
  then show ?case
    by (subst (asm) (2) dec.simps) (auto split: if_splits)
qed

lemma dec_nonempty [simp]: "dec n \<noteq> []"
  by (subst dec.simps) simp

lemma not_in_dec: "\<not> is_digit c \<Longrightarrow> c \<notin> set (dec n)"
  using dec_digits by blast

lemma parse_uint_loop_append:
  assumes "parse_uint_loop mx n s = m" and "\<forall>c \<in> set s. is_digit c" and "m < mx"
  shows "parse_uint_loop mx n (s @ t) = parse_uint_loop mx m t"
  using assms
  by (induction mx n s rule: parse_uint_loop.induct) (auto split: if_splits)

lemma parse_uint_loop_dec: "n \<le> mx \<Longrightarrow> parse_uint_loop mx 0 (dec n) = n"
proof (induction n rule: dec.induct)
  case (1 n)
  show ?case
  proof (cases "n < 10")
    case True
    with 1 show ?thesis by (subst dec.simps) simp
  next
    case False
    with 1 have "parse_uint_loop mx 0 (dec (n div 10)) = n div 10" by simp
    moreover have "n div 10 < mx" using False 1 by (simp add: less_le_trans)
    ultimately have "parse_uint_loop mx 0 (dec (n div 10) @ [digit_char (n mod 10)])
        = parse_uint_loop mx (n div 10) [digit_char (n mod 10)]"
      using dec_digits by (intro parse_uint_loop_append) auto
    with False 1 show ?thesis by (subst dec.simps) simp
  qed
qed

lemma parse_uint_dec [go_str]: "n < 2 ^ bits \<Longrightarrow> parse_uint bits (dec n) = n"
  by (simp add: parse_uint_def parse_uint_loop_dec)

lemma dec_value_append: "dec_value (s @ [c]) = dec_value s * 10 + digit_val c"
  by (simp add: dec_value_def)

lemma dec_value_dec [simp]: "dec_value (dec n) = n"
proof (induction n rule: dec.induct)
  case (1 n)
  then show ?case
    by (subst dec.simps) (auto simp: dec_value_append, simp add: dec_value_def)
qed

lemma dec_first: "dec n = c # t \<Longrightarrow> c \<noteq> CHR ''-'' \<and> c \<noteq> CHR ''+''"
  using dec_digits [of c n] by (auto simp: is_digit_def)

lemma atoi_dec_ok: "n < 2 ^ 63 \<Longrightarrow> atoi_ok (dec n) \<and> atoi (dec n) = int n"
proof -
  assume n: "n < 2 ^ 63"
  obtain c t where ct: "dec n = c # t" using dec_nonempty by (meson neq_Nil_conv)
  have "list_all is_digit (dec n)" using dec_digits by (auto simp: list_all_iff)
  moreover have "parse_uint 64 (dec n) = n" using n by (intro parse_uint_dec) simp
  ultimately show ?thesis
    using n dec_first [OF ct] dec_value_dec [of n] by (simp add: atoi_ok_def atoi_def atoi_mag_def ct)
qed

lemma dec_inj: "dec m = dec n \<longleftrightarrow> m = n"
proof
  assume eq: "dec m = dec n"
  have "m = parse_uint_loop (max m n) 0 (dec m)" by (simp add: parse_uint_loop_dec)
  also have "\<dots> = n" unfolding eq by (simp add: parse_uint_loop_dec)
  finally show "m = n" .
qed simp

lemma parse_uint_loop_le: "n \<le> mx \<Longrightarrow> parse_uint_loop mx n s \<le> mx"
  by (induction mx n s rule: parse_uint_loop.induct) auto

lemma parse_uint_bound: "parse_uint bits s < 2 ^ bits"
proof -
  have "parse_uint bits s \<le> 2 ^ bits - 1"
    by (simp add: parse_uint_def parse_uint_loop_le)
  moreover have "0 < (2::nat) ^ bits" by simp
  ultimately show ?thesis by linarith
qed

lemma mset_ins_right: "mset (ins_right lt x acc) = add_mset x (mset acc)"
proof -
  have "mset (dropWhile (lt x) (rev acc)) + mset (takeWhile (lt x) (rev acc)) = mset acc"
    by (metis mset_append mset_rev takeWhile_dropWhile_id union_commute)
  then show ?thesis by (simp add: ins_right_def)
qed

lemma mset_foldl_ins: "mset (foldl (\<lambda>a x. ins_right lt x a) acc xs) = mset acc + mset xs"
  by (induction xs arbitrary: acc) (auto simp: mset_ins_right)

lemma mset_sort_slice [simp]: "mset (sort_slice lt xs) = mset xs"
  by (simp add: sort_slice_def mset_foldl_ins)

lemma set_sort_slice [simp]: "set (sort_slice lt xs) = set xs"
  by (metis mset_sort_slice set_mset_mset)

lemma length_sort_slice [simp]: "length (sort_slice lt xs) = length xs"
  by (metis mset_sort_slice size_mset)

lemma sorted_ins_right:
  fixes f :: "'a \<Rightarrow> 'b::linorder"
  assumes "sorted (map f acc)"
  shows "sorted (map f (ins_right (\<lambda>a b. f a < f b) x acc))"
  using assms
proof (induction acc rule: rev_induct)
  case Nil
  then show ?case by (simp add: ins_right_def)
next
  case (snoc y acc)
  then have le: "\<forall>z \<in> set acc. f z \<le> f y" and so: "sorted (map f acc)"
    by (auto simp: sorted_append)
  show ?case
  proof (cases "f x < f y")
    case True
    let ?r = "ins_right (\<lambda>a b. f a < f b) x acc"
    have "ins_right (\<lambda>a b. f a < f b) x (acc @ [y]) = ?r @ [y]"
      using True by (simp add: ins_right_def)
    moreover have "set ?r = insert x (set acc)"
      using mset_ins_right [of _ x acc] by (metis set_mset_add_mset_insert set_mset_mset)
    moreover have "sorted (map f ?r)" using snoc.IH so by simp
    ultimately show ?thesis using True le by (auto simp: sorted_append)
  next
    case False
    with snoc.prems le show ?thesis
      by (fastforce simp: ins_right_def sorted_append)
  qed
qed

lemma sorted_sort_slice:
  fixes f :: "'a \<Rightarrow> 'b::linorder"
  shows "sorted (map f (sort_slice (\<lambda>a b. f a < f b) xs))"
proof -
  have "sorted (map f acc) \<Longrightarrow>
      sorted (map f (foldl (\<lambda>a x. ins_right (\<lambda>a b. f a < f b) x a) acc xs))" for acc
    by (induction xs arbitrary: acc) (auto simp: sorted_ins_right)
  from this [of "[]"] show ?thesis by (simp add: sort_slice_def)
qed

text \<open>Sorting by a key that tells the elements apart has one result.\<close>

lemma sort_slice_unique:
  fixes f :: "'a \<Rightarrow> 'b::linorder"
  assumes "mset xs = mset ys" and "inj_on f (set xs)"
  shows "sort_slice (\<lambda>a b. f a < f b) xs = sort_slice (\<lambda>a b. f a < f b) ys"
proof -
  let ?s = "sort_slice (\<lambda>a b. f a < f b)"
  have "sort (map f ys) = map f (?s xs)"
    by (rule properties_for_sort) (simp_all add: assms(1) sorted_sort_slice)
  moreover have "sort (map f ys) = map f (?s ys)"
    by (rule properties_for_sort) (simp_all add: sorted_sort_slice)
  ultimately have eq: "map f (?s xs) = map f (?s ys)" by simp
  have "set ys = set xs" using assms(1) by (metis mset_eq_setD)
  then have "inj_on f (set (?s xs) \<union> set (?s ys))"
    using assms(2) by simp
  from inj_on_map_eq_map [OF this] eq show ?thesis by (rule iffD1)
qed

lemma find_index_Some_iff:
  "find_index P xs = Some i \<longleftrightarrow> i < length xs \<and> P (xs ! i) \<and> (\<forall>j < i. \<not> P (xs ! j))"
proof (induction xs arbitrary: i)
  case Nil
  then show ?case by simp
next
  case (Cons x xs)
  show ?case
  proof (cases i)
    case 0
    then show ?thesis by auto
  next
    case (Suc j)
    have "(\<forall>k < Suc j. \<not> P ((x # xs) ! k)) \<longleftrightarrow> \<not> P x \<and> (\<forall>k < j. \<not> P (xs ! k))"
      using less_Suc_eq_0_disj by auto
    with Suc show ?thesis using Cons.IH [of j] by auto
  qed
qed

lemma find_index_None_iff: "find_index P xs = None \<longleftrightarrow> (\<forall>x \<in> set xs. \<not> P x)"
  by (induction xs) auto

lemma mset_swap_remove:
  assumes "k < length xs"
  shows "mset (swap_remove k xs) = mset xs - {# xs ! k #}"
proof -
  have ne: "xs[k := last xs] \<noteq> []" using assms by auto
  have "xs \<noteq> []" using assms by auto
  then have last: "last (xs[k := last xs]) = last xs"
    by (subst last_list_update) auto
  have "mset (xs[k := last xs]) = add_mset (last xs) (mset xs - {# xs ! k #})"
    using assms by (simp add: mset_update)
  moreover have "mset (xs[k := last xs]) = add_mset (last xs) (mset (butlast (xs[k := last xs])))"
    using append_butlast_last_id [OF ne] last
    by (metis add_mset_add_single mset.simps(1) mset.simps(2) mset_append)
  ultimately show ?thesis by (simp add: swap_remove_def)
qed

lemma length_swap_remove: "length (swap_remove k xs) = length xs - 1"
  by (simp add: swap_remove_def)

end
