(* ===== verification/Registry.thy ===== *)
theory Registry
  imports Prelude
begin

text \<open>
  The contract between the state machine and the rest of the program. A registry holds the
  states raised in the current monitoring round (\<open>cur\<close>) and those visible from the previous one
  (\<open>old\<close>); a round raises states and ends with \<open>clear\<close>. Clients (the failover checks, the
  alerting code, the proxies) read \<open>old\<close> only.
\<close>

locale state_registry =
  fixes add :: "string \<Rightarrow> 's \<Rightarrow> 'm \<Rightarrow> 'm"
    and clear :: "'m \<Rightarrow> 'm"
    and cur :: "'m \<Rightarrow> string \<Rightarrow> 's option"
    and old :: "'m \<Rightarrow> string \<Rightarrow> 's option"
    and key :: "string \<Rightarrow> 's \<Rightarrow> string"
    and tag :: "string \<Rightarrow> 's \<Rightarrow> 's"
    and started :: "'m \<Rightarrow> bool"
  assumes cur_add: "cur (add k s m) =
      (if cur m (key k s) = None then (cur m)(key k s \<mapsto> tag k s) else cur m)"
    and old_add: "started m \<Longrightarrow> old (add k s m) = old m"
    and cur_clear: "cur (clear m) = Map.empty"
    and old_clear: "old (clear m) = cur m"
    and started_add: "started (add k s m) = started m"
    and started_clear: "started (clear m) = started m"
begin

lemma cur_add_dom: "dom (cur (add k s m)) = insert (key k s) (dom (cur m))"
  by (auto simp: cur_add)

lemma cur_add_keeps: "cur m x = Some v \<Longrightarrow> cur (add k s m) x = Some v"
  by (auto simp: cur_add)

lemma started_fold: "started (fold (\<lambda>(k, s). add k s) adds m) = started m"
  by (induction adds arbitrary: m) (simp_all add: started_add case_prod_beta)

lemma old_fold: "started m \<Longrightarrow> old (fold (\<lambda>(k, s). add k s) adds m) = old m"
  by (induction adds arbitrary: m) (simp_all add: old_add started_add case_prod_beta)

lemma cur_fold_dom:
  "dom (cur (fold (\<lambda>(k, s). add k s) adds m)) = (\<lambda>(k, s). key k s) ` set adds \<union> dom (cur m)"
  by (induction adds arbitrary: m) (simp_all add: cur_add_dom case_prod_beta)

lemma cur_fold_keeps:
  "cur m x = Some v \<Longrightarrow> cur (fold (\<lambda>(k, s). add k s) adds m) x = Some v"
  by (induction adds arbitrary: m) (simp_all add: cur_add_keeps case_prod_beta)

text \<open>After a round the visible states are exactly those raised in it.\<close>

lemma round_visible:
  assumes "cur m = Map.empty"
  shows "dom (old (clear (fold (\<lambda>(k, s). add k s) adds m))) = (\<lambda>(k, s). key k s) ` set adds"
  using assms by (simp add: old_clear cur_fold_dom)

text \<open>Of two states raised under the same key in a round, the first is kept.\<close>

lemma round_first_wins:
  assumes "cur m = Map.empty"
  shows "old (clear (fold (\<lambda>(k, s). add k s) ((k1, s1) # adds) m)) (key k1 s1) = Some (tag k1 s1)"
proof -
  have "cur (add k1 s1 m) (key k1 s1) = Some (tag k1 s1)"
    using assms by (simp add: cur_add)
  then show ?thesis by (simp add: old_clear cur_fold_keeps)
qed

text \<open>A state that is not raised again is gone after the next round.\<close>

lemma round_resolves:
  assumes "cur m = Map.empty" and "x \<notin> (\<lambda>(k, s). key k s) ` set adds"
  shows "old (clear (fold (\<lambda>(k, s). add k s) adds m)) x = None"
  using round_visible [OF assms(1), of adds] assms(2) by (auto simp: domIff)

end

end
