(* ===== verification/StateMachine.thy ===== *)
theory StateMachine
  imports Registry
begin

text \<open>
  The state machine of \<open>src/utils/state/state.go\<close>: the set of states (errors and warnings)
  raised in the current monitoring round, the set raised in the previous round, and the SLA
  counters. Every method of \<open>StateMachine\<close>, \<open>Map\<close>, \<open>Sla\<close> and \<open>CapturedState\<close> that does not
  format floating point numbers is a definition here. A method that runs under the machine's
  mutex is one step. \<open>time.Now().Unix()\<close> is the argument \<open>now\<close>.
\<close>

section \<open>Data\<close>

record state =
  ErrKey :: string
  ErrType :: string
  ErrDesc :: string
  ErrFrom :: string
  ServerUrl :: string

record state_http =
  hErrNumber :: string
  hErrDesc :: string
  hErrFrom :: string

record captured_state =
  cErrKey :: string
  cErrType :: string
  cErrDesc :: string
  cErrFrom :: string
  cServerURLs :: "string list"

type_synonym state_map = "(string, state) gomap"

record sla =
  Firsttime :: int
  Lasttime :: int
  Uptime :: int
  UptimeFailable :: int
  UptimeSemisync :: int

record state_machine =
  CurState :: state_map
  OldState :: state_map
  CapturedState :: "(string, captured_state) gomap"
  Discovered :: bool
  sm_sla :: sla
  lastState :: int
  heartbeats :: int
  InFailover :: bool
  InSchemaMonitor :: bool
  SchemaMonitorStartTime :: int
  SchemaMonitorEndTime :: int

text \<open>The zero values of the structs, as \<open>new(StateMachine)\<close> gives them.\<close>

definition zero_sla :: sla where
  "zero_sla = \<lparr>Firsttime = 0, Lasttime = 0, Uptime = 0, UptimeFailable = 0, UptimeSemisync = 0\<rparr>"

definition zero_sm :: state_machine where
  "zero_sm = \<lparr>CurState = [], OldState = [], CapturedState = [], Discovered = False,
              sm_sla = zero_sla, lastState = 0, heartbeats = 0, InFailover = False,
              InSchemaMonitor = False, SchemaMonitorStartTime = 0, SchemaMonitorEndTime = 0\<rparr>"

section \<open>Captured states and maps\<close>

definition Captured_Contains :: "captured_state \<Rightarrow> string \<Rightarrow> bool" where
  "Captured_Contains cs url \<longleftrightarrow> url \<in> set (cServerURLs cs)"

definition Captured_Parse :: "state \<Rightarrow> captured_state" where
  "Captured_Parse s = \<lparr>cErrKey = ErrKey s, cErrType = ErrType s, cErrDesc = ErrDesc s,
                       cErrFrom = ErrFrom s, cServerURLs = []\<rparr>"

definition NewMap :: state_map where
  "NewMap = []"

definition Map_Add :: "string \<Rightarrow> state \<Rightarrow> state_map \<Rightarrow> state_map" where
  "Map_Add key s m = (case map_of m key of None \<Rightarrow> m @ [(key, s)] | Some _ \<Rightarrow> m)"

definition Map_Delete :: "string \<Rightarrow> state_map \<Rightarrow> state_map" where
  "Map_Delete key m = filter (\<lambda>(k, _). k \<noteq> key) m"

definition Map_Search :: "string \<Rightarrow> state_map \<Rightarrow> bool" where
  "Map_Search key m \<longleftrightarrow> map_of m key \<noteq> None"

section \<open>SLA counters\<close>

definition Sla_Init :: "int \<Rightarrow> sla \<Rightarrow> sla" where
  "Sla_Init now l = l\<lparr>Uptime := 0, UptimeFailable := 0, UptimeSemisync := 0,
                       Lasttime := now, Firsttime := now\<rparr>"

definition GetSla :: "state_machine \<Rightarrow> sla" where
  "GetSla SM = sm_sla SM"

definition SetSla :: "sla \<Rightarrow> state_machine \<Rightarrow> state_machine" where
  "SetSla l SM = SM\<lparr>sm_sla := l\<rparr>"

definition ResetUptime :: "int \<Rightarrow> state_machine \<Rightarrow> state_machine" where
  "ResetUptime now SM = SM\<lparr>sm_sla := Sla_Init now (sm_sla SM)\<rparr>"

text \<open>The seconds since the last update, added to a counter (\<open>int64\<close> arithmetic).\<close>

definition sla_add :: "int \<Rightarrow> sla \<Rightarrow> int \<Rightarrow> int" where
  "sla_add now l c = s64 (c + s64 (now - Lasttime l))"

definition SetMasterUpAndSync ::
  "int \<Rightarrow> bool \<Rightarrow> bool \<Rightarrow> bool \<Rightarrow> state_machine \<Rightarrow> state_machine" where
  "SetMasterUpAndSync now IsValidMaster IsSemiSynced IsNotDelay SM =
     (let l = sm_sla SM;
          l1 = (if IsSemiSynced then l\<lparr>UptimeSemisync := sla_add now l (UptimeSemisync l)\<rparr> else l);
          l2 = (if IsNotDelay then l1\<lparr>UptimeFailable := sla_add now l1 (UptimeFailable l1)\<rparr> else l1);
          l3 = (if IsValidMaster then l2\<lparr>Uptime := sla_add now l2 (Uptime l2)\<rparr> else l2)
      in SM\<lparr>sm_sla := l3\<lparr>Lasttime := now\<rparr>, heartbeats := s64 (heartbeats SM + 1)\<rparr>)"

definition SetMasterUpAndSyncRestart :: "int \<Rightarrow> state_machine \<Rightarrow> state_machine" where
  "SetMasterUpAndSyncRestart now SM =
     (let l = sm_sla SM
      in SM\<lparr>sm_sla := l\<lparr>UptimeSemisync := sla_add now l (UptimeSemisync l),
                        UptimeFailable := sla_add now l (UptimeFailable l),
                        Uptime := sla_add now l (Uptime l),
                        Lasttime := now\<rparr>\<rparr>)"

section \<open>Flags\<close>

definition SM_Init :: "int \<Rightarrow> state_machine \<Rightarrow> state_machine" where
  "SM_Init now SM =
     SM\<lparr>CurState := NewMap, OldState := NewMap, CapturedState := [], Discovered := False,
        sm_sla := Sla_Init now (sm_sla SM), lastState := 0, heartbeats := 0\<rparr>"

definition SetMonitorSchemaState :: "int \<Rightarrow> state_machine \<Rightarrow> state_machine" where
  "SetMonitorSchemaState now SM = SM\<lparr>SchemaMonitorStartTime := now, InSchemaMonitor := True\<rparr>"

definition RemoveMonitorSchemaState :: "int \<Rightarrow> state_machine \<Rightarrow> state_machine" where
  "RemoveMonitorSchemaState now SM = SM\<lparr>InSchemaMonitor := False, SchemaMonitorEndTime := now\<rparr>"

definition SetFailoverState :: "state_machine \<Rightarrow> state_machine" where
  "SetFailoverState SM = SM\<lparr>InFailover := True\<rparr>"

definition RemoveFailoverState :: "state_machine \<Rightarrow> state_machine" where
  "RemoveFailoverState SM = SM\<lparr>InFailover := False\<rparr>"

definition SM_IsInFailover :: "state_machine \<Rightarrow> bool" where
  "SM_IsInFailover SM = InFailover SM"

definition IsInSchemaMonitor :: "state_machine \<Rightarrow> bool" where
  "IsInSchemaMonitor SM = InSchemaMonitor SM"

definition GetHeartbeats :: "state_machine \<Rightarrow> int" where
  "GetHeartbeats SM = heartbeats SM"

definition UnDiscovered :: "state_machine \<Rightarrow> state_machine" where
  "UnDiscovered SM = SM\<lparr>Discovered := False\<rparr>"

definition SM_IsDiscovered :: "state_machine \<Rightarrow> bool" where
  "SM_IsDiscovered SM = Discovered SM"

section \<open>Raising and reading states\<close>

text \<open>The key a state is filed under: a server state carries the server's URL.\<close>

definition state_key :: "string \<Rightarrow> string \<Rightarrow> string" where
  "state_key key url =
     (if url \<noteq> '''' \<and> \<not> str_contains key ''@'' then key @ ''@'' @ url else key)"

definition AddState :: "string \<Rightarrow> state \<Rightarrow> state_machine \<Rightarrow> state_machine" where
  "AddState key s0 SM =
     (let s = s0\<lparr>ErrKey := key\<rparr>;
          k = state_key key (ServerUrl s);
          SM1 = SM\<lparr>CurState := Map_Add k s (CurState SM)\<rparr>
      in if heartbeats SM1 = 0 then SM1\<lparr>OldState := Map_Add k s (OldState SM1)\<rparr> else SM1)"

definition IsInState :: "string \<Rightarrow> state_machine \<Rightarrow> bool" where
  "IsInState key SM = (if \<not> Map_Search key (OldState SM) then False else True)"

definition IsInStateList :: "string list \<Rightarrow> state_machine \<Rightarrow> bool" where
  "IsInStateList keys SM \<longleftrightarrow> list_ex (\<lambda>(key, _). key \<in> set keys) (OldState SM)"

definition DeleteState :: "string \<Rightarrow> state_machine \<Rightarrow> state_machine" where
  "DeleteState key SM = SM\<lparr>CurState := Map_Delete key (CurState SM)\<rparr>"

definition IsFailable :: "state_machine \<Rightarrow> bool \<times> state_machine" where
  "IsFailable SM =
     (if list_ex (\<lambda>(_, v). ErrType v = ''ERROR'') (OldState SM) then (False, SM)
      else (True, SM\<lparr>Discovered := True\<rparr>))"

definition CanMonitor :: "state_machine \<Rightarrow> bool \<times> state_machine" where
  "CanMonitor SM =
     (if list_ex (\<lambda>(_, v). ErrType v = ''ERROR'') (CurState SM) then (False, SM)
      else (True, SM\<lparr>Discovered := True\<rparr>))"

definition ClearState :: "state_machine \<Rightarrow> state_machine" where
  "ClearState SM = SM\<lparr>OldState := CurState SM, CurState := NewMap\<rparr>"

definition GetLastResolvedStates :: "state_machine \<Rightarrow> state_map" where
  "GetLastResolvedStates SM = filter (\<lambda>(k, _). \<not> Map_Search k (CurState SM)) (OldState SM)"

definition GetLastOpenedStates :: "state_machine \<Rightarrow> state_map" where
  "GetLastOpenedStates SM = filter (\<lambda>(k, _). \<not> Map_Search k (OldState SM)) (CurState SM)"

definition GetStates :: "state_machine \<Rightarrow> string list" where
  "GetStates SM =
     map (\<lambda>(k, v). ''RESOLV '' @ k @ '' : '' @ ErrDesc v) (GetLastResolvedStates SM) @
     map (\<lambda>(k, v). ''OPENED '' @ k @ '' : '' @ ErrDesc v) (GetLastOpenedStates SM)"

definition GetFirstStates :: "state_machine \<Rightarrow> string list" where
  "GetFirstStates SM =
     map (\<lambda>(k, v). ''OPENED '' @ k @ '' : '' @ ErrDesc v) (GetLastOpenedStates SM)"

definition GetResolvedStates :: "state_machine \<Rightarrow> state list" where
  "GetResolvedStates SM =
     map snd (filter (\<lambda>(k, _). \<not> Map_Search k (CurState SM)) (OldState SM))"

definition GetOpenStates :: "state_machine \<Rightarrow> state list" where
  "GetOpenStates SM = map snd (CurState SM)"

definition to_http :: "string \<times> state \<Rightarrow> state_http" where
  "to_http kv = \<lparr>hErrNumber = fst kv, hErrDesc = ErrDesc (snd kv), hErrFrom = ErrFrom (snd kv)\<rparr>"

definition GetOpenErrors :: "state_machine \<Rightarrow> state_http list" where
  "GetOpenErrors SM =
     sort_slice (\<lambda>a b. hErrNumber a < hErrNumber b)
       (map to_http (filter (\<lambda>(_, v). ErrType v = ''ERROR'') (OldState SM)))"

definition GetOpenWarnings :: "state_machine \<Rightarrow> state_http list" where
  "GetOpenWarnings SM =
     sort_slice (\<lambda>a b. hErrNumber a < hErrNumber b)
       (map to_http (filter (\<lambda>(_, v). ErrType v \<noteq> ''ERROR'') (OldState SM)))"

definition CopyOldStateFromUnknowServer :: "string \<Rightarrow> state_machine \<Rightarrow> state_machine" where
  "CopyOldStateFromUnknowServer Url SM =
     fold (\<lambda>(k, v) M. if ServerUrl v = Url then AddState k v M else M) (OldState SM) SM"

definition PreserveState :: "string list \<Rightarrow> state_machine \<Rightarrow> state_machine" where
  "PreserveState keys SM =
     fold (\<lambda>(oldkey, v) M. fold (\<lambda>k M'. if prefix k oldkey then AddState (ErrKey v) v M' else M') keys M)
       (OldState SM) SM"

section \<open>Captured states\<close>

definition AddToCapturedState :: "string \<Rightarrow> captured_state \<Rightarrow> state_machine \<Rightarrow> state_machine" where
  "AddToCapturedState key cs SM =
     (case map_of (CapturedState SM) key of
        None \<Rightarrow> SM\<lparr>CapturedState := CapturedState SM @ [(key, cs)]\<rparr>
      | Some _ \<Rightarrow> SM)"

definition DeleteCapturedState :: "string \<Rightarrow> state_machine \<Rightarrow> state_machine" where
  "DeleteCapturedState key SM =
     SM\<lparr>CapturedState := filter (\<lambda>(k, _). k \<noteq> key) (CapturedState SM)\<rparr>"

definition SearchCapturedState :: "string \<Rightarrow> state_machine \<Rightarrow> bool" where
  "SearchCapturedState key SM \<longleftrightarrow> map_of (CapturedState SM) key \<noteq> None"

definition GetCapturedState :: "string \<Rightarrow> state_machine \<Rightarrow> captured_state option" where
  "GetCapturedState key SM = map_of (CapturedState SM) key"


section \<open>Maps\<close>

lemma map_of_Map_Add [go_map]:
  "map_of (Map_Add k s m) = (if map_of m k = None then (map_of m)(k \<mapsto> s) else map_of m)"
  by (auto simp: Map_Add_def map_add_def fun_eq_iff split: option.splits)

lemma distinct_Map_Add [go_map]:
  "distinct (map fst m) \<Longrightarrow> distinct (map fst (Map_Add k s m))"
  by (auto simp: Map_Add_def map_of_eq_None_iff split: option.splits)

lemma set_Map_Add: "kv \<in> set (Map_Add k s m) \<Longrightarrow> kv = (k, s) \<or> kv \<in> set m"
  by (auto simp: Map_Add_def split: option.splits)

lemma map_of_Map_Delete [go_map]: "map_of (Map_Delete k m) = (map_of m)(k := None)"
  by (induction m) (auto simp: Map_Delete_def)

lemma distinct_Map_Delete [go_map]:
  "distinct (map fst m) \<Longrightarrow> distinct (map fst (Map_Delete k m))"
  by (simp add: Map_Delete_def distinct_map_filter)

lemma Map_Search_iff [go_map]: "Map_Search k m \<longleftrightarrow> k \<in> fst ` set m"
  by (simp add: Map_Search_def map_of_eq_None_iff)

section \<open>The machine implements the registry\<close>

lemma heartbeats_AddState [simp]: "heartbeats (AddState k s SM) = heartbeats SM"
  by (simp add: AddState_def Let_def)

interpretation sm: state_registry AddState ClearState
  "\<lambda>M. map_of (CurState M)" "\<lambda>M. map_of (OldState M)"
  "\<lambda>k s. state_key k (ServerUrl s)" "\<lambda>k s. s\<lparr>ErrKey := k\<rparr>" "\<lambda>M. heartbeats M \<noteq> 0"
  by unfold_locales (auto simp: AddState_def Let_def go_map ClearState_def NewMap_def)

section \<open>Well-formedness\<close>

text \<open>
  A map of states is well formed when its keys are distinct (it is a Go map) and every state is
  filed under the key computed from its own \<open>ErrKey\<close> and \<open>ServerUrl\<close>.
\<close>

definition map_wf :: "state_map \<Rightarrow> bool" where
  "map_wf m \<longleftrightarrow> distinct (map fst m) \<and> (\<forall>(k, v) \<in> set m. k = state_key (ErrKey v) (ServerUrl v))"

definition sm_wf :: "state_machine \<Rightarrow> bool" where
  "sm_wf SM \<longleftrightarrow> map_wf (CurState SM) \<and> map_wf (OldState SM)"

text \<open>One call of a method that writes the machine, by any caller.\<close>

inductive sm_step :: "state_machine \<Rightarrow> state_machine \<Rightarrow> bool" where
  add: "sm_step SM (AddState k s SM)"
| del: "sm_step SM (DeleteState k SM)"
| clear: "sm_step SM (ClearState SM)"
| up: "sm_step SM (SetMasterUpAndSync now a b c SM)"
| restart: "sm_step SM (SetMasterUpAndSyncRestart now SM)"
| copy: "sm_step SM (CopyOldStateFromUnknowServer u SM)"
| preserve: "sm_step SM (PreserveState ks SM)"
| failable: "sm_step SM (snd (IsFailable SM))"
| monitor: "sm_step SM (snd (CanMonitor SM))"
| undisc: "sm_step SM (UnDiscovered SM)"
| setsla: "sm_step SM (SetSla l SM)"
| resetup: "sm_step SM (ResetUptime now SM)"
| setfo: "sm_step SM (SetFailoverState SM)"
| rmfo: "sm_step SM (RemoveFailoverState SM)"
| setsch: "sm_step SM (SetMonitorSchemaState now SM)"
| rmsch: "sm_step SM (RemoveMonitorSchemaState now SM)"
| addcap: "sm_step SM (AddToCapturedState k cs SM)"
| delcap: "sm_step SM (DeleteCapturedState k SM)"
| reinit: "sm_step SM (SM_Init now SM)"

inductive sm_reachable :: "state_machine \<Rightarrow> bool" where
  start: "sm_reachable (SM_Init now SM)"
| step: "sm_reachable SM \<Longrightarrow> sm_step SM SM' \<Longrightarrow> sm_reachable SM'"

lemma str_contains_at: "str_contains (k @ ''@'' @ u) ''@''"
  by (induction k) auto

lemma map_wf_Nil [simp]: "map_wf []"
  by (simp add: map_wf_def)

lemma map_wf_Map_Add:
  "map_wf m \<Longrightarrow> map_wf (Map_Add (state_key k (ServerUrl s)) (s\<lparr>ErrKey := k\<rparr>) m)"
  by (auto simp: map_wf_def distinct_Map_Add dest!: set_Map_Add)

lemma sm_wf_AddState [intro]: "sm_wf SM \<Longrightarrow> sm_wf (AddState k s SM)"
  by (simp add: sm_wf_def AddState_def Let_def map_wf_Map_Add)

lemma map_wf_filter: "map_wf m \<Longrightarrow> map_wf (filter P m)"
  by (auto simp: map_wf_def distinct_map_filter)

lemma fold_keeps: "(\<And>x s. I s \<Longrightarrow> I (f x s)) \<Longrightarrow> I s \<Longrightarrow> I (fold f xs s)"
  by (induction xs arbitrary: s) auto

lemma sm_wf_Copy: "sm_wf SM \<Longrightarrow> sm_wf (CopyOldStateFromUnknowServer u SM)"
  unfolding CopyOldStateFromUnknowServer_def
  by (rule fold_keeps [where I = sm_wf]) (auto split: prod.splits)

lemma sm_wf_Preserve_keys:
  "sm_wf M \<Longrightarrow> sm_wf (fold (\<lambda>k M'. if prefix k o' then AddState (ErrKey v) v M' else M') ks M)"
  by (rule fold_keeps [where I = sm_wf]) auto

lemma sm_wf_Preserve: "sm_wf SM \<Longrightarrow> sm_wf (PreserveState ks SM)"
  unfolding PreserveState_def
  by (rule fold_keeps [where I = sm_wf]) (auto simp: sm_wf_Preserve_keys split: prod.splits)

lemma sm_step_wf: "sm_step SM SM' \<Longrightarrow> sm_wf SM \<Longrightarrow> sm_wf SM'"
proof (induction rule: sm_step.induct)
  case (add SM k s)
  then show ?case by (rule sm_wf_AddState)
next
  case (copy SM u)
  then show ?case by (rule sm_wf_Copy)
next
  case (preserve SM ks)
  then show ?case by (rule sm_wf_Preserve)
qed (auto simp: sm_wf_def DeleteState_def Map_Delete_def map_wf_filter ClearState_def NewMap_def
      SetMasterUpAndSync_def SetMasterUpAndSyncRestart_def IsFailable_def CanMonitor_def
      UnDiscovered_def SetSla_def ResetUptime_def SetFailoverState_def RemoveFailoverState_def
      SetMonitorSchemaState_def RemoveMonitorSchemaState_def AddToCapturedState_def
      DeleteCapturedState_def SM_Init_def Let_def split: option.splits)


section \<open>SLA accounting\<close>

text \<open>
  No counter is negative or exceeds the observed time span, and the clock is below \<open>2 ^ 62\<close>
  seconds, so that no \<open>int64\<close> sum wraps.
\<close>

definition sla_inv :: "sla \<Rightarrow> bool" where
  "sla_inv l \<longleftrightarrow> 0 \<le> Firsttime l \<and> Firsttime l \<le> Lasttime l \<and> Lasttime l < 2 ^ 62 \<and>
     (\<forall>c \<in> {Uptime l, UptimeFailable l, UptimeSemisync l}. 0 \<le> c \<and> c \<le> Lasttime l - Firsttime l)"

lemma sla_inv_Init: "0 \<le> now \<Longrightarrow> now < 2 ^ 62 \<Longrightarrow> sla_inv (Sla_Init now l)"
  by (simp add: sla_inv_def Sla_Init_def)

lemmas sla_upd_defs = SetMasterUpAndSync_def SetMasterUpAndSyncRestart_def Let_def

section \<open>Properties\<close>

text \<open>In every state the machine can reach from \<open>Init\<close> by any sequence of its methods, both
  state maps have distinct keys and every state is filed under the key made of its own error key
  and server URL.\<close>

theorem sm_reachable_wf: "sm_reachable SM \<Longrightarrow> sm_wf SM"
proof (induction rule: sm_reachable.induct)
  case (start now SM)
  then show ?case by (simp add: sm_wf_def SM_Init_def NewMap_def)
next
  case (step SM SM')
  then show ?case by (blast intro: sm_step_wf)
qed

theorem sm_reachable_wf_witness:
  "sm_wf (ClearState (AddState ''ERR00042''
     \<lparr>ErrKey = '''', ErrType = ''WARNING'', ErrDesc = '''', ErrFrom = ''CHECK'', ServerUrl = ''db1:3306''\<rparr>
     (SM_Init 7 zero_sm)))"
  by (rule sm_reachable_wf
      [OF sm_reachable.step [OF sm_reachable.step [OF sm_reachable.start sm_step.add] sm_step.clear]])

text \<open>C34: after a monitoring round (states raised one after the other, then \<open>ClearState\<close>) that began
  with an empty current map, \<open>IsInState\<close> answers yes for exactly the keys raised in the round,
  whatever was visible before.\<close>

theorem round_visible_exact:
  "IsInState x (ClearState (fold (\<lambda>(k, s). AddState k s) adds (ClearState SM)))
     \<longleftrightarrow> x \<in> (\<lambda>(k, s). state_key k (ServerUrl s)) ` set adds"
proof -
  have "dom (map_of (OldState (ClearState (fold (\<lambda>(k, s). AddState k s) adds (ClearState SM)))))
      = (\<lambda>(k, s). state_key k (ServerUrl s)) ` set adds"
    by (rule sm.round_visible) (simp add: ClearState_def NewMap_def)
  then show ?thesis by (auto simp: IsInState_def Map_Search_def domIff set_eq_iff)
qed

text \<open>The opened and the resolved states of a round are disjoint; the opened are exactly the
  current keys that were not visible before and the resolved exactly the visible keys that were
  not raised again.\<close>

theorem opened_resolved_partition:
  "fst ` set (GetLastOpenedStates SM) = fst ` set (CurState SM) - fst ` set (OldState SM) \<and>
   fst ` set (GetLastResolvedStates SM) = fst ` set (OldState SM) - fst ` set (CurState SM) \<and>
   fst ` set (GetLastOpenedStates SM) \<inter> fst ` set (GetLastResolvedStates SM) = {}"
proof -
  have eq: "fst ` set (filter (\<lambda>(k, _). \<not> Map_Search k n) m) = fst ` set m - fst ` set n" for m n :: state_map
    by (induction m) (auto simp: Map_Search_iff intro: rev_image_eqI)
  show ?thesis
    unfolding GetLastOpenedStates_def GetLastResolvedStates_def eq by blast
qed

text \<open>The cluster is failable (\<open>IsFailable\<close>) exactly when the list of open errors served to the
  dashboard is empty.\<close>

theorem failable_iff_no_open_error:
  "fst (IsFailable SM) \<longleftrightarrow> GetOpenErrors SM = []"
proof -
  have "GetOpenErrors SM = [] \<longleftrightarrow> (\<forall>(k, v) \<in> set (OldState SM). ErrType v \<noteq> ''ERROR'')"
    unfolding GetOpenErrors_def length_0_conv [symmetric]
    by (auto simp: filter_empty_conv)
  then show ?thesis by (auto simp: IsFailable_def list_ex_iff)
qed

text \<open>The list of open errors is sorted by error number and does not depend on the order in
  which Go iterates the map: two maps with the same entries give the same list.\<close>

theorem open_errors_canonical:
  assumes "distinct (map fst (OldState SM))" and "mset (OldState SM') = mset (OldState SM)"
  shows "GetOpenErrors SM' = GetOpenErrors SM \<and> sorted (map hErrNumber (GetOpenErrors SM))"
proof -
  let ?P = "\<lambda>(_ :: string, v). ErrType v = ''ERROR''"
  have num: "hErrNumber \<circ> to_http = fst" by (auto simp: to_http_def)
  have "inj_on hErrNumber (to_http ` set (OldState SM))"
    by (rule inj_on_imageI) (use assms(1) num in \<open>simp add: distinct_map\<close>)
  then have inj: "inj_on hErrNumber (set (map to_http (filter ?P (OldState SM'))))"
    using mset_eq_setD [OF assms(2)] by (auto elim!: inj_on_subset)
  have "mset (map to_http (filter ?P (OldState SM'))) = mset (map to_http (filter ?P (OldState SM)))"
    using assms(2) by simp
  then have "GetOpenErrors SM' = GetOpenErrors SM"
    unfolding GetOpenErrors_def using inj by (rule sort_slice_unique)
  then show ?thesis by (simp add: GetOpenErrors_def sorted_sort_slice)
qed

theorem open_errors_canonical_witness:
  "let e = \<lambda>d. \<lparr>ErrKey = '''', ErrType = ''ERROR'', ErrDesc = d, ErrFrom = '''', ServerUrl = ''''\<rparr> in
   GetOpenErrors (zero_sm\<lparr>OldState := [(''ERR2'', e ''b''), (''ERR1'', e ''a'')]\<rparr>) =
   GetOpenErrors (zero_sm\<lparr>OldState := [(''ERR1'', e ''a''), (''ERR2'', e ''b'')]\<rparr>)"
  unfolding Let_def
  by (rule open_errors_canonical [THEN conjunct1]) simp_all

text \<open>A state whose key starts with one of the prefixes given to \<open>PreserveState\<close> and that is
  visible in this round is still visible after the round ends.\<close>

theorem preserve_keeps_visible:
  assumes "sm_wf SM" and "(k, v) \<in> set (OldState SM)" and "p \<in> set ps" and "prefix p k"
  shows "IsInState k (ClearState (PreserveState ps SM))"
proof -
  let ?I = "\<lambda>M. k \<in> dom (map_of (CurState M))"
  let ?f = "\<lambda>o' w q M'. if prefix q o' then AddState (ErrKey w) w M' else M'"
  have key: "k = state_key (ErrKey v) (ServerUrl v)"
    using assms(1,2) by (auto simp: sm_wf_def map_wf_def)
  have grow: "?I M \<Longrightarrow> ?I (AddState a b M)" for a b M
    by (auto simp: sm.cur_add)
  have inner: "?I M \<Longrightarrow> ?I (fold (?f o' w) qs M)" for M qs o' w
    by (rule fold_keeps [where I = ?I]) (use grow in auto)
  have raise: "?I (AddState (ErrKey v) v M)" for M
    by (auto simp: sm.cur_add key)
  have hit: "?I (fold (?f k v) ps M)" for M
  proof -
    obtain as bs where "ps = as @ p # bs" using assms(3) by (meson split_list)
    with assms(4) show ?thesis using inner [OF raise] by simp
  qed
  obtain as bs where old: "OldState SM = as @ (k, v) # bs" using assms(2) by (meson split_list)
  have "?I (PreserveState ps SM)"
    unfolding PreserveState_def old fold_append o_apply fold.simps prod.case
    by (rule fold_keeps [where I = ?I]) (simp_all only: hit inner case_prod_beta)
  then show ?thesis by (auto simp: IsInState_def Map_Search_def ClearState_def)
qed

theorem preserve_keeps_visible_witness:
  "IsInState ''WARN0084@db1'' (ClearState (PreserveState [''WARN0084'']
     (zero_sm\<lparr>OldState := [(''WARN0084@db1'',
        \<lparr>ErrKey = ''WARN0084'', ErrType = ''WARN'', ErrDesc = '''', ErrFrom = '''', ServerUrl = ''db1''\<rparr>)]\<rparr>)))"
  by (rule preserve_keeps_visible [where p = "''WARN0084''"])
     (simp_all add: sm_wf_def map_wf_def state_key_def zero_sm_def)

text \<open>With a clock that does not run backwards, an SLA update keeps every uptime counter between
  zero and the observed time span, so that no availability percentage exceeds 100.\<close>

theorem sla_bounded:
  assumes "sla_inv (sm_sla SM)" and "Lasttime (sm_sla SM) \<le> now" and "now < 2 ^ 62"
  shows "sla_inv (sm_sla (SetMasterUpAndSync now a b c SM)) \<and>
         sla_inv (sm_sla (SetMasterUpAndSyncRestart now SM))"
  using assms by (auto simp: sla_inv_def sla_upd_defs sla_add_def in_s64_def)

theorem sla_bounded_witness:
  "sla_inv (sm_sla (SetMasterUpAndSync 30 True False True (SM_Init 10 zero_sm))) \<and>
   sla_inv (sm_sla (SetMasterUpAndSyncRestart 30 (SM_Init 10 zero_sm)))"
  by (rule sla_bounded) (simp_all add: SM_Init_def Sla_Init_def sla_inv_def)

end
