(* ===== verification/Gtid.thy ===== *)
theory Gtid
  imports Prelude
begin

unbundle bit_operations_syntax

text \<open>
  Global transaction ids, \<open>src/utils/gtid/gtid.go\<close>: parsing the MariaDB and MySQL notations,
  printing, reading positions out of a list and the comparison the failover code waits on.
  A parse that indexes past the parts of a malformed id panics in Go and is \<open>None\<close> here.
  \<open>hash/crc64\<close> is modelled over its table of 256 words.
\<close>

section \<open>Data\<close>

record gtid =
  DomainID :: u64
  GServerID :: u64
  SeqNo :: u64

type_synonym gtid_list = "gtid list"

section \<open>Ordering\<close>

text \<open>\<open>multiSorter.Less\<close>: every comparison but the last decides or passes on; the last decides.
  (The only caller gives two comparisons; none would be an index panic.)\<close>

fun ms_less :: "('a \<Rightarrow> 'a \<Rightarrow> bool) list \<Rightarrow> 'a \<Rightarrow> 'a \<Rightarrow> bool" where
  "ms_less [] p q = False"
| "ms_less [lt] p q = lt p q"
| "ms_less (lt # lts) p q = (if lt p q then True else if lt q p then False else ms_less lts p q)"

definition OrderedBy_Sort :: "('a \<Rightarrow> 'a \<Rightarrow> bool) list \<Rightarrow> 'a list \<Rightarrow> 'a list" where
  "OrderedBy_Sort lts xs = sort_slice (ms_less lts) xs"

section \<open>Parsing\<close>

definition NewGtid :: "string \<Rightarrow> gtid option" where
  "NewGtid s =
     (case str_split (CHR ''-'') s of
        e0 # e1 # e2 # _ \<Rightarrow>
          Some \<lparr>DomainID = of_nat (parse_uint 32 e0), GServerID = of_nat (parse_uint 32 e1),
                SeqNo = of_nat (parse_uint 64 e2)\<rparr>
      | _ \<Rightarrow> None)"

definition NewList :: "string \<Rightarrow> gtid_list option" where
  "NewList s = (if s = '''' then Some [] else those (map NewGtid (str_split (CHR '','') s)))"

text \<open>\<open>hash/crc64\<close>: \<open>Checksum\<close> over a table.\<close>

definition crc64_step :: "(8 word \<Rightarrow> u64) \<Rightarrow> char \<Rightarrow> u64 \<Rightarrow> u64" where
  "crc64_step tab v crc = tab (ucast crc XOR of_char v) XOR drop_bit 8 crc"

definition crc64_checksum :: "(8 word \<Rightarrow> u64) \<Rightarrow> string \<Rightarrow> u64" where
  "crc64_checksum tab s = NOT (fold (crc64_step tab) s (NOT 0))"

text \<open>The line separators the MySQL set notation may carry, in UTF-8.\<close>

fun strip_newlines :: "string \<Rightarrow> string" where
  "strip_newlines [] = []"
| "strip_newlines (c # s) =
     (if c \<in> {CHR 0x0A, CHR 0x0B, CHR 0x0C, CHR 0x0D} then strip_newlines s
      else if c = CHR 0xC2 \<and> take 1 s = [CHR 0x85] then strip_newlines (drop 1 s)
      else if c = CHR 0xE2 \<and> (take 2 s = [CHR 0x80, CHR 0xA8] \<or> take 2 s = [CHR 0x80, CHR 0xA9])
        then strip_newlines (drop 2 s)
      else c # strip_newlines s)"

definition mysql_seq :: "string \<Rightarrow> string" where
  "mysql_seq t = (if str_contains t ''-'' then str_split (CHR ''-'') t ! 1 else t)"

definition NewMySQLGtid :: "(8 word \<Rightarrow> u64) \<Rightarrow> string \<Rightarrow> gtid" where
  "NewMySQLGtid tab s =
     (let f = str_split (CHR '':'') s;
          seq = (if length f = 2 then mysql_seq (f ! 1)
                 else if length f = 3 then mysql_seq (f ! 2) else ''1'');
          dom = (if length f = 3 then crc64_checksum tab (str_upper (f ! 1)) else 0)
      in \<lparr>DomainID = dom, GServerID = crc64_checksum tab (str_upper (f ! 0)),
          SeqNo = of_nat (parse_uint 64 seq)\<rparr>)"

definition NewMySQLList :: "(8 word \<Rightarrow> u64) \<Rightarrow> string \<Rightarrow> gtid_list" where
  "NewMySQLList tab s =
     (if s = '''' then []
      else map (NewMySQLGtid tab)
             (str_split (CHR '','') (filter (\<lambda>c. c \<noteq> CHR '' '') (strip_newlines s))))"

section \<open>Reading and printing\<close>

definition GetDomainIDs :: "gtid_list \<Rightarrow> u64 list" where
  "GetDomainIDs gl = map DomainID gl"

definition GetServerIDs :: "gtid_list \<Rightarrow> u64 list" where
  "GetServerIDs gl = map GServerID gl"

definition GetSeqNos :: "gtid_list \<Rightarrow> u64 list" where
  "GetSeqNos gl = map SeqNo gl"

definition GetSeqDomainIdNos :: "u64 \<Rightarrow> gtid_list \<Rightarrow> u64 list" where
  "GetSeqDomainIdNos domainId gl = map SeqNo (filter (\<lambda>g. DomainID g = domainId) gl)"

fun GetSeqServerIdNos :: "u64 \<Rightarrow> gtid_list \<Rightarrow> u64" where
  "GetSeqServerIdNos serverId [] = 0"
| "GetSeqServerIdNos serverId (g # gl) =
     (if GServerID g = serverId then SeqNo g else GetSeqServerIdNos serverId gl)"

definition gtid_print :: "gtid \<Rightarrow> string" where
  "gtid_print g = dec (unat (DomainID g)) @ ''-'' @ dec (unat (GServerID g)) @ ''-'' @ dec (unat (SeqNo g))"

definition Sprint :: "gtid_list \<Rightarrow> string" where
  "Sprint gl = str_join (CHR '','') (map gtid_print gl)"

definition gtid_sort :: "gtid_list \<Rightarrow> gtid_list" where
  "gtid_sort gl =
     OrderedBy_Sort [\<lambda>c1 c2. DomainID c1 < DomainID c2, \<lambda>c1 c2. GServerID c1 < GServerID c2] gl"

text \<open>\<open>List.Equal\<close>: sorts both slices in place and compares their prints. The result holds the
  answer and the two lists as the caller finds them afterwards.\<close>

definition Equal :: "gtid_list \<Rightarrow> gtid_list \<Rightarrow> bool \<times> gtid_list \<times> gtid_list" where
  "Equal gl glcomp =
     (let a = gtid_sort gl; b = gtid_sort glcomp
      in (Sprint a = Sprint b \<or> str_contains (Sprint b @ '','') (Sprint a @ '',''), a, b))"

section \<open>Printing and parsing\<close>

lemma not_digit_sep [simp]: "\<not> is_digit CHR ''-''" "\<not> is_digit CHR '',''"
  by (simp_all add: is_digit_def)

lemma gtid_print_split:
  "str_split (CHR ''-'') (gtid_print g)
     = [dec (unat (DomainID g)), dec (unat (GServerID g)), dec (unat (SeqNo g))]"
  by (simp add: gtid_print_def str_split_append_sep str_split_no_sep not_in_dec)

lemma NewGtid_print:
  assumes "unat (DomainID g) < 2 ^ 32" "unat (GServerID g) < 2 ^ 32"
  shows "NewGtid (gtid_print g) = Some g"
proof -
  have "unat (SeqNo g) < 2 ^ 64" by (rule unat_lt_u64)
  then show ?thesis using assms
    by (simp add: NewGtid_def gtid_print_split parse_uint_dec)
qed

lemma comma_notin_print: "CHR '','' \<notin> set (gtid_print g)"
  by (simp add: gtid_print_def not_in_dec)

lemma gtid_print_inj: "gtid_print g = gtid_print h \<longleftrightarrow> g = h"
proof
  assume "gtid_print g = gtid_print h"
  then have "str_split (CHR ''-'') (gtid_print g) = str_split (CHR ''-'') (gtid_print h)" by simp
  then show "g = h" 
    by (cases g; cases h) (simp add: gtid_print_split dec_inj word_unat_eq_iff)
qed simp

lemma gtid_print_nonempty [simp]: "gtid_print g \<noteq> []"
  by (simp add: gtid_print_def)

lemma Sprint_split: "gl \<noteq> [] \<Longrightarrow> str_split (CHR '','') (Sprint gl) = map gtid_print gl"
  unfolding Sprint_def by (rule str_split_join) (auto simp: comma_notin_print)

lemma Sprint_empty_iff: "Sprint gl = [] \<longleftrightarrow> gl = []"
  by (cases gl; cases "tl gl") (auto simp: Sprint_def)

lemma Sprint_inj: "Sprint gl = Sprint gl' \<longleftrightarrow> gl = gl'"
proof
  assume eq: "Sprint gl = Sprint gl'"
  show "gl = gl'"
  proof (cases "gl = []")
    case True
    with eq show ?thesis by (metis Sprint_empty_iff)
  next
    case False
    with eq have "gl' \<noteq> []" by (metis Sprint_empty_iff)
    with False eq have "map gtid_print gl = map gtid_print gl'" by (metis Sprint_split)
    then show ?thesis by (auto simp: gtid_print_inj inj_on_def intro: map_injective)
  qed
qed simp

lemma those_map_Some: "\<forall>x \<in> set xs. f x = Some (g x) \<Longrightarrow> those (map f xs) = Some (map g xs)"
  by (induction xs) auto

lemma those_eq_None_iff: "those xs = None \<longleftrightarrow> None \<in> set xs"
  by (induction xs) (auto split: option.splits)

lemma NewGtid_None_iff: "NewGtid s = None \<longleftrightarrow> length (str_split (CHR ''-'') s) < 3"
  by (auto simp: NewGtid_def split: list.splits)

section \<open>The order of the comparison\<close>

text \<open>Sorting by domain, then by server, in one key.\<close>

definition gtid_key :: "gtid \<Rightarrow> nat" where
  "gtid_key g = unat (DomainID g) * 2 ^ 64 + unat (GServerID g)"

lemma gtid_key_less:
  "ms_less [\<lambda>c1 c2. DomainID c1 < DomainID c2, \<lambda>c1 c2. GServerID c1 < GServerID c2] g h
     \<longleftrightarrow> gtid_key g < gtid_key h"
proof -
  have b: "unat (GServerID x) < 2 ^ 64" for x by (rule unat_lt_u64)
  show ?thesis
  proof (cases "DomainID g = DomainID h")
    case True
    then show ?thesis by (simp add: gtid_key_def word_less_nat_alt)
  next
    case False
    then consider "unat (DomainID g) < unat (DomainID h)" | "unat (DomainID h) < unat (DomainID g)"
      by (metis linorder_less_linear word_unat_eq_iff)
    then show ?thesis
    proof cases
      case 1
      then have "Suc (unat (DomainID g)) * 2 ^ 64 \<le> unat (DomainID h) * 2 ^ 64" by (intro mult_right_mono) auto
      with 1 b [of g] show ?thesis by (simp add: gtid_key_def word_less_nat_alt)
    next
      case 2
      then have "Suc (unat (DomainID h)) * 2 ^ 64 \<le> unat (DomainID g) * 2 ^ 64" by (intro mult_right_mono) auto
      with 2 b [of h] show ?thesis by (simp add: gtid_key_def word_less_nat_alt)
    qed
  qed
qed

lemma gtid_sort_eq: "gtid_sort gl = sort_slice (\<lambda>a b. gtid_key a < gtid_key b) gl"
  unfolding gtid_sort_def OrderedBy_Sort_def using gtid_key_less by presburger

lemma gtid_sort_perm:
  assumes "mset gl = mset gl'" and "inj_on gtid_key (set gl)"
  shows "gtid_sort gl = gtid_sort gl'"
  unfolding gtid_sort_eq using assms by (rule sort_slice_unique)

section \<open>Properties\<close>

text \<open>C36: printing a MariaDB position and parsing it back gives the same list, for any list whose
  domain and server ids fit the 32 bits that MariaDB uses.\<close>

theorem NewList_Sprint:
  assumes "\<forall>g \<in> set gl. unat (DomainID g) < 2 ^ 32 \<and> unat (GServerID g) < 2 ^ 32"
  shows "NewList (Sprint gl) = Some gl"
proof (cases "gl = []")
  case True
  then show ?thesis by (simp add: NewList_def Sprint_def)
next
  case False
  have "those (map NewGtid (map gtid_print gl)) = those (map Some gl)"
    using assms by (simp add: NewGtid_print cong: map_cong)
  also have "\<dots> = Some gl" using those_map_Some [of gl Some "\<lambda>x. x"] by simp
  finally show ?thesis
    using False by (simp add: NewList_def Sprint_split Sprint_empty_iff)
qed

theorem NewList_Sprint_witness:
  "NewList (Sprint [\<lparr>DomainID = 0, GServerID = 3000, SeqNo = 42\<rparr>, \<lparr>DomainID = 1, GServerID = 7, SeqNo = 9\<rparr>])
     = Some [\<lparr>DomainID = 0, GServerID = 3000, SeqNo = 42\<rparr>, \<lparr>DomainID = 1, GServerID = 7, SeqNo = 9\<rparr>]"
  by (rule NewList_Sprint) simp

text \<open>Parsing a non-empty position panics (index out of range) exactly when one of its
  comma-separated ids has fewer than three dash-separated fields.\<close>

theorem NewList_panics_iff:
  "NewList s = None \<longleftrightarrow>
     s \<noteq> '''' \<and> (\<exists>g \<in> set (str_split (CHR '','') s). length (str_split (CHR ''-'') g) < 3)"
  by (auto simp: NewList_def those_eq_None_iff NewGtid_None_iff [symmetric] image_iff
      eq_commute [of None])

text \<open>Two positions that hold the same ids in any order are \<open>Equal\<close>, when no two ids of the
  position share domain and server.\<close>

theorem Equal_perm:
  assumes "mset gl = mset gl'" and "inj_on gtid_key (set gl)"
  shows "fst (Equal gl gl')"
  using gtid_sort_perm [OF assms] by (simp add: Equal_def Let_def)

theorem Equal_perm_witness:
  "fst (Equal [\<lparr>DomainID = 1, GServerID = 7, SeqNo = 9\<rparr>, \<lparr>DomainID = 0, GServerID = 3, SeqNo = 4\<rparr>]
              [\<lparr>DomainID = 0, GServerID = 3, SeqNo = 4\<rparr>, \<lparr>DomainID = 1, GServerID = 7, SeqNo = 9\<rparr>])"
  by (rule Equal_perm) (simp_all add: gtid_key_def)

text \<open>\<open>Equal\<close> also answers yes for positions of different domains, because it looks for the
  print of one inside the print of the other: \<open>0-1-5\<close> is found in \<open>10-1-5\<close>; and the empty
  position is \<open>Equal\<close> to every position.\<close>

theorem Equal_accepts_different:
  "fst (Equal [\<lparr>DomainID = 0, GServerID = 1, SeqNo = 5\<rparr>] [\<lparr>DomainID = 10, GServerID = 1, SeqNo = 5\<rparr>]) \<and>
   (\<forall>gl. fst (Equal [] gl))"
proof -
  have "str_contains (s @ '','') '',''" for s by (induction s) auto
  then have "\<forall>gl. fst (Equal [] gl)"
    by (simp add: Equal_def Let_def gtid_sort_def OrderedBy_Sort_def sort_slice_def Sprint_def)
  moreover have "fst (Equal [\<lparr>DomainID = 0, GServerID = 1, SeqNo = 5\<rparr>] [\<lparr>DomainID = 10, GServerID = 1, SeqNo = 5\<rparr>])"
    by code_simp
  ultimately show ?thesis by simp
qed

end
