(* ===== verification/Version.thy ===== *)
theory Version
  imports Prelude
begin

text \<open>
  Server versions, \<open>src/utils/version/version.go\<close>: flavour detection, parsing of version texts
  and the comparisons by major, minor and release number. A parse that indexes a missing match
  or field panics in Go and is \<open>None\<close> here.
\<close>

section \<open>Data\<close>

datatype version = Version
  (Flavor: string) (Major: int) (Minor: int) (Release: int) (Suffix: string) (VPath: string)
  (DistVersion: "version option")

definition zero_version :: version where
  "zero_version = Version '''' 0 0 0 '''' '''' None"

text \<open>Major, minor and release out of the dot-separated fields; missing fields stay 0.\<close>

definition field_or0 :: "string list \<Rightarrow> nat \<Rightarrow> int" where
  "field_or0 tokens i = (if i < length tokens then atoi (tokens ! i) else 0)"

section \<open>Parsing\<close>

definition mysql_flavor :: "string \<Rightarrow> string \<Rightarrow> string" where
  "mysql_flavor version comment =
     (if str_contains version ''MariaDB'' \<or> str_contains comment ''MariaDB'' then ''MariaDB''
      else if str_contains version ''PostgreSQL'' \<or> str_contains comment ''PostgreSQL'' then ''PostgreSQL''
      else if str_contains comment ''Percona'' then ''Percona'' else ''MySQL'')"

definition NewMySQLVersion :: "string \<Rightarrow> string \<Rightarrow> (version \<times> nat) option" where
  "NewMySQLVersion version comment =
     (let flavor = mysql_flavor version comment;
          infos = str_split (if flavor = ''PostgreSQL'' then CHR '' '' else CHR ''-'') version;
          i = (if flavor = ''PostgreSQL'' then 1 else 0)
      in if i < length infos then
           let tokens = str_split (CHR ''.'') (infos ! i)
           in Some (Version flavor (field_or0 tokens 0) (field_or0 tokens 1) (field_or0 tokens 2)
                      '''' '''' None, length tokens)
         else None)"

text \<open>\<open>ParseDBFlavor\<close>: the leftmost match of \<open>MariaDB|PostgreSQL|Percona\<close>.\<close>

fun ParseDBFlavor :: "string \<Rightarrow> string" where
  "ParseDBFlavor [] = ''MySQL''"
| "ParseDBFlavor (c # s) =
     (if prefix ''MariaDB'' (c # s) then ''MariaDB''
      else if prefix ''PostgreSQL'' (c # s) then ''PostgreSQL''
      else if prefix ''Percona'' (c # s) then ''Percona'' else ParseDBFlavor s)"

text \<open>
  The pattern \<open>[a-zA-Z]*\s*([0-9]{1,3}(?:\.[0-9]{1,3}){0,2})(?:[-_.](SUFFIX+))?\<close>. A match starts
  at the first digit (or at the letters and blanks before it), every part after it is optional
  and taken greedily, so no backtracking happens: the first group is up to three digits followed
  by up to two dotted groups, the second is the suffix after one separator.
\<close>

definition num3 :: "string \<Rightarrow> string" where
  "num3 s = takeWhile is_digit (take 3 s)"

definition dotted :: "string \<Rightarrow> string \<times> string" where
  "dotted s =
     (case s of
        [] \<Rightarrow> ([], [])
      | c # t \<Rightarrow> if c = CHR ''.'' \<and> num3 t \<noteq> [] then (c # num3 t, drop (length (num3 t)) t)
                else ([], c # t))"

definition ver_suffix :: "(char \<Rightarrow> bool) \<Rightarrow> string \<Rightarrow> string \<times> string" where
  "ver_suffix P s =
     (case s of
        [] \<Rightarrow> ([], [])
      | c # t \<Rightarrow> if c \<in> {CHR ''-'', CHR ''_'', CHR ''.''} \<and> takeWhile P t \<noteq> []
                then (takeWhile P t, dropWhile P t) else ([], c # t))"

text \<open>The two groups of the first match and the text after it.\<close>

definition ver_find :: "(char \<Rightarrow> bool) \<Rightarrow> string \<Rightarrow> (string \<times> string \<times> string) option" where
  "ver_find P s =
     (case dropWhile (\<lambda>c. \<not> is_digit c) s of
        [] \<Rightarrow> None
      | u \<Rightarrow> (case dotted (drop (length (num3 u)) u) of (r1, rest1) \<Rightarrow>
               (case dotted rest1 of (r2, rest2) \<Rightarrow>
                 (case ver_suffix P rest2 of (sf, rest) \<Rightarrow> Some (num3 u @ r1 @ r2, sf, rest)))))"

definition suffix_char :: "char \<Rightarrow> bool" where
  "suffix_char c \<longleftrightarrow> is_digit c \<or> is_alpha c"

definition suffix_char_dash :: "char \<Rightarrow> bool" where
  "suffix_char_dash c \<longleftrightarrow> is_digit c \<or> is_alpha c \<or> c = CHR ''-''"

definition match_version :: "string \<Rightarrow> string \<Rightarrow> string \<Rightarrow> version option \<Rightarrow> version" where
  "match_version flavor g1 g2 dist =
     (let tokens = str_split (CHR ''.'') g1
      in Version flavor (field_or0 tokens 0) (field_or0 tokens 1) (field_or0 tokens 2) g2 '''' dist)"

definition NewFullVersionFromString :: "string \<Rightarrow> string \<Rightarrow> version \<times> nat \<times> nat" where
  "NewFullVersionFromString flavor vstring =
     (case ver_find suffix_char_dash vstring of
        None \<Rightarrow> (Version flavor 0 0 0 '''' '''' None, 0, 0)
      | Some (g1, g2, rest) \<Rightarrow>
          (case ver_find suffix_char_dash rest of
             None \<Rightarrow> (match_version flavor g1 g2 None, length (str_split (CHR ''.'') g1), 0)
           | Some (h1, h2, _) \<Rightarrow>
               (match_version flavor g1 g2 (Some (match_version '''' h1 h2 None)),
                length (str_split (CHR ''.'') g1), length (str_split (CHR ''.'') h1))))"

definition NewVersionFromString :: "string \<Rightarrow> string \<Rightarrow> (version \<times> nat) option" where
  "NewVersionFromString flavor vstring =
     (case ver_find suffix_char vstring of
        None \<Rightarrow> None
      | Some (g1, g2, _) \<Rightarrow> Some (match_version flavor g1 g2 None, length (str_split (CHR ''.'') g1)))"

definition NewVersion :: "string \<Rightarrow> int list \<Rightarrow> version \<times> nat" where
  "NewVersion flavor tokens =
     (if 0 < length tokens
      then (Version flavor (tokens ! 0) (if 2 \<le> length tokens then tokens ! 1 else 0)
              (if 3 \<le> length tokens then tokens ! 2 else 0) '''' '''' None, length tokens)
      else (zero_version, 0))"

section \<open>Printing and comparing\<close>

definition ToInt :: "nat \<Rightarrow> version \<Rightarrow> int" where
  "ToInt tokens mv =
     (if tokens = 1 then s64 (Major mv * 1000000)
      else if tokens = 2 then s64 (Major mv * 1000000 + Minor mv * 1000)
      else s64 (Major mv * 1000000 + Minor mv * 1000 + Release mv))"

definition ToString :: "version \<Rightarrow> string" where
  "ToString mv = dec_int (Major mv) @ ''.'' @ dec_int (Minor mv) @ ''.'' @ dec_int (Release mv)"

definition ToFullString :: "version \<Rightarrow> string" where
  "ToFullString mv =
     (case DistVersion mv of
        None \<Rightarrow> ToString mv
      | Some d \<Rightarrow> ToString mv @ '', Distrib '' @ dec_int (Major d) @ ''.'' @ dec_int (Minor d)
                  @ ''.'' @ dec_int (Release d) @ ''-'' @ Suffix d)"

definition with_version ::
  "version \<Rightarrow> string \<Rightarrow> (version \<Rightarrow> nat \<Rightarrow> bool) \<Rightarrow> bool option" where
  "with_version mv vstring f =
     map_option (\<lambda>(v, tokens). f v tokens) (NewVersionFromString (Flavor mv) vstring)"

definition Greater :: "version \<Rightarrow> string \<Rightarrow> bool option" where
  "Greater mv vs = with_version mv vs (\<lambda>v n. ToInt n mv > ToInt n v)"

definition GreaterEqual :: "version \<Rightarrow> string \<Rightarrow> bool option" where
  "GreaterEqual mv vs = with_version mv vs (\<lambda>v n. ToInt n mv \<ge> ToInt n v)"

definition GreaterEqualMinor :: "version \<Rightarrow> string \<Rightarrow> bool option" where
  "GreaterEqualMinor mv vs = with_version mv vs (\<lambda>v _. Major mv = Major v \<and> Minor mv \<ge> Minor v)"

definition GreaterEqualRelease :: "version \<Rightarrow> string \<Rightarrow> bool option" where
  "GreaterEqualRelease mv vs =
     with_version mv vs (\<lambda>v _. Major mv = Major v \<and> Minor mv = Minor v \<and> Release mv \<ge> Release v)"

definition LowerRelease :: "version \<Rightarrow> string \<Rightarrow> bool option" where
  "LowerRelease mv vs =
     with_version mv vs (\<lambda>v _. Major mv = Major v \<and> Minor mv = Minor v \<and> Release mv < Release v)"

definition Lower :: "version \<Rightarrow> string \<Rightarrow> bool option" where
  "Lower mv vs = with_version mv vs (\<lambda>v n. ToInt n mv < ToInt n v)"

definition LowerEqual :: "version \<Rightarrow> string \<Rightarrow> bool option" where
  "LowerEqual mv vs = with_version mv vs (\<lambda>v n. ToInt n mv \<le> ToInt n v)"

definition Ver_Equal :: "version \<Rightarrow> string \<Rightarrow> bool option" where
  "Ver_Equal mv vs = with_version mv vs (\<lambda>v n. ToInt n mv = ToInt n v)"

definition Between :: "version \<Rightarrow> string \<Rightarrow> string \<Rightarrow> bool option" where
  "Between mv lo hi =
     (case GreaterEqual mv lo of
        None \<Rightarrow> None | Some False \<Rightarrow> Some False | Some True \<Rightarrow> LowerEqual mv hi)"

text \<open>The list checks stop at the first version that satisfies the test.\<close>

fun any_release :: "(string \<Rightarrow> bool option) \<Rightarrow> string list \<Rightarrow> bool option" where
  "any_release f [] = Some False"
| "any_release f (s # ss) =
     (case f s of None \<Rightarrow> None | Some True \<Rightarrow> Some True | Some False \<Rightarrow> any_release f ss)"

definition GreaterEqualReleaseList :: "version \<Rightarrow> string list \<Rightarrow> bool option" where
  "GreaterEqualReleaseList mv vss = any_release (GreaterEqualRelease mv) vss"

definition LowerReleaseList :: "version \<Rightarrow> string list \<Rightarrow> bool option" where
  "LowerReleaseList mv vss = any_release (LowerRelease mv) vss"

section \<open>Flavours\<close>

definition IsMySQL :: "version \<Rightarrow> bool" where
  "IsMySQL mv \<longleftrightarrow> Flavor mv = ''MySQL''"

definition IsPostgreSQL :: "version \<Rightarrow> bool" where
  "IsPostgreSQL mv \<longleftrightarrow> Flavor mv = ''PostgreSQL''"

definition IsMySQLOrPercona :: "version \<Rightarrow> bool" where
  "IsMySQLOrPercona mv \<longleftrightarrow> Flavor mv = ''MySQL'' \<or> Flavor mv = ''Percona''"

definition IsPercona :: "version \<Rightarrow> bool" where
  "IsPercona mv \<longleftrightarrow> Flavor mv = ''Percona''"

definition IsMariaDB :: "version \<Rightarrow> bool" where
  "IsMariaDB mv \<longleftrightarrow> Flavor mv = ''MariaDB''"

definition IsMySQL57 :: "version \<Rightarrow> bool" where
  "IsMySQL57 mv \<longleftrightarrow> Flavor mv = ''MySQL'' \<and> Major mv = 5 \<and> Minor mv > 6"

text \<open>The only method that accepts a nil receiver.\<close>

definition IsMySQLOrPerconaGreater57 :: "version option \<Rightarrow> bool" where
  "IsMySQLOrPerconaGreater57 p =
     (case p of
        None \<Rightarrow> False
      | Some mv \<Rightarrow> (Flavor mv = ''MySQL'' \<or> Flavor mv = ''Percona'') \<and>
                   (Major mv = 5 \<and> Minor mv > 6 \<or> Major mv > 5))"


section \<open>Parsing what is printed\<close>

lemma num3_digits:
  assumes "\<forall>c \<in> set d. is_digit c" "length d \<le> 3" "s = [] \<or> \<not> is_digit (hd s)"
  shows "num3 (d @ s) = d"
proof -
  have t: "take 3 (d @ s) = d @ take (3 - length d) s" using assms(2) by simp
  have "takeWhile is_digit (take (3 - length d) s) = []"
    using assms(3) by (cases s; cases "3 - length d") auto
  with assms(1) show ?thesis unfolding num3_def t by (simp add: takeWhile_append2)
qed

lemma length_dec_3: "n < 1000 \<Longrightarrow> length (dec n) \<le> 3"
  by (subst dec.simps, subst dec.simps, subst dec.simps) simp

lemma num3_dec: "n < 1000 \<Longrightarrow> s = [] \<or> \<not> is_digit (hd s) \<Longrightarrow> num3 (dec n @ s) = dec n"
  by (rule num3_digits) (auto simp: dec_digits length_dec_3)

lemma not_digit_dot [simp]: "\<not> is_digit CHR ''.''"
  by (simp add: is_digit_def)

lemma dotted_dec:
  assumes "n < 1000" and "s = [] \<or> \<not> is_digit (hd s)"
  shows "dotted (CHR ''.'' # dec n @ s) = (CHR ''.'' # dec n, s)"
  using num3_dec [OF assms] by (simp add: dotted_def)

lemma dropWhile_dec: "dropWhile (\<lambda>c. \<not> is_digit c) (dec n @ s) = dec n @ s"
proof (cases "dec n")
  case (Cons c t)
  then have "is_digit c" using dec_digits [of c n] by simp
  then show ?thesis using Cons by simp
qed simp

lemma ver_find_dec3:
  assumes "a < 1000" "b < 1000" "c < 1000"
  shows "ver_find P (dec a @ ''.'' @ dec b @ ''.'' @ dec c)
           = Some (dec a @ ''.'' @ dec b @ ''.'' @ dec c, '''', '''')"
proof -
  let ?u = "dec a @ ''.'' @ dec b @ ''.'' @ dec c"
  have n: "num3 ?u = dec a" by (rule num3_dec) (simp_all add: assms)
  have d1: "dotted (drop (length (num3 ?u)) ?u) = (''.'' @ dec b, ''.'' @ dec c)"
    using dotted_dec [OF assms(2), of "''.'' @ dec c"] by (simp add: n [simplified])
  have d2: "dotted (''.'' @ dec c) = (''.'' @ dec c, [])"
    using dotted_dec [OF assms(3), of "[]"] by simp
  obtain x xs where u: "?u = x # xs" by (cases ?u) auto
  have dw: "dropWhile (\<lambda>c. \<not> is_digit c) (x # xs) = x # xs"
    using dropWhile_dec [of a] unfolding u [symmetric] .
  have "ver_find P (x # xs) = Some (num3 (x # xs) @ (''.'' @ dec b) @ (''.'' @ dec c), [], [])"
    unfolding ver_find_def dw list.case d1 [unfolded u] prod.case d2
    by (simp add: ver_suffix_def)
  then show ?thesis unfolding u [symmetric] n by simp
qed

lemma atoi_dec: "n < 2 ^ 63 \<Longrightarrow> atoi (dec n) = int n"
proof -
  assume n: "n < 2 ^ 63"
  then have p: "parse_uint 64 (dec n) = n" by (simp add: parse_uint_dec)
  obtain c t where ct: "dec n = c # t" by (cases "dec n") auto
  then have "is_digit c" using dec_digits [of c n] by simp
  then have "c \<noteq> CHR ''-''" "c \<noteq> CHR ''+''" by (auto simp: is_digit_def)
  with ct p n show ?thesis by (simp add: atoi_def atoi_mag_def)
qed

text \<open>A version with the component range of the encoding.\<close>

definition ver_ok :: "version \<Rightarrow> bool" where
  "ver_ok v \<longleftrightarrow> 0 \<le> Major v \<and> Major v < 1000 \<and> 0 \<le> Minor v \<and> Minor v < 1000 \<and>
              0 \<le> Release v \<and> Release v < 1000"

lemma NewVersion_ToString:
  assumes "ver_ok v"
  shows "NewVersionFromString f (ToString v)
           = Some (Version f (Major v) (Minor v) (Release v) '''' '''' None, 3)"
proof -
  let ?a = "nat (Major v)" and ?b = "nat (Minor v)" and ?c = "nat (Release v)"
  have ts: "ToString v = dec ?a @ ''.'' @ dec ?b @ ''.'' @ dec ?c"
    using assms by (simp add: ToString_def dec_int_def ver_ok_def)
  have nd: "CHR ''.'' \<notin> set (dec n)" for n by (simp add: not_in_dec)
  have sp: "str_split (CHR ''.'') (ToString v) = [dec ?a, dec ?b, dec ?c]"
    unfolding ts by (simp add: str_split_append_sep str_split_no_sep nd)
  have "?a < 1000" "?b < 1000" "?c < 1000" using assms by (auto simp: ver_ok_def)
  then have "ver_find suffix_char (ToString v) = Some (ToString v, '''', '''')"
    unfolding ts by (rule ver_find_dec3)
  moreover have "atoi (dec ?a) = Major v" "atoi (dec ?b) = Minor v" "atoi (dec ?c) = Release v"
    using assms by (auto simp: atoi_dec ver_ok_def)
  ultimately show ?thesis
    by (simp add: NewVersionFromString_def match_version_def Let_def sp field_or0_def)
qed

lemma ToInt3: "ver_ok v \<Longrightarrow> ToInt 3 v = (Major v * 1000 + Minor v) * 1000 + Release v"
  by (simp add: ToInt_def ver_ok_def in_s64_def)

lemma pack_less:
  fixes a b x y :: int
  assumes "0 \<le> x" "x < 1000" "0 \<le> y" "y < 1000"
  shows "a * 1000 + x < b * 1000 + y \<longleftrightarrow> a < b \<or> a = b \<and> x < y"
proof (cases a b rule: linorder_cases)
  case less
  then have "(a + 1) * 1000 \<le> b * 1000" by (intro mult_right_mono) auto
  with less assms show ?thesis by (simp add: distrib_right)
next
  case greater
  then have "(b + 1) * 1000 \<le> a * 1000" by (intro mult_right_mono) auto
  with greater assms show ?thesis by (simp add: distrib_right)
qed simp

lemma pack_eq:
  fixes a b x y :: int
  assumes "0 \<le> x" "x < 1000" "0 \<le> y" "y < 1000"
  shows "a * 1000 + x = b * 1000 + y \<longleftrightarrow> a = b \<and> x = y"
  using pack_less [OF assms, of a b] pack_less [OF assms(3,4,1,2), of b a] by auto

section \<open>Properties\<close>

text \<open>A version printed by \<open>ToString\<close> parses back to the same three components.\<close>

theorem version_roundtrip:
  assumes "ver_ok v"
  shows "map_option (\<lambda>(w, n). (Major w, Minor w, Release w, n)) (NewVersionFromString f (ToString v))
           = Some (Major v, Minor v, Release v, 3)"
  by (simp add: NewVersion_ToString [OF assms])

theorem version_roundtrip_witness:
  "map_option (\<lambda>(w, n). (Major w, Minor w, Release w, n))
     (NewVersionFromString ''MariaDB'' (ToString (Version ''MariaDB'' 10 6 12 '''' '''' None))) = Some (10, 6, 12, 3)"
  using version_roundtrip [of "Version ''MariaDB'' 10 6 12 '''' '''' None" "''MariaDB''"]
  by (simp add: ver_ok_def)

text \<open>C37: comparing a version with a printed version is the lexicographic order of major, minor and
  release: the packing into one integer by thousands loses nothing below 1000.\<close>

theorem version_compare_lex:
  assumes "ver_ok v" and "ver_ok w"
  shows "Lower v (ToString w) = Some (Major v < Major w \<or> Major v = Major w \<and>
            (Minor v < Minor w \<or> Minor v = Minor w \<and> Release v < Release w)) \<and>
         Ver_Equal v (ToString w) = Some (Major v = Major w \<and> Minor v = Minor w \<and> Release v = Release w) \<and>
         Greater v (ToString w) = map_option Not (LowerEqual v (ToString w)) \<and>
         GreaterEqual v (ToString w) = map_option Not (Lower v (ToString w))"
proof -
  let ?w = "Version (Flavor v) (Major w) (Minor w) (Release w) '''' '''' None"
  have "ver_ok ?w" using assms(2) by (simp add: ver_ok_def)
  then have i: "ToInt 3 ?w = (Major w * 1000 + Minor w) * 1000 + Release w"
      "ToInt 3 v = (Major v * 1000 + Minor v) * 1000 + Release v"
    using assms(1) by (simp_all add: ToInt3)
  have b: "0 \<le> Minor v" "Minor v < 1000" "0 \<le> Release v" "Release v < 1000"
      "0 \<le> Minor w" "Minor w < 1000" "0 \<le> Release w" "Release w < 1000"
    using assms by (simp_all add: ver_ok_def)
  have lt: "ToInt 3 v < ToInt 3 ?w \<longleftrightarrow> Major v < Major w \<or> Major v = Major w \<and>
            (Minor v < Minor w \<or> Minor v = Minor w \<and> Release v < Release w)"
    unfolding i by (simp only: pack_less pack_eq b) blast
  have eq: "ToInt 3 v = ToInt 3 ?w \<longleftrightarrow> Major v = Major w \<and> Minor v = Minor w \<and> Release v = Release w"
    unfolding i by (simp only: pack_eq b) blast
  show ?thesis
    using lt eq
    by (auto simp: Lower_def Ver_Equal_def Greater_def LowerEqual_def GreaterEqual_def
        with_version_def NewVersion_ToString [OF assms(2)])
qed

theorem version_compare_lex_witness:
  "Lower (Version ''MySQL'' 5 7 44 '''' '''' None) (ToString (Version ''MySQL'' 8 0 1 '''' '''' None)) = Some True"
  using version_compare_lex [of "Version ''MySQL'' 5 7 44 '''' '''' None" "Version ''MySQL'' 8 0 1 '''' '''' None"]
  by (simp add: ver_ok_def)

end
