(* ===== verification/Cluster.thy ===== *)
theory Cluster
  imports Complex_Main StateMachine Gtid Version ErrorTable
begin

text \<open>
  The data of a monitored cluster: the servers (\<open>ServerMonitor\<close>, \<open>src/cluster/srv.go\<close>), the
  configuration read by the modelled code (\<open>src/config/config.go\<close>) and the cluster itself
  (\<open>src/cluster/cluster.go\<close>), with the predicates on them (\<open>src/cluster/srv_has.go\<close>,
  \<open>src/cluster/srv_get.go\<close>, \<open>src/cluster/cluster_has.go\<close>, \<open>src/cluster/cluster_get.go\<close>).

  The Go code shares \<open>*ServerMonitor\<close> pointers between \<open>Servers\<close>, \<open>slaves\<close>, \<open>master\<close>, \<open>vmaster\<close> and
  \<open>oldMaster\<close>. Here a pointer is a \<open>sid\<close>, the objects are in the store \<open>srv\<close>, and a nil pointer is
  \<open>None\<close>. Commands sent to a database, a proxy or a script are recorded in \<open>trace\<close>, in order.
  A \<open>StringsMap\<close> (server variables, status) is a total function: a missing key reads as \<open>""\<close>.
  \<open>sql.NullString\<close> columns of which only \<open>.String\<close> is read are strings.
\<close>

section \<open>Servers\<close>

type_synonym sid = nat

record slave_status =
  ConnectionName :: string
  MasterHost :: string
  MasterPort :: string
  MasterUser :: string
  MasterLogFile :: string
  ReadMasterLogPos :: string
  RelayMasterLogFile :: string
  ExecMasterLogPos :: string
  SlaveIORunning :: string
  SlaveSQLRunning :: string
  SecondsBehindMaster :: "int option"
  LastIOErrno :: string
  LastSQLErrno :: string
  GtidIOPos :: string
  GtidSlavePos :: string
  UsingGtid :: string
  ExecutedGtidSet :: string
  RetrievedGtidSet :: "string option"
  SlaveHeartbeatPeriod :: rat
  DoDomainIds :: string
  IgnoreDomainIds :: string
  IgnoreServerIds :: string
  SlaveSQLRunningState :: string
  MasterServerID :: u64

record delay_stat =
  DelayAvg :: rat
  DelayCount :: int
  SlaveErrCount :: int
  Counter :: int

record server_delay_stat =
  Total :: delay_stat
  Rotated :: delay_stat
  Current :: delay_stat
  CurrentDT :: int
  DelayHistory :: "(delay_stat \<times> int) list"

record event_status =
  EvDb :: string
  EvName :: string
  EvStatus :: int

record server =
  Id :: string
  URL :: string
  Host :: string
  Port :: string
  IP :: string
  SName :: string
  SourceClusterName :: string
  ReplicationSourceName :: string
  PostgressDB :: string
  MxsServerName :: string
  MxsServerStatus :: string
  maxConn :: string
  ServerID :: u64
  SDomainID :: u64
  State :: string
  PrevState :: string
  DBVersion :: version
  HasConn :: bool
  Replications :: "slave_status list"
  LastSeenReplications :: "slave_status list option"
  Variables :: "string \<Rightarrow> string"
  Status :: "string \<Rightarrow> string"
  Binlog_Do_DB :: string
  Binlog_Ignore_DB :: string
  BinaryLogFile :: string
  BinaryLogPos :: string
  FailoverMasterLogFile :: string
  FailoverMasterLogPos :: string
  EventStatus :: "event_status list"
  SlaveGtid :: gtid_list
  CurrentGtid :: gtid_list
  GTIDBinlogPos :: gtid_list
  DelayStat :: server_delay_stat
  Disks :: "(int \<times> int) list"
  Users :: "(string \<times> string) list"
  ReadOnly :: string
  FailCount :: int
  IsRelay :: bool
  IsFull :: bool
  IsMaintenance :: bool
  IsMaxscale :: bool
  IsSlave :: bool
  IsDelayed :: bool
  Ignored :: bool
  IgnoredRO :: bool
  Prefered :: bool
  HaveNoMasterOnStart :: bool
  HaveSemiSync :: bool
  SemiSyncMasterStatus :: bool
  SemiSyncSlaveStatus :: bool
  FailoverSemiSyncSlaveStatus :: bool
  HaveReadOnly :: bool
  HaveMySQLGTID :: bool
  HaveMariaDBGTID :: bool
  MxsHaveGtid :: bool
  HaveWsrep :: bool
  IsWsrepSync :: bool
  IsWsrepDonor :: bool
  HaveBinlogRow :: bool
  HaveBinlogSync :: bool
  HaveInnodbTrxCommit :: bool
  HaveChecksum :: bool
  HaveBinlogSlowqueries :: bool
  HaveBinlogAnnotate :: bool
  HaveBinlogCompress :: bool
  HaveBinlogSlaveUpdates :: bool
  HaveGtidStrictMode :: bool
  HaveSlaveIdempotent :: bool
  HaveSlaveOptimistic :: bool
  HaveSlaveSerialized :: bool
  HaveSlaveAggressive :: bool
  HaveSlaveMinimal :: bool
  HaveSlaveConservative :: bool

text \<open>The server states (\<open>srv.go\<close>) and the topologies (\<open>config.go\<close>) that the modelled code names.\<close>

abbreviation "stateFailed \<equiv> ''Failed''"
abbreviation "stateMaster \<equiv> ''Master''"
abbreviation "stateSlave \<equiv> ''Slave''"
abbreviation "stateSlaveErr \<equiv> ''SlaveErr''"
abbreviation "stateSlaveLate \<equiv> ''SlaveLate''"
abbreviation "stateMaintenance \<equiv> ''Maintenance''"
abbreviation "stateErrorAuth \<equiv> ''ErrorAuth''"
abbreviation "stateSuspect \<equiv> ''Suspect''"
abbreviation "stateRelay \<equiv> ''Relay''"
abbreviation "stateRelayErr \<equiv> ''RelayErr''"
abbreviation "stateRelayLate \<equiv> ''RelayLate''"
abbreviation "stateWsrep \<equiv> ''Wsrep''"
abbreviation "stateWsrepDonor \<equiv> ''WsrepDonor''"
abbreviation "stateWsrepLate \<equiv> ''WsrepUnsync''"

abbreviation "TopoMultiMaster \<equiv> ''multi-master''"
abbreviation "TopoMultiMasterRing \<equiv> ''multi-master-ring''"
abbreviation "TopoMultiMasterWsrep \<equiv> ''multi-master-wsrep''"
abbreviation "TopoMultiMasterGrouprep \<equiv> ''multi-master-grprep''"
abbreviation "TopoActivePassive \<equiv> ''active-passive''"

abbreviation "LvlWarn \<equiv> ''WARN''"
abbreviation "LvlErr \<equiv> ''ERROR''"

section \<open>Configuration\<close>

record conf =
  Hosts :: string
  ConfUser :: string
  RplUser :: string
  RplPass :: string
  MasterConn :: string
  PrefMaster :: string
  IgnoreSrv :: string
  IgnoreSrvRO :: string
  MonitorIgnoreErrors :: string
  FailoverMdevLevel :: string
  PreScript :: string
  PostScript :: string
  MultiMaster :: bool
  MultiMasterGrouprep :: bool
  MultiMasterConcurrentWrite :: bool
  MultiTierSlave :: bool
  MxsOn :: bool
  MxsBinlogOn :: bool
  Interactive :: bool
  RplChecks :: bool
  RplCheckErrantTrx :: bool
  FailSync :: bool
  FailRestartUnsafe :: bool
  FailEventScheduler :: bool
  FailEventStatus :: bool
  FailoverCheckDelayStat :: bool
  FailoverMdevCheck :: bool
  FailoverSemiSyncState :: bool
  SwitchSync :: bool
  SwitchGtidCheck :: bool
  SwitchLowerRelease :: bool
  SwitchSlaveWaitCatch :: bool
  SwitchoverCopyOldLeaderGtid :: bool
  SwitchDecreaseMaxConn :: bool
  CheckBinFilter :: bool
  CheckReplFilter :: bool
  CheckFalsePositiveHeartbeat :: bool
  CheckFalsePositiveMaxscale :: bool
  CheckFalsePositiveExternal :: bool
  Arbitration :: bool
  CReadOnly :: bool
  SuperReadOnly :: bool
  ReplicationSSL :: bool
  ForceSlaveNoGtid :: bool
  AutorejoinSlavePositionalHeartbeat :: bool
  FailMaxDelay :: int
  MaxFail :: int
  FailLimit :: int
  FailTime :: int
  SwitchWaitKill :: int
  SwitchDecreaseMaxConnValue :: int
  FailoverLogFileKeep :: int
  HostsDelayedTime :: int
  ForceSlaveHeartbeatRetry :: int
  ForceSlaveHeartbeatTime :: int
  MonitorDiskUsagePct :: int
  DelayStatRotate :: int
  DelayStatCapture :: bool
  CheckGrants :: bool
  MonitorCapture :: bool
  MonitorCaptureTrigger :: string
  MonitoringAlertTrigger :: string
  MailTo :: string
  AlertScript :: string
  DbServersChangeStateScript :: string
  MxsGetInfoMethod :: string
  ArbitrationSasHosts :: string
  AutorejoinFlashback :: bool
  ForceSlaveSemisync :: bool
  ForceSlaveReadOnly :: bool
  ForceSlaveHeartbeat :: bool
  ForceSlaveGtid :: bool
  ForceSlaveGtidStrict :: bool
  ForceSlaveIdempotent :: bool
  ForceSlaveStrict :: bool
  ForceSlaveParallelMode :: string
  ForceSyncInnoDB :: bool
  ForceSyncBinlog :: bool
  ForceBinlogRow :: bool
  ForceBinlogChecksum :: bool
  ForceBinlogSlowqueries :: bool
  ForceBinlogAnnotate :: bool
  ForceBinlogCompress :: bool

section \<open>Crash records\<close>

record crash =
  CrURL :: string
  CrFailoverMasterLogFile :: string
  CrFailoverMasterLogPos :: string
  CrNewMasterLogFile :: string
  CrNewMasterLogPos :: string
  CrFailoverSemiSyncSlaveStatus :: bool
  CrFailoverIOGtid :: "gtid_list option"
  CrElectedMasterURL :: string
  CrUnixTimestamp :: int
  CrSwitchover :: bool

section \<open>Commands\<close>

record change_master_opt =
  CmHost :: string
  CmPort :: string
  CmUser :: string
  CmPassword :: string
  CmRetry :: string
  CmHeartbeat :: string
  CmSSL :: bool
  CmLogfile :: string
  CmLogpos :: string
  CmMode :: string
  CmChannel :: string
  CmIsDelayed :: bool
  CmDelay :: string
  CmPostgressDB :: string
  CmDoDomainIds :: string
  CmIgnoreDomainIds :: string
  CmIgnoreServerIds :: string

definition zero_cmo :: change_master_opt where
  "zero_cmo = \<lparr>CmHost = '''', CmPort = '''', CmUser = '''', CmPassword = '''', CmRetry = '''',
     CmHeartbeat = '''', CmSSL = False, CmLogfile = '''', CmLogpos = '''', CmMode = '''',
     CmChannel = '''', CmIsDelayed = False, CmDelay = '''', CmPostgressDB = '''',
     CmDoDomainIds = '''', CmIgnoreDomainIds = '''', CmIgnoreServerIds = ''''\<rparr>"

datatype dbop =
    OpRefresh sid
  | OpCheckLongRunningWrites sid
  | OpFlushTablesNoLog sid
  | OpFlushTablesNoLogTimeout sid
  | OpEventScheduler sid bool
  | OpEventStatus sid event_status int
  | OpStopSlave sid string
  | OpStartSlave sid string
  | OpResetSlave sid string
  | OpShowSlaveStatus sid string
  | OpSetReadOnly sid bool
  | OpSetSuperReadOnly sid bool
  | OpGetMaxConnections sid
  | OpSetMaxConnections sid string
  | OpKillThreads sid
  | OpFlushTablesWithReadLock sid
  | OpFlushBinaryLogs sid
  | OpFlushBinaryLogsLocal sid
  | OpFlushTables sid
  | OpUnlockTables sid
  | OpSemiSyncSlave sid
  | OpSemiSyncMaster sid
  | OpResetMaster sid
  | OpGetMasterStatus sid
  | OpSetGTIDSlavePos sid string
  | OpChangeMaster sid change_master_opt
  | OpMasterWaitGTID sid string
  | OpMasterPosWait sid string string string
  | OpPseudoGtid sid sid
  | OpGroupReplicationPrimary sid
  | OpRotateReplicationCredentials sid
  | OpSQL sid string
  | OpJob sid string
  | OpScript string "string list"
  | OpProxiesFailover
  | OpProxiesBackendStateChange
  | OpProxyMaintenance u64
  | OpMaxscaleRestartMonitor string
  | OpPreScript bool
  | OpPostScript bool
  | OpStateScript sid string string
  | OpSaveCrash crash
  | OpPurgeCrashFiles int
  | OpSaveCluster
  | OpFailoverCond
  | OpAlert string bool

text \<open>The database a command is sent to; \<open>None\<close> for proxies, scripts and files.\<close>

fun op_target :: "dbop \<Rightarrow> sid option" where
  "op_target (OpRefresh i) = Some i"
| "op_target (OpCheckLongRunningWrites i) = Some i"
| "op_target (OpFlushTablesNoLog i) = Some i"
| "op_target (OpFlushTablesNoLogTimeout i) = Some i"
| "op_target (OpEventScheduler i _) = Some i"
| "op_target (OpEventStatus i _ _) = Some i"
| "op_target (OpStopSlave i _) = Some i"
| "op_target (OpStartSlave i _) = Some i"
| "op_target (OpResetSlave i _) = Some i"
| "op_target (OpShowSlaveStatus i _) = Some i"
| "op_target (OpSetReadOnly i _) = Some i"
| "op_target (OpSetSuperReadOnly i _) = Some i"
| "op_target (OpGetMaxConnections i) = Some i"
| "op_target (OpSetMaxConnections i _) = Some i"
| "op_target (OpKillThreads i) = Some i"
| "op_target (OpFlushTablesWithReadLock i) = Some i"
| "op_target (OpFlushBinaryLogs i) = Some i"
| "op_target (OpFlushBinaryLogsLocal i) = Some i"
| "op_target (OpFlushTables i) = Some i"
| "op_target (OpUnlockTables i) = Some i"
| "op_target (OpSemiSyncSlave i) = Some i"
| "op_target (OpSemiSyncMaster i) = Some i"
| "op_target (OpResetMaster i) = Some i"
| "op_target (OpGetMasterStatus i) = Some i"
| "op_target (OpSetGTIDSlavePos i _) = Some i"
| "op_target (OpChangeMaster i _) = Some i"
| "op_target (OpMasterWaitGTID i _) = Some i"
| "op_target (OpMasterPosWait i _ _ _) = Some i"
| "op_target (OpPseudoGtid i _) = Some i"
| "op_target (OpGroupReplicationPrimary i) = Some i"
| "op_target (OpRotateReplicationCredentials i) = Some i"
| "op_target (OpSQL i _) = Some i"
| "op_target (OpJob i _) = Some i"
| "op_target _ = None"

section \<open>The cluster\<close>

record cluster =
  CName :: string
  Topology :: string
  Conf :: conf
  StateMachine :: state_machine
  srv :: "sid \<Rightarrow> server"
  Servers :: "sid list"
  slaves :: "sid list"
  master :: "sid option"
  vmaster :: "sid option"
  oldMaster :: "sid option"
  Crashes :: "crash list"
  FailoverHistory :: "crash list"
  FailoverCtr :: int
  FailoverTs :: int
  IsFailedArbitrator :: bool
  trace :: "dbop list"

definition emit :: "dbop \<Rightarrow> cluster \<Rightarrow> cluster" where
  "emit o1 cl = cl\<lparr>trace := trace cl @ [o1]\<rparr>"

definition upd_srv :: "sid \<Rightarrow> (server \<Rightarrow> server) \<Rightarrow> cluster \<Rightarrow> cluster" where
  "upd_srv i f cl = cl\<lparr>srv := (srv cl)(i := f (srv cl i))\<rparr>"

section \<open>Predicates on servers\<close>

definition IsIgnored :: "server \<Rightarrow> bool" where
  "IsIgnored s = Ignored s"

definition IsIgnoredReadonly :: "server \<Rightarrow> bool" where
  "IsIgnoredReadonly s = IgnoredRO s"

definition IsPrefered :: "server \<Rightarrow> bool" where
  "IsPrefered s = Prefered s"

definition IsReadOnly :: "server \<Rightarrow> bool" where
  "IsReadOnly s = HaveReadOnly s"

definition IsDown :: "server \<Rightarrow> bool" where
  "IsDown s \<longleftrightarrow> State s = stateFailed \<or> State s = stateSuspect \<or> State s = stateErrorAuth"

definition IsFailed :: "server \<Rightarrow> bool" where
  "IsFailed s \<longleftrightarrow> State s = stateFailed \<or> State s = stateErrorAuth"

definition HasBinlog :: "server \<Rightarrow> bool" where
  "HasBinlog s \<longleftrightarrow> Variables s ''LOG_BIN'' = ''ON''"

definition HasSuperReadOnlyCapability :: "server \<Rightarrow> bool" where
  "HasSuperReadOnlyCapability s = IsMySQLOrPerconaGreater57 (Some (DBVersion s))"

definition GetSlaveStatus :: "string \<Rightarrow> server \<Rightarrow> slave_status option" where
  "GetSlaveStatus name s = find (\<lambda>ss. ConnectionName ss = name) (Replications s)"

definition GetSlaveStatusLastSeen :: "string \<Rightarrow> server \<Rightarrow> slave_status option" where
  "GetSlaveStatusLastSeen name s =
     (case LastSeenReplications s of
        Some reps \<Rightarrow> find (\<lambda>ss. ConnectionName ss = name) reps
      | None \<Rightarrow> GetSlaveStatus name s)"

definition own_status :: "server \<Rightarrow> slave_status option" where
  "own_status s = GetSlaveStatus (ReplicationSourceName s) s"

definition IsIOThreadRunning :: "server \<Rightarrow> bool" where
  "IsIOThreadRunning s =
     (case own_status s of None \<Rightarrow> False | Some ss \<Rightarrow> SlaveIORunning ss = ''Yes'')"

definition IsSQLThreadRunning :: "server \<Rightarrow> bool" where
  "IsSQLThreadRunning s =
     (case own_status s of None \<Rightarrow> False | Some ss \<Rightarrow> SlaveSQLRunning ss = ''Yes'')"

definition IsReplicationBroken :: "server \<Rightarrow> bool" where
  "IsReplicationBroken s \<longleftrightarrow> \<not> IsSQLThreadRunning s \<or> \<not> IsIOThreadRunning s"

definition GetReplicationServerID :: "server \<Rightarrow> u64" where
  "GetReplicationServerID s = (case own_status s of None \<Rightarrow> 0 | Some ss \<Rightarrow> MasterServerID ss)"

definition GetReplicationMasterHost :: "server \<Rightarrow> string" where
  "GetReplicationMasterHost s = (case own_status s of None \<Rightarrow> '''' | Some ss \<Rightarrow> MasterHost ss)"

definition GetReplicationMasterPort :: "server \<Rightarrow> string" where
  "GetReplicationMasterPort s = (case own_status s of None \<Rightarrow> ''3306'' | Some ss \<Rightarrow> MasterPort ss)"

definition HasMySQLGTID :: "conf \<Rightarrow> server \<Rightarrow> bool" where
  "HasMySQLGTID cf s =
     (if \<not> (IsMySQL (DBVersion s) \<or> IsPercona (DBVersion s)) then False
      else if ForceSlaveNoGtid cf then False
      else if Variables s ''ENFORCE_GTID_CONSISTENCY'' = ''ON'' then True
      else if Variables s ''GTID_MODE'' = ''ON'' then True
      else False)"

definition HasMariaDBGTID :: "conf \<Rightarrow> server \<Rightarrow> bool" where
  "HasMariaDBGTID cf s =
     (if \<not> IsMariaDB (DBVersion s) then False
      else if Major (DBVersion s) < 10 then False
      else if ForceSlaveNoGtid cf then False
      else True)"

definition HasGTIDReplication :: "conf \<Rightarrow> server \<Rightarrow> bool" where
  "HasGTIDReplication cf s =
     (if ForceSlaveNoGtid cf then False
      else if IsMySQLOrPercona (DBVersion s) \<and> \<not> HaveMySQLGTID s then False
      else if IsMariaDB (DBVersion s) \<and> Major (DBVersion s) = 5 then False
      else True)"

section \<open>Predicates on the cluster\<close>

definition GetTopology :: "cluster \<Rightarrow> string" where
  "GetTopology cl = Topology cl"

definition GetMaster :: "cluster \<Rightarrow> sid option" where
  "GetMaster cl =
     (if master cl = None \<and> vmaster cl = None then None
      else if master cl = None then vmaster cl
      else master cl)"

definition IsMasterFailed :: "cluster \<Rightarrow> bool" where
  "IsMasterFailed cl =
     (case GetMaster cl of None \<Rightarrow> True | Some m \<Rightarrow> State (srv cl m) = stateFailed)"

definition IsInFailover :: "cluster \<Rightarrow> bool" where
  "IsInFailover cl = SM_IsInFailover (StateMachine cl)"

definition IsDiscovered :: "cluster \<Rightarrow> bool" where
  "IsDiscovered cl = SM_IsDiscovered (StateMachine cl)"

definition IsMultiMaster :: "cluster \<Rightarrow> bool" where
  "IsMultiMaster cl \<longleftrightarrow> GetTopology cl = TopoMultiMasterWsrep \<or> GetTopology cl = TopoMultiMaster \<or>
     GetTopology cl = TopoMultiMasterRing"

definition in_host_list :: "string \<Rightarrow> server \<Rightarrow> bool" where
  "in_host_list hosts s \<longleftrightarrow>
     list_ex (\<lambda>ihost. URL s = ihost \<or> SName s = ihost) (str_split (CHR '','') hosts)"

definition IsInIgnoredHosts :: "cluster \<Rightarrow> server \<Rightarrow> bool" where
  "IsInIgnoredHosts cl s =
     (if SourceClusterName s \<noteq> CName cl then True else in_host_list (IgnoreSrv (Conf cl)) s)"

definition IsInIgnoredReadonly :: "cluster \<Rightarrow> server \<Rightarrow> bool" where
  "IsInIgnoredReadonly cl s =
     (if SourceClusterName s \<noteq> CName cl then True else in_host_list (IgnoreSrvRO (Conf cl)) s)"

definition IsInPreferedHosts :: "cluster \<Rightarrow> server \<Rightarrow> bool" where
  "IsInPreferedHosts cl s =
     (if SourceClusterName s \<noteq> CName cl then False else in_host_list (PrefMaster (Conf cl)) s)"

definition IsMaster :: "cluster \<Rightarrow> server \<Rightarrow> bool" where
  "IsMaster cl s = (case GetMaster cl of None \<Rightarrow> False | Some m \<Rightarrow> Id (srv cl m) = Id s)"

definition HasErrantTransactions :: "cluster \<Rightarrow> server \<Rightarrow> bool" where
  "HasErrantTransactions cl s = IsInState (''WARN0091@'' @ URL s) (StateMachine cl)"

definition HasBlockerIssue :: "cluster \<Rightarrow> server \<Rightarrow> bool" where
  "HasBlockerIssue cl s = IsInStateList [''MDEV20821@'' @ URL s] (StateMachine cl)"

definition HasCriticalIssue :: "cluster \<Rightarrow> server \<Rightarrow> bool" where
  "HasCriticalIssue cl s = False"

definition HasMajorIssue :: "cluster \<Rightarrow> server \<Rightarrow> bool" where
  "HasMajorIssue cl s = IsInStateList [''MDEV19577@'' @ URL s] (StateMachine cl)"

definition HasMdevIssue :: "cluster \<Rightarrow> server \<Rightarrow> bool" where
  "HasMdevIssue cl s =
     (let lvl = FailoverMdevLevel (Conf cl)
      in if lvl = ''blocker'' then HasBlockerIssue cl s
         else if lvl = ''critical'' then HasBlockerIssue cl s \<or> HasCriticalIssue cl s
         else if lvl = ''major'' then HasBlockerIssue cl s \<or> HasCriticalIssue cl s \<or> HasMajorIssue cl s
         else HasBlockerIssue cl s)"

definition GetRelayServer :: "cluster \<Rightarrow> sid option" where
  "GetRelayServer cl =
     (if Hosts (Conf cl) = '''' then None else find (\<lambda>i. IsRelay (srv cl i)) (Servers cl))"

definition GetServerFromURL :: "string \<Rightarrow> cluster \<Rightarrow> sid option" where
  "GetServerFromURL url cl =
     (if str_contains url '':'' then
        find (\<lambda>i. Host (srv cl i) @ '':'' @ Port (srv cl i) = url \<or>
                  IP (srv cl i) @ '':'' @ Port (srv cl i) = url) (Servers cl)
      else find (\<lambda>i. Host (srv cl i) = url \<or> IP (srv cl i) = url) (Servers cl))"

definition GetMasterFromReplication :: "server \<Rightarrow> cluster \<Rightarrow> sid option" where
  "GetMasterFromReplication sl cl =
     find (\<lambda>i. let server = srv cl i in
         ServerID server \<noteq> ServerID sl \<and> 0 < length (Replications sl) \<and>
         (if IsIOThreadRunning sl \<and> IsSQLThreadRunning sl
          then GetReplicationServerID sl = ServerID server
          else GetReplicationMasterHost sl = Host server \<and> GetReplicationMasterPort sl = Port server))
       (Servers cl)"

definition GetRingChildServer :: "sid option \<Rightarrow> cluster \<Rightarrow> sid option option" where
  "GetRingChildServer om cl =
     (case om of
        None \<Rightarrow> Some None
      | Some o1 \<Rightarrow>
          (case oldMaster cl of
             None \<Rightarrow> (if Servers cl = [] then Some None else None)
           | Some co \<Rightarrow>
               Some (find (\<lambda>i. ServerID (srv cl i) \<noteq> ServerID (srv cl co) \<and>
                       (case GetMasterFromReplication (srv cl i) cl of
                          None \<Rightarrow> False | Some m \<Rightarrow> ServerID (srv cl m) = ServerID (srv cl o1)))
                     (Servers cl))))"

definition GetRingParentServer :: "cluster \<Rightarrow> sid option option" where
  "GetRingParentServer cl =
     (case oldMaster cl of
        None \<Rightarrow> None
      | Some co \<Rightarrow>
          Some (case GetSlaveStatusLastSeen (ReplicationSourceName (srv cl co)) (srv cl co) of
                  None \<Rightarrow> None
                | Some ss \<Rightarrow> GetServerFromURL (MasterHost ss @ '':'' @ MasterPort ss) cl))"

section \<open>Raising states\<close>

definition Cluster_SetState :: "string \<Rightarrow> state \<Rightarrow> cluster \<Rightarrow> cluster" where
  "Cluster_SetState key s cl =
     (if \<not> str_contains (MonitorIgnoreErrors (Conf cl)) key
      then cl\<lparr>StateMachine := AddState key s (StateMachine cl)\<rparr> else cl)"

text \<open>The call pattern of the checks: a message of the table with its operands.\<close>

definition set_state ::
  "string \<Rightarrow> string \<Rightarrow> fmt_arg list \<Rightarrow> string \<Rightarrow> string \<Rightarrow> cluster \<Rightarrow> cluster" where
  "set_state key etype args efrom url cl =
     Cluster_SetState key \<lparr>ErrKey = '''', ErrType = etype, ErrDesc = sprintf (clusterError key) args,
                           ErrFrom = efrom, ServerUrl = url\<rparr> cl"

section \<open>What raising a state leaves alone\<close>

text \<open>
  Two views of a cluster agree when the servers, the configuration, the roles and the standing issues of
  every server are the same: everything but the command trace and the states that were raised.
\<close>

definition same_view :: "cluster \<Rightarrow> cluster \<Rightarrow> bool" where
  "same_view a b \<longleftrightarrow>
     CName b = CName a \<and> Topology b = Topology a \<and> Conf b = Conf a \<and> srv b = srv a \<and>
     Servers b = Servers a \<and> slaves b = slaves a \<and> master b = master a \<and> vmaster b = vmaster a \<and>
     oldMaster b = oldMaster a \<and> FailoverCtr b = FailoverCtr a \<and> FailoverTs b = FailoverTs a \<and>
     Crashes b = Crashes a \<and> FailoverHistory b = FailoverHistory a \<and>
     IsFailedArbitrator b = IsFailedArbitrator a \<and>
     HasBlockerIssue b = HasBlockerIssue a \<and> HasMajorIssue b = HasMajorIssue a \<and>
     HasErrantTransactions b = HasErrantTransactions a \<and> IsInFailover b = IsInFailover a"

lemma same_view_refl [simp, intro]: "same_view a a"
  by (simp add: same_view_def)

lemma same_view_trans [trans]: "same_view a b \<Longrightarrow> same_view b c \<Longrightarrow> same_view a c"
  by (simp add: same_view_def)

lemma state_key_hd: "key \<noteq> [] \<Longrightarrow> hd (state_key key url) = hd key"
  by (simp add: state_key_def)

text \<open>A key starting with \<open>E\<close> is never one of the issue keys the election looks at.\<close>

lemma AddState_old_other:
  assumes "key \<noteq> []" "hd key = CHR ''E''" "c \<noteq> CHR ''E''"
  shows "map_of (OldState (AddState key s SM)) (c # ks) = map_of (OldState SM) (c # ks)"
proof -
  have "state_key key u \<noteq> c # ks" for u
    using state_key_hd [OF assms(1), of u] assms by auto
  then have "c # ks \<noteq> state_key key (ServerUrl s)"
    by metis
  then show ?thesis
    by (simp add: AddState_def Let_def go_map)
qed

lemma IsInStateList_single: "IsInStateList [k] SM \<longleftrightarrow> map_of (OldState SM) k \<noteq> None"
  by (force simp: IsInStateList_def list_ex_iff map_of_eq_None_iff)

lemma same_view_SetState:
  assumes "key \<noteq> []" "hd key = CHR ''E''"
  shows "same_view cl (Cluster_SetState key s cl)"
  using AddState_old_other [OF assms]
  by (auto simp: same_view_def Cluster_SetState_def HasBlockerIssue_def HasMajorIssue_def fun_eq_iff
      HasErrantTransactions_def IsInStateList_single IsInState_def Map_Search_def IsInFailover_def
      AddState_def SM_IsInFailover_def Let_def)

lemma same_view_set_state [simp]: "same_view cl (set_state (CHR ''E'' # ks) ty args ef u cl)"
  by (simp add: set_state_def same_view_SetState)

lemma same_view_emit [simp]: "same_view cl (emit o1 cl)"
  by (simp add: same_view_def emit_def HasBlockerIssue_def HasMajorIssue_def fun_eq_iff
      HasErrantTransactions_def IsInFailover_def)

lemma same_view_issues:
  "same_view a b \<Longrightarrow> HasMdevIssue b = HasMdevIssue a"
  by (simp add: same_view_def HasMdevIssue_def fun_eq_iff HasCriticalIssue_def)

lemma same_view_IsMasterFailed: "same_view a b \<Longrightarrow> IsMasterFailed b = IsMasterFailed a"
  by (simp add: same_view_def IsMasterFailed_def GetMaster_def cong: option.case_cong)

end
