(* ===== verification/Env.thy ===== *)
theory Env
  imports Cluster
begin

text \<open>
  What the modelled code asks of the outside world: the answers of the databases, of the
  arbitrator and of other external endpoints, and the clock. They are the environment of a run,
  an argument of every operation that uses them; no definition here assumes anything about them.
  Answers that can differ from call to call take the number of commands sent so far.
\<close>

record dbenv =
  CheckSlavePrerequisites :: "sid \<Rightarrow> bool"
    \<comment> \<open>the server answers a ping and has its binary log on\<close>
  ReplicationLongQuery :: "sid \<Rightarrow> string"
    \<comment> \<open>the running replication query, for a message\<close>
  RefreshAnswer :: "nat \<Rightarrow> sid \<Rightarrow> server \<Rightarrow> server"
    \<comment> \<open>the monitor's view of a server after \<open>Refresh\<close>\<close>
  LongWrites :: "nat \<Rightarrow> sid \<Rightarrow> int"
    \<comment> \<open>\<open>CheckLongRunningWrites\<close>: the number of long running writes\<close>
  FlushInTime :: bool
    \<comment> \<open>\<open>FLUSH TABLES\<close> returns before the switchover timer fires\<close>
  CmdOk :: "nat \<Rightarrow> dbop \<Rightarrow> bool"
    \<comment> \<open>a command succeeds\<close>
  SlaveStatusAnswer :: "nat \<Rightarrow> sid \<Rightarrow> slave_status option"
    \<comment> \<open>\<open>SHOW SLAVE STATUS\<close>; \<open>None\<close>: error\<close>
  MaxConnections :: "sid \<Rightarrow> string"
    \<comment> \<open>the value of \<open>MAX_CONNECTIONS\<close>\<close>
  MasterStatusFile :: "sid \<Rightarrow> string"
    \<comment> \<open>the binary log file of \<open>SHOW MASTER STATUS\<close>\<close>
  PseudoGtidPos :: "sid \<Rightarrow> sid \<Rightarrow> string \<times> string"
    \<comment> \<open>log file and position on the new master found from a slave's pseudo GTID\<close>
  ParentRplPass :: "slave_status \<Rightarrow> string option"
    \<comment> \<open>replication password of the monitored cluster that owns a replication source\<close>
  CrcTable :: "8 word \<Rightarrow> u64"
    \<comment> \<open>the table of \<open>hash/crc64\<close>\<close>
  ErrantTrx :: "sid \<Rightarrow> bool"
    \<comment> \<open>\<open>dbhelper.HaveErrantTransactions\<close>\<close>
  ArbitratorAnswer :: "string option"
    \<comment> \<open>the arbitration field of the arbitrator's reply; \<open>None\<close>: no reply or invalid JSON\<close>
  ExternalStatusCode :: "int option"
    \<comment> \<open>the HTTP status of the external check; \<open>None\<close>: no connection\<close>
  HeartbeatCounts :: "sid \<Rightarrow> int \<times> int"
    \<comment> \<open>\<open>SLAVE_RECEIVED_HEARTBEATS\<close> read twice\<close>
  MaxscaleConnects :: bool
  MaxscaleListsMonitors :: bool
  MaxscaleStoppedMonitor :: string
  MaxscaleRestarts :: bool
  Now :: int
    \<comment> \<open>\<open>time.Now().Unix()\<close>\<close>

end
