(* ===== verification/Sample.thy ===== *)
theory Sample
  imports Env
begin

text \<open>
  Concrete data: Go's zero value of each structure, an environment in which every command succeeds,
  and a small cluster of a master and two replicas. The witnesses of the components evaluate the
  model on them.
\<close>

section \<open>Zero values\<close>

definition zero_delay :: delay_stat where
  "zero_delay = \<lparr>DelayAvg = 0, DelayCount = 0, SlaveErrCount = 0, Counter = 0\<rparr>"

definition zero_sds :: server_delay_stat where
  "zero_sds = \<lparr>Total = zero_delay, Rotated = zero_delay, Current = zero_delay,
     CurrentDT = 0, DelayHistory = []\<rparr>"

definition zero_slave_status :: slave_status where
  "zero_slave_status = \<lparr>ConnectionName = '''', MasterHost = '''', MasterPort = '''',
     MasterUser = '''', MasterLogFile = '''', ReadMasterLogPos = '''', RelayMasterLogFile = '''',
     ExecMasterLogPos = '''', SlaveIORunning = '''', SlaveSQLRunning = '''',
     SecondsBehindMaster = None, LastIOErrno = '''', LastSQLErrno = '''', GtidIOPos = '''',
     GtidSlavePos = '''', UsingGtid = '''', ExecutedGtidSet = '''', RetrievedGtidSet = None,
     SlaveHeartbeatPeriod = 0, DoDomainIds = '''', IgnoreDomainIds = '''', IgnoreServerIds = '''',
     SlaveSQLRunningState = '''', MasterServerID = 0\<rparr>"

definition zero_server :: server where
  "zero_server = \<lparr>Id = '''', URL = '''', Host = '''', Port = '''', IP = '''', SName = '''',
     SourceClusterName = '''', ReplicationSourceName = '''', PostgressDB = '''',
     MxsServerName = '''', MxsServerStatus = '''', maxConn = '''', ServerID = 0, SDomainID = 0,
     State = '''', PrevState = '''', DBVersion = zero_version, HasConn = False, Replications = [],
     LastSeenReplications = None, Variables = (\<lambda>_. ''''), Status = (\<lambda>_. ''''),
     Binlog_Do_DB = '''', Binlog_Ignore_DB = '''', BinaryLogFile = '''', BinaryLogPos = '''',
     FailoverMasterLogFile = '''', FailoverMasterLogPos = '''', EventStatus = [], SlaveGtid = [],
     CurrentGtid = [], GTIDBinlogPos = [], DelayStat = zero_sds, Disks = [], Users = [],
     ReadOnly = '''', FailCount = 0, IsRelay = False, IsFull = False, IsMaintenance = False,
     IsMaxscale = False, IsSlave = False, IsDelayed = False, Ignored = False, IgnoredRO = False,
     Prefered = False, HaveNoMasterOnStart = False, HaveSemiSync = False,
     SemiSyncMasterStatus = False, SemiSyncSlaveStatus = False,
     FailoverSemiSyncSlaveStatus = False, HaveReadOnly = False, HaveMySQLGTID = False,
     HaveMariaDBGTID = False, MxsHaveGtid = False, HaveWsrep = False, IsWsrepSync = False,
     IsWsrepDonor = False, HaveBinlogRow = False, HaveBinlogSync = False,
     HaveInnodbTrxCommit = False, HaveChecksum = False, HaveBinlogSlowqueries = False,
     HaveBinlogAnnotate = False, HaveBinlogCompress = False, HaveBinlogSlaveUpdates = False,
     HaveGtidStrictMode = False, HaveSlaveIdempotent = False, HaveSlaveOptimistic = False,
     HaveSlaveSerialized = False, HaveSlaveAggressive = False, HaveSlaveMinimal = False,
     HaveSlaveConservative = False\<rparr>"

definition zero_conf :: conf where
  "zero_conf = \<lparr>Hosts = '''', ConfUser = '''', RplUser = '''', RplPass = '''',
     MasterConn = '''', PrefMaster = '''', IgnoreSrv = '''', IgnoreSrvRO = '''',
     MonitorIgnoreErrors = '''', FailoverMdevLevel = '''', PreScript = '''', PostScript = '''',
     MultiMaster = False, MultiMasterGrouprep = False, MultiMasterConcurrentWrite = False,
     MultiTierSlave = False, MxsOn = False, MxsBinlogOn = False, Interactive = False,
     RplChecks = False, RplCheckErrantTrx = False, FailSync = False, FailRestartUnsafe = False,
     FailEventScheduler = False, FailEventStatus = False, FailoverCheckDelayStat = False,
     FailoverMdevCheck = False, FailoverSemiSyncState = False, SwitchSync = False,
     SwitchGtidCheck = False, SwitchLowerRelease = False, SwitchSlaveWaitCatch = False,
     SwitchoverCopyOldLeaderGtid = False, SwitchDecreaseMaxConn = False, CheckBinFilter = False,
     CheckReplFilter = False, CheckFalsePositiveHeartbeat = False,
     CheckFalsePositiveMaxscale = False, CheckFalsePositiveExternal = False, Arbitration = False,
     CReadOnly = False, SuperReadOnly = False, ReplicationSSL = False, ForceSlaveNoGtid = False,
     AutorejoinSlavePositionalHeartbeat = False, FailMaxDelay = 0, MaxFail = 0, FailLimit = 0,
     FailTime = 0, SwitchWaitKill = 0, SwitchDecreaseMaxConnValue = 0, FailoverLogFileKeep = 0,
     HostsDelayedTime = 0, ForceSlaveHeartbeatRetry = 0, ForceSlaveHeartbeatTime = 0,
     MonitorDiskUsagePct = 0, DelayStatRotate = 0, DelayStatCapture = False, CheckGrants = False,
     MonitorCapture = False, MonitorCaptureTrigger = '''', MonitoringAlertTrigger = '''',
     MailTo = '''', AlertScript = '''', DbServersChangeStateScript = '''', MxsGetInfoMethod = '''',
     ArbitrationSasHosts = '''', AutorejoinFlashback = False, ForceSlaveSemisync = False,
     ForceSlaveReadOnly = False, ForceSlaveHeartbeat = False, ForceSlaveGtid = False,
     ForceSlaveGtidStrict = False, ForceSlaveIdempotent = False, ForceSlaveStrict = False,
     ForceSlaveParallelMode = '''', ForceSyncInnoDB = False, ForceSyncBinlog = False,
     ForceBinlogRow = False, ForceBinlogChecksum = False, ForceBinlogSlowqueries = False,
     ForceBinlogAnnotate = False, ForceBinlogCompress = False\<rparr>"

definition zero_cluster :: cluster where
  "zero_cluster = \<lparr>CName = '''', Topology = '''', Conf = zero_conf, StateMachine = zero_sm,
     srv = (\<lambda>_. zero_server), Servers = [], slaves = [], master = None, vmaster = None,
     oldMaster = None, Crashes = [], FailoverHistory = [], FailoverCtr = 0, FailoverTs = 0,
     IsFailedArbitrator = False, trace = []\<rparr>"

text \<open>An environment where every command succeeds and nothing else is known.\<close>

definition calm_env :: dbenv where
  "calm_env = \<lparr>CheckSlavePrerequisites = (\<lambda>_. True),
     ReplicationLongQuery = (\<lambda>_. ''''), RefreshAnswer = (\<lambda>_ _ s. s),
     LongWrites = (\<lambda>_ _. 0), FlushInTime = True, CmdOk = (\<lambda>_ _. True),
     SlaveStatusAnswer = (\<lambda>_ _. None), MaxConnections = (\<lambda>_. ''''),
     MasterStatusFile = (\<lambda>_. ''''), PseudoGtidPos = (\<lambda>_ _. ('''', '''')),
     ParentRplPass = (\<lambda>_. None), CrcTable = (\<lambda>_. 0),
     ErrantTrx = (\<lambda>_. False), ArbitratorAnswer = None, ExternalStatusCode = None,
     HeartbeatCounts = (\<lambda>_. (0, 0)), MaxscaleConnects = False,
     MaxscaleListsMonitors = False, MaxscaleStoppedMonitor = '''', MaxscaleRestarts = False,
     Now = 0\<rparr>"

section \<open>A sample cluster\<close>

text \<open>Server 0 is the failed master; servers 1 and 2 replicate from it and 2 has received one more
  transaction.\<close>

definition sample_status :: "string \<Rightarrow> string \<Rightarrow> slave_status" where
  "sample_status pos logpos = zero_slave_status
     \<lparr>MasterHost := ''db0'', MasterPort := ''3306'', MasterLogFile := ''bin.000003'', ReadMasterLogPos := logpos,
      SlaveIORunning := ''Connecting'', SlaveSQLRunning := ''Yes'', SecondsBehindMaster := Some 0,
      GtidIOPos := pos, UsingGtid := ''Slave_Pos'', MasterServerID := 1\<rparr>"

definition sample_server :: "string \<Rightarrow> u64 \<Rightarrow> string \<Rightarrow> server" where
  "sample_server name n st = zero_server
     \<lparr>Id := name, URL := name @ '':3306'', Host := name, Port := ''3306'', IP := name, SName := name,
      SourceClusterName := ''c1'', ServerID := n, State := st, PrevState := st, HasConn := True,
      DBVersion := Version ''MariaDB'' 10 6 12 '''' '''' None,
      Variables := (\<lambda>k. if k = ''LOG_BIN'' then ''ON'' else ''''), HaveMariaDBGTID := True\<rparr>"

definition sample_cluster :: cluster where
  "sample_cluster = zero_cluster
     \<lparr>CName := ''c1'', Topology := ''master-slave'',
      Conf := zero_conf\<lparr>Hosts := ''db0,db1,db2'', RplChecks := True, FailMaxDelay := 30, MaxFail := 3,
        FailLimit := 5, CReadOnly := True\<rparr>,
      srv := (\<lambda>i. if i = 0 then sample_server ''db0'' 1 stateFailed
                  else if i = 1 then (sample_server ''db1'' 2 stateSlave)
                         \<lparr>Replications := [sample_status ''0-1-41'' ''400'']\<rparr>
                  else (sample_server ''db2'' 3 stateSlave)
                         \<lparr>Replications := [sample_status ''0-1-42'' ''421'']\<rparr>),
      Servers := [0, 1, 2], slaves := [1, 2], master := Some 0\<rparr>"

end
