(* ===== verification/Election.thy ===== *)
theory Election
  imports Sample
begin

text \<open>
  The choice of a new master, \<open>src/cluster/cluster_fail.go\<close> and \<open>src/cluster/cluster_chk.go\<close>: who
  may be elected and which replica is the most up to date. A key of \<open>-1\<close> is \<open>None\<close>; a nil
  dereference or a malformed position, which panic in Go, are \<open>None\<close> of the outer option.
  Log output is not modelled, nor the \<open>forcingLog\<close> arguments that only select it.
\<close>

section \<open>Electability\<close>

definition sbm :: "slave_status \<Rightarrow> int" where
  "sbm ss = (case SecondsBehindMaster ss of None \<Rightarrow> 0 | Some n \<Rightarrow> n)"

definition check_state :: "string \<Rightarrow> server \<Rightarrow> cluster \<Rightarrow> cluster" where
  "check_state key sl cl = set_state key ''WARNING'' [FS (URL sl)] ''CHECK'' (URL sl) cl"

definition delay_state :: "dbenv \<Rightarrow> sid \<Rightarrow> slave_status \<Rightarrow> cluster \<Rightarrow> cluster" where
  "delay_state E i ss cl =
     Cluster_SetState ''ERR00041''
       \<lparr>ErrKey = '''', ErrType = ''WARNING'',
        ErrDesc = sprintf (clusterError ''ERR00041'' @ '' Sql: '' @ ReplicationLongQuery E i)
                    [FS (URL (srv cl i)), FD (FailMaxDelay (Conf cl)), FD (sbm ss)],
        ErrFrom = ''CHECK'', ServerUrl = URL (srv cl i)\<rparr> cl"

text \<open>The tail of \<open>isSlaveElectable\<close>, after the credential check.\<close>

definition electable_tail :: "server \<Rightarrow> cluster \<Rightarrow> bool \<times> cluster" where
  "electable_tail sl cl =
     (if HaveSemiSync sl \<and> \<not> SemiSyncSlaveStatus sl \<and> FailSync (Conf cl) \<and> RplChecks (Conf cl)
      then (False, check_state ''ERR00043'' sl cl)
      else if FailoverMdevCheck (Conf cl) \<and> HasMdevIssue cl sl then (False, cl)
      else if IsIgnored sl then (False, cl)
      else (True, cl))"

definition isSlaveElectable :: "dbenv \<Rightarrow> sid \<Rightarrow> cluster \<Rightarrow> bool \<times> cluster" where
  "isSlaveElectable E i cl =
     (let sl = srv cl i; cf = Conf cl
      in if SourceClusterName sl \<noteq> CName cl then (False, cl)
         else case own_status sl of
           None \<Rightarrow> (False, cl)
         | Some ss \<Rightarrow>
             if SlaveIORunning ss = ''No'' \<and> RplChecks cf \<and> \<not> IsMasterFailed cl
             then (False, check_state ''ERR00087'' sl cl)
             else if \<not> CheckSlavePrerequisites E i then (False, check_state ''ERR00040'' sl cl)
             else if IsMaintenance sl then (False, check_state ''ERR00047'' sl cl)
             else if sbm ss > FailMaxDelay cf \<and> FailMaxDelay cf \<noteq> -1 \<and> RplChecks cf
             then (False, delay_state E i ss cl)
             else if SlaveSQLRunning ss = ''No'' \<and> RplChecks cf
             then (False, check_state ''ERR00042'' sl cl)
             else electable_tail sl
               (if SlaveIORunning ss = ''Connecting'' \<and> \<not> IsMasterFailed cl \<and> LastIOErrno ss = ''1045''
                then emit (OpRotateReplicationCredentials i) (check_state ''ERR00088'' sl cl) else cl))"

definition isSlaveValidReader :: "dbenv \<Rightarrow> sid \<Rightarrow> cluster \<Rightarrow> bool \<times> cluster" where
  "isSlaveValidReader E i cl =
     (let sl = srv cl i
      in case own_status sl of
           None \<Rightarrow> (False, cl)
         | Some ss \<Rightarrow>
             if IsMaintenance sl then (False, check_state ''ERR00047'' sl cl)
             else if SlaveSQLRunning ss = ''No'' then (False, check_state ''ERR00042'' sl cl)
             else if IsIgnored sl then (False, cl)
             else (True, cl))"

definition IsEqualBinlogFilters :: "server \<Rightarrow> server \<Rightarrow> bool" where
  "IsEqualBinlogFilters m s \<longleftrightarrow>
     Binlog_Do_DB m = Binlog_Do_DB s \<and> Binlog_Ignore_DB m = Binlog_Ignore_DB s"

definition IsEqualReplicationFilters :: "server \<Rightarrow> server \<Rightarrow> bool" where
  "IsEqualReplicationFilters m s \<longleftrightarrow>
     (\<forall>v \<in> set [''REPLICATE_DO_TABLE'', ''REPLICATE_IGNORE_TABLE'', ''REPLICATE_WILD_DO_TABLE'',
               ''REPLICATE_WILD_IGNORE_TABLE'', ''REPLICATE_DO_DB'', ''REPLICATE_IGNORE_DB''].
        Variables m v = Variables s v)"

definition IsCurrentGTIDSync :: "server \<Rightarrow> server \<Rightarrow> bool" where
  "IsCurrentGTIDSync m s \<longleftrightarrow> Variables s ''GTID_CURRENT_POS'' = Variables m ''GTID_CURRENT_POS''"

definition isSlaveElectableForSwitchover :: "sid \<Rightarrow> cluster \<Rightarrow> bool option" where
  "isSlaveElectableForSwitchover i cl =
     (let sl = srv cl i; cf = Conf cl
      in if SourceClusterName sl \<noteq> CName cl then Some False
         else case own_status sl of
           None \<Rightarrow> Some False
         | Some ss \<Rightarrow>
             (case master cl of
                None \<Rightarrow> None
              | Some mi \<Rightarrow>
                  let m = srv cl mi in
                  Some (if \<not> SwitchLowerRelease cf \<and>
                           (Major (DBVersion sl) < Major (DBVersion m) \<or>
                            Major (DBVersion sl) = Major (DBVersion m) \<and>
                            Minor (DBVersion sl) < Minor (DBVersion m)) then False
                        else if \<not> IsEqualBinlogFilters m sl \<and> CheckBinFilter cf then False
                        else if \<not> IsEqualReplicationFilters m sl \<and> CheckReplFilter cf then False
                        else if SwitchGtidCheck cf \<and> \<not> IsCurrentGTIDSync sl m \<and> RplChecks cf then False
                        else if HaveSemiSync sl \<and> \<not> SemiSyncSlaveStatus sl \<and> SwitchSync cf \<and> RplChecks cf
                          then False
                        else if SecondsBehindMaster ss = None \<and> RplChecks cf then False
                        else if IsMaxscale sl \<or> IsRelay sl then False
                        else if HasErrantTransactions cl sl then False
                        else True)))"

section \<open>Positions\<close>

definition pad12 :: "string \<Rightarrow> string" where
  "pad12 s = replicate (12 - length s) (CHR ''0'') @ s"

text \<open>The binary log coordinates as one number; \<open>None\<close> when the log file has no extension, which
  skips the candidate.\<close>

definition binlog_reach :: "slave_status option \<Rightarrow> u64 option" where
  "binlog_reach sso =
     (let (filepos, logfile) =
            (case sso of None \<Rightarrow> (''1'', ''master.000001'')
                       | Some ss \<Rightarrow> (ReadMasterLogPos ss, MasterLogFile ss))
      in if \<not> str_contains logfile ''.'' then None
         else Some (of_nat (parse_uint 64 (str_split (CHR ''.'') logfile ! 1 @ pad12 filepos))))"

definition slave_seqnos :: "server \<Rightarrow> server \<Rightarrow> slave_status option \<Rightarrow> u64 list option" where
  "slave_seqnos m sl sso =
     (case sso of
        None \<Rightarrow> map_option GetSeqNos (NewList ''1-1-1'')
      | Some ss \<Rightarrow>
          if State m \<noteq> stateFailed then Some (GetSeqDomainIdNos (SDomainID m) (SlaveGtid sl))
          else map_option (GetSeqDomainIdNos (SDomainID m)) (NewList (GtidIOPos ss)))"

section \<open>Switchover\<close>

datatype ('r, 'a) ctl = Ret 'r | Cont 'a

record sw_acc =
  hipos :: nat
  hiseq :: nat
  swmax :: u64
  swmaxpos :: u64

definition skip_state :: "string \<Rightarrow> server \<Rightarrow> cluster \<Rightarrow> cluster" where
  "skip_state key sl cl = set_state key LvlWarn [FS (URL sl)] ''CHECK'' (URL sl) cl"

text \<open>Recording the position and the sequence of a candidate that passed the tests.\<close>

definition switch_record ::
  "nat \<Rightarrow> server \<Rightarrow> sw_acc \<Rightarrow> cluster \<Rightarrow> ((nat, sw_acc) ctl \<times> cluster) option" where
  "switch_record i sl acc cl =
     (let sso = own_status sl
      in if sso = None \<and> \<not> FailRestartUnsafe (Conf cl)
         then Some (Cont acc, skip_state ''ERR00033'' sl cl)
         else case binlog_reach sso of
           None \<Rightarrow> Some (Cont acc, cl)
         | Some pos \<Rightarrow>
             (case master cl of
                None \<Rightarrow> None
              | Some mi \<Rightarrow>
                  (case slave_seqnos (srv cl mi) sl sso of
                     None \<Rightarrow> None
                   | Some seqnos \<Rightarrow>
                       let seq = sum_list seqnos;
                           acc1 = (if seq > swmax acc then acc\<lparr>swmax := seq, hiseq := i\<rparr> else acc);
                           acc2 = (if pos > swmaxpos acc1 then acc1\<lparr>swmaxpos := pos, hipos := i\<rparr> else acc1)
                       in Some (Cont acc2, cl))))"

definition switch_step ::
  "dbenv \<Rightarrow> nat \<Rightarrow> sid \<Rightarrow> sw_acc \<Rightarrow> cluster \<Rightarrow> ((nat, sw_acc) ctl \<times> cluster) option" where
  "switch_step E i x acc cl =
     (let sl = srv cl x
      in if SourceClusterName sl \<noteq> CName cl then Some (Cont acc, cl)
         else if IsIgnored sl then Some (Cont acc, skip_state ''ERR00037'' sl cl)
         else if IsFull sl then Some (Cont acc, cl)
         else if IsRelay sl then Some (Cont acc, skip_state ''ERR00036'' sl cl)
         else if \<not> HasBinlog sl \<and> \<not> IsIgnored sl then Some (Cont acc, skip_state ''ERR00013'' sl cl)
         else if MultiMaster (Conf cl) \<and> State sl = stateMaster
           then Some (Cont acc, skip_state ''ERR00035'' sl cl)
         else case isSlaveElectableForSwitchover x cl of
           None \<Rightarrow> None
         | Some False \<Rightarrow> Some (Cont acc, skip_state ''ERR00034'' sl cl)
         | Some True \<Rightarrow>
             (case isSlaveElectable E x cl of
                (False, cl1) \<Rightarrow> Some (Cont acc, skip_state ''ERR00039'' sl cl1)
              | (True, cl1) \<Rightarrow>
                  if IsInPreferedHosts cl1 sl then Some (Ret i, cl1)
                  else if HaveNoMasterOnStart sl \<and> \<not> FailRestartUnsafe (Conf cl1)
                    then Some (Cont acc, skip_state ''ERR00084'' sl cl1)
                  else switch_record i sl acc cl1))"

fun switch_loop ::
  "dbenv \<Rightarrow> nat \<Rightarrow> sid list \<Rightarrow> sw_acc \<Rightarrow> cluster \<Rightarrow> ((nat, sw_acc) ctl \<times> cluster) option" where
  "switch_loop E i [] acc cl = Some (Cont acc, cl)"
| "switch_loop E i (x # xs) acc cl =
     (case switch_step E i x acc cl of
        None \<Rightarrow> None
      | Some (Ret k, cl1) \<Rightarrow> Some (Ret k, cl1)
      | Some (Cont acc1, cl1) \<Rightarrow> switch_loop E (Suc i) xs acc1 cl1)"

definition electSwitchoverCandidate ::
  "dbenv \<Rightarrow> sid list \<Rightarrow> cluster \<Rightarrow> (nat option \<times> cluster) option" where
  "electSwitchoverCandidate E l cl =
     (case switch_loop E 0 l \<lparr>hipos = 0, hiseq = 0, swmax = 0, swmaxpos = 0\<rparr> cl of
        None \<Rightarrow> None
      | Some (Ret k, cl1) \<Rightarrow> Some (Some k, cl1)
      | Some (Cont acc, cl1) \<Rightarrow>
          Some (if swmax acc > 0 then Some (hiseq acc)
                else if swmaxpos acc > 0 then Some (hipos acc) else None, cl1))"

section \<open>Failover\<close>

record trackpos =
  TURL :: string
  Indice :: nat
  Pos :: u64
  Seq :: u64
  TPrefered :: bool
  Ignoredconf :: bool
  Ignoredrelay :: bool
  Ignoredmultimaster :: bool
  Ignoredreplication :: bool
  IgnoredErrantTrx :: bool
  IgnoredBlocker :: bool
  TDelayStat :: delay_stat

record fo_acc =
  maxseq :: u64
  maxpos :: u64
  HaveOneValidReader :: bool

definition init_track :: "nat \<Rightarrow> server \<Rightarrow> cluster \<Rightarrow> trackpos" where
  "init_track i sl cl =
     \<lparr>TURL = URL sl, Indice = i, Pos = 0, Seq = 0,
      TPrefered = (IsPrefered sl \<and> SourceClusterName sl = CName cl),
      Ignoredconf = (IsIgnored sl \<or> SourceClusterName sl \<noteq> CName cl),
      Ignoredrelay = IsRelay sl, Ignoredmultimaster = False, Ignoredreplication = False,
      IgnoredErrantTrx = HasErrantTransactions cl sl, IgnoredBlocker = HasBlockerIssue cl sl,
      TDelayStat = Total (DelayStat sl)\<rparr>"

text \<open>The part of the loop body that reads the replication status of a candidate.\<close>

definition fo_record ::
  "dbenv \<Rightarrow> sid \<Rightarrow> sid \<Rightarrow> trackpos \<Rightarrow> fo_acc \<Rightarrow> cluster \<Rightarrow> (trackpos \<times> fo_acc \<times> cluster) option" where
  "fo_record E mi x t acc cl =
     (let sl = srv cl x; sso = own_status sl
      in if sso = None \<and> \<not> FailRestartUnsafe (Conf cl)
         then Some (t\<lparr>Ignoredreplication := True\<rparr>, acc, skip_state ''ERR00033'' sl cl)
         else
           let (el, cl1) = isSlaveElectable E x cl;
               t1 = t\<lparr>Ignoredreplication := \<not> el\<rparr>;
               (rd, cl2) = (if HaveOneValidReader acc then (True, cl1) else isSlaveValidReader E x cl1);
               acc1 = acc\<lparr>HaveOneValidReader := rd\<rparr>
           in (case binlog_reach sso of
                 None \<Rightarrow> Some (t1, acc1, cl2)
               | Some pos \<Rightarrow>
                   (case slave_seqnos (srv cl2 mi) sl sso of
                      None \<Rightarrow> None
                    | Some seqnos \<Rightarrow>
                        let seq = sum_list seqnos
                        in Some (t1\<lparr>Pos := pos, Seq := seq\<rparr>,
                                 acc1\<lparr>maxseq := max (maxseq acc1) seq, maxpos := max (maxpos acc1) pos\<rparr>,
                                 cl2))))"

definition fo_step ::
  "dbenv \<Rightarrow> nat \<Rightarrow> sid \<Rightarrow> fo_acc \<Rightarrow> cluster \<Rightarrow> ((nat, trackpos \<times> fo_acc) ctl \<times> cluster) option" where
  "fo_step E i x acc cl =
     (let sl = srv cl x; t = init_track i sl cl
      in if IsRelay sl then Some (Cont (t, acc), skip_state ''ERR00036'' sl cl)
         else if IsFull sl then Some (Cont (t, acc), cl)
         else if MultiMaster (Conf cl) \<and> State sl = stateMaster
           then Some (Cont (t\<lparr>Ignoredmultimaster := True\<rparr>, acc), skip_state ''ERR00035'' sl cl)
         else if HaveNoMasterOnStart sl \<and> \<not> FailRestartUnsafe (Conf cl)
           then Some (Cont (t, acc), skip_state ''ERR00084'' sl cl)
         else if \<not> HasBinlog sl \<and> \<not> IsIgnored sl
           then Some (Cont (t, acc), skip_state ''ERR00013'' sl cl)
         else if GetTopology cl = TopoMultiMasterWsrep \<and> vmaster cl \<noteq> None
           then Some (if URL (srv cl (the (vmaster cl))) = URL sl then Cont (t, acc)
                      else if State sl = stateWsrep then Ret i else Cont (t, acc), cl)
         else case master cl of
           None \<Rightarrow> Some (Cont (t, acc), cl)
         | Some mi \<Rightarrow> map_option (\<lambda>(t', acc', cl'). (Cont (t', acc'), cl')) (fo_record E mi x t acc cl))"

fun fo_loop ::
  "dbenv \<Rightarrow> nat \<Rightarrow> sid list \<Rightarrow> trackpos list \<Rightarrow> fo_acc \<Rightarrow> cluster \<Rightarrow>
     ((nat, trackpos list \<times> fo_acc) ctl \<times> cluster) option" where
  "fo_loop E i [] ts acc cl = Some (Cont (ts, acc), cl)"
| "fo_loop E i (x # xs) ts acc cl =
     (case fo_step E i x acc cl of
        None \<Rightarrow> None
      | Some (Ret k, cl1) \<Rightarrow> Some (Ret k, cl1)
      | Some (Cont (t, acc1), cl1) \<Rightarrow> fo_loop E (Suc i) xs (ts @ [t]) acc1 cl1)"

text \<open>The comparison of two candidates: by \<open>key\<close>, greatest first, then by their delay statistics.\<close>

definition delay_less :: "(trackpos \<Rightarrow> u64) \<Rightarrow> trackpos \<Rightarrow> trackpos \<Rightarrow> bool" where
  "delay_less key a b =
     (if key a \<noteq> key b then key a > key b
      else if SlaveErrCount (TDelayStat a) \<noteq> SlaveErrCount (TDelayStat b)
        then SlaveErrCount (TDelayStat a) < SlaveErrCount (TDelayStat b)
      else if DelayCount (TDelayStat a) \<noteq> DelayCount (TDelayStat b)
        then DelayCount (TDelayStat a) < DelayCount (TDelayStat b)
      else if DelayAvg (TDelayStat a) \<noteq> DelayAvg (TDelayStat b)
        then DelayAvg (TDelayStat a) < DelayAvg (TDelayStat b)
      else Counter (TDelayStat a) > Counter (TDelayStat b))"

definition sort_tracks :: "bool \<Rightarrow> (trackpos \<Rightarrow> u64) \<Rightarrow> trackpos list \<Rightarrow> trackpos list" where
  "sort_tracks checkDelay key ts =
     (if \<not> checkDelay then sort_slice (\<lambda>a b. key a > key b) ts else sort_slice (delay_less key) ts)"

definition eligible :: "(trackpos \<Rightarrow> u64) \<Rightarrow> u64 \<Rightarrow> trackpos \<Rightarrow> bool" where
  "eligible key mx p \<longleftrightarrow> key p = mx \<and> \<not> Ignoredrelay p \<and> \<not> Ignoredmultimaster p \<and> \<not> Ignoredreplication p"

text \<open>The three passes over the sorted candidates: a preferred one, any one, an ignored one.\<close>

definition pick_candidate :: "(trackpos \<Rightarrow> u64) \<Rightarrow> u64 \<Rightarrow> trackpos list \<Rightarrow> nat option" where
  "pick_candidate key mx ts =
     (case find (\<lambda>p. eligible key mx p \<and> \<not> Ignoredconf p \<and> TPrefered p) ts of
        Some p \<Rightarrow> Some (Indice p)
      | None \<Rightarrow>
          (case find (\<lambda>p. eligible key mx p \<and> \<not> Ignoredconf p) ts of
             Some p \<Rightarrow> Some (Indice p)
           | None \<Rightarrow>
               (case find (\<lambda>p. eligible key mx p \<and> Ignoredconf p) ts of
                  Some p \<Rightarrow> Some (Indice p)
                | None \<Rightarrow> None)))"

definition fo_choose :: "conf \<Rightarrow> trackpos list \<Rightarrow> fo_acc \<Rightarrow> nat option" where
  "fo_choose cf ts acc =
     (let ts1 = sort_tracks (FailoverCheckDelayStat cf) Seq ts
      in if maxseq acc > 0 then pick_candidate Seq (maxseq acc) ts1
         else
           let ts2 = sort_tracks (FailoverCheckDelayStat cf) Pos ts1
           in if maxpos acc > 0 then pick_candidate Pos (maxpos acc) ts2 else None)"

definition electFailoverCandidate ::
  "dbenv \<Rightarrow> sid list \<Rightarrow> cluster \<Rightarrow> (nat option \<times> cluster) option" where
  "electFailoverCandidate E l cl =
     (case fo_loop E 0 l [] \<lparr>maxseq = 0, maxpos = 0, HaveOneValidReader = False\<rparr> cl of
        None \<Rightarrow> None
      | Some (Ret k, cl1) \<Rightarrow> Some (Some k, cl1)
      | Some (Cont (ts, acc), cl1) \<Rightarrow>
          Some (fo_choose (Conf cl1) ts acc,
                if \<not> HaveOneValidReader acc then set_state ''ERR00085'' LvlWarn [] ''CHECK'' '''' cl1
                else cl1))"

section \<open>Other elections\<close>

fun group_first :: "nat \<Rightarrow> sid list \<Rightarrow> cluster \<Rightarrow> nat option" where
  "group_first i [] cl = None"
| "group_first i (x # xs) cl =
     (if SourceClusterName (srv cl x) \<noteq> CName cl then group_first (Suc i) xs cl
      else if IsInPreferedHosts cl (srv cl x) then Some i
      else group_first (Suc i) xs cl)"

fun group_second :: "nat \<Rightarrow> sid list \<Rightarrow> cluster \<Rightarrow> nat option \<times> cluster" where
  "group_second i [] cl = (None, cl)"
| "group_second i (x # xs) cl =
     (let sl = srv cl x
      in if SourceClusterName sl \<noteq> CName cl then group_second (Suc i) xs cl
         else if IsIgnored sl then group_second (Suc i) xs (skip_state ''ERR00037'' sl cl)
         else if IsInPreferedHosts cl sl then group_second (Suc i) xs cl
         else if IsFull sl then group_second (Suc i) xs cl
         else (Some i, cl))"

definition electSwitchoverGroupReplicationCandidate ::
  "sid list \<Rightarrow> cluster \<Rightarrow> nat option \<times> cluster" where
  "electSwitchoverGroupReplicationCandidate l cl =
     (case group_first 0 l cl of Some i \<Rightarrow> (Some i, cl) | None \<Rightarrow> group_second 0 l cl)"

text \<open>The candidate of a ring: an index into \<open>Servers\<close>, not into the list of slaves.\<close>

fun virtual_loop :: "u64 \<Rightarrow> nat \<Rightarrow> sid list \<Rightarrow> cluster \<Rightarrow> nat option \<times> cluster" where
  "virtual_loop oldId i [] cl = (None, cl)"
| "virtual_loop oldId i (x # xs) cl =
     (let sl = srv cl x
      in if IsIgnored sl
         then virtual_loop oldId (Suc i) xs (set_state ''ERR00037'' ''WARNING'' [FS (URL sl)] ''CHECK'' '''' cl)
         else if State sl \<noteq> stateFailed \<and> ServerID sl \<noteq> oldId then (Some i, cl)
         else virtual_loop oldId (Suc i) xs cl)"

definition electVirtualCandidate :: "sid \<Rightarrow> cluster \<Rightarrow> nat option \<times> cluster" where
  "electVirtualCandidate om cl = virtual_loop (ServerID (srv cl om)) 0 (Servers cl) cl"

definition foundPreferedMaster :: "sid list \<Rightarrow> cluster \<Rightarrow> sid option option" where
  "foundPreferedMaster l cl =
     (case find (\<lambda>x. str_contains (PrefMaster (Conf cl)) (URL (srv cl x))) l of
        None \<Rightarrow> Some None
      | Some x \<Rightarrow>
          (case master cl of
             None \<Rightarrow> None
           | Some mi \<Rightarrow> Some (if State (srv cl mi) \<noteq> stateFailed then Some x else None)))"

section \<open>Elections only raise states\<close>

named_theorems view

lemma view_check_state [view]: "same_view cl (check_state (CHR ''E'' # ks) sl cl)"
  by (simp add: check_state_def)

lemma view_skip_state [view]: "same_view cl (skip_state (CHR ''E'' # ks) sl cl)"
  by (simp add: skip_state_def)

lemma view_delay_state [view]: "same_view cl (delay_state E i ss cl)"
  by (simp add: delay_state_def same_view_SetState)

lemma view_electable_tail: "same_view cl (snd (electable_tail sl cl))"
  by (simp add: electable_tail_def view)

lemma view_isSlaveElectable [view]: "same_view cl (snd (isSlaveElectable E i cl))"
proof -
  have 1: "same_view cl (snd (electable_tail sl cl))" for sl
    by (rule view_electable_tail)
  have 2: "same_view cl
      (snd (electable_tail sl (emit op1 (check_state ''ERR00088'' sl cl))))" for sl op1
    by (rule same_view_trans [OF same_view_trans [OF _ same_view_emit] view_electable_tail])
      (simp add: view)
  show ?thesis
    using 1 2 by (simp add: isSlaveElectable_def Let_def view split: option.split)
qed

lemma view_isSlaveValidReader [view]: "same_view cl (snd (isSlaveValidReader E i cl))"
  by (simp add: isSlaveValidReader_def Let_def view split: option.split)

text \<open>What an electable server guarantees, whatever states are raised meanwhile.\<close>

definition safe_candidate :: "dbenv \<Rightarrow> cluster \<Rightarrow> sid \<Rightarrow> bool" where
  "safe_candidate E cl x \<longleftrightarrow>
     SourceClusterName (srv cl x) = CName cl \<and> \<not> IsIgnored (srv cl x) \<and> \<not> IsMaintenance (srv cl x) \<and>
     CheckSlavePrerequisites E x \<and>
     \<not> (FailoverMdevCheck (Conf cl) \<and> HasMdevIssue cl (srv cl x)) \<and>
     (case own_status (srv cl x) of
        None \<Rightarrow> False
      | Some ss \<Rightarrow>
          (RplChecks (Conf cl) \<longrightarrow>
             SlaveSQLRunning ss \<noteq> ''No'' \<and> (SlaveIORunning ss = ''No'' \<longrightarrow> IsMasterFailed cl) \<and>
             (FailMaxDelay (Conf cl) \<noteq> -1 \<longrightarrow> sbm ss \<le> FailMaxDelay (Conf cl)) \<and>
             (FailSync (Conf cl) \<and> HaveSemiSync (srv cl x) \<longrightarrow> SemiSyncSlaveStatus (srv cl x))))"

lemma isSlaveElectable_safe: "fst (isSlaveElectable E x cl) \<longleftrightarrow> safe_candidate E cl x"
proof -
  have "HasMdevIssue (emit op1 (check_state ''ERR00088'' sl cl)) = HasMdevIssue cl" for op1 sl
    by (rule same_view_issues, rule same_view_trans [OF _ same_view_emit]) (simp add: view)
  moreover have "Conf (emit op1 (check_state ''ERR00088'' sl cl)) = Conf cl" for op1 sl
    by (simp add: emit_def check_state_def set_state_def Cluster_SetState_def)
  ultimately show ?thesis
    by (auto simp: isSlaveElectable_def electable_tail_def safe_candidate_def Let_def
        split: option.split)
qed

lemma same_view_fields:
  assumes "same_view a b"
  shows "CName b = CName a" "Topology b = Topology a" "Conf b = Conf a" "srv b = srv a"
    "Servers b = Servers a" "slaves b = slaves a" "master b = master a" "vmaster b = vmaster a"
  using assms by (simp_all add: same_view_def)

lemma safe_candidate_cong: "same_view a b \<Longrightarrow> safe_candidate E b x = safe_candidate E a x"
  by (cases "own_status (srv a x)")
    (auto simp: safe_candidate_def same_view_issues same_view_IsMasterFailed same_view_fields)

section \<open>The failover election\<close>

text \<open>The replicas whose position the failover election reads, and the position it reads.\<close>

definition counted :: "cluster \<Rightarrow> sid \<Rightarrow> bool" where
  "counted cl x \<longleftrightarrow>
     (let sl = srv cl x
      in \<not> IsRelay sl \<and> \<not> IsFull sl \<and> \<not> (MultiMaster (Conf cl) \<and> State sl = stateMaster) \<and>
         (HaveNoMasterOnStart sl \<longrightarrow> FailRestartUnsafe (Conf cl)) \<and> (HasBinlog sl \<or> IsIgnored sl) \<and>
         (own_status sl = None \<longrightarrow> FailRestartUnsafe (Conf cl)) \<and> binlog_reach (own_status sl) \<noteq> None)"

definition reach_pos :: "cluster \<Rightarrow> sid \<Rightarrow> u64" where
  "reach_pos cl x = (if counted cl x then the (binlog_reach (own_status (srv cl x))) else 0)"

definition reach_seq :: "cluster \<Rightarrow> sid \<Rightarrow> sid \<Rightarrow> u64" where
  "reach_seq cl mi x =
     (if counted cl x then sum_list (the (slave_seqnos (srv cl mi) (srv cl x) (own_status (srv cl x)))) else 0)"

text \<open>What a track record of the first pass says of its server.\<close>

definition good_track :: "dbenv \<Rightarrow> cluster \<Rightarrow> sid \<Rightarrow> nat \<Rightarrow> sid \<Rightarrow> trackpos \<Rightarrow> bool" where
  "good_track E cl mi i x t \<longleftrightarrow>
     Indice t = i \<and> Seq t = reach_seq cl mi x \<and> Pos t = reach_pos cl x \<and>
     (TPrefered t \<longleftrightarrow> IsPrefered (srv cl x) \<and> SourceClusterName (srv cl x) = CName cl) \<and>
     (Ignoredconf t \<longleftrightarrow> IsIgnored (srv cl x) \<or> SourceClusterName (srv cl x) \<noteq> CName cl) \<and>
     TDelayStat t = Total (DelayStat (srv cl x)) \<and>
     (counted cl x \<longrightarrow> \<not> Ignoredrelay t \<and> \<not> Ignoredmultimaster t \<and>
        (Ignoredreplication t \<longleftrightarrow> \<not> safe_candidate E cl x))"

lemma counted_cong: "same_view a b \<Longrightarrow> counted b x = counted a x"
  by (simp add: counted_def same_view_fields Let_def)

lemma good_track_cong: "same_view a b \<Longrightarrow> good_track E b mi i x t = good_track E a mi i x t"
  by (simp add: good_track_def safe_candidate_cong reach_seq_def reach_pos_def counted_cong
      same_view_fields)

lemma fo_record_views:
  assumes "fo_record E mi x t0 acc cl = Some (t, acc1, cl1)"
  obtains (unread) "own_status (srv cl x) = None" "\<not> FailRestartUnsafe (Conf cl)" "same_view cl cl1"
      "t = t0\<lparr>Ignoredreplication := True\<rparr>" "acc1 = acc"
  | (nolog) rd where "binlog_reach (own_status (srv cl x)) = None" "same_view cl cl1"
      "t = t0\<lparr>Ignoredreplication := \<not> safe_candidate E cl x\<rparr>" "acc1 = acc\<lparr>HaveOneValidReader := rd\<rparr>"
  | (read) pos seqnos rd where "own_status (srv cl x) = None \<longrightarrow> FailRestartUnsafe (Conf cl)"
      "binlog_reach (own_status (srv cl x)) = Some pos" "same_view cl cl1"
      "slave_seqnos (srv cl mi) (srv cl x) (own_status (srv cl x)) = Some seqnos"
      "t = t0\<lparr>Ignoredreplication := \<not> safe_candidate E cl x, Pos := pos, Seq := sum_list seqnos\<rparr>"
      "acc1 = acc\<lparr>HaveOneValidReader := rd, maxseq := max (maxseq acc) (sum_list seqnos),
        maxpos := max (maxpos acc) pos\<rparr>"
proof -
  define el where "el = isSlaveElectable E x cl"
  have v1: "same_view cl (snd el)" and f1: "fst el = safe_candidate E cl x"
    by (simp_all add: el_def view isSlaveElectable_safe)
  define rd where "rd = (if HaveOneValidReader acc then (True, snd el) else isSlaveValidReader E x (snd el))"
  have "same_view (snd el) (snd rd)"
    by (simp add: rd_def view)
  with v1 have v2: "same_view cl (snd rd)"
    by (rule same_view_trans)
  note defs = fo_record_def el_def [symmetric] rd_def [symmetric] Let_def case_prod_beta f1
    same_view_fields [OF v2]
  show thesis
  proof (cases "own_status (srv cl x) = None \<and> \<not> FailRestartUnsafe (Conf cl)")
    case True
    with assms show thesis
      by (intro unread) (auto simp: fo_record_def Let_def view)
  next
    case False
    show thesis
    proof (cases "binlog_reach (own_status (srv cl x))")
      case None
      with False assms show thesis
        by (intro nolog [of "fst rd"]) (auto simp: defs v2)
    next
      case (Some pos)
      then obtain seqnos where
        "slave_seqnos (srv cl mi) (srv cl x) (own_status (srv cl x)) = Some seqnos"
        using False assms by (auto simp: defs split: option.splits)
      with Some False assms show thesis
        by (intro read [of pos seqnos "fst rd"]) (auto simp: defs v2)
    qed
  qed
qed

lemma init_track_good:
  assumes "\<not> counted cl x"
  shows "good_track E cl mi i x (init_track i (srv cl x) cl)"
    "good_track E cl mi i x ((init_track i (srv cl x) cl)\<lparr>Ignoredmultimaster := True\<rparr>)"
    "good_track E cl mi i x ((init_track i (srv cl x) cl)\<lparr>Ignoredreplication := b\<rparr>)"
  using assms by (simp_all add: good_track_def init_track_def reach_seq_def reach_pos_def)

lemma fo_record_ok:
  assumes "fo_record E mi x (init_track i (srv cl x) cl) acc cl = Some (t, acc1, cl1)"
    and "\<not> IsRelay (srv cl x)" "\<not> IsFull (srv cl x)" "\<not> (MultiMaster (Conf cl) \<and> State (srv cl x) = stateMaster)"
    "HaveNoMasterOnStart (srv cl x) \<longrightarrow> FailRestartUnsafe (Conf cl)" "HasBinlog (srv cl x) \<or> IsIgnored (srv cl x)"
  shows "same_view cl cl1 \<and> good_track E cl mi i x t \<and> maxseq acc1 = max (maxseq acc) (Seq t) \<and>
    maxpos acc1 = max (maxpos acc) (Pos t)"
  using assms(1)
proof (cases rule: fo_record_views)
  case unread
  then have "\<not> counted cl x"
    by (simp add: counted_def Let_def)
  with unread show ?thesis
    by (simp add: init_track_good) (simp add: init_track_def)
next
  case (nolog rd)
  then have "\<not> counted cl x"
    by (simp add: counted_def Let_def)
  with nolog show ?thesis
    by (simp add: init_track_good) (simp add: init_track_def)
next
  case (read pos seqnos rd)
  then have "counted cl x"
    using assms by (simp add: counted_def Let_def)
  with read assms(2) show ?thesis
    by (simp add: good_track_def init_track_def reach_seq_def reach_pos_def)
qed

text \<open>Outside the Galera branch, one iteration appends a faithful track record.\<close>

definition galera :: "cluster \<Rightarrow> bool" where
  "galera cl \<longleftrightarrow> GetTopology cl = TopoMultiMasterWsrep \<and> vmaster cl \<noteq> None"

lemma fo_step_ok:
  assumes "fo_step E i x acc cl = Some (c, cl1)" "\<not> galera cl" "master cl = Some mi"
  shows "same_view cl cl1 \<and> (\<exists>t acc1. c = Cont (t, acc1) \<and> good_track E cl mi i x t \<and>
    maxseq acc1 = max (maxseq acc) (Seq t) \<and> maxpos acc1 = max (maxpos acc) (Pos t))"
proof (cases "IsRelay (srv cl x) \<or> IsFull (srv cl x) \<or> MultiMaster (Conf cl) \<and> State (srv cl x) = stateMaster
    \<or> HaveNoMasterOnStart (srv cl x) \<and> \<not> FailRestartUnsafe (Conf cl) \<or>
      \<not> HasBinlog (srv cl x) \<and> \<not> IsIgnored (srv cl x)")
  case True
  then have "\<not> counted cl x"
    by (auto simp: counted_def Let_def)
  note g = init_track_good [OF this, of E mi i]
  have "Seq (init_track i (srv cl x) cl) = 0" "Pos (init_track i (srv cl x) cl) = 0"
    by (simp_all add: init_track_def)
  with True assms(1) g show ?thesis
    by (auto simp: fo_step_def Let_def view split: if_splits)
next
  case False
  with assms obtain t acc1 where
    r: "fo_record E mi x (init_track i (srv cl x) cl) acc cl = Some (t, acc1, cl1)" and c: "c = Cont (t, acc1)"
    by (auto simp: fo_step_def Let_def galera_def)
  with fo_record_ok [OF r] False show ?thesis
    by simp
qed

lemma fold_max_ge: "(m :: 'a :: linorder) \<le> fold max xs m \<and> (\<forall>x \<in> set xs. x \<le> fold max xs m)"
proof (induction xs arbitrary: m)
  case (Cons a xs)
  from Cons.IH [of "max a m"] show ?case
    by auto
qed simp

lemma galera_cong: "same_view a b \<Longrightarrow> galera b = galera a"
  by (simp add: galera_def GetTopology_def same_view_fields)

lemma fo_loop_ok:
  assumes "fo_loop E i xs ts acc cl = Some (c, cl1)" "\<not> galera cl" "master cl = Some mi"
  shows "same_view cl cl1 \<and> (\<exists>us acc1. c = Cont (ts @ us, acc1) \<and> length us = length xs \<and>
    (\<forall>j < length xs. good_track E cl mi (i + j) (xs ! j) (us ! j)) \<and>
    maxseq acc1 = fold max (map Seq us) (maxseq acc) \<and> maxpos acc1 = fold max (map Pos us) (maxpos acc))"
  using assms
proof (induction xs arbitrary: i ts acc cl)
  case Nil
  then show ?case by auto
next
  case (Cons x xs)
  from Cons.prems(1) obtain c2 cl2 where s: "fo_step E i x acc cl = Some (c2, cl2)"
    by (auto split: option.splits)
  from fo_step_ok [OF this Cons.prems(2,3)] obtain t acc2 where
    v: "same_view cl cl2" and c2: "c2 = Cont (t, acc2)" and t: "good_track E cl mi i x t" and
    m: "maxseq acc2 = max (maxseq acc) (Seq t)" "maxpos acc2 = max (maxpos acc) (Pos t)"
    by auto
  have "fo_loop E (Suc i) xs (ts @ [t]) acc2 cl2 = Some (c, cl1)"
    using Cons.prems(1) s c2 by simp
  from Cons.IH [OF this] Cons.prems(2,3) galera_cong [OF v] same_view_fields [OF v] obtain us acc1 where
    v1: "same_view cl2 cl1" and c: "c = Cont ((ts @ [t]) @ us, acc1)" and l: "length us = length xs" and
    g: "\<forall>j < length xs. good_track E cl2 mi (Suc i + j) (xs ! j) (us ! j)" and
    mm: "maxseq acc1 = fold max (map Seq us) (maxseq acc2)" "maxpos acc1 = fold max (map Pos us) (maxpos acc2)"
    by auto
  have "good_track E cl mi (i + j) ((x # xs) ! j) ((t # us) ! j)" if "j < length (x # xs)" for j
    using that t g by (cases j) (auto simp: good_track_cong [OF v])
  with v v1 c l m mm show ?case
    by (auto intro!: exI [of _ "t # us"] dest: same_view_trans simp: max.commute)
qed

lemma set_sort_tracks [simp]: "set (sort_tracks c key ts) = set ts"
  by (simp add: sort_tracks_def)

lemma find_SomeD: "find P xs = Some x \<Longrightarrow> x \<in> set xs \<and> P x"
  by (auto simp: find_Some_iff)

lemma pick_candidate_Some:
  assumes "pick_candidate key mx ts = Some k"
  shows "\<exists>p \<in> set ts. Indice p = k \<and> eligible key mx p \<and>
    ((\<exists>q \<in> set ts. eligible key mx q \<and> \<not> Ignoredconf q) \<longrightarrow> \<not> Ignoredconf p) \<and>
    ((\<exists>q \<in> set ts. eligible key mx q \<and> \<not> Ignoredconf q \<and> TPrefered q) \<longrightarrow> TPrefered p)"
  using assms unfolding pick_candidate_def
  by (auto split: option.splits simp: find_None_iff dest!: find_SomeD)

lemma pick_candidate_None:
  "pick_candidate key mx ts = None \<longleftrightarrow> (\<forall>q \<in> set ts. \<not> eligible key mx q)"
  by (auto simp: pick_candidate_def find_None_iff split: option.splits dest!: find_SomeD)

text \<open>
  The specification of the failover election: a safe replica that no read replica is ahead of, by the
  GTID sequence when some replica has one and by the binary log coordinates otherwise.
\<close>

definition best_candidate :: "dbenv \<Rightarrow> cluster \<Rightarrow> sid \<Rightarrow> sid list \<Rightarrow> nat \<Rightarrow> bool" where
  "best_candidate E cl mi l j \<longleftrightarrow>
     j < length l \<and> counted cl (l ! j) \<and> safe_candidate E cl (l ! j) \<and>
     (\<forall>x \<in> set l. reach_seq cl mi x \<le> reach_seq cl mi (l ! j)) \<and>
     (reach_seq cl mi (l ! j) = 0 \<longrightarrow>
        0 < reach_pos cl (l ! j) \<and> (\<forall>x \<in> set l. reach_pos cl x \<le> reach_pos cl (l ! j)))"

lemma fold_max_in: "fold max xs (m :: 'a :: linorder) = m \<or> fold max xs m \<in> set xs"
proof (induction xs arbitrary: m)
  case (Cons a xs)
  from Cons.IH [of "max a m"] show ?case
    by (auto simp: max_def split: if_splits)
qed simp

lemma fold_max_eq_iff:
  "fold max xs (0 :: u64) = y \<longleftrightarrow> (y = 0 \<or> y \<in> set xs) \<and> (\<forall>x \<in> set xs. x \<le> y)"
  using fold_max_ge [where xs = xs and m = "0 :: u64"] fold_max_in [of xs "0 :: u64"]
  by (metis order_antisym word_zero_le)

text \<open>The tracks of a completed first pass, and who is eligible among them.\<close>

definition tracks_of :: "dbenv \<Rightarrow> cluster \<Rightarrow> sid \<Rightarrow> sid list \<Rightarrow> trackpos list \<Rightarrow> bool" where
  "tracks_of E cl mi l us \<longleftrightarrow>
     length us = length l \<and> (\<forall>j < length l. good_track E cl mi j (l ! j) (us ! j))"

lemma good_track_unread:
  "good_track E cl mi i x t \<Longrightarrow> \<not> counted cl x \<Longrightarrow> Seq t = 0 \<and> Pos t = 0"
  by (simp add: good_track_def reach_seq_def reach_pos_def)

lemma good_track_eligible:
  assumes "good_track E cl mi i x t" "key = Seq \<or> key = Pos" "0 < mx"
  shows "eligible key mx t \<longleftrightarrow> key t = mx \<and> counted cl x \<and> safe_candidate E cl x"
    and "eligible key mx t \<Longrightarrow> \<not> Ignoredconf t"
proof -
  show e: "eligible key mx t \<longleftrightarrow> key t = mx \<and> counted cl x \<and> safe_candidate E cl x"
    using assms good_track_unread [OF assms(1)]
    by (cases "counted cl x") (auto simp: eligible_def good_track_def)
  show "eligible key mx t \<Longrightarrow> \<not> Ignoredconf t"
    using e assms(1) by (simp add: good_track_def safe_candidate_def)
qed

lemma tracks_of_pick:
  assumes t: "tracks_of E cl mi l us" and key: "key = Seq \<or> key = Pos" and mx: "0 < mx"
    and set: "set ts = set us"
  defines "ok \<equiv> \<lambda>j. j < length l \<and> key (us ! j) = mx \<and> counted cl (l ! j) \<and> safe_candidate E cl (l ! j)"
  shows "case pick_candidate key mx ts of
      None \<Rightarrow> \<forall>j. \<not> ok j
    | Some k \<Rightarrow> ok k \<and> (IsPrefered (srv cl (l ! k)) \<or> (\<forall>j. ok j \<longrightarrow> \<not> IsPrefered (srv cl (l ! j))))"
proof -
  have g: "good_track E cl mi j (l ! j) (us ! j)" if "j < length l" for j
    using t that by (simp add: tracks_of_def)
  have ok: "ok j \<longleftrightarrow> j < length l \<and> eligible key mx (us ! j)" for j
    using good_track_eligible(1) [OF g key mx] by (auto simp: ok_def)
  have ex: "(\<exists>q \<in> set ts. P q) \<longleftrightarrow> (\<exists>j < length l. P (us ! j))" for P
    using t unfolding set tracks_of_def by (metis in_set_conv_nth)
  show ?thesis
  proof (cases "pick_candidate key mx ts")
    case None
    then have "\<not> (\<exists>q \<in> set ts. eligible key mx q)"
      by (simp add: pick_candidate_None)
    then show ?thesis
      using None ok ex by auto
  next
    case (Some k)
    from pick_candidate_Some [OF this] obtain p where p: "p \<in> set ts" "Indice p = k" "eligible key mx p"
      and pref: "(\<exists>q \<in> set ts. eligible key mx q \<and> \<not> Ignoredconf q \<and> TPrefered q) \<longrightarrow> TPrefered p"
      by blast
    from p(1) obtain j where j: "j < length l" and "p = us ! j"
      using ex [of "\<lambda>q. q = p"] by auto
    with p pref have j: "j < length l" "Indice (us ! j) = k" "eligible key mx (us ! j)"
      and pref: "(\<exists>q \<in> set ts. eligible key mx q \<and> \<not> Ignoredconf q \<and> TPrefered q) \<longrightarrow> TPrefered (us ! j)"
      by auto
    have k: "k = j"
      using g [OF j(1)] j(2) by (simp add: good_track_def)
    have "IsPrefered (srv cl (l ! j))" if "ok i" "IsPrefered (srv cl (l ! i))" for i
    proof -
      have i: "i < length l" "eligible key mx (us ! i)"
        using that(1) ok by auto
      moreover have "\<not> Ignoredconf (us ! i)"
        using good_track_eligible(2) [OF g key mx] i by blast
      moreover have "TPrefered (us ! i)"
        using g [OF i(1)] that good_track_eligible(1) [OF g key mx] i
        by (auto simp: good_track_def safe_candidate_def)
      ultimately have "TPrefered (us ! j)"
        using pref ex by blast
      then show ?thesis
        using g [OF j(1)] by (simp add: good_track_def)
    qed
    then show ?thesis
      using Some j k ok by auto
  qed
qed

lemma tracks_of_all:
  assumes "tracks_of E cl mi l us"
  shows "(\<forall>t \<in> set us. P (Seq t)) \<longleftrightarrow> (\<forall>x \<in> set l. P (reach_seq cl mi x))"
    and "(\<forall>t \<in> set us. P (Pos t)) \<longleftrightarrow> (\<forall>x \<in> set l. P (reach_pos cl x))"
  using assms by (auto simp: tracks_of_def good_track_def all_set_conv_all_nth)

lemma tracks_of_max:
  assumes t: "tracks_of E cl mi l us"
    and mx: "mseq = fold max (map Seq us) 0" "mpos = fold max (map Pos us) 0"
    and j: "j < length l"
  shows "(\<forall>x \<in> set l. reach_seq cl mi x \<le> reach_seq cl mi (l ! j)) \<and>
     (reach_seq cl mi (l ! j) = 0 \<longrightarrow>
        0 < reach_pos cl (l ! j) \<and> (\<forall>x \<in> set l. reach_pos cl x \<le> reach_pos cl (l ! j))) \<longleftrightarrow>
    (if 0 < mseq then Seq (us ! j) = mseq else 0 < mpos \<and> Pos (us ! j) = mpos)"
proof -
  have "us ! j \<in> set us"
    using t j by (simp add: tracks_of_def)
  then have m: "Seq (us ! j) \<in> set (map Seq us)" "Pos (us ! j) \<in> set (map Pos us)"
    by simp_all
  have "Seq (us ! j) = reach_seq cl mi (l ! j)" "Pos (us ! j) = reach_pos cl (l ! j)"
    using t j by (simp_all add: tracks_of_def good_track_def)
  note g = this m
  have s: "mseq = Seq (us ! j) \<longleftrightarrow> (\<forall>x \<in> set l. reach_seq cl mi x \<le> reach_seq cl mi (l ! j))"
    using fold_max_eq_iff [of "map Seq us" "Seq (us ! j)"] g mx
      tracks_of_all(1) [OF t, where P = "\<lambda>y. y \<le> Seq (us ! j)"] by simp
  have p: "mpos = Pos (us ! j) \<longleftrightarrow> (\<forall>x \<in> set l. reach_pos cl x \<le> reach_pos cl (l ! j))"
    using fold_max_eq_iff [of "map Pos us" "Pos (us ! j)"] g mx
      tracks_of_all(2) [OF t, where P = "\<lambda>y. y \<le> Pos (us ! j)"] by simp
  have "Seq (us ! j) \<le> mseq"
    using fold_max_ge [of 0 "map Seq us"] g(3) mx by auto
  then show ?thesis
    using s p g by (auto simp: word_gt_0)
qed

lemma electFailoverCandidate_spec:
  assumes "electFailoverCandidate E l cl = Some (r, cl')" "\<not> galera cl" "master cl = Some mi"
  shows "same_view cl cl' \<and> (case r of
      None \<Rightarrow> \<forall>j. \<not> best_candidate E cl mi l j
    | Some k \<Rightarrow> best_candidate E cl mi l k \<and>
        (IsPrefered (srv cl (l ! k)) \<or> (\<forall>j. best_candidate E cl mi l j \<longrightarrow> \<not> IsPrefered (srv cl (l ! j)))))"
proof -
  define a0 where "a0 = \<lparr>maxseq = 0, maxpos = 0, HaveOneValidReader = False\<rparr>"
  from assms(1) obtain c cl1 where loop: "fo_loop E 0 l [] a0 cl = Some (c, cl1)"
    by (auto simp: electFailoverCandidate_def a0_def split: option.splits)
  from fo_loop_ok [OF this assms(2,3)] obtain us acc where v: "same_view cl cl1" and
    c: "c = Cont (us, acc)" and t: "tracks_of E cl mi l us" and
    mx: "maxseq acc = fold max (map Seq us) 0" "maxpos acc = fold max (map Pos us) 0"
    by (auto simp: tracks_of_def a0_def)
  have r: "r = fo_choose (Conf cl) us acc"
    and cl': "cl' = cl1 \<or> cl' = set_state ''ERR00085'' LvlWarn [] ''CHECK'' '''' cl1"
    using assms(1) loop c same_view_fields [OF v]
    by (auto simp: electFailoverCandidate_def a0_def split: if_splits)
  have v': "same_view cl cl'"
    using cl' same_view_trans [OF v same_view_set_state] v by auto
  have best: "best_candidate E cl mi l j \<longleftrightarrow>
      j < length l \<and> (if 0 < maxseq acc then Seq (us ! j) = maxseq acc
        else 0 < maxpos acc \<and> Pos (us ! j) = maxpos acc) \<and> counted cl (l ! j) \<and> safe_candidate E cl (l ! j)" for j
    unfolding best_candidate_def using tracks_of_max [OF t mx] by blast
  consider (seq) "0 < maxseq acc" | (pos) "\<not> 0 < maxseq acc" "0 < maxpos acc"
    | (none) "\<not> 0 < maxseq acc" "\<not> 0 < maxpos acc"
    by blast
  then show ?thesis
  proof cases
    case seq
    then have "r = pick_candidate Seq (maxseq acc) (sort_tracks (FailoverCheckDelayStat (Conf cl)) Seq us)"
      by (simp add: r fo_choose_def Let_def)
    with tracks_of_pick [OF t _ seq set_sort_tracks, of Seq "FailoverCheckDelayStat (Conf cl)" Seq] seq v'
    show ?thesis
      by (simp add: best split: option.split option.split_asm)
  next
    case pos
    define ts where "ts = sort_tracks (FailoverCheckDelayStat (Conf cl)) Pos
        (sort_tracks (FailoverCheckDelayStat (Conf cl)) Seq us)"
    from pos have "r = pick_candidate Pos (maxpos acc) ts"
      by (simp add: r fo_choose_def Let_def ts_def)
    with tracks_of_pick [OF t _ pos(2), of Pos ts] pos v'
    show ?thesis
      by (simp add: best ts_def split: option.split option.split_asm)
  next
    case none
    with v' show ?thesis
      by (simp add: r fo_choose_def Let_def best)
  qed
qed

section \<open>The switchover election\<close>

text \<open>The tests a replica passes before the switchover election reads its position.\<close>

definition switch_ok :: "dbenv \<Rightarrow> cluster \<Rightarrow> sid \<Rightarrow> bool" where
  "switch_ok E cl x \<longleftrightarrow>
     (let sl = srv cl x
      in SourceClusterName sl = CName cl \<and> \<not> IsFull sl \<and> \<not> IsRelay sl \<and> HasBinlog sl \<and>
         \<not> (MultiMaster (Conf cl) \<and> State sl = stateMaster) \<and>
         isSlaveElectableForSwitchover x cl = Some True \<and> safe_candidate E cl x)"

definition switch_read :: "dbenv \<Rightarrow> cluster \<Rightarrow> sid \<Rightarrow> bool" where
  "switch_read E cl x \<longleftrightarrow>
     switch_ok E cl x \<and> (HaveNoMasterOnStart (srv cl x) \<longrightarrow> FailRestartUnsafe (Conf cl)) \<and>
     binlog_reach (own_status (srv cl x)) \<noteq> None"

definition switch_seq :: "cluster \<Rightarrow> sid \<Rightarrow> u64" where
  "switch_seq cl x =
     sum_list (the (slave_seqnos (srv cl (the (master cl))) (srv cl x) (own_status (srv cl x))))"

definition switch_pos :: "cluster \<Rightarrow> sid \<Rightarrow> u64" where
  "switch_pos cl x = the (binlog_reach (own_status (srv cl x)))"

lemma isSlaveElectableForSwitchover_cong:
  assumes "same_view a b"
  shows "isSlaveElectableForSwitchover x b = isSlaveElectableForSwitchover x a"
proof -
  have "HasErrantTransactions b = HasErrantTransactions a"
    using assms by (simp add: same_view_def)
  note e = this same_view_fields [OF assms]
  show ?thesis
    unfolding isSlaveElectableForSwitchover_def e by (rule refl)
qed

lemma switch_cong:
  assumes "same_view a b"
  shows "switch_ok E b x = switch_ok E a x" "switch_read E b x = switch_read E a x"
    "switch_seq b x = switch_seq a x" "switch_pos b x = switch_pos a x"
    "IsInPreferedHosts b s = IsInPreferedHosts a s"
  by (simp_all add: switch_ok_def switch_read_def switch_seq_def switch_pos_def Let_def
      IsInPreferedHosts_def same_view_fields [OF assms] isSlaveElectableForSwitchover_cong [OF assms]
      safe_candidate_cong [OF assms])

text \<open>One candidate: skipped, elected at once because preferred, or its position recorded.\<close>

lemma switch_step_cases:
  assumes "switch_step E i x acc cl = Some (c, cl1)"
  obtains (skip) "c = Cont acc" "same_view cl cl1" "switch_read E cl x \<Longrightarrow> False"
  | (preferred) "c = Ret i" "same_view cl cl1" "switch_ok E cl x" "IsInPreferedHosts cl (srv cl x)"
  | (read) acc1 where "c = Cont acc1" "same_view cl cl1" "switch_read E cl x"
      "\<not> IsInPreferedHosts cl (srv cl x)"
      "swmax acc1 = max (swmax acc) (switch_seq cl x)"
      "hiseq acc1 = (if switch_seq cl x > swmax acc then i else hiseq acc)"
      "swmaxpos acc1 = max (swmaxpos acc) (switch_pos cl x)"
      "hipos acc1 = (if switch_pos cl x > swmaxpos acc then i else hipos acc)"
proof -
  define el where "el = isSlaveElectable E x cl"
  have v: "same_view cl (snd el)" and f: "fst el = safe_candidate E cl x"
    by (simp_all add: el_def view isSlaveElectable_safe)
  have vs: "same_view cl (skip_state (CHR ''E'' # ks) sl (snd el))" for ks sl
    by (rule same_view_trans [OF v]) (rule view)
  show thesis
  proof (cases "switch_ok E cl x")
    case False
    have "c = Cont acc \<and> same_view cl cl1"
    proof (cases "isSlaveElectableForSwitchover x cl = Some True \<and> \<not> IsIgnored (srv cl x)")
      case True
      have "el = (b, x2) \<Longrightarrow> same_view cl (skip_state (CHR ''E'' # ks) sl x2)" for b x2 ks sl
        using vs by auto
      with True assms False f show ?thesis
        by (auto simp: switch_step_def switch_ok_def Let_def view el_def [symmetric]
            split: if_split_asm prod.split_asm)
    next
      case nsw: False
      with assms show ?thesis
        by (auto simp: switch_step_def Let_def view
            split: if_split_asm option.split_asm bool.split_asm)
    qed
    with False show thesis
      by (intro skip) (auto simp: switch_read_def)
  next
    case ok: True
    then have e: "isSlaveElectable E x cl = (True, snd el)" and ign: "\<not> IsIgnored (srv cl x)"
      and mm: "(MultiMaster (Conf cl) \<and> State (srv cl x) = stateMaster) = False"
      using f by (simp_all add: switch_ok_def safe_candidate_def Let_def el_def prod_eq_iff)
    have s: "switch_step E i x acc cl =
      (if IsInPreferedHosts cl (srv cl x) then Some (Ret i, snd el)
       else if HaveNoMasterOnStart (srv cl x) \<and> \<not> FailRestartUnsafe (Conf cl)
         then Some (Cont acc, skip_state ''ERR00084'' (srv cl x) (snd el))
       else switch_record i (srv cl x) acc (snd el))"
      using ok ign e by (simp add: switch_step_def switch_ok_def Let_def mm
          same_view_fields [OF v] switch_cong [OF v])
    have st: "own_status (srv cl x) \<noteq> None"
      using ok by (auto simp: switch_ok_def safe_candidate_def Let_def split: option.splits)
    show thesis
    proof (cases "IsInPreferedHosts cl (srv cl x) \<or>
        HaveNoMasterOnStart (srv cl x) \<and> \<not> FailRestartUnsafe (Conf cl)")
      case True
      with assms ok s v vs show thesis
        by (auto simp: switch_read_def intro: preferred skip split: if_splits)
    next
      case False
      with assms s have r: "switch_record i (srv cl x) acc (snd el) = Some (c, cl1)"
        by auto
      show thesis
      proof (cases "binlog_reach (own_status (srv cl x))")
        case None
        with r st v show thesis
          by (intro skip) (auto simp: switch_record_def switch_read_def)
      next
        case (Some pos)
        with r st obtain mi q where q: "master cl = Some mi"
          "slave_seqnos (srv cl mi) (srv cl x) (own_status (srv cl x)) = Some q"
          by (auto simp: switch_record_def Let_def same_view_fields [OF v] split: option.splits)
        with r st Some have c: "cl1 = snd el" "c = Cont (
            let acc1 = (if sum_list q > swmax acc then acc\<lparr>swmax := sum_list q, hiseq := i\<rparr> else acc)
            in if pos > swmaxpos acc1 then acc1\<lparr>swmaxpos := pos, hipos := i\<rparr> else acc1)"
          by (auto simp: switch_record_def Let_def same_view_fields [OF v])
        show thesis
          by (rule read [OF c(2)])
            (use c v ok False Some q in \<open>auto simp: switch_read_def switch_seq_def switch_pos_def Let_def\<close>)
      qed
    qed
  qed
qed

text \<open>What the accumulator says of the candidates read so far.\<close>

definition switch_inv :: "dbenv \<Rightarrow> cluster \<Rightarrow> sid list \<Rightarrow> nat \<Rightarrow> sw_acc \<Rightarrow> bool" where
  "switch_inv E cl l i acc \<longleftrightarrow>
     (swmax acc \<noteq> 0 \<longrightarrow> hiseq acc < i \<and> switch_read E cl (l ! hiseq acc) \<and> switch_seq cl (l ! hiseq acc) = swmax acc) \<and>
     (swmaxpos acc \<noteq> 0 \<longrightarrow> hipos acc < i \<and> switch_read E cl (l ! hipos acc) \<and> switch_pos cl (l ! hipos acc) = swmaxpos acc) \<and>
     (\<forall>j < i. switch_read E cl (l ! j) \<longrightarrow>
        \<not> IsInPreferedHosts cl (srv cl (l ! j)) \<and> switch_seq cl (l ! j) \<le> swmax acc \<and> switch_pos cl (l ! j) \<le> swmaxpos acc)"

lemma switch_inv_step:
  assumes "switch_inv E cl l i acc" "switch_read E cl (l ! i)" "\<not> IsInPreferedHosts cl (srv cl (l ! i))"
    and "swmax acc1 = max (swmax acc) (switch_seq cl (l ! i))"
      "hiseq acc1 = (if switch_seq cl (l ! i) > swmax acc then i else hiseq acc)"
      "swmaxpos acc1 = max (swmaxpos acc) (switch_pos cl (l ! i))"
      "hipos acc1 = (if switch_pos cl (l ! i) > swmaxpos acc then i else hipos acc)"
  shows "switch_inv E cl l (Suc i) acc1"
proof -
  note d = assms(1) [unfolded switch_inv_def]
  have "swmax acc1 \<noteq> 0 \<longrightarrow> hiseq acc1 < Suc i \<and> switch_read E cl (l ! hiseq acc1) \<and> switch_seq cl (l ! hiseq acc1) = swmax acc1"
    using d assms(2,4,5) by (cases "switch_seq cl (l ! i) > swmax acc") (auto simp: max_def)
  moreover have "swmaxpos acc1 \<noteq> 0 \<longrightarrow> hipos acc1 < Suc i \<and> switch_read E cl (l ! hipos acc1) \<and> switch_pos cl (l ! hipos acc1) = swmaxpos acc1"
    using d assms(2,6,7) by (cases "switch_pos cl (l ! i) > swmaxpos acc") (auto simp: max_def)
  moreover have "\<not> IsInPreferedHosts cl (srv cl (l ! j)) \<and> switch_seq cl (l ! j) \<le> swmax acc1 \<and> switch_pos cl (l ! j) \<le> swmaxpos acc1"
    if "j < Suc i" "switch_read E cl (l ! j)" for j
    using d assms(3,4,6) that by (cases "j = i") (auto intro: max.coboundedI1)
  ultimately show ?thesis
    by (simp add: switch_inv_def)
qed

lemma switch_inv_skip:
  "switch_inv E cl l i acc \<Longrightarrow> \<not> switch_read E cl (l ! i) \<Longrightarrow> switch_inv E cl l (Suc i) acc"
  by (auto simp: switch_inv_def less_Suc_eq)

lemma switch_inv_cong: "same_view a b \<Longrightarrow> switch_inv E b l i acc = switch_inv E a l i acc"
  by (simp add: switch_inv_def switch_cong same_view_fields)

lemma switch_loop_inv:
  assumes "switch_loop E i xs acc cl = Some (c, cl1)" "l = pre @ xs" "i = length pre"
    "switch_inv E cl l i acc"
  shows "same_view cl cl1 \<and>
    (case c of Ret k \<Rightarrow> k < length l \<and> switch_ok E cl (l ! k) \<and> IsInPreferedHosts cl (srv cl (l ! k))
     | Cont acc1 \<Rightarrow> switch_inv E cl l (length l) acc1)"
  using assms
proof (induction xs arbitrary: i pre acc cl)
  case Nil
  then show ?case by auto
next
  case (Cons x xs)
  from Cons.prems(1) obtain c2 cl2 where s: "switch_step E i x acc cl = Some (c2, cl2)"
    by (auto split: option.splits)
  have x: "l ! i = x" "i < length l"
    using Cons.prems(2,3) by (auto simp: nth_append)
  have step: ?case if c: "c2 = Cont acc2" and v: "same_view cl cl2" and inv: "switch_inv E cl l (Suc i) acc2" for acc2
  proof -
    have "switch_loop E (Suc i) xs acc2 cl2 = Some (c, cl1)"
      using Cons.prems(1) s c by simp
    from Cons.IH [OF this, of "pre @ [x]"] Cons.prems(2,3) inv switch_inv_cong [OF v]
    have IH: "same_view cl2 cl1"
      "(case c of Ret k \<Rightarrow> k < length l \<and> switch_ok E cl2 (l ! k) \<and> IsInPreferedHosts cl2 (srv cl2 (l ! k))
        | Cont acc1 \<Rightarrow> switch_inv E cl2 l (length l) acc1)"
      by simp_all
    have "same_view cl cl1"
      by (rule same_view_trans [OF v IH(1)])
    with IH(2) show ?thesis
      by (simp add: switch_cong [OF v] switch_inv_cong [OF v] same_view_fields [OF v] split: ctl.splits)
  qed
  from s show ?case
  proof (cases rule: switch_step_cases)
    case skip
    with switch_inv_skip [OF Cons.prems(4)] x step show ?thesis
      by blast
  next
    case preferred
    with Cons.prems(1) s x show ?thesis
      by auto
  next
    case (read acc2)
    with switch_inv_step [OF Cons.prems(4), of acc2] x step show ?thesis
      by simp
  qed
qed

lemma electSwitchoverCandidate_spec:
  assumes "electSwitchoverCandidate E l cl = Some (r, cl')"
  shows "same_view cl cl' \<and> (case r of
      None \<Rightarrow> \<forall>x \<in> set l. switch_read E cl x \<longrightarrow> switch_seq cl x = 0 \<and> switch_pos cl x = 0
    | Some k \<Rightarrow> k < length l \<and> switch_ok E cl (l ! k) \<and>
        (IsInPreferedHosts cl (srv cl (l ! k)) \<or>
         (\<forall>x \<in> set l. switch_read E cl x \<longrightarrow> \<not> IsInPreferedHosts cl (srv cl x) \<and>
            switch_seq cl x \<le> switch_seq cl (l ! k) \<and>
            (switch_seq cl (l ! k) = 0 \<longrightarrow> switch_pos cl x \<le> switch_pos cl (l ! k)))))"
proof -
  define a0 where "a0 = \<lparr>hipos = 0, hiseq = 0, swmax = 0, swmaxpos = 0\<rparr>"
  from assms obtain c where loop: "switch_loop E 0 l a0 cl = Some (c, cl')"
    by (auto simp: electSwitchoverCandidate_def a0_def split: option.splits ctl.splits)
  have "switch_inv E cl l 0 a0"
    by (simp add: switch_inv_def a0_def)
  from switch_loop_inv [OF loop _ _ this, of "[]"] have v: "same_view cl cl'" and
    c: "case c of Ret k \<Rightarrow> k < length l \<and> switch_ok E cl (l ! k) \<and> IsInPreferedHosts cl (srv cl (l ! k))
     | Cont acc1 \<Rightarrow> switch_inv E cl l (length l) acc1"
    by simp_all
  show ?thesis
  proof (cases c)
    case (Ret k)
    with assms loop c v show ?thesis
      by (auto simp: electSwitchoverCandidate_def a0_def)
  next
    case (Cont acc)
    then have r: "r = (if swmax acc > 0 then Some (hiseq acc) else if swmaxpos acc > 0 then Some (hipos acc) else None)"
      using assms loop by (simp add: electSwitchoverCandidate_def a0_def)
    have inv: "switch_inv E cl l (length l) acc"
      using c Cont by simp
    have all: "\<not> IsInPreferedHosts cl (srv cl x) \<and> switch_seq cl x \<le> swmax acc \<and> switch_pos cl x \<le> swmaxpos acc"
      if "x \<in> set l" "switch_read E cl x" for x
      using inv that by (auto simp: switch_inv_def in_set_conv_nth)
    consider (seq) "swmax acc > 0" | (pos) "swmax acc = 0" "swmaxpos acc > 0" | (none) "swmax acc = 0" "swmaxpos acc = 0"
      by (auto simp: word_gt_0)
    then show ?thesis
    proof cases
      case seq
      with inv r v all show ?thesis
        by (auto simp: switch_inv_def switch_read_def word_gt_0)
    next
      case pos
      with inv r v all show ?thesis
        by (fastforce simp: switch_inv_def switch_read_def word_gt_0)
    next
      case none
      with r v all show ?thesis
        by fastforce
    qed
  qed
qed

section \<open>Elections of the other topologies\<close>

definition galera_ok :: "cluster \<Rightarrow> sid \<Rightarrow> bool" where
  "galera_ok cl x \<longleftrightarrow>
     (let sl = srv cl x
      in State sl = stateWsrep \<and> URL sl \<noteq> URL (srv cl (the (vmaster cl))) \<and>
         \<not> IsRelay sl \<and> \<not> IsFull sl \<and> (HaveNoMasterOnStart sl \<longrightarrow> FailRestartUnsafe (Conf cl)) \<and>
         (HasBinlog sl \<or> IsIgnored sl))"

lemma fo_step_galera:
  assumes "galera cl"
  shows "\<exists>c cl1. fo_step E i x acc cl = Some (c, cl1) \<and> same_view cl cl1 \<and>
    (if galera_ok cl x then c = Ret i else \<exists>t. c = Cont (t, acc))"
  using assms
  by (auto simp: fo_step_def galera_def galera_ok_def Let_def view)

lemma galera_ok_cong: "same_view a b \<Longrightarrow> galera_ok b x = galera_ok a x"
  by (simp add: galera_ok_def same_view_fields)

lemma fo_loop_galera:
  assumes "galera cl"
  shows "\<exists>c cl1. fo_loop E i xs ts acc cl = Some (c, cl1) \<and>
    (case find_index (galera_ok cl) xs of
       Some j \<Rightarrow> c = Ret (i + j) | None \<Rightarrow> \<exists>ts'. c = Cont (ts', acc))"
  using assms
proof (induction xs arbitrary: i ts cl)
  case Nil
  then show ?case by simp
next
  case (Cons x xs)
  obtain c cl1 where s: "fo_step E i x acc cl = Some (c, cl1)" and v: "same_view cl cl1" and
    c: "if galera_ok cl x then c = Ret i else \<exists>t. c = Cont (t, acc)"
    using fo_step_galera [OF Cons.prems] by blast
  show ?case
  proof (cases "galera_ok cl x")
    case True
    with s c show ?thesis by simp
  next
    case False
    with c obtain t where "c = Cont (t, acc)" by auto
    moreover have "galera_ok cl1 = galera_ok cl"
      using galera_ok_cong [OF v] by auto
    ultimately show ?thesis
      using Cons.IH [of cl1 "Suc i" "ts @ [t]"] Cons.prems galera_cong [OF v] s False
      by (cases "find_index (galera_ok cl) xs") auto
  qed
qed

lemma virtual_loop_spec:
  "fst (virtual_loop oldId i xs cl) =
     map_option (\<lambda>j. i + j)
       (find_index (\<lambda>x. \<not> IsIgnored (srv cl x) \<and> State (srv cl x) \<noteq> stateFailed \<and> ServerID (srv cl x) \<noteq> oldId) xs)"
proof (induction xs arbitrary: i cl)
  case (Cons x xs)
  have "srv (set_state k ty a f u cl) = srv cl" for k ty a f u
    by (simp add: set_state_def Cluster_SetState_def)
  with Cons.IH show ?case
    by (auto simp: Let_def option.map_comp comp_def)
qed simp

section \<open>Properties of the elections\<close>



text \<open>C31: no replica whose position is read is ahead of the elected one: the elected server has the
  greatest GTID sequence, and where no replica has one, the greatest binary log coordinates. A
  replica that is ahead but not electable makes the election fail instead of losing its
  transactions.\<close>

theorem failover_candidate_most_advanced:
  assumes "map_option fst (electFailoverCandidate E l cl) = Some (Some k)"
    and "\<not> galera cl" and "master cl = Some mi" and "x \<in> set l"
  shows "reach_seq cl mi x \<le> reach_seq cl mi (l ! k) \<and>
    (reach_seq cl mi (l ! k) = 0 \<longrightarrow> reach_pos cl x \<le> reach_pos cl (l ! k))"
  using assms electFailoverCandidate_spec [of E l cl "Some k"]
  by (auto simp: best_candidate_def)

theorem failover_candidate_most_advanced_witness:
  "reach_seq sample_cluster 0 1 = 41 \<and> reach_seq sample_cluster 0 2 = 42 \<and>
   reach_seq sample_cluster 0 1 \<le> reach_seq sample_cluster 0 ([1, 2] ! 1)"
proof -
  have "map_option fst (electFailoverCandidate calm_env [1, 2] sample_cluster) = Some (Some 1)"
    "\<not> galera sample_cluster" "master sample_cluster = Some 0" "1 \<in> set [1, 2 :: nat]"
    by code_simp+
  from failover_candidate_most_advanced [OF this]
  have "reach_seq sample_cluster 0 1 \<le> reach_seq sample_cluster 0 ([1, 2] ! 1)"
    by simp
  moreover have "reach_seq sample_cluster 0 1 = 41" "reach_seq sample_cluster 0 2 = 42"
    by code_simp+
  ultimately show ?thesis
    by simp
qed

text \<open>C32: a failover election that completes leaves no safe choice unused: it returns no candidate exactly when
  no replica is both safe and as advanced as every replica read, and among several such replicas it
  takes a preferred one if there is one.\<close>

theorem failover_election_complete:
  assumes "map_option fst (electFailoverCandidate E l cl) = Some r"
    and "\<not> galera cl" and "master cl = Some mi"
  shows "(r = None \<longleftrightarrow> (\<nexists>j. best_candidate E cl mi l j)) \<and>
    (\<forall>k. r = Some k \<longrightarrow> (\<exists>j. best_candidate E cl mi l j \<and> IsPrefered (srv cl (l ! j))) \<longrightarrow>
       IsPrefered (srv cl (l ! k)))"
  using assms electFailoverCandidate_spec [of E l cl r]
  by (cases r) auto

theorem failover_election_complete_witness:
  "\<exists>j. best_candidate calm_env sample_cluster 0 [1, 2] j"
proof -
  have "map_option fst (electFailoverCandidate calm_env [1, 2] sample_cluster) = Some (Some 1)"
    "\<not> galera sample_cluster" "master sample_cluster = Some 0"
    by code_simp+
  from failover_election_complete [OF this] show ?thesis
    by simp
qed

text \<open>C33: the switchover election returns a candidate that passes every switchover test and is safe to
  promote. It is a configured preferred host, or else no preferred host could be read and no readable candidate has a greater GTID
  sequence, nor greater coordinates when there are no sequences.\<close>

theorem switchover_candidate_correct:
  assumes "map_option fst (electSwitchoverCandidate E l cl) = Some (Some k)"
  shows "k < length l \<and> switch_ok E cl (l ! k) \<and>
    (IsInPreferedHosts cl (srv cl (l ! k)) \<or>
     (\<forall>x \<in> set l. switch_read E cl x \<longrightarrow> \<not> IsInPreferedHosts cl (srv cl x) \<and>
        switch_seq cl x \<le> switch_seq cl (l ! k) \<and>
        (switch_seq cl (l ! k) = 0 \<longrightarrow> switch_pos cl x \<le> switch_pos cl (l ! k))))"
  using assms electSwitchoverCandidate_spec [of E l cl "Some k"] by auto

definition sample_live :: cluster where
  "sample_live = sample_cluster\<lparr>srv := (\<lambda>i. if i = 0 then sample_server ''db0'' 1 stateMaster
     else (srv sample_cluster i)\<lparr>SlaveGtid := [\<lparr>DomainID = 0, GServerID = 1, SeqNo = 42\<rparr>]\<rparr>)\<rparr>"

theorem switchover_candidate_correct_witness:
  "0 < length [1, 2 :: nat] \<and> switch_ok calm_env sample_live ([1, 2] ! 0)"
proof -
  have "map_option fst (electSwitchoverCandidate calm_env [1, 2] sample_live) = Some (Some 0)"
    by code_simp
  from switchover_candidate_correct [OF this] show ?thesis
    by blast
qed

text \<open>On a Galera cluster the failover election never fails to complete and elects the first synced
  node that is not the current virtual master; it finds none exactly when there is none.\<close>

theorem galera_candidate_first_synced:
  assumes "galera cl"
  shows "map_option fst (electFailoverCandidate E l cl) = Some (find_index (galera_ok cl) l)"
  using fo_loop_galera [OF assms, of E 0 l "[]" "\<lparr>maxseq = 0, maxpos = 0, HaveOneValidReader = False\<rparr>"]
  by (auto simp: electFailoverCandidate_def fo_choose_def split: option.splits)

theorem galera_candidate_first_synced_witness:
  "map_option fst (electFailoverCandidate calm_env [0, 1, 2]
     (sample_cluster\<lparr>Topology := TopoMultiMasterWsrep, master := None, vmaster := Some 0,
        srv := (\<lambda>i. (srv sample_cluster i)\<lparr>State := stateWsrep\<rparr>)\<rparr>)) = Some (Some 1)"
proof -
  define c where "c = sample_cluster\<lparr>Topology := TopoMultiMasterWsrep, master := None, vmaster := Some 0,
        srv := (\<lambda>i. (srv sample_cluster i)\<lparr>State := stateWsrep\<rparr>)\<rparr>"
  have "galera c"
    by (simp add: c_def galera_def GetTopology_def)
  from galera_candidate_first_synced [OF this, of calm_env "[0, 1, 2]"]
  have "map_option fst (electFailoverCandidate calm_env [0, 1, 2] c) = Some (find_index (galera_ok c) [0, 1, 2])" .
  moreover have "find_index (galera_ok c) [0, 1, 2] = Some 1"
    unfolding c_def by code_simp
  ultimately show ?thesis
    by (simp add: c_def)
qed

text \<open>In a multi-master ring the candidate is the first server of the cluster's server list that is
  neither ignored nor failed and is not the old master.\<close>

theorem virtual_candidate_first_alive:
  "fst (electVirtualCandidate om cl) =
     find_index (\<lambda>x. \<not> IsIgnored (srv cl x) \<and> State (srv cl x) \<noteq> stateFailed \<and>
       ServerID (srv cl x) \<noteq> ServerID (srv cl om)) (Servers cl)"
  by (simp add: electVirtualCandidate_def virtual_loop_spec option.map_ident)

end
