(* ===== verification/Crash.thy ===== *)
theory Crash
  imports Sample
begin

text \<open>
  The records of past failovers, \<open>src/cluster/crash.go\<close>: the in-memory lists that a rejoining server is
  matched against, the bounded history, and the purge of the saved files.
\<close>

section \<open>Operations\<close>

definition crashList_Purge :: "int \<Rightarrow> 'a list \<Rightarrow> 'a list" where
  "crashList_Purge keep xs =
     (if keep \<le> 0 then []
      else if int (length xs) > keep then drop (length xs - nat keep) xs else xs)"

definition StoreLastN :: "'a \<Rightarrow> int \<Rightarrow> 'a list \<Rightarrow> 'a list" where
  "StoreLastN cr keep xs = crashList_Purge keep (xs @ [cr])"

definition GetLatest :: "'a list \<Rightarrow> 'a option" where
  "GetLatest xs = (if length xs < 1 then None else Some (xs ! (length xs - 1)))"

definition getCrashFromJoiner :: "string \<Rightarrow> cluster \<Rightarrow> crash option" where
  "getCrashFromJoiner url cl = find (\<lambda>cr. CrURL cr = url) (Crashes cl)"

definition getCrashFromMaster :: "string \<Rightarrow> cluster \<Rightarrow> crash option" where
  "getCrashFromMaster url cl = find (\<lambda>cr. CrElectedMasterURL cr = url) (Crashes cl)"

text \<open>Removal of the first record of the same server; the last record takes its place.\<close>

definition crash_delete :: "crash \<Rightarrow> crash list \<Rightarrow> crash list" where
  "crash_delete cr xs =
     (case find_index (\<lambda>s. CrURL cr = CrURL s) xs of None \<Rightarrow> xs | Some k \<Rightarrow> swap_remove k xs)"

text \<open>
  The files of a directory listing, in order, that survive the purge: the files named \<open>failover...\<close> are
  numbered from 1 and removed while their number is below \<open>len(drop) - keep\<close>.
\<close>

fun number_files :: "int \<Rightarrow> string list \<Rightarrow> (string \<times> int option) list" where
  "number_files i [] = []"
| "number_files i (f # fs) =
     (if prefix ''failover'' f then (f, Some (i + 1)) # number_files (i + 1) fs
      else (f, None) # number_files i fs)"

definition crash_Purge :: "int \<Rightarrow> string list \<Rightarrow> string list" where
  "crash_Purge keep files =
     (let n = int (length (filter (prefix ''failover'') files))
      in map fst (filter (\<lambda>(f, v). case v of None \<Rightarrow> True | Some k \<Rightarrow> \<not> k < n - keep) (number_files 0 files)))"

section \<open>Lemmas\<close>

lemma crashList_Purge_suffix: "suffix (crashList_Purge keep xs) xs"
  by (auto simp: crashList_Purge_def suffix_drop)

lemma length_crashList_Purge: "length (crashList_Purge keep xs) = min (length xs) (nat keep)"
  by (auto simp: crashList_Purge_def min_def)

lemma crashList_Purge_append:
  assumes "0 < keep"
  shows "crashList_Purge keep (crashList_Purge keep xs @ ys) = crashList_Purge keep (xs @ ys)"
proof -
  have "drop (length (drop n xs @ ys) - k) (drop n xs @ ys) = drop (length (xs @ ys) - k) (xs @ ys)"
    if "n = length xs - k" "k < length xs" for n k
    using that by (simp add: add.commute)
  then show ?thesis
    using assms by (auto simp: crashList_Purge_def)
qed

lemma fold_StoreLastN:
  assumes "0 < keep"
  shows "fold (\<lambda>cr h. StoreLastN cr keep h) crs (crashList_Purge keep h) = crashList_Purge keep (h @ crs)"
proof (induction crs arbitrary: h)
  case (Cons cr crs)
  have "StoreLastN cr keep (crashList_Purge keep h) = crashList_Purge keep (h @ [cr])"
    using assms by (simp add: StoreLastN_def crashList_Purge_append)
  with Cons.IH [of "h @ [cr]"] show ?case
    by simp
qed simp

lemma number_files_fst: "map fst (number_files i fs) = fs"
  by (induction fs arbitrary: i) auto

lemma number_files_count:
  "int (length (filter (\<lambda>(f, v). prefix ''failover'' f \<and> (case v of None \<Rightarrow> True | Some k \<Rightarrow> \<not> k < m))
     (number_files i fs))) =
   max 0 (min (int (length (filter (prefix ''failover'') fs)))
     (i + int (length (filter (prefix ''failover'') fs)) - m + 1))"
  by (induction fs arbitrary: i) auto

section \<open>Properties\<close>

text \<open>Whatever sequence of failovers is recorded, the history holds exactly the last \<open>keep\<close> of them in order
  (all of them while fewer), and its latest entry is the last one recorded.\<close>

theorem failover_history_last_n:
  assumes "0 < keep" and "crs \<noteq> []"
  shows "let h = fold (\<lambda>cr h. StoreLastN cr keep h) crs []
         in h = drop (length crs - nat keep) crs \<and> length h = min (length crs) (nat keep) \<and>
            GetLatest h = Some (last crs)"
proof -
  have h: "fold (\<lambda>cr h. StoreLastN cr keep h) crs [] = crashList_Purge keep crs"
    using fold_StoreLastN [OF assms(1), of crs "[]"] assms(1) by (simp add: crashList_Purge_def)
  have d: "crashList_Purge keep crs = drop (length crs - nat keep) crs"
    using assms(1) by (auto simp: crashList_Purge_def)
  have "crashList_Purge keep crs \<noteq> []"
    using length_crashList_Purge [of keep crs] assms by (auto simp flip: length_greater_0_conv)
  then have "GetLatest (crashList_Purge keep crs) = Some (last (crashList_Purge keep crs))"
    by (simp add: GetLatest_def last_conv_nth Suc_le_eq)
  also have "last (crashList_Purge keep crs) = last crs"
    using d \<open>crashList_Purge keep crs \<noteq> []\<close> by simp
  finally show ?thesis
    using h d length_crashList_Purge [of keep crs] by (simp add: Let_def)
qed

theorem failover_history_last_n_witness:
  "fold (\<lambda>cr h. StoreLastN cr 2 h) [''a'', ''b'', ''c''] [] = [''b'', ''c'']"
proof -
  have "(0 :: int) < 2" "[''a'', ''b'', ''c''] \<noteq> []" by simp_all
  from failover_history_last_n [OF this] show ?thesis
    by (simp add: Let_def)
qed

text \<open>Deleting a crash record removes exactly one record, one of the same server, and keeps all the
  others, possibly reordered; with no record of that server nothing changes.\<close>

theorem crash_delete_removes_one:
  "if list_ex (\<lambda>s. CrURL s = CrURL cr) xs
   then \<exists>s. CrURL s = CrURL cr \<and> s \<in># mset xs \<and> mset (crash_delete cr xs) = mset xs - {# s #}
   else crash_delete cr xs = xs"
proof (cases "find_index (\<lambda>s. CrURL cr = CrURL s) xs")
  case None
  then have "crash_delete cr xs = xs"
    by (simp add: crash_delete_def)
  moreover have "\<not> list_ex (\<lambda>s. CrURL s = CrURL cr) xs"
    using None by (auto simp: find_index_None_iff list_ex_iff)
  ultimately show ?thesis
    by simp
next
  case (Some k)
  then have "k < length xs" "CrURL cr = CrURL (xs ! k)"
    by (simp_all add: find_index_Some_iff)
  moreover from this have "list_ex (\<lambda>s. CrURL s = CrURL cr) xs"
    by (auto simp: list_ex_iff intro!: bexI [of _ "xs ! k"])
  moreover have "crash_delete cr xs = swap_remove k xs"
    using Some by (simp add: crash_delete_def)
  ultimately show ?thesis
    by (auto simp: mset_swap_remove intro!: exI [of _ "xs ! k"])
qed

text \<open>The purge of the saved failover files, configured to keep \<open>keep\<close> of them, keeps one more: after it
  the smaller of the number of such files and \<open>keep + 1\<close> remain.\<close>

theorem crash_files_kept_one_too_many:
  assumes "0 \<le> keep"
  shows "int (length (filter (prefix ''failover'') (crash_Purge keep files))) =
    min (int (length (filter (prefix ''failover'') files))) (keep + 1)"
proof -
  define n where "n = int (length (filter (prefix ''failover'') files))"
  have "filter (prefix ''failover'') (crash_Purge keep files) =
    map fst (filter (\<lambda>(f, v). prefix ''failover'' f \<and> (case v of None \<Rightarrow> True | Some k \<Rightarrow> \<not> k < n - keep))
      (number_files 0 files))"
    unfolding crash_Purge_def Let_def n_def [symmetric] filter_map comp_def filter_filter
    by (rule arg_cong [where f = "map fst"], rule filter_cong) auto
  then have "int (length (filter (prefix ''failover'') (crash_Purge keep files))) =
    max 0 (min n (0 + n - (n - keep) + 1))"
    using number_files_count [of "n - keep" 0 files] by (simp add: n_def)
  then show ?thesis
    using assms by (simp add: n_def)
qed

theorem crash_files_kept_one_too_many_witness:
  "length (filter (prefix ''failover'') (crash_Purge 1 [''failover.1.json'', ''failover.2.json'', ''failover.3.json''])) = 2"
proof -
  have "(0 :: int) \<le> 1" by simp
  from crash_files_kept_one_too_many [OF this, of "[''failover.1.json'', ''failover.2.json'', ''failover.3.json'']"]
  show ?thesis by simp
qed

end
