(* ===== verification/ServerOps.thy ===== *)
theory ServerOps
  imports Election Crash
begin

text \<open>
  The operations on one server that a leader change uses, \<open>src/cluster/srv.go\<close>, \<open>src/cluster/srv_set.go\<close>
  and \<open>src/cluster/srv_wait.go\<close>: changing its state, its read-only mode and its replication, freezing the old
  master, and waiting for a candidate to apply its relay log.

  Every command is appended to the trace; whether it succeeds is an answer of the environment. The two wait
  loops of \<open>ReadAllRelayLogs\<close> have no bound in the code: they are partial functions, \<open>None\<close> when they never
  return or when a malformed GTID position panics.
\<close>

section \<open>Commands and their answers\<close>

definition run :: "dbenv \<Rightarrow> dbop \<Rightarrow> cluster \<Rightarrow> bool \<times> cluster" where
  "run E o1 cl = (CmdOk E (length (trace cl)) o1, emit o1 cl)"

text \<open>\<open>Refresh\<close> replaces the monitor's view of a server; its address and identifier are fixed.\<close>

definition Refresh :: "dbenv \<Rightarrow> sid \<Rightarrow> cluster \<Rightarrow> cluster" where
  "Refresh E i cl =
     upd_srv i (\<lambda>s. (RefreshAnswer E (length (trace cl)) i s)\<lparr>URL := URL s, Id := Id s, Host := Host s, Port := Port s,
         maxConn := maxConn s\<rparr>)
       (emit (OpRefresh i) cl)"

section \<open>State\<close>

definition Server_SetState :: "sid \<Rightarrow> string \<Rightarrow> cluster \<Rightarrow> cluster" where
  "Server_SetState i st cl =
     upd_srv i (\<lambda>s. s\<lparr>State := st\<rparr>)
       (if PrevState (srv cl i) \<noteq> st \<and> DbServersChangeStateScript (Conf cl) \<noteq> ''''
        then emit (OpStateScript i st (PrevState (srv cl i))) cl else cl)"

definition SetMaster :: "sid \<Rightarrow> cluster \<Rightarrow> cluster" where
  "SetMaster i cl =
     fold (\<lambda>j. upd_srv j (\<lambda>s. s\<lparr>HaveNoMasterOnStart := False\<rparr>)) (Servers cl)
       (Server_SetState i stateMaster cl)"

definition SetMaintenance :: "sid \<Rightarrow> cluster \<Rightarrow> cluster" where
  "SetMaintenance i cl =
     emit (OpProxyMaintenance (ServerID (srv cl i))) (upd_srv i (\<lambda>s. s\<lparr>IsMaintenance := True\<rparr>) cl)"

section \<open>Semi-synchronous replication and read-only mode\<close>

definition IsSemiSyncMaster :: "server \<Rightarrow> bool" where
  "IsSemiSyncMaster s \<longleftrightarrow>
     Status s ''RPL_SEMI_SYNC_MASTER_STATUS'' = ''ON'' \<or> Status s ''RPL_SEMI_SYNC_SOURCE_STATUS'' = ''ON''"

definition IsSemiSyncReplica :: "server \<Rightarrow> bool" where
  "IsSemiSyncReplica s =
     (if IsMySQLOrPercona (DBVersion s) \<and> GreaterEqual (DBVersion s) ''8.0'' = Some True
      then Status s ''RPL_SEMI_SYNC_SLAVE_STATUS'' = ''ON'' \<or> Status s ''RPL_SEMI_SYNC_REPLICA_STATUS'' = ''ON''
      else if IsMariaDB (DBVersion s) \<or> IsMySQLOrPercona (DBVersion s) \<and> Lower (DBVersion s) ''8.0'' = Some True
      then Status s ''RPL_SEMI_SYNC_SLAVE_STATUS'' = ''ON''
      else False)"

definition SetSemiSyncReplica :: "sid \<Rightarrow> cluster \<Rightarrow> cluster" where
  "SetSemiSyncReplica i cl = (if \<not> IsSemiSyncReplica (srv cl i) then emit (OpSemiSyncSlave i) cl else cl)"

definition SetSemiSyncLeader :: "sid \<Rightarrow> cluster \<Rightarrow> cluster" where
  "SetSemiSyncLeader i cl = (if \<not> IsSemiSyncMaster (srv cl i) then emit (OpSemiSyncMaster i) cl else cl)"

definition SetReadOnly :: "dbenv \<Rightarrow> sid \<Rightarrow> cluster \<Rightarrow> bool \<times> cluster" where
  "SetReadOnly E i cl =
     (let s = srv cl i;
          (ok, cl1) = (if \<not> IsReadOnly s then run E (OpSetReadOnly i True) cl else (True, cl))
      in if \<not> ok then (False, cl1)
         else if HasSuperReadOnlyCapability s \<and> SuperReadOnly (Conf cl) then run E (OpSetSuperReadOnly i True) cl1
         else (True, cl1))"

definition SetReadWrite :: "dbenv \<Rightarrow> sid \<Rightarrow> cluster \<Rightarrow> bool \<times> cluster" where
  "SetReadWrite E i cl =
     (let s = srv cl i
      in if Arbitration (Conf cl) \<and> IsFailedArbitrator cl then (False, cl)
         else
           let (ok, cl1) = (if IsReadOnly s then run E (OpSetReadOnly i False) cl else (True, cl))
           in if \<not> ok then (False, cl1)
              else if HasSuperReadOnlyCapability s then run E (OpSetSuperReadOnly i False) cl1
              else (True, cl1))"

section \<open>Replication\<close>

definition StopSlave :: "sid \<Rightarrow> cluster \<Rightarrow> cluster" where
  "StopSlave i cl = (if HasConn (srv cl i) then emit (OpStopSlave i (MasterConn (Conf cl))) cl else cl)"

definition StartSlave :: "sid \<Rightarrow> cluster \<Rightarrow> cluster" where
  "StartSlave i cl = (if HasConn (srv cl i) then emit (OpStartSlave i (MasterConn (Conf cl))) cl else cl)"

definition ResetSlave :: "sid \<Rightarrow> cluster \<Rightarrow> cluster" where
  "ResetSlave i cl = emit (OpResetSlave i (MasterConn (Conf cl))) cl"

definition StopAllSlaves :: "sid \<Rightarrow> cluster \<Rightarrow> cluster" where
  "StopAllSlaves i cl =
     (if HasConn (srv cl i)
      then fold (\<lambda>rep. emit (OpStopSlave i (ConnectionName rep))) (Replications (srv cl i)) cl else cl)"

definition WaitSyncToMaster :: "sid \<Rightarrow> sid \<Rightarrow> cluster \<Rightarrow> cluster" where
  "WaitSyncToMaster i m cl =
     (if Flavor (DBVersion (srv cl i)) = ''MariaDB''
      then emit (OpMasterWaitGTID i (Sprint (GTIDBinlogPos (srv cl m)))) cl
      else emit (OpMasterPosWait i (BinaryLogFile (srv cl m)) (BinaryLogPos (srv cl m)) (MasterConn (Conf cl))) cl)"

section \<open>Freezing the old master\<close>

text \<open>The wait for running writes: one look every 500 ms of the budget, until none is running.\<close>

function wait_writes :: "dbenv \<Rightarrow> sid \<Rightarrow> int \<Rightarrow> cluster \<Rightarrow> cluster" where
  "wait_writes E i n cl =
     (if n > 0 then
        if LongWrites E (length (trace cl)) i = 0 then emit (OpCheckLongRunningWrites i) cl
        else wait_writes E i (n - 500) (emit (OpCheckLongRunningWrites i) cl)
      else cl)"
  by pat_completeness auto
termination
  by (relation "measure (\<lambda>(_, _, n, _). nat n)") auto

declare wait_writes.simps [simp del]

definition freeze_events :: "sid \<Rightarrow> cluster \<Rightarrow> cluster" where
  "freeze_events i cl =
     (let cl1 = (if FailEventScheduler (Conf cl) then emit (OpEventScheduler i False) cl else cl)
      in if FailEventStatus (Conf cl)
         then fold (\<lambda>v. emit (OpEventStatus i v 3)) (filter (\<lambda>v. EvStatus v = 3) (EventStatus (srv cl i))) cl1
         else cl1)"

definition freeze_connections :: "dbenv \<Rightarrow> sid \<Rightarrow> cluster \<Rightarrow> cluster" where
  "freeze_connections E i cl =
     (let (ok, cl1) = run E (OpGetMaxConnections i) cl;
          cl2 = upd_srv i (\<lambda>s. s\<lparr>maxConn := (if ok then MaxConnections E i else '''')\<rparr>) cl1;
          cl3 = (if ok \<and> SwitchDecreaseMaxConn (Conf cl)
                 then emit (OpSetMaxConnections i (dec_int (SwitchDecreaseMaxConnValue (Conf cl)))) cl2 else cl2)
      in emit (OpFlushBinaryLogs i) (emit (OpFlushTablesWithReadLock i) (emit (OpKillThreads i) cl3)))"

definition freeze :: "dbenv \<Rightarrow> sid \<Rightarrow> cluster \<Rightarrow> bool \<times> cluster" where
  "freeze E i cl =
     (case run E (OpSetReadOnly i True) (StopAllSlaves i (freeze_events i cl)) of
        (False, cl1) \<Rightarrow> (False, cl1)
      | (True, cl1) \<Rightarrow>
          (let cl2 = freeze_connections E i (wait_writes E i (SwitchWaitKill (Conf cl)) cl1)
           in (True, if FailoverSemiSyncState (Conf cl) then SetSemiSyncReplica i cl2 else cl2)))"

section \<open>Applying the relay log\<close>

definition ask_status :: "dbenv \<Rightarrow> sid \<Rightarrow> string \<Rightarrow> cluster \<Rightarrow> slave_status option \<times> cluster" where
  "ask_status E i ch cl = (SlaveStatusAnswer E (length (trace cl)) i, emit (OpShowSlaveStatus i ch) cl)"

partial_function (option) relay_gtid_wait ::
  "dbenv \<Rightarrow> sid \<Rightarrow> slave_status \<Rightarrow> cluster \<Rightarrow> (bool \<times> cluster) option" where
  "relay_gtid_wait E i ss cl =
     (case NewList (GtidIOPos ss) of None \<Rightarrow> None | Some io \<Rightarrow>
       let (eq, l, _) = Equal (SlaveGtid (srv cl i)) io;
           cl0 = upd_srv i (\<lambda>s. s\<lparr>SlaveGtid := l\<rparr>) cl
       in if \<not> eq \<and> UsingGtid ss \<noteq> '''' \<and> GtidSlavePos ss \<noteq> '''' \<and> State (srv cl i) \<noteq> stateFailed
          then case ask_status E i (MasterConn (Conf cl)) (Refresh E i cl0) of
              (None, cl1) \<Rightarrow> Some (False, cl1)
            | (Some ss1, cl1) \<Rightarrow> relay_gtid_wait E i ss1 cl1
          else Some (True, cl0))"

partial_function (option) relay_pos_wait ::
  "dbenv \<Rightarrow> sid \<Rightarrow> slave_status \<Rightarrow> cluster \<Rightarrow> (bool \<times> cluster) option" where
  "relay_pos_wait E i ss cl =
     (if MasterLogFile ss = RelayMasterLogFile ss \<and> ReadMasterLogPos ss = ExecMasterLogPos ss
      then Some (True, cl)
      else case ask_status E i (MasterConn (Conf cl)) cl of
          (None, cl1) \<Rightarrow> Some (False, cl1)
        | (Some ss1, cl1) \<Rightarrow>
            if str_contains (SlaveSQLRunningState ss1) ''Slave has read all relay log'' then Some (True, cl1)
            else relay_pos_wait E i ss1 cl1)"

declare relay_gtid_wait.simps [code]
declare relay_pos_wait.simps [code]

definition ReadAllRelayLogs :: "dbenv \<Rightarrow> sid \<Rightarrow> cluster \<Rightarrow> (bool \<times> cluster) option" where
  "ReadAllRelayLogs E i cl =
     (if IsMariaDB (DBVersion (srv cl i)) \<and> HaveMariaDBGTID (srv cl i)
      then case ask_status E i '''' cl of
          (None, cl1) \<Rightarrow> Some (False, cl1)
        | (Some ss, cl1) \<Rightarrow> relay_gtid_wait E i ss (Refresh E i cl1)
      else case ask_status E i (MasterConn (Conf cl)) cl of
          (None, cl1) \<Rightarrow> Some (False, cl1)
        | (Some ss, cl1) \<Rightarrow> relay_pos_wait E i ss cl1)"

section \<open>Leaving the list of replicas\<close>

definition server_delete :: "sid \<Rightarrow> cluster \<Rightarrow> sid list \<Rightarrow> sid list" where
  "server_delete i cl xs =
     (case find_index (\<lambda>s. URL (srv cl i) = URL (srv cl s)) xs of None \<Rightarrow> xs | Some k \<Rightarrow> swap_remove k xs)"

section \<open>Steps that keep the roles\<close>

text \<open>
  \<open>steps P cl cl'\<close>: going from \<open>cl\<close> to \<open>cl'\<close> no role, setting or counter of the cluster changed and no server
  changed its address; only commands allowed by \<open>P\<close> were sent. Every operation on a server is such a step.
\<close>

definition roles :: "cluster \<Rightarrow> _" where
  "roles cl = (CName cl, Topology cl, Conf cl, Servers cl, slaves cl, (master cl, vmaster cl, oldMaster cl),
     FailoverCtr cl, FailoverTs cl, Crashes cl, FailoverHistory cl, IsInFailover cl, IsFailedArbitrator cl)"

definition steps :: "(dbop \<Rightarrow> bool) \<Rightarrow> cluster \<Rightarrow> cluster \<Rightarrow> bool" where
  "steps P cl cl' \<longleftrightarrow>
     roles cl' = roles cl \<and>
     (\<forall>i. URL (srv cl' i) = URL (srv cl i) \<and> Host (srv cl' i) = Host (srv cl i) \<and> Port (srv cl' i) = Port (srv cl i)) \<and>
     (\<exists>ops. trace cl' = trace cl @ ops \<and> list_all P ops)"

text \<open>The commands that let clients write.\<close>

definition opens_writes :: "dbop \<Rightarrow> bool" where
  "opens_writes o1 \<longleftrightarrow> (\<exists>i. o1 = OpSetReadOnly i False \<or> o1 = OpSetSuperReadOnly i False)"

lemma steps_refl [simp, intro!]: "steps P cl cl"
  by (simp add: steps_def)

lemma steps_trans [trans]: "steps P a b \<Longrightarrow> steps P b c \<Longrightarrow> steps P a c"
  by (fastforce simp: steps_def)

lemma steps_mono: "steps P a b \<Longrightarrow> (\<And>o1. P o1 \<Longrightarrow> Q o1) \<Longrightarrow> steps Q a b"
  by (fastforce simp: steps_def list_all_iff)

lemma steps_fields:
  assumes "steps P a b"
  shows "CName b = CName a" "Topology b = Topology a" "Conf b = Conf a" "Servers b = Servers a"
    "slaves b = slaves a" "master b = master a" "vmaster b = vmaster a" "oldMaster b = oldMaster a"
    "FailoverCtr b = FailoverCtr a" "FailoverTs b = FailoverTs a"
    "Crashes b = Crashes a" "FailoverHistory b = FailoverHistory a" "IsInFailover b = IsInFailover a" "IsFailedArbitrator b = IsFailedArbitrator a"
    "URL (srv b i) = URL (srv a i)" "Host (srv b i) = Host (srv a i)" "Port (srv b i) = Port (srv a i)"
  using assms by (simp_all add: steps_def roles_def)

lemma steps_emit: "P o1 \<Longrightarrow> steps P a b \<Longrightarrow> steps P a (emit o1 b)"
  by (fastforce simp: steps_def emit_def roles_def IsInFailover_def)

lemma steps_upd_srv:
  assumes "\<And>s. URL (f s) = URL s \<and> Host (f s) = Host s \<and> Port (f s) = Port s" "steps P a b"
  shows "steps P a (upd_srv i f b)"
  using assms by (simp add: steps_def upd_srv_def roles_def IsInFailover_def)

lemma steps_same_view:
  assumes "same_view a b" "trace b = trace a @ ops" "list_all P ops"
  shows "steps P a b"
  using assms by (simp add: steps_def same_view_def roles_def)

lemma steps_SetState: "steps P a b \<Longrightarrow> steps P a (Cluster_SetState k s b)"
  by (simp add: steps_def roles_def Cluster_SetState_def IsInFailover_def SM_IsInFailover_def AddState_def Let_def)

lemma steps_set_state: "steps P a b \<Longrightarrow> steps P a (set_state k t args f u b)"
  by (simp add: set_state_def steps_SetState)

lemma srv_SetState [simp]: "srv (Cluster_SetState k s cl) = srv cl" "srv (set_state k t args f u cl) = srv cl"
  "srv (emit o1 cl) = srv cl"
  by (simp_all add: Cluster_SetState_def set_state_def emit_def)

lemma trace_SetState [simp]: "trace (Cluster_SetState k s cl) = trace cl" "trace (set_state k t args f u cl) = trace cl"
  by (simp_all add: Cluster_SetState_def set_state_def)

lemma steps_fold:
  assumes "\<And>x c. x \<in> set xs \<Longrightarrow> steps P c (f x c)" "steps P a b"
  shows "steps P a (fold f xs b)"
  using assms
proof (induction xs arbitrary: b)
  case (Cons x xs)
  have "steps P a (f x b)"
    using steps_trans [OF Cons.prems(2)] Cons.prems(1) by simp
  with Cons show ?case
    by simp
qed simp

lemma steps_run: "P o1 \<Longrightarrow> steps P a b \<Longrightarrow> steps P a (snd (run E o1 b))"
  by (simp add: run_def steps_emit)

lemma steps_Refresh: "P (OpRefresh i) \<Longrightarrow> steps P a b \<Longrightarrow> steps P a (Refresh E i b)"
  by (simp add: Refresh_def steps_upd_srv steps_emit)

lemma steps_Server_SetState:
  "(\<And>o1. op_target o1 = None \<Longrightarrow> P o1) \<Longrightarrow> steps P a b \<Longrightarrow> steps P a (Server_SetState i st b)"
  by (simp add: Server_SetState_def steps_upd_srv steps_emit)

lemma steps_SetMaster:
  "(\<And>o1. op_target o1 = None \<Longrightarrow> P o1) \<Longrightarrow> steps P a b \<Longrightarrow> steps P a (SetMaster i b)"
  unfolding SetMaster_def
  by (intro steps_fold steps_upd_srv steps_Server_SetState) auto

lemma steps_SetMaintenance:
  "(\<And>o1. op_target o1 = None \<Longrightarrow> P o1) \<Longrightarrow> steps P a b \<Longrightarrow> steps P a (SetMaintenance i b)"
  by (simp add: SetMaintenance_def steps_upd_srv steps_emit)

text \<open>The operations that only talk to server \<open>i\<close>.\<close>

lemma steps_server_ops:
  assumes "\<And>o1. op_target o1 = Some i \<Longrightarrow> \<not> opens_writes o1 \<Longrightarrow> P o1" "steps P a b"
  shows "steps P a (SetSemiSyncReplica i b)" "steps P a (SetSemiSyncLeader i b)"
    "steps P a (snd (SetReadOnly E i b))"
    "steps P a (StopSlave i b)" "steps P a (StartSlave i b)" "steps P a (ResetSlave i b)"
    "steps P a (WaitSyncToMaster i m b)" "steps P a (StopAllSlaves i b)" "steps P a (freeze_events i b)"
    "steps P a (freeze_connections E i b)"
  using assms
  by (simp_all add: SetSemiSyncReplica_def SetSemiSyncLeader_def SetReadOnly_def run_def opens_writes_def
      StopSlave_def StartSlave_def ResetSlave_def WaitSyncToMaster_def Let_def steps_emit
      StopAllSlaves_def freeze_events_def freeze_connections_def steps_upd_srv steps_fold)

text \<open>Opening a server does nothing while the arbitrator has refused this manager.\<close>

lemma steps_SetReadWrite:
  assumes "Arbitration (Conf b) \<and> IsFailedArbitrator b \<or> (\<forall>o1. op_target o1 = Some i \<longrightarrow> P o1)" "steps P a b"
  shows "steps P a (snd (SetReadWrite E i b))"
  using assms by (auto simp: SetReadWrite_def run_def Let_def steps_emit)

lemma steps_wait_writes:
  "P (OpCheckLongRunningWrites i) \<Longrightarrow> steps P a b \<Longrightarrow> steps P a (wait_writes E i n b)"
proof (induction E i n b rule: wait_writes.induct)
  case (1 E i n b)
  then show ?case
    by (subst wait_writes.simps) (simp add: steps_emit)
qed

lemma steps_freeze:
  assumes "\<And>o1. op_target o1 = Some i \<Longrightarrow> \<not> opens_writes o1 \<Longrightarrow> P o1" "steps P a b"
  shows "steps P a (snd (freeze E i b))"
  using assms
  by (auto simp: freeze_def run_def Let_def opens_writes_def split: bool.split
      intro!: steps_server_ops steps_wait_writes steps_emit)

lemma steps_relay_gtid_wait:
  assumes "relay_gtid_wait E i ss b = Some (r, c)" "\<And>o1. op_target o1 = Some i \<Longrightarrow> \<not> opens_writes o1 \<Longrightarrow> P o1" "steps P a b"
  shows "steps P a c"
proof -
  have "(\<forall>o1. op_target o1 = Some i \<longrightarrow> \<not> opens_writes o1 \<longrightarrow> P o1) \<longrightarrow> steps P a b \<longrightarrow> steps P a (snd y)"
    if "relay_gtid_wait E i ss b = Some y" for E i ss b y
  proof (rule relay_gtid_wait.raw_induct [where P = "\<lambda>E i ss b y.
      (\<forall>o1. op_target o1 = Some i \<longrightarrow> \<not> opens_writes o1 \<longrightarrow> P o1) \<longrightarrow> steps P a b \<longrightarrow> steps P a (snd y)", OF _ that], goal_cases)
    case (1 wait E i ss b y)
    from 1(2) obtain io where io: "NewList (GtidIOPos ss) = Some io"
      by (auto split: option.splits)
    define l where "l = fst (snd (Equal (SlaveGtid (srv b i)) io))"
    define b0 where "b0 = upd_srv i (\<lambda>s. s\<lparr>SlaveGtid := l\<rparr>) b"
    define b1 where "b1 = Refresh E i b0"
    show ?case
    proof (intro impI)
      assume P: "\<forall>o1. op_target o1 = Some i \<longrightarrow> \<not> opens_writes o1 \<longrightarrow> P o1" and b: "steps P a b"
      then have s0: "steps P a b0"
        by (simp add: b0_def steps_upd_srv)
      then have s1: "steps P a (emit (OpShowSlaveStatus i (MasterConn (Conf b))) b1)"
        using P by (simp add: b1_def steps_Refresh steps_emit opens_writes_def)
      from 1(2) io have "y = (True, b0) \<or>
          y = (False, emit (OpShowSlaveStatus i (MasterConn (Conf b))) b1) \<or>
          (\<exists>ss1. wait E i ss1 (emit (OpShowSlaveStatus i (MasterConn (Conf b))) b1) = Some y)"
        by (auto simp: ask_status_def l_def b0_def b1_def Let_def case_prod_beta split: if_splits option.splits)
      with s0 s1 P 1(1) show "steps P a (snd y)"
        by (cases y) auto
    qed
  qed
  with assms show ?thesis
    by fastforce
qed

lemma steps_relay_pos_wait:
  assumes "relay_pos_wait E i ss b = Some (r, c)" "\<And>o1. op_target o1 = Some i \<Longrightarrow> \<not> opens_writes o1 \<Longrightarrow> P o1" "steps P a b"
  shows "steps P a c"
proof -
  have "(\<forall>o1. op_target o1 = Some i \<longrightarrow> \<not> opens_writes o1 \<longrightarrow> P o1) \<longrightarrow> steps P a b \<longrightarrow> steps P a (snd y)"
    if "relay_pos_wait E i ss b = Some y" for E i ss b y
  proof (rule relay_pos_wait.raw_induct [where P = "\<lambda>E i ss b y.
      (\<forall>o1. op_target o1 = Some i \<longrightarrow> \<not> opens_writes o1 \<longrightarrow> P o1) \<longrightarrow> steps P a b \<longrightarrow> steps P a (snd y)", OF _ that], goal_cases)
    case (1 wait E i ss b y)
    from 1(2) have "y = (True, b) \<or> snd y = emit (OpShowSlaveStatus i (MasterConn (Conf b))) b \<or>
        (\<exists>ss1. wait E i ss1 (emit (OpShowSlaveStatus i (MasterConn (Conf b))) b) = Some y)"
      by (auto simp: ask_status_def split: if_splits option.splits)
    with 1(1) show ?case
      by (cases y) (auto simp: steps_emit opens_writes_def)
  qed
  with assms show ?thesis
    by fastforce
qed

lemma steps_ReadAllRelayLogs:
  assumes "ReadAllRelayLogs E i b = Some (r, c)" "\<And>o1. op_target o1 = Some i \<Longrightarrow> \<not> opens_writes o1 \<Longrightarrow> P o1" "steps P a b"
  shows "steps P a c"
  using assms
  by (auto simp: ReadAllRelayLogs_def ask_status_def steps_emit opens_writes_def split: if_splits option.splits
      intro!: steps_Refresh elim!: steps_relay_gtid_wait steps_relay_pos_wait)

section \<open>Elections only send credential rotations\<close>

lemma trace_set_state [simp]: "trace (set_state k ty args f u cl) = trace cl"
  "trace (Cluster_SetState k s cl) = trace cl"
  by (simp_all add: set_state_def Cluster_SetState_def)

lemma trace_check_skip [simp]:
  "trace (check_state k sl cl) = trace cl" "trace (skip_state k sl cl) = trace cl"
  "trace (delay_state E i ss cl) = trace cl"
  by (simp_all add: check_state_def skip_state_def delay_state_def)

lemma trace_isSlaveElectable:
  "trace (snd (isSlaveElectable E i cl)) = trace cl \<or>
   trace (snd (isSlaveElectable E i cl)) = trace cl @ [OpRotateReplicationCredentials i]"
proof -
  have "trace (snd (electable_tail sl c)) = trace c" for sl c
    by (simp add: electable_tail_def)
  then show ?thesis
    by (auto simp: isSlaveElectable_def Let_def emit_def split: option.split)
qed

lemma trace_isSlaveValidReader [simp]: "trace (snd (isSlaveValidReader E i cl)) = trace cl"
  by (simp add: isSlaveValidReader_def Let_def split: option.split)

lemma steps_isSlaveElectable:
  assumes "P (OpRotateReplicationCredentials i)" "steps P a b"
  shows "steps P a (snd (isSlaveElectable E i b))"
proof -
  have "steps P b (snd (isSlaveElectable E i b))"
    using trace_isSlaveElectable [of E i b] assms(1)
    by (auto intro: steps_same_view [OF view_isSlaveElectable, where ops = "[]"]
        steps_same_view [OF view_isSlaveElectable, where ops = "[OpRotateReplicationCredentials i]"])
  with assms(2) show ?thesis
    by (rule steps_trans)
qed

lemma steps_raise:
  assumes "steps P a b"
  shows "steps P a (skip_state (CHR ''E'' # ks) sl b)" "steps P a (set_state (CHR ''E'' # ks) ty args f u b)"
    "steps P a (snd (isSlaveValidReader E i b))"
proof -
  have "steps P b (skip_state (CHR ''E'' # ks) sl b)" "steps P b (set_state (CHR ''E'' # ks) ty args f u b)"
    "steps P b (snd (isSlaveValidReader E i b))"
    by (rule steps_same_view [where ops = "[]"]; simp add: view)+
  then show "steps P a (skip_state (CHR ''E'' # ks) sl b)"
    "steps P a (set_state (CHR ''E'' # ks) ty args f u b)" "steps P a (snd (isSlaveValidReader E i b))"
    using assms by (blast intro: steps_trans)+
qed

lemma steps_fo_record:
  assumes "fo_record E mi x t acc b = Some (t1, acc1, c)" "P (OpRotateReplicationCredentials x)" "steps P a b"
  shows "steps P a c"
proof -
  note s = steps_isSlaveElectable [of P x a b E, OF assms(2,3)]
  show ?thesis
    using assms(1) s steps_raise(3) [OF s] steps_raise(1) [OF assms(3)]
    by (auto simp: fo_record_def Let_def case_prod_beta split: if_splits option.splits)
qed

lemma steps_fo_step:
  assumes "fo_step E i x acc b = Some (r, c)" "P (OpRotateReplicationCredentials x)" "steps P a b"
  shows "steps P a c"
proof (cases "IsRelay (srv b x) \<or> IsFull (srv b x) \<or> MultiMaster (Conf b) \<and> State (srv b x) = stateMaster
    \<or> HaveNoMasterOnStart (srv b x) \<and> \<not> FailRestartUnsafe (Conf b) \<or>
      \<not> HasBinlog (srv b x) \<and> \<not> IsIgnored (srv b x)")
  case True
  with assms show ?thesis
    by (auto simp: fo_step_def Let_def steps_raise split: if_splits)
next
  case False
  with assms show ?thesis
    by (auto simp: fo_step_def Let_def split: if_splits option.splits elim!: steps_fo_record)
qed

lemma steps_fo_loop:
  assumes "fo_loop E i xs ts acc b = Some (r, c)" "\<And>x. x \<in> set xs \<Longrightarrow> P (OpRotateReplicationCredentials x)" "steps P a b"
  shows "steps P a c"
  using assms
proof (induction xs arbitrary: i ts acc b)
  case (Cons x xs)
  from Cons.prems(1) obtain r1 b1 where f: "fo_step E i x acc b = Some (r1, b1)"
    by (auto split: option.splits)
  have s: "steps P a b1"
    by (rule steps_fo_step [OF f]) (simp_all add: Cons.prems)
  show ?case
  proof (cases r1)
    case (Ret k)
    with Cons.prems(1) f s show ?thesis by auto
  next
    case (Cont ta)
    obtain t acc1 where "ta = (t, acc1)" by (cases ta)
    with Cons.prems(1) f Cont have "fo_loop E (Suc i) xs (ts @ [t]) acc1 b1 = Some (r, c)"
      by simp
    from Cons.IH [OF this _ s] Cons.prems(2) show ?thesis
      by simp
  qed
qed auto

lemma steps_electFailoverCandidate:
  assumes "electFailoverCandidate E l b = Some (r, c)" "\<And>x. x \<in> set l \<Longrightarrow> P (OpRotateReplicationCredentials x)" "steps P a b"
  shows "steps P a c"
proof -
  from assms(1) obtain r1 b1 where f:
    "fo_loop E 0 l [] \<lparr>maxseq = 0, maxpos = 0, HaveOneValidReader = False\<rparr> b = Some (r1, b1)"
    by (auto simp: electFailoverCandidate_def split: option.splits)
  have "steps P a b1"
    by (rule steps_fo_loop [OF f]) (simp_all add: assms)
  with assms(1) f show ?thesis
    by (auto simp: electFailoverCandidate_def steps_raise split: ctl.splits prod.splits if_splits)
qed

lemma steps_switch_record:
  assumes "switch_record i sl acc b = Some (r, c)" "steps P a b"
  shows "steps P a c"
  using assms by (auto simp: switch_record_def Let_def steps_raise split: if_splits option.splits)

lemma steps_switch_step:
  assumes "switch_step E i x acc b = Some (r, c)" "P (OpRotateReplicationCredentials x)" "steps P a b"
  shows "steps P a c"
proof (cases "isSlaveElectableForSwitchover x b = Some True \<and> \<not> IsIgnored (srv b x)")
  case True
  define el where "el = isSlaveElectable E x b"
  have s: "steps P a (snd el)"
    by (simp add: el_def steps_isSlaveElectable assms)
  then have "\<And>v c. el = (v, c) \<Longrightarrow> steps P a c"
    by auto
  with True assms show ?thesis
    by (auto simp: switch_step_def Let_def steps_raise el_def [symmetric]
        split: if_split_asm prod.split_asm bool.split_asm elim!: steps_switch_record)
next
  case False
  with assms show ?thesis
    by (auto simp: switch_step_def Let_def steps_raise split: if_split_asm option.split_asm bool.split_asm)
qed

lemma steps_switch_loop:
  assumes "switch_loop E i xs acc b = Some (r, c)" "\<And>x. x \<in> set xs \<Longrightarrow> P (OpRotateReplicationCredentials x)" "steps P a b"
  shows "steps P a c"
  using assms
proof (induction xs arbitrary: i acc b)
  case (Cons x xs)
  from Cons.prems(1) obtain r1 b1 where f: "switch_step E i x acc b = Some (r1, b1)"
    by (auto split: option.splits)
  have s: "steps P a b1"
    by (rule steps_switch_step [OF f]) (simp_all add: Cons.prems)
  show ?case
  proof (cases r1)
    case (Ret k)
    with Cons.prems(1) f s show ?thesis by auto
  next
    case (Cont acc1)
    with Cons.prems(1) f have "switch_loop E (Suc i) xs acc1 b1 = Some (r, c)"
      by simp
    from Cons.IH [OF this _ s] Cons.prems(2) show ?thesis
      by simp
  qed
qed auto

lemma steps_electSwitchoverCandidate:
  assumes "electSwitchoverCandidate E l b = Some (r, c)" "\<And>x. x \<in> set l \<Longrightarrow> P (OpRotateReplicationCredentials x)" "steps P a b"
  shows "steps P a c"
  using assms(1)
  by (auto simp: electSwitchoverCandidate_def split: option.splits ctl.splits
      elim!: steps_switch_loop [OF _ assms(2,3)])

section \<open>Leaving the list of replicas, and the end of the relay log wait\<close>

lemma server_delete_mset:
  assumes "x \<in> set xs" "inj_on (\<lambda>i. URL (srv cl i)) (set xs)"
  shows "mset (server_delete x cl xs) = mset xs - {# x #}"
proof -
  obtain k where k: "find_index (\<lambda>s. URL (srv cl x) = URL (srv cl s)) xs = Some k"
    using assms(1) find_index_None_iff [of "\<lambda>s. URL (srv cl x) = URL (srv cl s)" xs] by fastforce
  then have "k < length xs" "URL (srv cl x) = URL (srv cl (xs ! k))"
    by (simp_all add: find_index_Some_iff)
  with assms have "xs ! k = x"
    by (auto dest: inj_onD)
  with k \<open>k < length xs\<close> show ?thesis
    by (simp add: server_delete_def mset_swap_remove)
qed

lemma server_delete_subset: "set (server_delete x cl xs) \<subseteq> set xs"
proof (cases "find_index (\<lambda>s. URL (srv cl x) = URL (srv cl s)) xs")
  case (Some k)
  then have "k < length xs"
    by (simp add: find_index_Some_iff)
  with Some have "mset (server_delete x cl xs) \<subseteq># mset xs"
    by (simp add: server_delete_def mset_swap_remove)
  then show ?thesis
    by (metis mset_subset_eqD set_mset_mset subsetI)
qed (simp add: server_delete_def)

definition relay_done :: "slave_status \<Rightarrow> bool" where
  "relay_done ss \<longleftrightarrow>
     MasterLogFile ss = RelayMasterLogFile ss \<and> ReadMasterLogPos ss = ExecMasterLogPos ss \<or>
     str_contains (SlaveSQLRunningState ss) ''Slave has read all relay log''"

lemma relay_pos_wait_applied:
  "MasterLogFile ss = RelayMasterLogFile ss \<and> ReadMasterLogPos ss = ExecMasterLogPos ss \<Longrightarrow>
   relay_pos_wait E i ss cl = Some (True, cl)"
  by (subst relay_pos_wait.simps) simp

lemma relay_pos_wait_step:
  fixes cl i
  assumes "\<not> (MasterLogFile ss = RelayMasterLogFile ss \<and> ReadMasterLogPos ss = ExecMasterLogPos ss)"
  defines "c1 \<equiv> emit (OpShowSlaveStatus i (MasterConn (Conf cl))) cl"
  shows "relay_pos_wait E i ss cl =
    (case SlaveStatusAnswer E (length (trace cl)) i of
       None \<Rightarrow> Some (False, c1)
     | Some ss1 \<Rightarrow>
         if str_contains (SlaveSQLRunningState ss1) ''Slave has read all relay log'' then Some (True, c1)
         else relay_pos_wait E i ss1 c1)"
  using assms(1) by (subst relay_pos_wait.simps) (auto simp: ask_status_def c1_def split: option.split)

text \<open>The wait for a candidate without GTID to apply its relay log returns: as soon as one of the answers
  to the status query is an error or shows the relay log applied, the loop ends, after at most that many queries.\<close>

theorem relay_pos_wait_returns:
  assumes "case SlaveStatusAnswer E (length (trace cl) + n) i of None \<Rightarrow> True | Some ss1 \<Rightarrow> relay_done ss1"
  shows "\<exists>ok cl'. relay_pos_wait E i ss cl = Some (ok, cl') \<and> length (trace cl') \<le> length (trace cl) + Suc n"
  using assms
proof (induction n arbitrary: ss cl)
  case 0
  show ?case
  proof (cases "MasterLogFile ss = RelayMasterLogFile ss \<and> ReadMasterLogPos ss = ExecMasterLogPos ss")
    case False
    from relay_pos_wait_step [OF False, of E i cl] 0 relay_pos_wait_applied show ?thesis
      by (auto simp: relay_done_def emit_def split: option.splits)
  qed (auto simp: relay_pos_wait_applied)
next
  case (Suc n)
  show ?case
  proof (cases "MasterLogFile ss = RelayMasterLogFile ss \<and> ReadMasterLogPos ss = ExecMasterLogPos ss")
    case False
    define c1 where "c1 = emit (OpShowSlaveStatus i (MasterConn (Conf cl))) cl"
    have l: "length (trace c1) = Suc (length (trace cl))"
      by (simp add: c1_def emit_def)
    have "\<exists>ok cl'. relay_pos_wait E i ss1 c1 = Some (ok, cl') \<and> length (trace cl') \<le> length (trace c1) + Suc n" for ss1
      by (rule Suc.IH) (use Suc.prems l in simp)
    with relay_pos_wait_step [OF False, of E i cl, folded c1_def] l show ?thesis
      by (auto split: option.splits)
  qed (auto simp: relay_pos_wait_applied)
qed

theorem relay_pos_wait_returns_witness:
  "\<exists>ok cl'. relay_pos_wait calm_env 1 (sample_status ''0-1-41'' ''400'') sample_cluster = Some (ok, cl') \<and>
     length (trace cl') \<le> length (trace sample_cluster) + Suc 0"
proof -
  have "case SlaveStatusAnswer calm_env (length (trace sample_cluster) + 0) 1 of
      None \<Rightarrow> True | Some ss1 \<Rightarrow> relay_done ss1"
    by (simp add: calm_env_def)
  from relay_pos_wait_returns [OF this] show ?thesis .
qed

end
