(* ===== verification/Failover.thy ===== *)
theory Failover
  imports ServerOps
begin

text \<open>
  The leader change itself, \<open>src/cluster/cluster_fail.go\<close>: \<open>MasterFailover\<close> for a master with replicas,
  phase by phase, \<open>VMasterFailover\<close> for rings, Galera and group replication, and the helpers they call.
  \<open>None\<close> is a run-time panic or a wait that never ends; a boolean is the value the Go function returns.
\<close>

section \<open>Scripts and events\<close>

definition failoverPreScript :: "bool \<Rightarrow> cluster \<Rightarrow> cluster option" where
  "failoverPreScript fail cl =
     (if PreScript (Conf cl) = '''' then Some cl
      else if oldMaster cl = None \<or> GetMaster cl = None then None
      else Some (emit (OpPreScript fail) cl))"

definition failoverPostScript :: "bool \<Rightarrow> cluster \<Rightarrow> cluster option" where
  "failoverPostScript fail cl =
     (if PostScript (Conf cl) = '''' then Some cl
      else if oldMaster cl = None \<or> GetMaster cl = None then None
      else Some (emit (OpPostScript fail) cl))"

definition enable_events :: "sid \<Rightarrow> sid \<Rightarrow> cluster \<Rightarrow> cluster" where
  "enable_events m conn cl =
     (if FailEventStatus (Conf cl)
      then fold (\<lambda>v. emit (OpEventStatus conn v 1)) (filter (\<lambda>v. EvStatus v = 3) (EventStatus (srv cl m))) cl
      else cl)"

definition failoverEnableEventScheduler :: "cluster \<Rightarrow> cluster option" where
  "failoverEnableEventScheduler cl =
     (case master cl of
        None \<Rightarrow> (if FailEventScheduler (Conf cl) \<or> FailEventStatus (Conf cl) then None else Some cl)
      | Some m \<Rightarrow>
          Some (enable_events m m
            (if FailEventScheduler (Conf cl) then emit (OpEventScheduler m True) cl else cl)))"

section \<open>Phase 1: preparation and election\<close>

definition flush_op :: "sid \<Rightarrow> server \<Rightarrow> dbop" where
  "flush_op m s =
     (if IsMariaDB (DBVersion s) \<and> Major (DBVersion s) > 10 \<and> Minor (DBVersion s) \<ge> 1
      then OpFlushTablesNoLogTimeout m else OpFlushTablesNoLog m)"

definition switchover_prepare :: "dbenv \<Rightarrow> cluster \<Rightarrow> bool \<times> cluster" where
  "switchover_prepare E cl =
     (case master cl of
        None \<Rightarrow> (False, cl)
      | Some m \<Rightarrow>
          if \<not> HasConn (srv cl m) then (False, cl)
          else if LongWrites E (length (trace cl)) m > 0 then (False, emit (OpCheckLongRunningWrites m) cl)
          else (FlushInTime E, emit (flush_op m (srv cl m)) (emit (OpCheckLongRunningWrites m) cl)))"

definition elect_new_master :: "dbenv \<Rightarrow> bool \<Rightarrow> cluster \<Rightarrow> (nat option \<times> cluster) option" where
  "elect_new_master E fail cl =
     (let cl1 = fold (Refresh E) (slaves cl) cl
      in case (if fail then electFailoverCandidate E (slaves cl1) cl1
               else electSwitchoverCandidate E (slaves cl1) cl1) of
           None \<Rightarrow> None
         | Some (None, cl2) \<Rightarrow> Some (None, cl2)
         | Some (Some k, cl2) \<Rightarrow>
             if k \<ge> length (slaves cl2) then None
             else if fail then
               (case isSlaveElectable E (slaves cl2 ! k) cl2 of
                  (False, cl3) \<Rightarrow> Some (None, cl3)
                | (True, cl3) \<Rightarrow> Some (Some k, cl3))
             else Some (Some k, cl2))"

text \<open>The entry of the server list with the URL of the elected replica, the first entry by default.\<close>

definition shuffle :: "sid \<Rightarrow> cluster \<Rightarrow> sid option" where
  "shuffle x cl =
     (case find_index (\<lambda>s. URL (srv cl x) = URL (srv cl s)) (Servers cl) of
        Some k \<Rightarrow> Some (Servers cl ! k)
      | None \<Rightarrow> (if Servers cl = [] then None else Some (Servers cl ! 0)))"

definition promote :: "bool \<Rightarrow> nat \<Rightarrow> cluster \<Rightarrow> cluster option" where
  "promote fail k cl =
     (case shuffle (slaves cl ! k) cl of
        None \<Rightarrow> None
      | Some nm \<Rightarrow>
          let cl1 = SetMaster nm (cl\<lparr>oldMaster := master cl, master := Some nm\<rparr>);
              cl2 = (if \<not> MultiMaster (Conf cl)
                     then cl1\<lparr>slaves := server_delete (slaves cl ! k) cl1 (slaves cl1)\<rparr> else cl1)
          in failoverPreScript fail cl2)"

section \<open>Phase 2: rejecting writes, catching up, recording the crash\<close>

definition reject_and_sync :: "dbenv \<Rightarrow> bool \<Rightarrow> sid \<Rightarrow> cluster \<Rightarrow> cluster option" where
  "reject_and_sync E fail nm cl =
     (case (if fail then Some cl
            else case oldMaster cl of None \<Rightarrow> None | Some om \<Rightarrow> Some (snd (freeze E om cl))) of
        None \<Rightarrow> None
      | Some cl1 \<Rightarrow> map_option snd (ReadAllRelayLogs E nm cl1))"

definition io_gtid :: "dbenv \<Rightarrow> conf \<Rightarrow> server \<Rightarrow> slave_status \<Rightarrow> gtid_list option option" where
  "io_gtid E cf s ms =
     (if IsMariaDB (DBVersion s)
      then if MxsBinlogOn cf then Some (Some (CurrentGtid s))
           else map_option Some (NewList (GtidIOPos ms))
      else if IsMySQLOrPerconaGreater57 (Some (DBVersion s)) \<and> HasGTIDReplication cf s
      then Some (Some (NewMySQLList (CrcTable E) (str_upper (ExecutedGtidSet ms))))
      else Some None)"

definition build_crash :: "dbenv \<Rightarrow> bool \<Rightarrow> sid \<Rightarrow> cluster \<Rightarrow> (crash \<times> cluster) option" where
  "build_crash E fail nm cl =
     (case (own_status (srv cl nm), oldMaster cl) of
        (Some ms, Some om) \<Rightarrow>
          map_option (\<lambda>io.
            (\<lparr>CrURL = URL (srv cl om), CrFailoverMasterLogFile = MasterLogFile ms,
              CrFailoverMasterLogPos = ReadMasterLogPos ms, CrNewMasterLogFile = BinaryLogFile (srv cl nm),
              CrNewMasterLogPos = BinaryLogPos (srv cl nm),
              CrFailoverSemiSyncSlaveStatus = SemiSyncSlaveStatus (srv cl nm), CrFailoverIOGtid = io,
              CrElectedMasterURL = URL (srv cl nm), CrUnixTimestamp = Now E, CrSwitchover = (\<not> fail)\<rparr>,
             upd_srv nm (\<lambda>s. s\<lparr>FailoverSemiSyncSlaveStatus := SemiSyncSlaveStatus s\<rparr>) cl))
            (io_gtid E (Conf cl) (srv cl nm) ms)
      | _ \<Rightarrow> None)"

definition relay_catchup ::
  "dbenv \<Rightarrow> sid \<Rightarrow> crash \<Rightarrow> cluster \<Rightarrow> (crash \<times> sid option \<times> cluster) option" where
  "relay_catchup E nm cr cl =
     (if MxsBinlogOn (Conf cl) \<or> MultiTierSlave (Conf cl) then
        (case GetRelayServer cl of
           None \<Rightarrow> Some (cr, None, cl)
         | Some rm \<Rightarrow>
             (case own_status (srv cl rm) of
                None \<Rightarrow> None
              | Some rs \<Rightarrow>
                  let parts = str_split (CHR ''.'') (MasterLogFile rs)
                  in if length parts < 2 then None
                     else
                       let n = nat (atoi (parts ! 1));
                           cl1 = emit (OpResetMaster nm) (Refresh E rm cl);
                           cl2 = fold (\<lambda>_. emit (OpFlushBinaryLogsLocal nm)) [0..<n] cl1;
                           cl3 = emit (OpGetMasterStatus nm) cl2;
                           f = MasterStatusFile E nm
                       in Some (cr\<lparr>CrFailoverMasterLogFile := f, CrFailoverMasterLogPos := ''4''\<rparr>, Some rm,
                                upd_srv nm (\<lambda>s. s\<lparr>FailoverMasterLogFile := f, FailoverMasterLogPos := ''4''\<rparr>) cl3)))
      else Some (cr, None, cl))"

section \<open>Phase 3: opening the new master\<close>

definition stop_candidate :: "sid \<Rightarrow> cluster \<Rightarrow> cluster" where
  "stop_candidate nm cl =
     (if \<not> MultiMaster (Conf cl) \<and> \<not> MultiMasterGrouprep (Conf cl) then
        let cl1 = (if IsMariaDB (DBVersion (srv cl nm)) \<or> Minor (DBVersion (srv cl nm)) < 7
                   then StopSlave nm cl else cl)
        in if FailoverSemiSyncState (Conf cl) then SetSemiSyncLeader nm cl1 else cl1
      else cl)"

definition save_crash :: "crash \<Rightarrow> cluster \<Rightarrow> cluster" where
  "save_crash cr cl =
     (let keep = FailoverLogFileKeep (Conf cl);
          cl1 = cl\<lparr>Crashes := Crashes cl @ [cr], FailoverHistory := StoreLastN cr keep (FailoverHistory cl)\<rparr>
      in emit OpSaveCluster (emit (OpPurgeCrashFiles keep) (emit (OpSaveCrash cr) cl1)))"

definition reset_candidate :: "sid \<Rightarrow> cluster \<Rightarrow> cluster" where
  "reset_candidate nm cl =
     (if \<not> MultiMaster (Conf cl) \<and> \<not> MultiMasterGrouprep (Conf cl) then
        ResetSlave nm (if IsMySQLOrPercona (DBVersion (srv cl nm)) then StopSlave nm cl else cl)
      else cl)"

definition open_traffic :: "dbenv \<Rightarrow> bool \<Rightarrow> sid \<Rightarrow> cluster \<Rightarrow> cluster option" where
  "open_traffic E fail nm cl =
     (let cl1 = (if fail then cl else Refresh E nm cl);
          cl2 = emit OpProxiesFailover (snd (SetReadWrite E nm cl1))
      in case failoverPostScript fail cl2 of
           None \<Rightarrow> None
         | Some cl3 \<Rightarrow> map_option (emit (OpFlushTables nm)) (failoverEnableEventScheduler cl3))"

section \<open>Phase 4: demoting the old master\<close>

definition demote_mode ::
  "conf \<Rightarrow> bool \<Rightarrow> server \<Rightarrow> server option \<Rightarrow> crash \<Rightarrow> change_master_opt \<Rightarrow> (bool \<times> change_master_opt) option" where
  "demote_mode cf one_shoot om relay cr opt =
     (if \<not> HasMariaDBGTID cf om \<and> \<not> HasMySQLGTID cf om then Some (True, opt\<lparr>CmMode := ''POSITIONAL''\<rparr>)
      else if HasMySQLGTID cf om then Some (True, opt\<lparr>CmMode := ''MASTER_AUTO_POSITION''\<rparr>)
      else if \<not> MxsBinlogOn cf
      then Some (True, opt\<lparr>CmMode := (if one_shoot then ''SLAVE_POS'' else ''CURRENT_POS'')\<rparr>)
      else case relay of
          None \<Rightarrow> None
        | Some r \<Rightarrow>
            Some (False,
              if MxsHaveGtid r then opt\<lparr>CmMode := ''SLAVE_POS'', CmHost := Host r, CmPort := Port r\<rparr>
              else opt\<lparr>CmMode := ''POSITIONAL'', CmHost := Host r, CmPort := Port r,
                       CmLogfile := CrFailoverMasterLogFile cr, CmLogpos := CrFailoverMasterLogPos cr\<rparr>))"

definition base_opt :: "cluster \<Rightarrow> server \<Rightarrow> server \<Rightarrow> change_master_opt" where
  "base_opt cl m s = zero_cmo
     \<lparr>CmHost := Host m, CmPort := Port m, CmUser := RplUser (Conf cl), CmPassword := RplPass (Conf cl),
      CmRetry := dec_int (ForceSlaveHeartbeatRetry (Conf cl)),
      CmHeartbeat := dec_int (ForceSlaveHeartbeatTime (Conf cl)), CmSSL := ReplicationSSL (Conf cl),
      CmChannel := MasterConn (Conf cl), CmIsDelayed := IsDelayed s,
      CmDelay := dec_int (HostsDelayedTime (Conf cl)), CmPostgressDB := PostgressDB m\<rparr>"

definition demote_replication :: "sid \<Rightarrow> sid \<Rightarrow> sid option \<Rightarrow> crash \<Rightarrow> cluster \<Rightarrow> cluster option" where
  "demote_replication om nm relay cr cl =
     (let o1 = srv cl om; m = srv cl nm;
          one_shoot = (IsMariaDB (DBVersion o1) \<and> \<not> HaveMariaDBGTID o1 \<and> Major (DBVersion o1) \<ge> 10 \<and>
                       SwitchoverCopyOldLeaderGtid (Conf cl));
          cl1 = (if one_shoot then emit (OpSetGTIDSlavePos om (Sprint (GTIDBinlogPos m))) cl else cl);
          opt = (base_opt cl m o1)\<lparr>CmLogfile := BinaryLogFile m, CmLogpos := BinaryLogPos m\<rparr>
      in case demote_mode (Conf cl) one_shoot o1 (map_option (srv cl) relay) cr opt of
           None \<Rightarrow> None
         | Some (start, opt1) \<Rightarrow>
             let cl2 = emit (OpChangeMaster om opt1) cl1 in Some (if start then StartSlave om cl2 else cl2))"

definition demote_access :: "dbenv \<Rightarrow> sid \<Rightarrow> cluster \<Rightarrow> cluster" where
  "demote_access E om cl =
     (let cl1 = (if CReadOnly (Conf cl) then snd (SetReadOnly E om cl)
                 else if MultiMaster (Conf cl) \<and> MultiMasterConcurrentWrite (Conf cl)
                 then snd (SetReadWrite E om cl) else cl);
          cl2 = (if SwitchDecreaseMaxConn (Conf cl)
                 then emit (OpSetMaxConnections om (maxConn (srv cl1 om))) cl1 else cl1);
          cl3 = Server_SetState om stateSlave cl2
      in if \<not> MultiMaster (Conf cl) then cl3\<lparr>slaves := slaves cl3 @ [om]\<rparr> else cl3)"

definition demote :: "dbenv \<Rightarrow> sid \<Rightarrow> sid option \<Rightarrow> crash \<Rightarrow> cluster \<Rightarrow> cluster option" where
  "demote E nm relay cr cl =
     (case oldMaster cl of
        None \<Rightarrow> None
      | Some om \<Rightarrow>
          map_option (demote_access E om)
            (demote_replication om nm relay cr
              (emit (OpUnlockTables om) (emit (OpKillThreads om) (Refresh E om cl)))))"

section \<open>Extra replication sources of the old master\<close>

definition trunc_rat :: "rat \<Rightarrow> int" where
  "trunc_rat x = (if 0 \<le> x then \<lfloor>x\<rfloor> else \<lceil>x\<rceil>)"

definition source_mode :: "slave_status \<Rightarrow> string" where
  "source_mode rep =
     (let g = str_upper (UsingGtid rep)
      in if g = ''NO'' then ''POSITIONAL''
         else if g = ''SLAVE_POS'' \<or> g = ''CURRENT_POS'' then g
         else if RetrievedGtidSet rep \<noteq> None \<and> ExecutedGtidSet rep \<noteq> '''' then ''MASTER_AUTO_POSITION''
         else '''')"

definition source_opt :: "dbenv \<Rightarrow> conf \<Rightarrow> server \<Rightarrow> slave_status \<Rightarrow> change_master_opt" where
  "source_opt E cf nm rep = zero_cmo
     \<lparr>CmHost := MasterHost rep, CmPort := MasterPort rep, CmUser := MasterUser rep,
      CmPassword := (case ParentRplPass E rep of None \<Rightarrow> '''' | Some p \<Rightarrow> p),
      CmRetry := dec_int (ForceSlaveHeartbeatRetry cf), CmHeartbeat := dec_int (trunc_rat (SlaveHeartbeatPeriod rep)),
      CmLogfile := MasterLogFile rep, CmLogpos := ExecMasterLogPos rep, CmSSL := ReplicationSSL cf,
      CmChannel := ConnectionName rep, CmIsDelayed := False, CmDelay := ''0'', CmDoDomainIds := DoDomainIds rep,
      CmIgnoreDomainIds := IgnoreDomainIds rep, CmIgnoreServerIds := IgnoreServerIds rep,
      CmPostgressDB := PostgressDB nm, CmMode := source_mode rep\<rparr>"

definition move_source :: "dbenv \<Rightarrow> sid \<Rightarrow> sid \<Rightarrow> bool \<Rightarrow> slave_status \<Rightarrow> cluster \<Rightarrow> cluster" where
  "move_source E om nm fail rep cl =
     (if ConnectionName rep \<noteq> MasterConn (Conf cl) then
        let (ok, cl1) = run E (OpChangeMaster nm (source_opt E (Conf cl) (srv cl nm) rep)) cl;
            cl2 = (if \<not> fail \<and> ok then emit (OpResetSlave om (ConnectionName rep)) cl1 else cl1)
        in emit (OpStartSlave nm (ConnectionName rep)) cl2
      else cl)"

definition FailoverExtraMultiSource :: "dbenv \<Rightarrow> sid \<Rightarrow> sid \<Rightarrow> bool \<Rightarrow> cluster \<Rightarrow> cluster" where
  "FailoverExtraMultiSource E om nm fail cl =
     fold (move_source E om nm fail) (Replications (srv cl om)) cl"

section \<open>Phase 5: moving the other replicas\<close>

definition skip_switch :: "cluster \<Rightarrow> server \<Rightarrow> bool option" where
  "skip_switch cl sl =
     (if MultiMaster (Conf cl) \<or> MultiMasterGrouprep (Conf cl) \<or>
         State sl \<in> {stateWsrep, stateWsrepDonor, stateWsrepLate} then Some True
      else case oldMaster cl of
          None \<Rightarrow> None
        | Some om \<Rightarrow>
            Some (URL sl = URL (srv cl om) \<or> State sl = stateMaster \<or>
                  \<not> IsRelay sl \<and> MxsBinlogOn (Conf cl)))"

definition wait_and_stop :: "bool \<Rightarrow> sid \<Rightarrow> sid \<Rightarrow> cluster \<Rightarrow> cluster" where
  "wait_and_stop fail om x cl =
     (let wait = (\<not> fail \<and> \<not> MxsBinlogOn (Conf cl) \<and> SwitchSlaveWaitCatch (Conf cl));
          cl1 = StopSlave x (if wait then WaitSyncToMaster x om cl else cl)
      in if wait \<and> SwitchoverCopyOldLeaderGtid (Conf cl) \<and> IsMariaDB (DBVersion (srv cl x))
         then emit (OpSetGTIDSlavePos x (Sprint (GTIDBinlogPos (srv cl om)))) cl1 else cl1)"

definition repoint :: "dbenv \<Rightarrow> sid \<Rightarrow> sid \<Rightarrow> sid \<Rightarrow> cluster \<Rightarrow> cluster" where
  "repoint E om nm x cl =
     (let sl = srv cl x; m = srv cl nm; cf = Conf cl; opt = base_opt cl m sl
      in if \<not> HasMariaDBGTID cf sl \<and> \<not> HasMySQLGTID cf m then
           if AutorejoinSlavePositionalHeartbeat cf then
             let (mFile, mPos) = PseudoGtidPos E x nm
             in emit (OpChangeMaster x (opt\<lparr>CmLogfile := mFile, CmLogpos := mPos, CmMode := ''POSITIONAL''\<rparr>))
                  (emit (OpPseudoGtid x nm) cl)
           else SetMaintenance x cl
         else if IsMySQLOrPerconaGreater57 (Some (DBVersion (srv cl om))) \<and> HasMySQLGTID cf m
         then emit (OpChangeMaster x (opt\<lparr>CmMode := ''MASTER_AUTO_POSITION''\<rparr>)) cl
         else if \<not> MxsBinlogOn cf then emit (OpChangeMaster x (opt\<lparr>CmMode := ''SLAVE_POS''\<rparr>)) cl
         else if MxsHaveGtid sl then emit (OpChangeMaster x (opt\<lparr>CmMode := ''SLAVE_POS''\<rparr>)) cl
         else emit (OpChangeMaster x
           (opt\<lparr>CmMode := ''MXS'', CmChannel := '''', CmIsDelayed := False, CmDelay := '''', CmPostgressDB := ''''\<rparr>)) cl)"

definition restart_replica :: "dbenv \<Rightarrow> bool \<Rightarrow> sid \<Rightarrow> sid \<Rightarrow> cluster \<Rightarrow> cluster" where
  "restart_replica E fail om x cl =
     (let cl1 = StartSlave x cl;
          cl2 = (if MxsBinlogOn (Conf cl) \<and> \<not> fail then StartSlave om cl1 else cl1)
      in if CReadOnly (Conf cl) \<and> \<not> MxsBinlogOn (Conf cl) \<and> \<not> IsIgnoredReadonly (srv cl2 x)
         then snd (SetReadOnly E x cl2)
         else if \<not> MxsBinlogOn (Conf cl) then snd (SetReadWrite E x cl2) else cl2)"

definition switch_slave :: "dbenv \<Rightarrow> bool \<Rightarrow> sid \<Rightarrow> cluster \<Rightarrow> cluster option" where
  "switch_slave E fail x cl =
     (case skip_switch cl (srv cl x) of
        None \<Rightarrow> None
      | Some True \<Rightarrow> Some cl
      | Some False \<Rightarrow>
          (case (oldMaster cl, master cl) of
             (Some om, Some nm) \<Rightarrow> Some (restart_replica E fail om x (repoint E om nm x (wait_and_stop fail om x cl)))
           | _ \<Rightarrow> None))"

fun switch_slaves :: "dbenv \<Rightarrow> bool \<Rightarrow> sid list \<Rightarrow> cluster \<Rightarrow> cluster option" where
  "switch_slaves E fail [] cl = Some cl"
| "switch_slaves E fail (x # xs) cl = Option.bind (switch_slave E fail x cl) (switch_slaves E fail xs)"

definition SwitchSlavesToMaster :: "dbenv \<Rightarrow> bool \<Rightarrow> cluster \<Rightarrow> cluster option" where
  "SwitchSlavesToMaster E fail cl = switch_slaves E fail (slaves cl) cl"

section \<open>The leader change of a master with replicas\<close>

definition finish :: "dbenv \<Rightarrow> bool \<Rightarrow> sid \<Rightarrow> cluster \<Rightarrow> cluster" where
  "finish E fail nm cl =
     (let cl1 = upd_srv nm (\<lambda>s. s\<lparr>FailCount := 0\<rparr>) cl
      in if fail then cl1\<lparr>FailoverCtr := FailoverCtr cl1 + 1, FailoverTs := Now E\<rparr> else cl1)"

text \<open>Everything after the promotion of the elected replica.\<close>

definition switch_leader :: "dbenv \<Rightarrow> bool \<Rightarrow> cluster \<Rightarrow> cluster option" where
  "switch_leader E fail cl =
     (case master cl of None \<Rightarrow> None | Some nm \<Rightarrow>
     (case reject_and_sync E fail nm cl of None \<Rightarrow> None | Some cl1 \<Rightarrow>
     (case build_crash E fail nm cl1 of None \<Rightarrow> None | Some (cr0, cl2) \<Rightarrow>
     (case relay_catchup E nm cr0 cl2 of None \<Rightarrow> None | Some (cr, relay, cl3) \<Rightarrow>
     (case open_traffic E fail nm (reset_candidate nm (save_crash cr (stop_candidate nm cl3))) of
        None \<Rightarrow> None | Some cl4 \<Rightarrow>
     (case (if fail then Some cl4 else demote E nm relay cr cl4) of None \<Rightarrow> None | Some cl5 \<Rightarrow>
     (case oldMaster cl5 of None \<Rightarrow> None | Some om \<Rightarrow>
     (case SwitchSlavesToMaster E fail (FailoverExtraMultiSource E om nm fail cl5) of None \<Rightarrow> None | Some cl6 \<Rightarrow>
        Some (finish E fail nm (emit OpProxiesBackendStateChange cl6))))))))))"

definition failover_body :: "dbenv \<Rightarrow> bool \<Rightarrow> cluster \<Rightarrow> (bool \<times> cluster) option" where
  "failover_body E fail cl =
     (if fail \<and> MultiMasterGrouprep (Conf cl) then Some (True, cl)
      else
        let (go, cl1) = (if fail then (True, cl) else switchover_prepare E cl)
        in if \<not> go then Some (False, cl1)
           else case elect_new_master E fail cl1 of
               None \<Rightarrow> None
             | Some (None, cl2) \<Rightarrow> Some (False, cl2)
             | Some (Some k, cl2) \<Rightarrow>
                 map_option (\<lambda>c. (True, c)) (Option.bind (promote fail k cl2) (switch_leader E fail)))"

definition set_failover :: "cluster \<Rightarrow> cluster" where
  "set_failover cl = cl\<lparr>StateMachine := SetFailoverState (StateMachine cl)\<rparr>"

definition remove_failover :: "cluster \<Rightarrow> cluster" where
  "remove_failover cl = cl\<lparr>StateMachine := RemoveFailoverState (StateMachine cl)\<rparr>"

section \<open>Rings, Galera and group replication\<close>

definition ring_opt :: "cluster \<Rightarrow> server \<Rightarrow> string \<Rightarrow> change_master_opt" where
  "ring_opt cl parent mode = zero_cmo
     \<lparr>CmHost := Host parent, CmPort := Port parent, CmUser := RplUser (Conf cl), CmPassword := RplPass (Conf cl),
      CmRetry := dec_int (ForceSlaveHeartbeatRetry (Conf cl)),
      CmHeartbeat := dec_int (ForceSlaveHeartbeatTime (Conf cl)), CmMode := mode,
      CmSSL := ReplicationSSL (Conf cl), CmChannel := MasterConn (Conf cl), CmPostgressDB := PostgressDB parent\<rparr>"

text \<open>Pointing the successor of the failed member to its predecessor; the boolean is false when one of them is
  not found.\<close>

definition CloseRing :: "cluster \<Rightarrow> (bool \<times> cluster) option" where
  "CloseRing cl =
     (if oldMaster cl = None then None
      else case GetRingChildServer (oldMaster cl) cl of
          None \<Rightarrow> None
        | Some None \<Rightarrow> Some (False, cl)
        | Some (Some child) \<Rightarrow>
            (case GetRingParentServer cl of
               None \<Rightarrow> None
             | Some None \<Rightarrow> Some (False, cl)
             | Some (Some parent) \<Rightarrow>
                 let p = srv cl parent;
                     mode = (if IsMySQLOrPerconaGreater57 (Some (DBVersion p)) \<and> HasMySQLGTID (Conf cl) p
                             then '''' else ''SLAVE_POS'')
                 in Some (True, StartSlave child (emit (OpChangeMaster child (ring_opt cl p mode)) (StopSlave child cl)))))"

definition vmaster_prepare :: "dbenv \<Rightarrow> cluster \<Rightarrow> bool \<times> cluster" where
  "vmaster_prepare E cl =
     (case vmaster cl of
        None \<Rightarrow> (False, cl)
      | Some m \<Rightarrow>
          if \<not> HasConn (srv cl m) then (False, cl)
          else if LongWrites E (length (trace cl)) m > 0 then (False, emit (OpCheckLongRunningWrites m) cl)
          else
            let cl1 = emit (OpFlushTablesNoLog m) (emit (OpCheckLongRunningWrites m) cl)
            in if FlushInTime E then (True, cl1\<lparr>master := vmaster cl\<rparr>) else (False, cl1))"

definition is_ring :: "cluster \<Rightarrow> bool" where
  "is_ring cl \<longleftrightarrow> GetTopology cl \<noteq> TopoMultiMasterWsrep \<and> GetTopology cl \<noteq> TopoMultiMasterGrouprep"

definition elect_vmaster :: "dbenv \<Rightarrow> cluster \<Rightarrow> (nat option \<times> cluster) option" where
  "elect_vmaster E cl =
     (let cl1 = fold (Refresh E) (slaves cl) cl
      in if is_ring cl1 then
           (case oldMaster cl1 of
              None \<Rightarrow> None
            | Some om \<Rightarrow> Some (electVirtualCandidate om cl1))
         else if MultiMasterGrouprep (Conf cl1)
         then Some (electSwitchoverGroupReplicationCandidate (slaves cl1) cl1)
         else electFailoverCandidate E (slaves cl1) cl1)"

definition vmaster_promote :: "dbenv \<Rightarrow> bool \<Rightarrow> nat \<Rightarrow> cluster \<Rightarrow> cluster option" where
  "vmaster_promote E fail k cl =
     (if k \<ge> length (slaves cl) then None
      else case shuffle (slaves cl ! k) cl of
          None \<Rightarrow> None
        | Some nm \<Rightarrow>
            (case failoverPreScript fail (cl\<lparr>vmaster := Some nm, master := Some nm\<rparr>) of None \<Rightarrow> None | Some cl1 \<Rightarrow>
              (case (if \<not> fail \<and> GetTopology cl \<noteq> TopoMultiMasterWsrep
                 then case oldMaster cl1 of None \<Rightarrow> None | Some om \<Rightarrow> Some (snd (freeze E om cl1))
                 else Some cl1) of None \<Rightarrow> None | Some cl2 \<Rightarrow>
                  Some (if \<not> fail \<and> MultiMasterGrouprep (Conf cl2)
                        then emit (OpGroupReplicationPrimary (slaves cl2 ! k)) cl2 else cl2))))"

text \<open>The crash record of a ring: no binary log coordinates of the new master.\<close>

definition ring_sync :: "dbenv \<Rightarrow> bool \<Rightarrow> sid \<Rightarrow> cluster \<Rightarrow> cluster option" where
  "ring_sync E fail nm cl =
     (if is_ring cl then
        (case ReadAllRelayLogs E nm cl of None \<Rightarrow> None | Some (_, cl1) \<Rightarrow>
        (case build_crash E fail nm cl1 of None \<Rightarrow> None | Some (cr, cl2) \<Rightarrow>
          let cr1 = cr\<lparr>CrNewMasterLogFile := '''', CrNewMasterLogPos := ''''\<rparr>;
              keep = FailoverLogFileKeep (Conf cl2);
              cl3 = cl2\<lparr>Crashes := Crashes cl2 @ [cr1], FailoverHistory := StoreLastN cr1 keep (FailoverHistory cl2)\<rparr>
          in Some (emit (OpPurgeCrashFiles keep) (emit (OpSaveCrash cr1) (emit OpSaveCluster cl3)))))
      else Some cl)"

definition vmaster_open :: "dbenv \<Rightarrow> bool \<Rightarrow> sid \<Rightarrow> cluster \<Rightarrow> cluster option" where
  "vmaster_open E fail nm cl =
     (case failoverEnableEventScheduler (emit OpProxiesFailover (snd (SetReadWrite E nm cl))) of None \<Rightarrow> None | Some cl1 \<Rightarrow>
     (case failoverPostScript fail cl1 of None \<Rightarrow> None | Some cl2 \<Rightarrow> Some (enable_events nm nm cl2)))"

definition vmaster_demote :: "dbenv \<Rightarrow> cluster \<Rightarrow> cluster option" where
  "vmaster_demote E cl =
     (case oldMaster cl of
        None \<Rightarrow> None
      | Some om \<Rightarrow>
          let cl1 = emit (OpUnlockTables om) (Refresh E om cl);
              cl2 = snd (if CReadOnly (Conf cl1) then SetReadOnly E om cl1 else SetReadWrite E om cl1);
              cl3 = (if SwitchDecreaseMaxConn (Conf cl2) \<and> GetTopology cl2 \<noteq> TopoMultiMasterWsrep
                     then emit (OpSetMaxConnections om (maxConn (srv cl2 om))) cl2 else cl2)
          in Some (if MultiMasterGrouprep (Conf cl3)
                   then (Server_SetState om stateSlave cl3)\<lparr>slaves := slaves cl3 @ [om]\<rparr> else cl3))"

definition vmaster_switch :: "dbenv \<Rightarrow> bool \<Rightarrow> cluster \<Rightarrow> cluster option" where
  "vmaster_switch E fail cl =
     (case vmaster cl of
        None \<Rightarrow> None
      | Some nm \<Rightarrow>
          (case ring_sync E fail nm cl of None \<Rightarrow> None | Some cl1 \<Rightarrow>
          (case vmaster_open E fail nm cl1 of None \<Rightarrow> None | Some cl2 \<Rightarrow>
          (case (if fail then Some cl2 else vmaster_demote E cl2) of None \<Rightarrow> None | Some cl3 \<Rightarrow>
          (case (if GetTopology cl3 = TopoMultiMasterRing then map_option snd (CloseRing cl3) else Some cl3) of None \<Rightarrow> None | Some cl4 \<Rightarrow>
          (case (if GetTopology cl4 = TopoMultiMasterWsrep then SwitchSlavesToMaster E fail cl4 else Some cl4) of None \<Rightarrow> None | Some cl5 \<Rightarrow>
            Some ((finish E fail nm cl5)\<lparr>master := None\<rparr>)))))))"

definition vfailover_body :: "dbenv \<Rightarrow> bool \<Rightarrow> cluster \<Rightarrow> (bool \<times> cluster) option" where
  "vfailover_body E fail cl =
     (let (go, cl1) = (if fail then (True, cl\<lparr>oldMaster := master cl\<rparr>)
                       else vmaster_prepare E (cl\<lparr>oldMaster := vmaster cl\<rparr>))
      in if \<not> go then Some (False, cl1)
         else case elect_vmaster E cl1 of
             None \<Rightarrow> None
           | Some (None, cl2) \<Rightarrow> Some (False, cl2)
           | Some (Some k, cl2) \<Rightarrow>
               map_option (\<lambda>c. (True, c)) (Option.bind (vmaster_promote E fail k cl2) (vmaster_switch E fail)))"

definition VMasterFailover :: "dbenv \<Rightarrow> bool \<Rightarrow> cluster \<Rightarrow> (bool \<times> cluster) option" where
  "VMasterFailover E fail cl =
     (if IsInFailover cl then Some (False, cl)
      else map_option (\<lambda>(b, c). (b, remove_failover c)) (vfailover_body E fail (set_failover cl)))"

definition MasterFailover :: "dbenv \<Rightarrow> bool \<Rightarrow> cluster \<Rightarrow> (bool \<times> cluster) option" where
  "MasterFailover E fail cl =
     (if GetTopology cl \<in> {TopoMultiMasterRing, TopoMultiMasterWsrep, TopoMultiMasterGrouprep}
      then VMasterFailover E fail cl
      else if IsInFailover cl then Some (False, cl)
      else map_option (\<lambda>(b, c). (b, remove_failover c)) (failover_body E fail (set_failover cl)))"

section \<open>The phases as steps\<close>

text \<open>\<open>talks P i\<close>: every command to server \<open>i\<close> that does not open it for writes is allowed.\<close>

definition talks :: "(dbop \<Rightarrow> bool) \<Rightarrow> sid \<Rightarrow> bool" where
  "talks P i \<longleftrightarrow> (\<forall>o1. op_target o1 = Some i \<longrightarrow> \<not> opens_writes o1 \<longrightarrow> P o1)"

definition quiet :: "(dbop \<Rightarrow> bool) \<Rightarrow> bool" where
  "quiet P \<longleftrightarrow> (\<forall>o1. op_target o1 = None \<longrightarrow> P o1)"

text \<open>\<open>may_open P cl i\<close>: opening server \<open>i\<close> is allowed, or the arbitrator forbids it.\<close>

definition may_open :: "(dbop \<Rightarrow> bool) \<Rightarrow> cluster \<Rightarrow> sid \<Rightarrow> bool" where
  "may_open P cl i \<longleftrightarrow>
     Arbitration (Conf cl) \<and> IsFailedArbitrator cl \<or> (\<forall>o1. op_target o1 = Some i \<longrightarrow> P o1)"

lemma talksD: "talks P i \<Longrightarrow> op_target o1 = Some i \<Longrightarrow> \<not> opens_writes o1 \<Longrightarrow> P o1"
  by (simp add: talks_def)

lemma talks_view: "talks P i \<Longrightarrow> P (OpRefresh i)" "talks P i \<Longrightarrow> P (OpRotateReplicationCredentials i)"
  by (simp_all add: talks_def opens_writes_def)

lemma talks_ops:
  assumes "talks P i"
  shows "P (OpChangeMaster i opt)" "P (OpResetSlave i ch)" "P (OpStartSlave i ch)" "P (OpSetGTIDSlavePos i g)"
    "P (OpPseudoGtid i j)" "P (OpUnlockTables i)" "P (OpKillThreads i)" "P (OpSetMaxConnections i n)"
    "P (OpGroupReplicationPrimary i)"
  using assms by (simp_all add: talks_def opens_writes_def)

lemma quietD: "quiet P \<Longrightarrow> op_target o1 = None \<Longrightarrow> P o1"
  by (simp add: quiet_def)

lemma steps_talks:
  assumes "talks P i" "steps P a b"
  shows "steps P a (SetSemiSyncReplica i b)" "steps P a (SetSemiSyncLeader i b)"
    "steps P a (snd (SetReadOnly E i b))" "steps P a (StopSlave i b)" "steps P a (StartSlave i b)"
    "steps P a (ResetSlave i b)" "steps P a (WaitSyncToMaster i m b)" "steps P a (snd (freeze E i b))"
  using assms by (simp_all add: steps_server_ops talksD steps_freeze)

lemma steps_talks_wait:
  "ReadAllRelayLogs E i b = Some (r, c) \<Longrightarrow> talks P i \<Longrightarrow> steps P a b \<Longrightarrow> steps P a c"
  by (erule steps_ReadAllRelayLogs) (simp_all add: talksD)

lemma steps_quiet:
  assumes "quiet P" "steps P a b"
  shows "steps P a (SetMaintenance i b)" "steps P a (Server_SetState i st b)" "steps P a (SetMaster i b)"
  using assms by (simp_all add: steps_SetMaintenance steps_Server_SetState steps_SetMaster quietD)

lemma steps_send: "talks P i \<Longrightarrow> op_target o1 = Some i \<Longrightarrow> \<not> opens_writes o1 \<Longrightarrow> steps P a b \<Longrightarrow> steps P a (emit o1 b)"
  by (rule steps_emit) (auto dest: talksD)

lemma steps_send_none: "quiet P \<Longrightarrow> op_target o1 = None \<Longrightarrow> steps P a b \<Longrightarrow> steps P a (emit o1 b)"
  by (rule steps_emit) (auto dest: quietD)

lemma may_open_steps: "may_open P b i \<Longrightarrow> steps Q b c \<Longrightarrow> may_open P c i"
  by (simp add: may_open_def steps_fields)

lemma steps_open:
  assumes "may_open P b i" "steps P b c" "steps P a c"
  shows "steps P a (snd (SetReadWrite E i c))"
  using assms by (intro steps_SetReadWrite) (auto simp: may_open_def steps_fields)

lemma steps_failoverPostScript:
  "failoverPostScript fail b = Some c \<Longrightarrow> quiet P \<Longrightarrow> steps P a b \<Longrightarrow> steps P a c"
  by (auto simp: failoverPostScript_def intro: steps_send_none split: if_splits)

lemma steps_enable_events: "talks P j \<Longrightarrow> steps P a b \<Longrightarrow> steps P a (enable_events m j b)"
  by (auto simp: enable_events_def opens_writes_def intro!: steps_fold steps_send)

lemma steps_failoverEnableEventScheduler:
  assumes "failoverEnableEventScheduler b = Some c" "master b = Some m" "talks P m" "steps P a b"
  shows "steps P a c"
  using assms
  by (auto simp: failoverEnableEventScheduler_def opens_writes_def intro!: steps_enable_events steps_send)

lemma steps_switchover_prepare:
  assumes "\<And>m. master b = Some m \<Longrightarrow> talks P m" "steps P a b"
  shows "steps P a (snd (switchover_prepare E b))"
  using assms
  by (auto simp: switchover_prepare_def flush_op_def opens_writes_def split: option.split intro!: steps_send)

lemma steps_elect_new_master:
  assumes "elect_new_master E fail b = Some (r, c)" "\<And>x. x \<in> set (slaves b) \<Longrightarrow> talks P x" "steps P a b"
  shows "steps P a c"
proof -
  define b1 where "b1 = fold (Refresh E) (slaves b) b"
  have s1: "steps P a b1" and sb: "steps P b b1"
    unfolding b1_def using assms(2,3) by (auto simp: talks_view intro!: steps_fold steps_Refresh)
  have sl: "slaves b1 = slaves b"
    by (rule steps_fields [OF sb])
  have rot: "P (OpRotateReplicationCredentials x)" if "x \<in> set (slaves b1)" for x
    using assms(2) that sl by (simp add: talks_view)
  obtain r2 b2 where e: "(if fail then electFailoverCandidate E (slaves b1) b1
      else electSwitchoverCandidate E (slaves b1) b1) = Some (r2, b2)"
    using assms(1) unfolding elect_new_master_def b1_def [symmetric] Let_def by (auto split: option.splits)
  have s2: "steps P a b2" and s12: "steps P b1 b2"
    using e rot s1
    by (auto split: if_splits elim!: steps_electFailoverCandidate steps_electSwitchoverCandidate)
  have "slaves b2 = slaves b1"
    by (rule steps_fields [OF s12])
  with rot have s3: "steps P a (snd (isSlaveElectable E (slaves b2 ! k) b2))" if "k < length (slaves b2)" for k
    using that s2 by (intro steps_isSlaveElectable) auto
  from assms(1) e have "(case r2 of None \<Rightarrow> c = b2 | Some k \<Rightarrow> k < length (slaves b2) \<and>
      (if fail then c = snd (isSlaveElectable E (slaves b2 ! k) b2) else c = b2))"
    unfolding elect_new_master_def b1_def [symmetric] Let_def
    by (auto split: option.splits if_splits prod.splits bool.splits)
  with s2 s3 show ?thesis
    by (auto split: option.splits if_splits)
qed

lemma elect_new_master_safe:
  assumes "elect_new_master E fail b = Some (Some k, c)"
  shows "k < length (slaves c) \<and> safe_candidate E c (slaves c ! k)"
proof -
  define b1 where "b1 = fold (Refresh E) (slaves b) b"
  note d = assms [unfolded elect_new_master_def, folded b1_def, unfolded Let_def]
  show ?thesis
  proof (cases fail)
    case True
    with d obtain b2 where k: "k < length (slaves b2)" and e: "isSlaveElectable E (slaves b2 ! k) b2 = (True, c)"
      by (auto simp: not_le split: option.splits if_splits prod.splits bool.splits)
    from e have v: "same_view b2 c" and "safe_candidate E b2 (slaves b2 ! k)"
      using view_isSlaveElectable [of b2 E "slaves b2 ! k"] isSlaveElectable_safe [of E "slaves b2 ! k" b2] by simp_all
    with k show ?thesis
      by (simp add: same_view_fields safe_candidate_cong)
  next
    case False
    with d have e: "electSwitchoverCandidate E (slaves b1) b1 = Some (Some k, c)"
      by (auto split: option.splits if_splits)
    from electSwitchoverCandidate_spec [OF this] have "same_view b1 c" "k < length (slaves b1)"
      "switch_ok E b1 (slaves b1 ! k)"
      by simp_all
    then show ?thesis
      by (simp add: same_view_fields safe_candidate_cong switch_ok_def Let_def)
  qed
qed

lemma shuffle_found:
  assumes "x \<in> set (Servers cl)" "inj_on (\<lambda>i. URL (srv cl i)) (set (Servers cl))"
  shows "shuffle x cl = Some x"
proof -
  obtain k where k: "find_index (\<lambda>s. URL (srv cl x) = URL (srv cl s)) (Servers cl) = Some k"
    using assms(1) find_index_None_iff [of "\<lambda>s. URL (srv cl x) = URL (srv cl s)" "Servers cl"] by fastforce
  then have "k < length (Servers cl)" "URL (srv cl x) = URL (srv cl (Servers cl ! k))"
    by (simp_all add: find_index_Some_iff)
  with assms have "Servers cl ! k = x"
    by (auto dest: inj_onD)
  with k show ?thesis
    by (simp add: shuffle_def)
qed

text \<open>The promotion as a change of roles.\<close>

lemma promote_roles:
  assumes "promote fail k b = Some c"
  shows "\<exists>nm c0. shuffle (slaves b ! k) b = Some nm \<and>
    (\<forall>P. quiet P \<longrightarrow> steps P (b\<lparr>oldMaster := master b, master := Some nm, slaves := slaves c\<rparr>) c) \<and>
    slaves c = (if MultiMaster (Conf b) then slaves b else server_delete (slaves b ! k) c0 (slaves b)) \<and>
    (\<forall>i. URL (srv c0 i) = URL (srv b i))"
proof -
  from assms obtain nm where nm: "shuffle (slaves b ! k) b = Some nm"
    by (auto simp: promote_def split: option.splits)
  define b0 where "b0 = b\<lparr>oldMaster := master b, master := Some nm\<rparr>"
  define b1 where "b1 = SetMaster nm b0"
  define b2 where "b2 = (if \<not> MultiMaster (Conf b) then b1\<lparr>slaves := server_delete (slaves b ! k) b1 (slaves b1)\<rparr> else b1)"
  have "steps (\<lambda>_. True) b0 b1"
    by (simp add: b1_def steps_SetMaster)
  note f = steps_fields [OF this]
  have pre: "failoverPreScript fail b2 = Some c"
    using assms nm unfolding promote_def Let_def b0_def b1_def b2_def by simp
  then have c: "c = b2 \<or> c = emit (OpPreScript fail) b2"
    by (auto simp: failoverPreScript_def split: if_splits)
  have sl: "slaves c = (if MultiMaster (Conf b) then slaves b else server_delete (slaves b ! k) b1 (slaves b))"
    using c f by (auto simp: b2_def b0_def emit_def)
  have "steps P (b\<lparr>oldMaster := master b, master := Some nm, slaves := slaves c\<rparr>) c" if "quiet P" for P
  proof -
    have "steps P b0 b1"
      using that by (simp add: b1_def steps_SetMaster quietD)
    then have "steps P (b0\<lparr>slaves := slaves b2\<rparr>) b2"
      by (auto simp: steps_def roles_def b2_def b0_def IsInFailover_def)
    with c have "steps P (b0\<lparr>slaves := slaves b2\<rparr>) c"
      using that by (auto intro: steps_send_none)
    moreover have "slaves c = slaves b2"
      using c by (auto simp: emit_def)
    ultimately have "steps P (b0\<lparr>slaves := slaves b2\<rparr>) c" "slaves c = slaves b2" .
    then show ?thesis
      by (simp add: b0_def)
  qed
  moreover have "URL (srv b1 i) = URL (srv b i)" for i
    using f by (simp add: b0_def)
  ultimately show ?thesis
    using nm sl by blast
qed

lemma steps_reject_and_sync:
  assumes "reject_and_sync E fail nm b = Some c" "talks P nm" "\<not> fail \<Longrightarrow> \<forall>om. oldMaster b = Some om \<longrightarrow> talks P om"
    "steps P a b"
  shows "steps P a c"
proof -
  obtain b1 r where b1: "(if fail then Some b else case oldMaster b of None \<Rightarrow> None
      | Some om \<Rightarrow> Some (snd (freeze E om b))) = Some b1" and r: "ReadAllRelayLogs E nm b1 = Some (r, c)"
    using assms(1) unfolding reject_and_sync_def by (auto split: option.splits)
  have "steps P a b1"
    using b1 assms(3,4) by (auto split: if_splits option.splits intro!: steps_talks)
  with r assms(2) show ?thesis
    by (auto intro: steps_talks_wait)
qed

lemma build_crash_steps:
  assumes "build_crash E fail nm b = Some (cr, c)"
  shows "(\<forall>P a. steps P a b \<longrightarrow> steps P a c) \<and>
    (\<exists>om. oldMaster b = Some om \<and> CrURL cr = URL (srv b om)) \<and>
    CrElectedMasterURL cr = URL (srv b nm) \<and> CrSwitchover cr = (\<not> fail) \<and> CrUnixTimestamp cr = Now E"
  using assms
  by (auto simp: build_crash_def split: option.splits intro!: steps_upd_srv)

lemma relay_catchup_steps:
  assumes "relay_catchup E nm cr b = Some (cr1, relay, c)" "talks P nm"
    "\<And>rm. GetRelayServer b = Some rm \<Longrightarrow> MxsBinlogOn (Conf b) \<or> MultiTierSlave (Conf b) \<Longrightarrow> talks P rm" "steps P a b"
  shows "steps P a c \<and> CrURL cr1 = CrURL cr \<and> CrElectedMasterURL cr1 = CrElectedMasterURL cr \<and>
    CrSwitchover cr1 = CrSwitchover cr \<and> CrUnixTimestamp cr1 = CrUnixTimestamp cr"
  using assms
  by (auto simp: relay_catchup_def Let_def opens_writes_def talks_view split: if_splits option.splits
      intro!: steps_upd_srv steps_fold steps_send [of P nm] steps_Refresh)

lemma steps_candidate:
  assumes "talks P nm" "steps P a b"
  shows "steps P a (stop_candidate nm b)" "steps P a (reset_candidate nm b)"
  using assms by (auto simp: stop_candidate_def reset_candidate_def Let_def intro!: steps_talks)

lemma steps_open_traffic:
  assumes "open_traffic E fail nm b = Some c" "master b = Some nm" "talks P nm" "may_open P b nm" "quiet P" "steps P a b"
  shows "steps P a c"
proof -
  define b1 where "b1 = (if fail then b else Refresh E nm b)"
  define b2 where "b2 = emit OpProxiesFailover (snd (SetReadWrite E nm b1))"
  have "steps P b b1" "steps P a b1"
    using assms(3,6) by (auto simp: b1_def talks_view intro!: steps_Refresh)
  then have "steps P a (snd (SetReadWrite E nm b1))" "steps P b (snd (SetReadWrite E nm b1))"
    using assms(4) by (auto intro!: steps_open)
  then have s2: "steps P a b2" "steps P b b2"
    using assms(5) by (auto simp: b2_def intro!: steps_send_none)
  from assms(1) obtain b3 b4 where b3: "failoverPostScript fail b2 = Some b3"
    and b4: "failoverEnableEventScheduler b3 = Some b4" and c: "c = emit (OpFlushTables nm) b4"
    by (auto simp: open_traffic_def Let_def b1_def b2_def split: option.splits)
  have s3: "steps P a b3" "steps P b b3"
    using s2 assms(5) by (auto intro!: steps_failoverPostScript [OF b3])
  have "master b3 = Some nm"
    using assms(2) steps_fields(6) [OF s3(2)] by simp
  with s3 assms(3) have "steps P a b4"
    by (intro steps_failoverEnableEventScheduler [OF b4])
  with assms(3) show ?thesis
    unfolding c by (auto simp: opens_writes_def intro!: steps_send)
qed

lemma steps_move_sources:
  assumes "talks P nm" "\<not> fail \<Longrightarrow> talks P om" "steps P a b"
  shows "steps P a (FailoverExtraMultiSource E om nm fail b)"
  unfolding FailoverExtraMultiSource_def
proof (rule steps_fold [OF _ assms(3)])
  fix rep c
  show "steps P c (move_source E om nm fail rep c)"
    using assms(1,2)
    by (simp add: move_source_def run_def Let_def steps_emit talks_ops [of P])
qed

lemma steps_restart_replica:
  assumes "talks P x" "may_open P b x" "\<not> fail \<Longrightarrow> talks P om" "steps P b c" "steps P a c"
  shows "steps P a (restart_replica E fail om x c)"
proof -
  define c2 where "c2 = (if MxsBinlogOn (Conf c) \<and> \<not> fail then StartSlave om (StartSlave x c) else StartSlave x c)"
  have s: "steps P a c2" "steps P b c2"
    unfolding c2_def using assms by (auto intro!: steps_talks)
  show ?thesis
    unfolding restart_replica_def Let_def c2_def [symmetric]
    using assms(1,2) s by (auto intro!: steps_talks steps_open)
qed

lemma steps_repoint:
  assumes "talks P x" "quiet P" "steps P a b"
  shows "steps P a (repoint E om nm x b)"
  unfolding repoint_def Let_def case_prod_beta
  using assms by (simp add: steps_emit talks_ops [of P] steps_quiet)

lemma steps_wait_and_stop:
  assumes "talks P x" "steps P a b"
  shows "steps P a (wait_and_stop fail om x b)"
  unfolding wait_and_stop_def Let_def
  using assms by (auto simp: talks_ops [of P] intro!: steps_emit steps_talks)

lemma steps_switch_slave:
  assumes "switch_slave E fail x b = Some c" "quiet P" "steps P a b"
    "\<And>om. oldMaster b = Some om \<Longrightarrow> URL (srv b x) \<noteq> URL (srv b om) \<Longrightarrow> talks P x \<and> may_open P b x"
    "\<not> fail \<Longrightarrow> \<forall>om. oldMaster b = Some om \<longrightarrow> talks P om"
  shows "steps P a c"
proof (cases "skip_switch b (srv b x) = Some False")
  case True
  then obtain om nm where om: "oldMaster b = Some om" and url: "URL (srv b x) \<noteq> URL (srv b om)" and
    c: "c = restart_replica E fail om x (repoint E om nm x (wait_and_stop fail om x b))"
    using assms(1) by (auto simp: switch_slave_def skip_switch_def split: option.splits if_splits)
  define b1 where "b1 = repoint E om nm x (wait_and_stop fail om x b)"
  from assms(4) [OF om url] have t: "talks P x" "may_open P b x"
    by simp_all
  then have "steps P b b1" "steps P a b1"
    unfolding b1_def using assms(2,3) by (auto intro!: steps_repoint steps_wait_and_stop)
  with t assms(5) om show ?thesis
    unfolding c b1_def [symmetric] by (intro steps_restart_replica) auto
next
  case False
  with assms(1,3) show ?thesis
    by (auto simp: switch_slave_def split: option.splits bool.splits)
qed

lemma steps_switch_slaves:
  assumes "switch_slaves E fail xs b = Some c" "quiet P" "steps P a b"
    "\<And>x om. x \<in> set xs \<Longrightarrow> oldMaster b = Some om \<Longrightarrow> URL (srv b x) \<noteq> URL (srv b om) \<Longrightarrow> talks P x \<and> may_open P b x"
    "\<not> fail \<Longrightarrow> \<forall>om. oldMaster b = Some om \<longrightarrow> talks P om"
  shows "steps P a c"
  using assms
proof (induction xs arbitrary: b)
  case (Cons x xs)
  from Cons.prems(1) obtain b1 where b1: "switch_slave E fail x b = Some b1" and r: "switch_slaves E fail xs b1 = Some c"
    by (auto split: Option.bind_splits)
  have s: "steps P a b1"
    by (rule steps_switch_slave [OF b1]) (use Cons.prems in auto)
  have sb: "steps P b b1"
    by (rule steps_switch_slave [OF b1]) (use Cons.prems in auto)
  note f = steps_fields [OF sb]
  show ?case
    by (rule Cons.IH [OF r Cons.prems(2) s])
      (use Cons.prems(4,5) f in \<open>auto simp: may_open_def\<close>)
qed auto

lemma demote_roles:
  assumes "demote E nm relay cr b = Some c" "oldMaster b = Some om" "talks P om" "may_open P b om" "quiet P"
  shows "steps P (b\<lparr>slaves := slaves c\<rparr>) c \<and> slaves c = slaves b @ (if MultiMaster (Conf b) then [] else [om])"
proof -
  define b1 where "b1 = emit (OpUnlockTables om) (emit (OpKillThreads om) (Refresh E om b))"
  have s1: "steps P b b1"
    unfolding b1_def using assms(3) by (simp add: steps_emit talks_ops [of P] steps_Refresh talks_view [of P])
  obtain b2 where b2: "demote_replication om nm relay cr b1 = Some b2" and c: "c = demote_access E om b2"
    using assms(1,2) by (auto simp: demote_def b1_def)
  have "steps P b1 b2"
    using b2 assms(3)
    by (auto simp: demote_replication_def Let_def talks_ops [of P] split: option.splits prod.splits if_splits
        intro!: steps_talks steps_emit)
  with s1 have s2: "steps P b b2"
    by (rule steps_trans)
  define b3 where "b3 = (if CReadOnly (Conf b2) then snd (SetReadOnly E om b2)
                 else if MultiMaster (Conf b2) \<and> MultiMasterConcurrentWrite (Conf b2)
                 then snd (SetReadWrite E om b2) else b2)"
  have s3: "steps P b b3"
    unfolding b3_def using s2 assms(3,4) by (auto intro!: steps_talks steps_open)
  define b4 where "b4 = Server_SetState om stateSlave (if SwitchDecreaseMaxConn (Conf b2)
                 then emit (OpSetMaxConnections om (maxConn (srv b3 om))) b3 else b3)"
  have s4: "steps P b b4"
    unfolding b4_def using s3 assms(3,5)
    by (auto simp: talks_ops [of P] intro!: steps_quiet steps_emit)
  have "c = (if \<not> MultiMaster (Conf b2) then b4\<lparr>slaves := slaves b4 @ [om]\<rparr> else b4)"
    unfolding c demote_access_def Let_def b3_def b4_def by simp
  moreover have "Conf b2 = Conf b" "slaves b4 = slaves b"
    by (rule steps_fields [OF s2], rule steps_fields [OF s4])
  moreover from this have "b4 = b4\<lparr>slaves := slaves b\<rparr>"
    by (metis cluster.surjective cluster.update_convs(7))
  ultimately have c4: "c = b4\<lparr>slaves := slaves b @ (if MultiMaster (Conf b) then [] else [om])\<rparr>"
    by simp
  have "steps P (b\<lparr>slaves := xs\<rparr>) (b4\<lparr>slaves := xs\<rparr>)" for xs
    using s4 by (simp add: steps_def roles_def IsInFailover_def)
  then show ?thesis
    unfolding c4 by simp
qed

section \<open>The leader change as a whole\<close>

definition sends :: "(dbop \<Rightarrow> bool) \<Rightarrow> cluster \<Rightarrow> cluster \<Rightarrow> bool" where
  "sends P a b \<longleftrightarrow> (\<exists>ops. trace b = trace a @ ops \<and> list_all P ops)"

lemma sends_trans [trans]: "sends P a b \<Longrightarrow> sends P b c \<Longrightarrow> sends P a c"
  by (fastforce simp: sends_def)

lemma steps_sends: "steps P a b \<Longrightarrow> sends P a b"
  by (simp add: steps_def sends_def)

text \<open>What a completed change leaves: the roles, the crash record, the counters.\<close>

definition changed :: "dbenv \<Rightarrow> bool \<Rightarrow> sid \<Rightarrow> sid \<Rightarrow> cluster \<Rightarrow> cluster \<Rightarrow> bool" where
  "changed E fail om nm b c \<longleftrightarrow>
     master c = Some nm \<and> oldMaster c = Some om \<and> vmaster c = vmaster b \<and>
     slaves c = slaves b @ (if \<not> fail \<and> \<not> MultiMaster (Conf b) then [om] else []) \<and>
     (\<exists>cr. Crashes c = Crashes b @ [cr] \<and> CrURL cr = URL (srv b om) \<and> CrElectedMasterURL cr = URL (srv b nm) \<and>
        CrSwitchover cr = (\<not> fail) \<and> CrUnixTimestamp cr = Now E) \<and>
     FailoverCtr c = FailoverCtr b + (if fail then 1 else 0) \<and>
     FailoverTs c = (if fail then Now E else FailoverTs b) \<and> FailCount (srv c nm) = 0 \<and>
     Conf c = Conf b \<and> Servers c = Servers b \<and> Topology c = Topology b \<and> CName c = CName b \<and>
     IsInFailover c = IsInFailover b \<and> IsFailedArbitrator c = IsFailedArbitrator b \<and>
     (\<forall>i. URL (srv c i) = URL (srv b i))"

text \<open>Who a change may talk to and open, read on the state it starts from.\<close>

definition reaches :: "(dbop \<Rightarrow> bool) \<Rightarrow> bool \<Rightarrow> sid \<Rightarrow> sid \<Rightarrow> cluster \<Rightarrow> bool" where
  "reaches P fail om nm b \<longleftrightarrow>
     quiet P \<and> talks P nm \<and> may_open P b nm \<and> (\<not> fail \<longrightarrow> talks P om \<and> may_open P b om) \<and>
     (MxsBinlogOn (Conf b) \<or> MultiTierSlave (Conf b) \<longrightarrow> (\<forall>rm \<in> set (Servers b). talks P rm)) \<and>
     (\<forall>x \<in> set (slaves b). URL (srv b x) \<noteq> URL (srv b om) \<longrightarrow> talks P x \<and> may_open P b x)"

lemma save_crash_steps:
  assumes "quiet P" "steps P a b"
  shows "steps P (a\<lparr>Crashes := Crashes (save_crash cr b), FailoverHistory := FailoverHistory (save_crash cr b)\<rparr>) (save_crash cr b)"
    "Crashes (save_crash cr b) = Crashes b @ [cr]"
proof -
  define b1 where "b1 = b\<lparr>Crashes := Crashes b @ [cr],
    FailoverHistory := StoreLastN cr (FailoverLogFileKeep (Conf b)) (FailoverHistory b)\<rparr>"
  have "steps P (a\<lparr>Crashes := Crashes b1, FailoverHistory := FailoverHistory b1\<rparr>) b1"
    using assms(2) by (simp add: b1_def steps_def roles_def IsInFailover_def)
  with assms(1) show "steps P (a\<lparr>Crashes := Crashes (save_crash cr b), FailoverHistory := FailoverHistory (save_crash cr b)\<rparr>) (save_crash cr b)"
    by (simp add: save_crash_def Let_def b1_def [symmetric] steps_send_none)
      (simp add: emit_def steps_def roles_def IsInFailover_def quiet_def, fastforce)
  show "Crashes (save_crash cr b) = Crashes b @ [cr]"
    by (simp add: save_crash_def Let_def emit_def)
qed

lemma GetRelayServer_in: "GetRelayServer cl = Some rm \<Longrightarrow> rm \<in> set (Servers cl)"
  by (auto simp: GetRelayServer_def dest: find_SomeD split: if_splits)

lemma leader_prepared:
  assumes "reject_and_sync E fail nm b = Some b1" "build_crash E fail nm b1 = Some (cr0, b2)"
    "relay_catchup E nm cr0 b2 = Some (cr, relay, b3)" "oldMaster b = Some om" "reaches P fail om nm b"
  defines "d \<equiv> reset_candidate nm (save_crash cr (stop_candidate nm b3))"
  shows "steps P (b\<lparr>Crashes := Crashes d, FailoverHistory := FailoverHistory d\<rparr>) d \<and>
    Crashes d = Crashes b @ [cr] \<and> CrURL cr = URL (srv b om) \<and> CrElectedMasterURL cr = URL (srv b nm) \<and>
    CrSwitchover cr = (\<not> fail) \<and> CrUnixTimestamp cr = Now E"
proof -
  have P: "quiet P" "talks P nm" "\<not> fail \<Longrightarrow> talks P om"
    "MxsBinlogOn (Conf b) \<or> MultiTierSlave (Conf b) \<Longrightarrow> \<forall>rm \<in> set (Servers b). talks P rm"
    using assms(5) by (auto simp: reaches_def)
  have s1: "steps P b b1"
    by (rule steps_reject_and_sync [OF assms(1)]) (use P assms(4) in auto)
  note f1 = steps_fields [OF s1] and cr0 = build_crash_steps [OF assms(2)]
  have s2: "steps P b b2"
    using cr0 s1 by blast
  have r: "steps P b b3 \<and> CrURL cr = CrURL cr0 \<and> CrElectedMasterURL cr = CrElectedMasterURL cr0 \<and>
    CrSwitchover cr = CrSwitchover cr0 \<and> CrUnixTimestamp cr = CrUnixTimestamp cr0"
    by (rule relay_catchup_steps [OF assms(3) P(2) _ s2])
      (use P(4) steps_fields [OF s2] in \<open>auto dest!: GetRelayServer_in\<close>)
  define b4 where "b4 = stop_candidate nm b3"
  have s4: "steps P b b4"
    using r P(2) by (simp add: b4_def steps_candidate)
  define b5 where "b5 = save_crash cr b4"
  have s5: "steps P (b\<lparr>Crashes := Crashes b5, FailoverHistory := FailoverHistory b5\<rparr>) b5" "Crashes b5 = Crashes b4 @ [cr]"
    using save_crash_steps [OF P(1) s4] by (simp_all add: b5_def)
  have s6: "steps P (b\<lparr>Crashes := Crashes b5, FailoverHistory := FailoverHistory b5\<rparr>) d" "steps P b5 d"
    using s5(1) P(2) by (simp_all add: d_def b5_def b4_def steps_candidate)
  have "Crashes d = Crashes b5" "FailoverHistory d = FailoverHistory b5" "Crashes b4 = Crashes b"
    by (rule steps_fields [OF s6(2)])+ (rule steps_fields [OF s4])
  with s5 s6 cr0 r f1 assms(4) show ?thesis
    by auto
qed

lemma leader_opened:
  assumes "open_traffic E fail nm d = Some c1" "(if fail then Some c1 else demote E nm relay cr c1) = Some c2"
    "master d = Some nm" "oldMaster d = Some om" "reaches P fail om nm d"
    "SwitchSlavesToMaster E fail (FailoverExtraMultiSource E om nm fail c2) = Some c3"
  shows "steps P (d\<lparr>slaves := slaves c3\<rparr>) c3 \<and>
    slaves c3 = slaves d @ (if \<not> fail \<and> \<not> MultiMaster (Conf d) then [om] else [])"
proof -
  have P: "quiet P" "talks P nm" "may_open P d nm" "\<not> fail \<Longrightarrow> talks P om \<and> may_open P d om"
    "\<And>x. x \<in> set (slaves d) \<Longrightarrow> URL (srv d x) \<noteq> URL (srv d om) \<Longrightarrow> talks P x \<and> may_open P d x"
    using assms(5) by (auto simp: reaches_def)
  have s1: "steps P d c1"
    by (rule steps_open_traffic [OF assms(1,3)]) (use P in auto)
  note f1 = steps_fields [OF s1]
  have s2: "steps P (c1\<lparr>slaves := slaves c2\<rparr>) c2 \<and>
      slaves c2 = slaves d @ (if \<not> fail \<and> \<not> MultiMaster (Conf d) then [om] else [])"
  proof (cases fail)
    case True
    have "steps P (c1\<lparr>slaves := slaves c1\<rparr>) c1"
      by (simp add: steps_def roles_def IsInFailover_def)
    with True assms(2) f1(5) show ?thesis by simp
  next
    case False
    then have "demote E nm relay cr c1 = Some c2" using assms(2) by simp
    moreover have "oldMaster c1 = Some om" "talks P om" "may_open P c1 om"
      using P(4) False f1 assms(4) by (simp_all add: may_open_def)
    ultimately have r: "steps P (c1\<lparr>slaves := slaves c2\<rparr>) c2 \<and>
      slaves c2 = slaves c1 @ (if MultiMaster (Conf c1) then [] else [om])"
      using P(1) by (rule demote_roles)
    have "slaves c2 = slaves d @ (if \<not> fail \<and> \<not> MultiMaster (Conf d) then [om] else [])"
      using r [THEN conjunct2] f1(3,5) False by simp
    with r show ?thesis by blast
  qed
  have s2': "steps P (d\<lparr>slaves := slaves c2\<rparr>) c2"
    by (rule steps_trans [OF _ s2 [THEN conjunct1]]) (use s1 in \<open>simp add: steps_def roles_def IsInFailover_def\<close>)
  define c2' where "c2' = FailoverExtraMultiSource E om nm fail c2"
  have s3: "steps P (d\<lparr>slaves := slaves c2\<rparr>) c2'"
    unfolding c2'_def using P s2' by (intro steps_move_sources) auto
  note f3 = steps_fields [OF s3]
  have "switch_slaves E fail (slaves c2') c2' = Some c3"
    using assms(6) by (simp add: SwitchSlavesToMaster_def c2'_def)
  moreover have mo: "may_open P c2' x = may_open P d x" for x
    by (simp add: may_open_def f3)
  have "talks P x \<and> may_open P c2' x"
    if "x \<in> set (slaves c2')" "oldMaster c2' = Some o1" "URL (srv c2' x) \<noteq> URL (srv c2' o1)" for x o1
  proof -
    have "o1 = om" "URL (srv d x) \<noteq> URL (srv d om)"
      using that(2,3) f3 assms(4) by auto
    moreover from this have "x \<in> set (slaves d)"
      using that(1) f3(5) s2 by (auto split: if_splits)
    ultimately show ?thesis
      using P(5) mo by blast
  qed
  ultimately have "steps P (d\<lparr>slaves := slaves c2\<rparr>) c3"
    by (rule steps_switch_slaves [OF _ P(1) s3]) (use P(4) f3 assms(4) in auto)
  moreover have "slaves c3 = slaves c2"
    using steps_fields(5) [OF calculation] by simp
  ultimately show ?thesis
    using s2 by simp
qed

lemma reaches_steps:
  assumes "reaches P fail om nm b" "steps Q (b\<lparr>Crashes := x, FailoverHistory := y\<rparr>) d"
  shows "reaches P fail om nm d"
  using assms(1) steps_fields [OF assms(2)] by (simp add: reaches_def may_open_def)

lemma demote_keeps_old_master:
  assumes "open_traffic E fail nm d = Some c1" "(if fail then Some c1 else demote E nm relay cr c1) = Some c2"
    "oldMaster c2 = Some om'" "master d = Some nm" "oldMaster d = Some om"
  shows "om' = om"
proof -
  define T where "T = (\<lambda>_ :: dbop. True)"
  have T: "quiet T" "\<And>i. talks T i" "\<And>i c. may_open T c i"
    by (simp_all add: T_def quiet_def talks_def may_open_def)
  have "steps T d c1"
    by (rule steps_open_traffic [OF assms(1,4)]) (simp_all add: T)
  then have o1: "oldMaster c1 = Some om"
    using assms(5) by (simp add: steps_fields)
  show ?thesis
  proof (cases fail)
    case True
    with assms(2,3) o1 show ?thesis by simp
  next
    case False
    then have "demote E nm relay cr c1 = Some c2" using assms(2) by simp
    from demote_roles [OF this o1 T(2,3,1)] have "steps T (c1\<lparr>slaves := slaves c2\<rparr>) c2"
      by blast
    from steps_fields(8) [OF this] assms(3) o1 show ?thesis by simp
  qed
qed

lemma switch_leader_changed:
  assumes "switch_leader E fail b = Some c" "master b = Some nm" "oldMaster b = Some om" "reaches P fail om nm b"
  shows "changed E fail om nm b c \<and> sends P b c"
proof -
  from assms(1,2) obtain b1 cr0 b2 cr relay b3 where
    p: "reject_and_sync E fail nm b = Some b1" "build_crash E fail nm b1 = Some (cr0, b2)"
       "relay_catchup E nm cr0 b2 = Some (cr, relay, b3)"
    by (auto simp: switch_leader_def split: option.splits)
  define d where "d = reset_candidate nm (save_crash cr (stop_candidate nm b3))"
  have d: "steps P (b\<lparr>Crashes := Crashes d, FailoverHistory := FailoverHistory d\<rparr>) d"
    and cr: "Crashes d = Crashes b @ [cr]" "CrURL cr = URL (srv b om)" "CrElectedMasterURL cr = URL (srv b nm)"
    "CrSwitchover cr = (\<not> fail)" "CrUnixTimestamp cr = Now E"
    using leader_prepared [OF p assms(3,4), folded d_def] by blast+
  note fd = steps_fields [OF d]
  from assms(1,2) p obtain c1 c2 om' c3 where
    q: "open_traffic E fail nm d = Some c1" "(if fail then Some c1 else demote E nm relay cr c1) = Some c2"
    and om': "oldMaster c2 = Some om'"
    and q3: "SwitchSlavesToMaster E fail (FailoverExtraMultiSource E om' nm fail c2) = Some c3"
    and c: "c = finish E fail nm (emit OpProxiesBackendStateChange c3)"
    by (auto simp: switch_leader_def d_def split: option.splits)
  have md: "master d = Some nm" "oldMaster d = Some om" "reaches P fail om nm d"
    using fd assms(2,3) reaches_steps [OF assms(4) d] by simp_all
  have "om' = om"
    using q om' md(1,2) by (rule demote_keeps_old_master)
  note o = leader_opened [OF q md q3 [unfolded this]]
  then have o1: "steps P (d\<lparr>slaves := slaves c3\<rparr>) c3"
    and o2: "slaves c3 = slaves d @ (if \<not> fail \<and> \<not> MultiMaster (Conf d) then [om] else [])"
    by blast+
  note fo = steps_fields [OF o1]
  have "sends P b d" "sends P d c3"
    using steps_sends [OF d] steps_sends [OF o1] by (simp_all add: sends_def)
  moreover have "sends P c3 c"
    using assms(4) by (simp add: c finish_def Let_def sends_def emit_def upd_srv_def reaches_def quiet_def)
  ultimately have "sends P b c"
    by (blast intro: sends_trans)
  then show ?thesis
    using fd fo o2 cr md
    by (auto simp: changed_def c finish_def Let_def emit_def upd_srv_def IsInFailover_def)
qed

text \<open>A cluster in order: one record per URL in the server list, replicas and the master taken from it.\<close>

definition well_formed :: "cluster \<Rightarrow> bool" where
  "well_formed cl \<longleftrightarrow>
     distinct (slaves cl) \<and> set (slaves cl) \<subseteq> set (Servers cl) \<and>
     inj_on (\<lambda>i. URL (srv cl i)) (set (Servers cl)) \<and>
     (\<forall>m. master cl = Some m \<longrightarrow> m \<in> set (Servers cl) \<and> m \<notin> set (slaves cl))"

lemma well_formed_steps: "well_formed a \<Longrightarrow> steps P a b \<Longrightarrow> well_formed b"
  by (simp add: well_formed_def steps_fields)

text \<open>\<open>may_change P fail cl\<close>: the commands of a change from \<open>cl\<close> are allowed by \<open>P\<close>.\<close>

definition may_change :: "(dbop \<Rightarrow> bool) \<Rightarrow> bool \<Rightarrow> cluster \<Rightarrow> bool" where
  "may_change P fail cl \<longleftrightarrow>
     quiet P \<and> (\<forall>x \<in> set (slaves cl). talks P x \<and> may_open P cl x) \<and>
     (\<not> fail \<longrightarrow> (\<forall>m. master cl = Some m \<longrightarrow> talks P m \<and> may_open P cl m)) \<and>
     (MxsBinlogOn (Conf cl) \<or> MultiTierSlave (Conf cl) \<longrightarrow> (\<forall>rm \<in> set (Servers cl). talks P rm))"

lemma promote_changed:
  assumes "promote fail k b = Some c" "well_formed b" "k < length (slaves b)" "master b = Some om" "may_change P fail b"
  defines "nm \<equiv> slaves b ! k"
  shows "reaches P fail om nm c \<and> master c = Some nm \<and> oldMaster c = Some om \<and>
    steps P (b\<lparr>oldMaster := Some om, master := Some nm, slaves := slaves c\<rparr>) c \<and>
    mset (slaves c) = (if MultiMaster (Conf b) then mset (slaves b) else mset (slaves b) - {# nm #})"
proof -
  have P: "quiet P" "\<And>x. x \<in> set (slaves b) \<Longrightarrow> talks P x \<and> may_open P b x"
    "\<not> fail \<Longrightarrow> talks P om \<and> may_open P b om"
    using assms(4,5) by (auto simp: may_change_def)
  have nm: "nm \<in> set (slaves b)" "nm \<in> set (Servers b)" "inj_on (\<lambda>i. URL (srv b i)) (set (Servers b))"
    using assms(2,3) by (auto simp: nm_def well_formed_def)
  obtain c0 where s: "steps P (b\<lparr>oldMaster := Some om, master := Some nm, slaves := slaves c\<rparr>) c"
    and sl: "slaves c = (if MultiMaster (Conf b) then slaves b else server_delete nm c0 (slaves b))"
    and u: "\<And>i. URL (srv c0 i) = URL (srv b i)"
    using promote_roles [OF assms(1)] P(1) shuffle_found [OF nm(2,3)] assms(4) unfolding nm_def [symmetric]
    by fastforce
  note f = steps_fields [OF s]
  have "inj_on (\<lambda>i. URL (srv c0 i)) (set (slaves b))"
    using nm(3) assms(2) unfolding u by (auto simp: well_formed_def intro: inj_on_subset)
  then have m: "mset (slaves c) = (if MultiMaster (Conf b) then mset (slaves b) else mset (slaves b) - {# nm #})"
    using sl server_delete_mset [OF nm(1)] by simp
  have sub: "set (slaves c) \<subseteq> set (slaves b)"
    using sl server_delete_subset [of nm c0 "slaves b"] by auto
  have mo: "may_open P c x = may_open P b x" for x
    using f by (simp add: may_open_def)
  have r: "reaches P fail om nm c"
    using P nm(1) sub f assms(5) unfolding reaches_def mo by (auto simp: may_change_def)
  show ?thesis
    using r s m f by auto
qed

lemma switch_leader_needs_old:
  assumes "switch_leader E fail b = Some c"
  shows "oldMaster b \<noteq> None"
proof -
  define T where "T = (\<lambda>_ :: dbop. True)"
  from assms obtain nm b1 cr0 b2 where r: "reject_and_sync E fail nm b = Some b1"
    and c: "build_crash E fail nm b1 = Some (cr0, b2)"
    by (auto simp: switch_leader_def split: option.splits)
  have "steps T b b1"
    by (rule steps_reject_and_sync [OF r]) (simp_all add: T_def talks_def)
  with build_crash_steps [OF c] show ?thesis
    by (auto simp: steps_fields)
qed

text \<open>The relation between the cluster before and after a completed change.\<close>

definition leader_changed :: "dbenv \<Rightarrow> bool \<Rightarrow> sid \<Rightarrow> sid \<Rightarrow> cluster \<Rightarrow> cluster \<Rightarrow> bool" where
  "leader_changed E fail om nm a c \<longleftrightarrow>
     master a = Some om \<and> nm \<in> set (slaves a) \<and> master c = Some nm \<and> oldMaster c = Some om \<and>
     mset (slaves c) =
       (if MultiMaster (Conf a) then mset (slaves a)
        else mset (slaves a) - {# nm #} + (if fail then {#} else {# om #})) \<and>
     (\<exists>cr. Crashes c = Crashes a @ [cr] \<and> CrURL cr = URL (srv a om) \<and> CrElectedMasterURL cr = URL (srv a nm) \<and>
        CrSwitchover cr = (\<not> fail) \<and> CrUnixTimestamp cr = Now E) \<and>
     FailoverCtr c = FailoverCtr a + (if fail then 1 else 0) \<and>
     FailoverTs c = (if fail then Now E else FailoverTs a) \<and> FailCount (srv c nm) = 0 \<and>
     Conf c = Conf a \<and> Servers c = Servers a \<and> (\<forall>i. URL (srv c i) = URL (srv a i))"

lemma promote_switch_changed:
  assumes "promote fail k b = Some d" "switch_leader E fail d = Some c" "well_formed b" "k < length (slaves b)"
    "may_change P fail b"
  shows "\<exists>om. leader_changed E fail om (slaves b ! k) b c \<and> sends P b c \<and> IsInFailover c = IsInFailover b"
proof -
  have "quiet (\<lambda>_. True)" by (simp add: quiet_def)
  obtain nm where st: "steps (\<lambda>_. True) (b\<lparr>oldMaster := master b, master := Some nm, slaves := slaves d\<rparr>) d"
    using promote_roles [OF assms(1)] \<open>quiet (\<lambda>_. True)\<close> by fastforce
  from steps_fields(8) [OF st] have "oldMaster d = master b"
    by simp
  with switch_leader_needs_old [OF assms(2)] obtain om where om: "master b = Some om"
    by auto
  note p = promote_changed [OF assms(1,3,4) om assms(5)]
  from p have ch: "changed E fail om (slaves b ! k) d c \<and> sends P d c"
    by (intro switch_leader_changed [OF assms(2)]) auto
  have s: "steps P (b\<lparr>oldMaster := Some om, master := Some (slaves b ! k), slaves := slaves d\<rparr>) d"
    using p by blast
  note f = steps_fields [OF s]
  have "sends P b d"
    using steps_sends [OF s] by (simp add: sends_def)
  then have "sends P b c"
    using ch by (blast intro: sends_trans)
  moreover have "IsInFailover c = IsInFailover b"
    using ch f(13) by (simp add: changed_def IsInFailover_def)
  moreover have "leader_changed E fail om (slaves b ! k) b c"
    using ch f p om assms(4) unfolding changed_def leader_changed_def by (simp split: if_splits)
  ultimately show ?thesis
    by blast
qed

text \<open>A change either gives up having only looked at the cluster, or completes.\<close>

lemma failover_body_cases:
  assumes "failover_body E fail b = Some (v, c)" "well_formed b" "may_change P fail b"
  shows "(if v \<and> \<not> (fail \<and> MultiMasterGrouprep (Conf b))
    then \<exists>om nm e. leader_changed E fail om nm b c \<and> sends P b c \<and> IsInFailover c = IsInFailover b \<and>
           steps (\<lambda>_. True) b e \<and> safe_candidate E e nm
    else steps P b c)"
proof (cases "fail \<and> MultiMasterGrouprep (Conf b)")
  case True
  with assms(1) show ?thesis by (simp add: failover_body_def)
next
  case F: False
  define pr where "pr = (if fail then (True, b) else switchover_prepare E b)"
  have P: "\<And>x. x \<in> set (slaves b) \<Longrightarrow> talks P x" "\<not> fail \<Longrightarrow> \<forall>m. master b = Some m \<longrightarrow> talks P m"
    using assms(3) by (auto simp: may_change_def)
  have s1: "steps P b (snd pr)"
    using P(2) by (auto simp: pr_def intro!: steps_switchover_prepare)
  note f1 = steps_fields [OF s1]
  have body: "(if \<not> fst pr then Some (False, snd pr) else case elect_new_master E fail (snd pr) of
      None \<Rightarrow> None | Some (None, c2) \<Rightarrow> Some (False, c2)
    | Some (Some k, c2) \<Rightarrow> map_option (\<lambda>c. (True, c)) (Option.bind (promote fail k c2) (switch_leader E fail)))
      = Some (v, c)"
    using assms(1) F unfolding failover_body_def pr_def by (simp add: Let_def case_prod_beta)
  show ?thesis
  proof (cases "fst pr")
    case False
    with body s1 show ?thesis by simp
  next
    case True
    then obtain r c2 where e: "elect_new_master E fail (snd pr) = Some (r, c2)"
      using body by (auto split: option.splits)
    have s2: "steps P b c2"
      by (rule steps_elect_new_master [OF e]) (use P(1) f1 s1 in auto)
    note f2 = steps_fields [OF s2]
    show ?thesis
    proof (cases r)
      case None
      with body True e s2 show ?thesis by simp
    next
      case (Some k)
      with body True e obtain d where v: "v" and d: "promote fail k c2 = Some d" "switch_leader E fail d = Some c"
        by (auto split: Option.bind_splits)
      have k: "k < length (slaves c2)" "safe_candidate E c2 (slaves c2 ! k)"
        using elect_new_master_safe [OF e [unfolded Some]] by simp_all
      have "may_change P fail c2"
        using assms(3) f2 by (simp add: may_change_def may_open_def)
      from promote_switch_changed [OF d well_formed_steps [OF assms(2) s2] k(1) this] obtain om where
        ch: "leader_changed E fail om (slaves c2 ! k) c2 c" "sends P c2 c" "IsInFailover c = IsInFailover c2"
        by blast
      have "leader_changed E fail om (slaves c2 ! k) b c" "IsInFailover c = IsInFailover b"
        using ch(1,3) f2 by (simp_all add: leader_changed_def)
      moreover have "sends P b c"
        by (rule sends_trans [OF steps_sends [OF s2] ch(2)])
      moreover have "steps (\<lambda>_. True) b c2"
        using s2 by (rule steps_mono) simp
      ultimately show ?thesis
        using v F k(2) by auto
    qed
  qed
qed

text \<open>\<open>plain_topology\<close>: the topologies \<open>MasterFailover\<close> handles itself.\<close>

definition plain_topology :: "cluster \<Rightarrow> bool" where
  "plain_topology cl \<longleftrightarrow>
     GetTopology cl \<notin> {TopoMultiMasterRing, TopoMultiMasterWsrep, TopoMultiMasterGrouprep}"

lemma MasterFailover_cases:
  assumes "MasterFailover E fail cl = Some (v, cl')" "plain_topology cl" "\<not> IsInFailover cl" "well_formed cl"
    "may_change P fail cl"
  shows "sends P cl cl' \<and> \<not> IsInFailover cl' \<and>
    (if v \<and> \<not> (fail \<and> MultiMasterGrouprep (Conf cl))
     then \<exists>om nm e. leader_changed E fail om nm cl cl' \<and> steps (\<lambda>_. True) (set_failover cl) e \<and> safe_candidate E e nm
     else steps P cl cl')"
proof -
  define b where "b = set_failover cl"
  from assms(1-3) obtain c where c: "failover_body E fail b = Some (v, c)" and cl': "cl' = remove_failover c"
    by (auto simp: MasterFailover_def plain_topology_def b_def)
  have wb: "well_formed b" "may_change P fail b"
    using assms(4,5) by (simp_all add: b_def set_failover_def well_formed_def may_change_def may_open_def)
  have n: "\<not> IsInFailover cl'"
    by (simp add: cl' remove_failover_def RemoveFailoverState_def IsInFailover_def SM_IsInFailover_def)
  note bc = failover_body_cases [OF c wb]
  show ?thesis
  proof (cases "v \<and> \<not> (fail \<and> MultiMasterGrouprep (Conf cl))")
    case True
    then have "v \<and> \<not> (fail \<and> MultiMasterGrouprep (Conf b))"
      by (simp add: b_def set_failover_def)
    with bc obtain om nm e where ch: "leader_changed E fail om nm b c" "sends P b c" "steps (\<lambda>_. True) b e"
      "safe_candidate E e nm"
      by auto
    have "leader_changed E fail om nm cl cl'" "sends P cl cl'"
      using ch(1,2) by (simp_all add: cl' leader_changed_def b_def set_failover_def remove_failover_def sends_def)
    with True n ch show ?thesis
      by (auto simp: b_def)
  next
    case False
    then have "\<not> (v \<and> \<not> (fail \<and> MultiMasterGrouprep (Conf b)))"
      by (simp add: b_def set_failover_def)
    with bc have "steps P b c"
      by simp
    then have "steps P cl cl'"
      using n assms(3)
      by (simp add: cl' steps_def roles_def b_def set_failover_def remove_failover_def IsInFailover_def
          SetFailoverState_def RemoveFailoverState_def SM_IsInFailover_def)
    with False n steps_sends show ?thesis
      by auto
  qed
qed

section \<open>Completion\<close>

text \<open>What has to go right for a change to complete: an elected replica, a relay log wait that ends, and a
  replication status with a readable position on the new master.\<close>

definition reaches_crash :: "dbenv \<Rightarrow> bool \<Rightarrow> cluster \<Rightarrow> bool" where
  "reaches_crash E fail b =
     (case elect_new_master E fail b of
        Some (Some k, c1) \<Rightarrow>
          (case promote fail k c1 of
             None \<Rightarrow> False
           | Some c2 \<Rightarrow>
               (case master c2 of
                  None \<Rightarrow> False
                | Some nm \<Rightarrow>
                    (case reject_and_sync E fail nm c2 of
                       None \<Rightarrow> False
                     | Some c3 \<Rightarrow> build_crash E fail nm c3 \<noteq> None)))
      | _ \<Rightarrow> False)"

lemma switch_slaves_total:
  assumes "oldMaster b \<noteq> None" "master b \<noteq> None"
  shows "switch_slaves E fail xs b \<noteq> None"
  using assms
proof (induction xs arbitrary: b)
  case (Cons x xs)
  define T where "T = (\<lambda>_ :: dbop. True)"
  have "switch_slave E fail x b \<noteq> None"
    using Cons.prems by (auto simp: switch_slave_def skip_switch_def split: option.splits bool.splits)
  then obtain b1 where b1: "switch_slave E fail x b = Some b1"
    by auto
  have "steps T b b1"
    by (rule steps_switch_slave [OF b1]) (simp_all add: T_def quiet_def talks_def may_open_def)
  with Cons b1 show ?case
    by (simp add: steps_fields)
qed simp

lemma open_traffic_total:
  assumes "oldMaster b \<noteq> None" "master b \<noteq> None"
  shows "open_traffic E fail nm b \<noteq> None"
proof -
  define b2 where "b2 = emit OpProxiesFailover (snd (SetReadWrite E nm (if fail then b else Refresh E nm b)))"
  have "steps (\<lambda>_. True) b b2"
    unfolding b2_def by (intro steps_emit steps_SetReadWrite) (auto intro!: steps_Refresh)
  then have "oldMaster b2 \<noteq> None" "master b2 \<noteq> None"
    using assms by (simp_all add: steps_fields)
  moreover from this have "GetMaster b2 \<noteq> None"
    by (auto simp: GetMaster_def)
  ultimately have "failoverPostScript fail b2 = Some b2 \<or> failoverPostScript fail b2 = Some (emit (OpPostScript fail) b2)"
    by (auto simp: failoverPostScript_def)
  then obtain b3 where b3: "failoverPostScript fail b2 = Some b3" "master b3 \<noteq> None"
    using \<open>master b2 \<noteq> None\<close> by (elim disjE) (simp_all add: emit_def)
  then show ?thesis
    by (auto simp: open_traffic_def Let_def b2_def [symmetric] failoverEnableEventScheduler_def)
qed

lemma demote_total:
  assumes "master c1 = Some nm" "oldMaster c1 = Some om" "\<not> MxsBinlogOn (Conf c1)"
  shows "\<exists>c2. (if fail then Some c1 else demote E nm None cr c1) = Some c2 \<and> master c2 = Some nm \<and> oldMaster c2 = Some om"
proof (cases fail)
  case False
  define T where "T = (\<lambda>_ :: dbop. True)"
  have T: "quiet T" "\<And>i. talks T i" "\<And>i c. may_open T c i"
    by (simp_all add: T_def quiet_def talks_def may_open_def)
  define c where "c = emit (OpUnlockTables om) (emit (OpKillThreads om) (Refresh E om c1))"
  have "Conf c = Conf c1"
    by (simp add: c_def emit_def Refresh_def upd_srv_def)
  then have "demote_replication om nm None cr c \<noteq> None"
    using assms(3) by (auto simp: demote_replication_def demote_mode_def Let_def)
  then obtain c2 where c2: "demote E nm None cr c1 = Some c2"
    using assms(2) by (auto simp: demote_def c_def)
  from demote_roles [OF this assms(2) T(2,3,1)] have "steps T (c1\<lparr>slaves := slaves c2\<rparr>) c2"
    by blast
  from steps_fields(6,8) [OF this] assms c2 False show ?thesis by simp
qed (simp add: assms)

lemma switch_leader_total:
  assumes "master b = Some nm" "reject_and_sync E fail nm b = Some b1" "build_crash E fail nm b1 = Some (cr0, b2)"
    "\<not> MxsBinlogOn (Conf b)" "\<not> MultiTierSlave (Conf b)"
  shows "switch_leader E fail b \<noteq> None"
proof -
  define T where "T = (\<lambda>_ :: dbop. True)"
  have T: "quiet T" "\<And>i. talks T i" "\<And>i c. may_open T c i"
    by (simp_all add: T_def quiet_def talks_def may_open_def)
  have s1: "steps T b b1"
    by (rule steps_reject_and_sync [OF assms(2)]) (simp_all add: T)
  have s2: "steps T b b2"
    using build_crash_steps [OF assms(3)] s1 by blast
  obtain om where om: "oldMaster b = Some om"
    using build_crash_steps [OF assms(3)] steps_fields(8) [OF s1] by auto
  have relay: "relay_catchup E nm cr0 b2 = Some (cr0, None, b2)"
    using assms(4,5) steps_fields(3) [OF s2] by (simp add: relay_catchup_def)
  have r: "reaches T fail om nm b"
    by (simp add: reaches_def T)
  define d where "d = reset_candidate nm (save_crash cr0 (stop_candidate nm b2))"
  have sd: "steps T (b\<lparr>Crashes := Crashes d, FailoverHistory := FailoverHistory d\<rparr>) d"
    using leader_prepared [OF assms(2,3) relay om r, folded d_def] by blast
  have md: "master d = Some nm" "oldMaster d = Some om" "\<not> MxsBinlogOn (Conf d)"
    using steps_fields(3,6,8) [OF sd] assms(1,4) om by simp_all
  then obtain c1 where c1: "open_traffic E fail nm d = Some c1"
    using open_traffic_total [of d E fail nm] by auto
  have "steps T d c1"
    by (rule steps_open_traffic [OF c1 md(1)]) (simp_all add: T)
  from steps_fields(3,6,8) [OF this] md
  have "master c1 = Some nm" "oldMaster c1 = Some om" "\<not> MxsBinlogOn (Conf c1)"
    by simp_all
  from demote_total [OF this] obtain c2 where c2: "(if fail then Some c1 else demote E nm None cr0 c1) = Some c2"
    "master c2 = Some nm" "oldMaster c2 = Some om"
    by blast
  define e where "e = FailoverExtraMultiSource E om nm fail c2"
  have "steps T c2 e"
    unfolding e_def by (rule steps_move_sources) (simp_all add: T)
  from steps_fields(6,8) [OF this] c2 have "SwitchSlavesToMaster E fail e \<noteq> None"
    by (simp add: SwitchSlavesToMaster_def switch_slaves_total)
  then show ?thesis
    using assms(1-3) relay c1 c2 by (auto simp: switch_leader_def d_def e_def)
qed

lemma MasterFailover_completes:
  fixes E :: dbenv
  assumes "plain_topology cl" "\<not> IsInFailover cl" "\<not> MxsBinlogOn (Conf cl)" "\<not> MultiTierSlave (Conf cl)"
    "\<not> (fail \<and> MultiMasterGrouprep (Conf cl))"
  defines "p \<equiv> (if fail then (True, set_failover cl) else switchover_prepare E (set_failover cl))"
  assumes "fst p" "reaches_crash E fail (snd p)"
  shows "map_option fst (MasterFailover E fail cl) = Some True"
proof -
  define T where "T = (\<lambda>_ :: dbop. True)"
  have T: "quiet T" "\<And>i. talks T i" by (simp_all add: T_def quiet_def talks_def)
  from assms(8) obtain k c1 where e: "elect_new_master E fail (snd p) = Some (Some k, c1)"
    by (auto simp: reaches_crash_def split: option.splits)
  with assms(8) obtain c2 nm c3 where pr: "promote fail k c1 = Some c2" and
    r2: "master c2 = Some nm" "reject_and_sync E fail nm c2 = Some c3" "build_crash E fail nm c3 \<noteq> None"
    by (auto simp: reaches_crash_def split: option.splits)
  then obtain cr c4 where r: "master c2 = Some nm" "reject_and_sync E fail nm c2 = Some c3"
    "build_crash E fail nm c3 = Some (cr, c4)"
    by auto
  have "steps T (set_failover cl) (snd p)"
    by (auto simp: p_def T intro!: steps_switchover_prepare)
  then have "steps T (set_failover cl) c1"
    by (rule steps_elect_new_master [OF e, rotated -1]) (simp add: T)
  then have "Conf c1 = Conf cl"
    by (simp add: steps_fields set_failover_def)
  moreover obtain b where "steps T (c1\<lparr>oldMaster := master c1, master := b, slaves := slaves c2\<rparr>) c2"
    using promote_roles [OF pr] T by blast
  then have "Conf c2 = Conf c1"
    using steps_fields(3) by fastforce
  ultimately have "switch_leader E fail c2 \<noteq> None"
    using assms(3,4) by (intro switch_leader_total [OF r]) simp_all
  moreover have "failover_body E fail (set_failover cl) = map_option (\<lambda>c. (True, c)) (switch_leader E fail c2)"
    using assms(5,7) e pr by (cases fail) (simp_all add: failover_body_def p_def set_failover_def split_beta)
  ultimately show ?thesis
    using assms(1,2) by (auto simp: MasterFailover_def plain_topology_def)
qed

section \<open>Freezing before opening\<close>

lemma freeze_trace:
  "\<exists>pre post. trace (snd (freeze E om b)) = trace b @ pre @ [OpSetReadOnly om True] @ post \<and>
     list_all (\<lambda>o1. \<not> opens_writes o1) pre"
proof -
  define b1 where "b1 = StopAllSlaves om (freeze_events om b)"
  have "steps (\<lambda>o1. \<not> opens_writes o1) b b1"
    unfolding b1_def by (intro steps_server_ops) auto
  then obtain pre where pre: "trace b1 = trace b @ pre" "list_all (\<lambda>o1. \<not> opens_writes o1) pre"
    by (auto simp: steps_def)
  define b2 where "b2 = emit (OpSetReadOnly om True) b1"
  have t2: "trace b2 = trace b @ pre @ [OpSetReadOnly om True]"
    by (simp add: b2_def emit_def pre)
  have "steps (\<lambda>_. True) b2 (snd (freeze E om b))"
    unfolding freeze_def run_def b1_def [symmetric] b2_def [symmetric]
    by (auto simp: Let_def split: bool.split intro!: steps_server_ops steps_wait_writes)
  then obtain post where "trace (snd (freeze E om b)) = trace b2 @ post"
    by (auto simp: steps_def)
  with t2 pre(2) show ?thesis
    by auto
qed

text \<open>Whatever follows the synchronisation only appends commands.\<close>

lemma switch_leader_after:
  assumes "switch_leader E fail b = Some c" "master b = Some nm" "reject_and_sync E fail nm b = Some b1"
  shows "sends (\<lambda>_. True) b1 c"
proof -
  define T where "T = (\<lambda>_ :: dbop. True)"
  have T: "quiet T" "\<And>i. talks T i" "\<And>i c. may_open T c i"
    by (simp_all add: T_def quiet_def talks_def may_open_def)
  from assms obtain cr0 b2 cr relay b3 where
    p: "build_crash E fail nm b1 = Some (cr0, b2)" "relay_catchup E nm cr0 b2 = Some (cr, relay, b3)"
    by (auto simp: switch_leader_def split: option.splits)
  define d where "d = reset_candidate nm (save_crash cr (stop_candidate nm b3))"
  from assms p obtain c1 c2 om c3 where
    q: "open_traffic E fail nm d = Some c1" "(if fail then Some c1 else demote E nm relay cr c1) = Some c2"
    and om: "oldMaster c2 = Some om"
    and q3: "SwitchSlavesToMaster E fail (FailoverExtraMultiSource E om nm fail c2) = Some c3"
    and c: "c = finish E fail nm (emit OpProxiesBackendStateChange c3)"
    by (auto simp: switch_leader_def d_def split: option.splits)
  obtain om0 where om0: "oldMaster b1 = Some om0"
    using build_crash_steps [OF p(1)] by blast
  have "steps T b1 b2"
    using build_crash_steps [OF p(1)] by blast
  then have "steps T b1 b3"
    using relay_catchup_steps [OF p(2), of T b1] T by blast
  then have s4: "steps T b1 (stop_candidate nm b3)"
    by (simp add: steps_candidate T)
  note s5 = save_crash_steps [OF T(1) s4, of cr]
  have s6: "steps T (save_crash cr (stop_candidate nm b3)) d"
    unfolding d_def by (simp add: steps_candidate T)
  have "master b1 = Some nm"
    using steps_fields(6) [OF steps_reject_and_sync [OF assms(3), of T b]] assms(2) T by simp
  then have md: "master d = Some nm" "oldMaster d = Some om0" "reaches T fail om0 nm d"
    using steps_fields(6,8) [OF s6] steps_fields(6,8) [OF s5(1)] om0 by (simp_all add: reaches_def T)
  have "om = om0"
    by (rule demote_keeps_old_master [OF q om md(1,2)])
  from leader_opened [OF q md q3 [unfolded this]] have "sends T d c3"
    by (auto dest!: steps_sends simp: sends_def)
  moreover have "sends T b1 d"
    using sends_trans [OF _ steps_sends [OF s6]] steps_sends [OF s5(1)] by (simp add: sends_def)
  moreover have "sends T c3 c"
    by (simp add: c finish_def Let_def sends_def emit_def upd_srv_def T_def)
  ultimately have "sends T b1 c"
    by (blast intro: sends_trans)
  then show ?thesis
    by (simp add: T_def)
qed

lemma switch_leader_freezes:
  assumes "switch_leader E False b = Some c" "oldMaster b = Some om"
  shows "\<exists>pre post. trace c = trace b @ pre @ [OpSetReadOnly om True] @ post \<and>
     list_all (\<lambda>o1. \<not> opens_writes o1) pre"
proof -
  define T where "T = (\<lambda>_ :: dbop. True)"
  have T: "quiet T" "\<And>i. talks T i" "\<And>i c. may_open T c i"
    by (simp_all add: T_def quiet_def talks_def may_open_def)
  from assms obtain nm b1 where nm: "master b = Some nm" and r: "reject_and_sync E False nm b = Some b1"
    by (auto simp: switch_leader_def split: option.splits)
  from r assms(2) obtain ok where "ReadAllRelayLogs E nm (snd (freeze E om b)) = Some (ok, b1)"
    by (auto simp: reject_and_sync_def)
  then have "sends T (snd (freeze E om b)) b1"
    by (intro steps_sends) (erule steps_talks_wait, simp_all add: T)
  moreover have "sends T b1 c"
    using switch_leader_after [OF assms(1) nm r] by (simp add: T_def)
  ultimately have "sends T (snd (freeze E om b)) c"
    by (rule sends_trans)
  with freeze_trace [of E om b] show ?thesis
    by (fastforce simp: sends_def)
qed

end
