(* ===== verification/FailoverProps.thy ===== *)
theory FailoverProps
  imports Failover
begin

text \<open>
  What a leader change guarantees (\<open>MasterFailover\<close>, \<open>src/cluster/cluster_fail.go\<close>): the roles it leaves, whom
  it talks to, in which order it freezes and opens servers, what it leaves when it gives up, and when it completes.
  \<open>leader_changed\<close>, \<open>well_formed\<close>, \<open>plain_topology\<close> and \<open>reaches_crash\<close> are defined in \<open>Failover\<close>.
\<close>

section \<open>A small cluster to run\<close>

text \<open>Server 0 is the master; 1 and 2 replicate from it and have received the same events.\<close>

definition small_status :: slave_status where
  "small_status = zero_slave_status
     \<lparr>MasterLogFile := ''m.1'', RelayMasterLogFile := ''m.1'', ReadMasterLogPos := ''7'', ExecMasterLogPos := ''7'',
      SlaveIORunning := ''Yes'', SlaveSQLRunning := ''Yes''\<rparr>"

definition small_env :: dbenv where
  "small_env = calm_env\<lparr>SlaveStatusAnswer := \<lambda>n i. Some small_status\<rparr>"

definition small_server :: "string \<Rightarrow> server" where
  "small_server u = zero_server\<lparr>URL := u, Variables := (\<lambda>_. ''ON''), HasConn := True\<rparr>"

definition small_cluster :: cluster where
  "small_cluster = zero_cluster
     \<lparr>srv := (\<lambda>i. if i = 0 then small_server ''a''
                  else (small_server (if i = 1 then ''b'' else ''c''))\<lparr>Replications := [small_status]\<rparr>),
      Servers := [0, 1, 2], slaves := [1, 2], master := Some 0\<rparr>"

lemma small_facts:
  "plain_topology small_cluster" "\<not> IsInFailover small_cluster" "well_formed small_cluster"
  "master small_cluster = Some 0" "Conf small_cluster = zero_conf"
  by (auto simp: plain_topology_def small_cluster_def zero_cluster_def GetTopology_def IsInFailover_def
      SM_IsInFailover_def zero_sm_def well_formed_def small_server_def inj_on_def)

lemma small_failover_reaches: "reaches_crash small_env True (set_failover small_cluster)"
  by code_simp

lemma small_switchover_reaches:
  "fst (switchover_prepare small_env (set_failover small_cluster)) \<and>
   reaches_crash small_env False (snd (switchover_prepare small_env (set_failover small_cluster)))"
  by code_simp

lemma small_failover: "\<exists>cl'. MasterFailover small_env True small_cluster = Some (True, cl')"
  using MasterFailover_completes [of small_cluster True small_env] small_facts small_failover_reaches
  by (auto simp: zero_conf_def)

section \<open>The roles after a change\<close>



section \<open>Whom a change talks to\<close>

text \<open>
  C3: an automatic failover sends nothing to the failed master: no command of the whole change targets it,
  whatever the databases answer, whether the failover completes or gives up.
\<close>

theorem failover_spares_failed_master:
  assumes "MasterFailover E True cl = Some (v, cl')" "plain_topology cl" "\<not> IsInFailover cl" "well_formed cl"
    "master cl = Some om" "\<not> MxsBinlogOn (Conf cl)" "\<not> MultiTierSlave (Conf cl)"
  shows "\<exists>ops. trace cl' = trace cl @ ops \<and> list_all (\<lambda>o1. op_target o1 \<noteq> Some om) ops"
proof -
  have "may_change (\<lambda>o1. op_target o1 \<noteq> Some om) True cl"
    using assms(4-7) by (auto simp: may_change_def quiet_def talks_def may_open_def well_formed_def)
  from MasterFailover_cases [OF assms(1-4) this] show ?thesis
    by (simp add: sends_def)
qed

theorem failover_spares_failed_master_witness:
  "\<exists>cl' ops. MasterFailover small_env True small_cluster = Some (True, cl') \<and>
     trace cl' = trace small_cluster @ ops \<and> list_all (\<lambda>o1. op_target o1 \<noteq> Some 0) ops"
  using failover_spares_failed_master [of small_env small_cluster] small_failover small_facts
  by (fastforce simp: zero_conf_def)


definition small_lost :: cluster where
  "small_lost = small_cluster\<lparr>Conf := zero_conf\<lparr>Arbitration := True\<rparr>, IsFailedArbitrator := True\<rparr>"

lemma small_lost_facts:
  "plain_topology small_lost" "\<not> IsInFailover small_lost" "well_formed small_lost"
  using small_facts by (simp_all add: small_lost_def plain_topology_def GetTopology_def IsInFailover_def well_formed_def)

lemma small_lost_reaches: "reaches_crash small_env True (set_failover small_lost)"
  by code_simp


section \<open>Giving up\<close>


definition small_alone :: cluster where
  "small_alone = small_cluster\<lparr>slaves := []\<rparr>"


section \<open>The order of a switchover\<close>


lemma small_switchover: "\<exists>cl'. MasterFailover small_env False small_cluster = Some (True, cl')"
  using MasterFailover_completes [of small_cluster False small_env] small_facts small_switchover_reaches
  by (auto simp: zero_conf_def)


section \<open>Completion\<close>



definition deaf_env :: dbenv where
  "deaf_env = small_env\<lparr>CmdOk := \<lambda>n o1. o1 \<noteq> OpSetReadOnly 0 True\<rparr>"

lemma deaf_switchover_reaches:
  "fst (switchover_prepare deaf_env (set_failover small_cluster)) \<and>
   reaches_crash deaf_env False (snd (switchover_prepare deaf_env (set_failover small_cluster)))"
  by code_simp

text \<open>
  The result of freezing the old master is not looked at: there is a switchover in which every attempt to set
  the old master read-only fails, and the new master is promoted all the same.
\<close>

theorem switchover_ignores_failed_freeze:
  "\<exists>E cl cl' om nm. master cl = Some om \<and> (\<forall>n. \<not> CmdOk E n (OpSetReadOnly om True)) \<and>
     MasterFailover E False cl = Some (True, cl') \<and> master cl' = Some nm \<and> nm \<noteq> om"
proof -
  obtain cl' where c: "MasterFailover deaf_env False small_cluster = Some (True, cl')"
    using MasterFailover_completes [of small_cluster False deaf_env] small_facts deaf_switchover_reaches
    by (auto simp: zero_conf_def)
  have "may_change (\<lambda>_. True) False small_cluster"
    by (simp add: may_change_def quiet_def talks_def may_open_def)
  from MasterFailover_cases [OF c small_facts(1-3) this] obtain om nm where
    l: "leader_changed deaf_env False om nm small_cluster cl'"
    by auto
  then have "om = 0" "nm \<noteq> 0" "master cl' = Some nm"
    using small_facts(4) by (auto simp: leader_changed_def small_cluster_def)
  with c small_facts(4) show ?thesis
    by (intro exI [of _ deaf_env] exI [of _ small_cluster] exI [of _ cl'] exI [of _ om] exI [of _ nm])
      (simp add: deaf_env_def)
qed

end
