(* ===== verification/FailCheck.thy ===== *)
theory FailCheck
  imports FailoverProps
begin

text \<open>
  The decision to fail over, \<open>src/cluster/cluster_chk.go\<close>: the guards \<open>CheckFailed\<close> evaluates in each monitoring
  round, in its order, and the checks of the same file that only raise states. A guard may raise states and returns
  its verdict; \<open>None\<close> is a nil pointer dereference. The locale \<open>failover_guard\<close> is the contract of a guard, and
  every guard after the first is an interpretation of it.
\<close>

type_synonym guard = "dbenv \<Rightarrow> cluster \<Rightarrow> (bool \<times> cluster) option"

section \<open>The guards\<close>

definition check_err :: "string \<Rightarrow> fmt_arg list \<Rightarrow> cluster \<Rightarrow> cluster" where
  "check_err key args cl = set_state key LvlErr args ''CHECK'' '''' cl"

definition isFoundCandidateMaster :: guard where
  "isFoundCandidateMaster E cl =
     (if GetTopology cl = TopoActivePassive then Some (True, cl)
      else case (if MultiMasterGrouprep (Conf cl)
                 then Some (electSwitchoverGroupReplicationCandidate (slaves cl) cl)
                 else electFailoverCandidate E (slaves cl) cl) of
          None \<Rightarrow> None
        | Some (None, cl1) \<Rightarrow> Some (False, check_err ''ERR00032'' [] cl1)
        | Some (Some k, cl1) \<Rightarrow> Some (True, cl1))"

definition isBetweenFailoverTimeValid :: guard where
  "isBetweenFailoverTimeValid E cl =
     (let rem = s64 (s64 (FailoverTs cl + FailTime (Conf cl)) - Now E)
      in if FailTime (Conf cl) = 0 then Some (True, cl)
         else if rem > 0 then Some (False, check_err ''ERR00029'' [] cl)
         else Some (True, cl))"

fun errant_loop :: "dbenv \<Rightarrow> sid list \<Rightarrow> cluster \<Rightarrow> (bool \<times> cluster) option" where
  "errant_loop E [] cl = Some (True, cl)"
| "errant_loop E (x # xs) cl =
     (let s = srv cl x
      in if IsFailed s \<or> IsIgnored s then errant_loop E xs cl
         else if master cl = None then None
         else if ErrantTrx E x
         then Some (False, set_state ''WARN0091'' LvlWarn [FS (URL s)] ''MON'' (URL s) cl)
         else errant_loop E xs cl)"

definition IsNotHavingMySQLErrantTransaction :: guard where
  "IsNotHavingMySQLErrantTransaction E cl =
     (case GetMaster cl of
        None \<Rightarrow> Some (True, cl)
      | Some m \<Rightarrow>
          if \<not> HasMySQLGTID (Conf cl) (srv cl m) then Some (True, cl)
          else if \<not> RplCheckErrantTrx (Conf cl) then Some (True, cl)
          else errant_loop E (slaves cl) cl)"

abbreviation "wsrep_uuid \<equiv> ''WSREP_CLUSTER_STATE_UUID''"

text \<open>The first pair of live servers, in the order of the nested loops, for which \<open>P\<close> holds.\<close>

definition live_pairs :: "cluster \<Rightarrow> (sid \<times> sid) list" where
  "live_pairs cl =
     concat (map (\<lambda>s. map (Pair s) (filter (\<lambda>t. \<not> IsFailed (srv cl t) \<and> URL (srv cl s) \<noteq> URL (srv cl t)) (Servers cl)))
       (filter (\<lambda>s. \<not> IsFailed (srv cl s)) (Servers cl)))"

definition IsSameWsrepUUID :: guard where
  "IsSameWsrepUUID E cl =
     (if GetTopology cl \<noteq> TopoMultiMasterWsrep then Some (True, cl)
      else case find (\<lambda>(s, t). Status (srv cl s) wsrep_uuid \<noteq> Status (srv cl t) wsrep_uuid) (live_pairs cl) of
          None \<Rightarrow> Some (True, cl)
        | Some (s, t) \<Rightarrow>
            Some (False, set_state ''ERR00083'' LvlWarn
              [FS (URL (srv cl s)), FS (Status (srv cl s) wsrep_uuid), FS (URL (srv cl t)), FS (Status (srv cl t) wsrep_uuid)]
              ''MON'' (URL (srv cl s)) cl))"

definition isMaxMasterFailedCountReached :: guard where
  "isMaxMasterFailedCountReached E cl =
     (case GetMaster cl of
        None \<Rightarrow> Some (False, cl)
      | Some m \<Rightarrow>
          if FailCount (srv cl m) \<ge> MaxFail (Conf cl)
          then Some (True, set_state ''WARN0023'' ''WARNING'' [] ''CHECK'' '''' cl)
          else Some (False, cl))"

definition isActiveArbitration :: guard where
  "isActiveArbitration E cl =
     (if \<not> Arbitration (Conf cl) then Some (True, cl)
      else case ArbitratorAnswer E of
          None \<Rightarrow> Some (False, check_err ''ERR00022'' [] cl)
        | Some r \<Rightarrow>
            if r = ''winner'' then Some (True, cl) else Some (False, check_err ''ERR00022'' [] cl))"

definition isMaxClusterFailoverCountNotReached :: guard where
  "isMaxClusterFailoverCountNotReached E cl =
     (if FailLimit (Conf cl) = 0 then Some (True, cl)
      else if FailoverCtr cl = FailLimit (Conf cl) then Some (False, check_err ''ERR00027'' [] cl)
      else Some (True, cl))"

definition isAutomaticFailover :: guard where
  "isAutomaticFailover E cl =
     (if \<not> Interactive (Conf cl) then Some (True, cl)
      else Some (False, set_state ''ERR00002'' ''ERR00002'' [] ''CHECK'' '''' cl))"

definition isMasterFailed :: guard where
  "isMasterFailed E cl =
     (case master cl of None \<Rightarrow> None | Some m \<Rightarrow> Some (State (srv cl m) = stateFailed, cl))"

definition isNotFirstSlave :: guard where
  "isNotFirstSlave E cl =
     (if Interactive (Conf cl) \<or> FailRestartUnsafe (Conf cl) then Some (True, cl)
      else if master cl = None then Some (False, check_err ''ERR00026'' [] cl)
      else Some (True, cl))"

definition isArbitratorAlive :: guard where
  "isArbitratorAlive E cl =
     (if \<not> Arbitration (Conf cl) then Some (True, cl)
      else if IsFailedArbitrator cl
      then Some (False, check_err ''ERR00055'' [FS (ArbitrationSasHosts (Conf cl))] cl)
      else Some (True, cl))"

section \<open>False positives\<close>

definition isExternalOk :: guard where
  "isExternalOk E cl =
     (if \<not> CheckFalsePositiveExternal (Conf cl) then Some (False, cl)
      else if master cl = None then Some (False, cl)
      else case ExternalStatusCode E of
          None \<Rightarrow> Some (False, cl)
        | Some code \<Rightarrow>
            if code = 200 then Some (True, check_err ''ERR00031'' [] cl) else Some (False, cl))"

definition heartbeat_moves :: "dbenv \<Rightarrow> cluster \<Rightarrow> sid \<Rightarrow> bool" where
  "heartbeat_moves E cl x =
     (case GetMasterFromReplication (srv cl x) cl of
        None \<Rightarrow> False
      | Some m \<Rightarrow> \<not> IsRelay (srv cl m) \<and> snd (HeartbeatCounts E x) > fst (HeartbeatCounts E x))"

definition isOneSlaveHeartbeatIncreasing :: guard where
  "isOneSlaveHeartbeatIncreasing E cl =
     (if \<not> CheckFalsePositiveHeartbeat (Conf cl) then Some (False, cl)
      else case find (heartbeat_moves E cl) (slaves cl) of
          None \<Rightarrow> Some (False, cl)
        | Some x \<Rightarrow> Some (True, check_err ''ERR00028'' [FS (URL (srv cl x))] cl))"

definition isMaxscaleSupectRunning :: guard where
  "isMaxscaleSupectRunning E cl =
     (if \<not> MxsOn (Conf cl) then Some (False, cl)
      else if \<not> CheckFalsePositiveMaxscale (Conf cl) then Some (False, cl)
      else if \<not> MaxscaleConnects E then Some (False, cl)
      else case master cl of
          None \<Rightarrow> None
        | Some m \<Rightarrow>
            if MxsServerName (srv cl m) = '''' then Some (False, cl)
            else if MxsGetInfoMethod (Conf cl) \<noteq> ''maxinfo'' \<and> \<not> MaxscaleListsMonitors E then Some (False, cl)
            else if MaxscaleStoppedMonitor E = '''' then Some (False, cl)
            else
              let cl1 = emit (OpMaxscaleRestartMonitor (MaxscaleStoppedMonitor E)) cl
              in if \<not> MaxscaleRestarts E then Some (False, cl1)
                 else if str_contains (MxsServerStatus (srv cl1 m)) ''Running''
                 then Some (True, check_err ''ERR00030'' [FS (MxsServerStatus (srv cl1 m))] cl1)
                 else Some (False, cl1))"

section \<open>The decision\<close>

text \<open>Conjunction that stops at the first false guard, as \<open>&&\<close> does.\<close>

fun all_guards :: "guard list \<Rightarrow> guard" where
  "all_guards [] E cl = Some (True, cl)"
| "all_guards (g # gs) E cl =
     (case g E cl of
        None \<Rightarrow> None
      | Some (False, cl1) \<Rightarrow> Some (False, cl1)
      | Some (True, cl1) \<Rightarrow> all_guards gs E cl1)"

definition deny :: "guard \<Rightarrow> guard" where
  "deny g E cl = (case g E cl of None \<Rightarrow> None | Some (b, cl1) \<Rightarrow> Some (\<not> b, cl1))"

definition later_guards :: "guard list" where
  "later_guards =
     [isBetweenFailoverTimeValid, IsNotHavingMySQLErrantTransaction, IsSameWsrepUUID,
      isMaxMasterFailedCountReached, isActiveArbitration, isMaxClusterFailoverCountNotReached, isAutomaticFailover,
      isMasterFailed, isNotFirstSlave, isArbitratorAlive,
      deny isExternalOk, deny isOneSlaveHeartbeatIncreasing, deny isMaxscaleSupectRunning]"

definition CheckFailed :: "dbenv \<Rightarrow> cluster \<Rightarrow> cluster option" where
  "CheckFailed E cl =
     (if IsInFailover cl then Some (set_state ''ERR00001'' ''WARNING'' [] ''CHECK'' '''' cl)
      else case all_guards (isFoundCandidateMaster # later_guards) E cl of
          None \<Rightarrow> None
        | Some (False, cl1) \<Rightarrow> Some cl1
        | Some (True, cl1) \<Rightarrow>
            (case MasterFailover E True cl1 of None \<Rightarrow> None | Some (_, cl2) \<Rightarrow> Some (emit OpFailoverCond cl2)))"

section \<open>Other checks\<close>

definition isValidConfig :: "conf \<Rightarrow> string option" where
  "isValidConfig cf =
     (if Hosts cf = '''' then Some ''No hosts list specified''
      else if ConfUser cf = '''' then Some ''No master user/pair specified''
      else if RplUser cf = '''' then Some ''No replication user/pair specified''
      else None)"

definition CheckSameServerID :: "cluster \<Rightarrow> cluster" where
  "CheckSameServerID cl =
     fold (\<lambda>(s, t) c.
         if ServerID (srv c s) = ServerID (srv c t)
         then set_state ''WARN0087'' LvlWarn [FS (URL (srv c s)), FS (URL (srv c t))] ''MON'' (URL (srv c s)) c
         else c) (live_pairs cl) cl"

definition SendAlert :: "bool \<Rightarrow> string \<Rightarrow> bool \<Rightarrow> cluster \<Rightarrow> cluster" where
  "SendAlert disabled desc resolved cl = (if disabled then cl else emit (OpAlert desc resolved) cl)"

definition CheckAlert :: "bool \<Rightarrow> state \<Rightarrow> bool \<Rightarrow> cluster \<Rightarrow> cluster" where
  "CheckAlert disabled st resolved cl =
     (if MonitoringAlertTrigger (Conf cl) = '''' then cl
      else if MailTo (Conf cl) = '''' \<and> AlertScript (Conf cl) = '''' then cl
      else if str_contains (MonitoringAlertTrigger (Conf cl)) (ErrKey st)
      then SendAlert disabled (ErrDesc st) resolved cl else cl)"

section \<open>The contract of a guard\<close>

text \<open>\<open>untouched a b\<close>: nothing but the raised states and the command trace differs.\<close>

definition untouched :: "cluster \<Rightarrow> cluster \<Rightarrow> bool" where
  "untouched a b \<longleftrightarrow> b = a\<lparr>StateMachine := StateMachine b, trace := trace b\<rparr> \<and> IsInFailover b = IsInFailover a"

lemma untouched_refl [simp, intro!]: "untouched a a"
  by (simp add: untouched_def)

lemma untouched_iff:
  "untouched a b \<longleftrightarrow> CName b = CName a \<and> Topology b = Topology a \<and> Conf b = Conf a \<and> srv b = srv a \<and>
     Servers b = Servers a \<and> slaves b = slaves a \<and> master b = master a \<and> vmaster b = vmaster a \<and>
     oldMaster b = oldMaster a \<and> FailoverCtr b = FailoverCtr a \<and> FailoverTs b = FailoverTs a \<and>
     IsFailedArbitrator b = IsFailedArbitrator a \<and> Crashes b = Crashes a \<and> FailoverHistory b = FailoverHistory a \<and>
     IsInFailover b = IsInFailover a"
  by (cases a; cases b) (auto simp: untouched_def IsInFailover_def)

lemma untouched_fields:
  assumes "untouched a b"
  shows "CName b = CName a" "Topology b = Topology a" "Conf b = Conf a" "srv b = srv a" "Servers b = Servers a"
    "slaves b = slaves a" "master b = master a" "vmaster b = vmaster a" "oldMaster b = oldMaster a"
    "FailoverCtr b = FailoverCtr a" "FailoverTs b = FailoverTs a" "IsFailedArbitrator b = IsFailedArbitrator a"
    "Crashes b = Crashes a" "FailoverHistory b = FailoverHistory a" "IsInFailover b = IsInFailover a"
  using assms by (simp_all add: untouched_iff)

lemma untouched_trans [trans]: "untouched a b \<Longrightarrow> untouched b c \<Longrightarrow> untouched a c"
  by (simp add: untouched_iff)

lemma untouched_view: "same_view a b \<Longrightarrow> untouched a b"
  by (simp add: untouched_iff same_view_def)

lemma untouched_state [simp]:
  "untouched a (set_state k t args f u a)" "untouched a (check_err k args a)" "untouched a (emit o1 a)"
  by (simp_all add: untouched_iff check_err_def set_state_def Cluster_SetState_def emit_def IsInFailover_def AddState_def
      SM_IsInFailover_def Let_def)

lemma untouched_check_err: "untouched a b \<Longrightarrow> untouched a (check_err k args b)"
  by (erule untouched_trans) simp

lemma GetMaster_cong: "untouched a b \<Longrightarrow> GetMaster b = GetMaster a"
  by (simp add: GetMaster_def untouched_fields)

locale failover_guard =
  fixes guard :: guard
    and ok :: "dbenv \<Rightarrow> cluster \<Rightarrow> bool"
  assumes verdict: "guard E cl = Some (b, cl') \<Longrightarrow> b = ok E cl"
    and kept: "guard E cl = Some (b, cl') \<Longrightarrow> untouched cl cl'"
    and no_panic: "master cl \<noteq> None \<Longrightarrow> guard E cl \<noteq> None"
    and stable: "untouched cl cl' \<Longrightarrow> ok E cl' = ok E cl"
begin

lemma passes_iff: "master cl \<noteq> None \<Longrightarrow> (\<exists>cl'. guard E cl = Some (True, cl')) \<longleftrightarrow> ok E cl"
  using no_panic [of cl E] verdict [of E cl] by (cases "guard E cl") auto

lemma denied: "failover_guard (deny guard) (\<lambda>E cl. \<not> ok E cl)"
proof
  show "b = (\<not> ok E cl)" "untouched cl cl'" if "deny guard E cl = Some (b, cl')" for E cl b cl'
    using that verdict [of E cl] kept [of E cl] by (auto simp: deny_def split: option.splits)
qed (use no_panic stable in \<open>auto simp: deny_def split: option.splits\<close>)

text \<open>Conjunction with the guards that follow.\<close>

lemma conjoined:
  assumes "failover_guard (all_guards gs) oks"
  shows "failover_guard (all_guards (guard # gs)) (\<lambda>E cl. ok E cl \<and> oks E cl)"
proof
  note rest = failover_guard.verdict [OF assms] failover_guard.kept [OF assms]
    failover_guard.stable [OF assms] failover_guard.no_panic [OF assms]
  show "b = (ok E cl \<and> oks E cl)" "untouched cl cl'" if r: "all_guards (guard # gs) E cl = Some (b, cl')" for E cl b cl'
  proof -
    from r obtain b1 c1 where g: "guard E cl = Some (b1, c1)"
      by (auto split: option.splits)
    with r verdict [OF g] kept [OF g] rest(1,2) [of E c1 b cl'] rest(3) [of cl c1 E]
    show "b = (ok E cl \<and> oks E cl)" "untouched cl cl'"
      by (auto split: bool.splits intro: untouched_trans)
  qed
  show "all_guards (guard # gs) E cl \<noteq> None" if "master cl \<noteq> None" for E cl
    using no_panic [OF that, of E] that kept [of E cl] rest(4)
    by (fastforce split: bool.splits dest: untouched_fields(7))
  show "(ok E cl' \<and> oks E cl') = (ok E cl \<and> oks E cl)" if "untouched cl cl'" for E cl cl'
    using stable [OF that] rest(3) [OF that] by simp
qed

end

lemma no_guards: "failover_guard (all_guards []) (\<lambda>_ _. True)"
  by unfold_locales auto

section \<open>Every guard keeps the contract\<close>

definition time_ok :: "dbenv \<Rightarrow> cluster \<Rightarrow> bool" where
  "time_ok E cl \<longleftrightarrow> FailTime (Conf cl) = 0 \<or> s64 (s64 (FailoverTs cl + FailTime (Conf cl)) - Now E) \<le> 0"

definition errant_ok :: "dbenv \<Rightarrow> cluster \<Rightarrow> bool" where
  "errant_ok E cl \<longleftrightarrow>
     (\<forall>m. GetMaster cl = Some m \<longrightarrow> HasMySQLGTID (Conf cl) (srv cl m) \<longrightarrow> RplCheckErrantTrx (Conf cl) \<longrightarrow>
        (\<forall>x \<in> set (slaves cl). IsFailed (srv cl x) \<or> IsIgnored (srv cl x) \<or> \<not> ErrantTrx E x))"

definition uuid_ok :: "dbenv \<Rightarrow> cluster \<Rightarrow> bool" where
  "uuid_ok E cl \<longleftrightarrow>
     (GetTopology cl = TopoMultiMasterWsrep \<longrightarrow>
        (\<forall>s \<in> set (Servers cl). \<forall>t \<in> set (Servers cl).
           \<not> IsFailed (srv cl s) \<longrightarrow> \<not> IsFailed (srv cl t) \<longrightarrow> URL (srv cl s) \<noteq> URL (srv cl t) \<longrightarrow>
           Status (srv cl s) wsrep_uuid = Status (srv cl t) wsrep_uuid))"

definition failcount_ok :: "dbenv \<Rightarrow> cluster \<Rightarrow> bool" where
  "failcount_ok E cl \<longleftrightarrow> (\<exists>m. GetMaster cl = Some m \<and> MaxFail (Conf cl) \<le> FailCount (srv cl m))"

definition won_arbitration :: "dbenv \<Rightarrow> cluster \<Rightarrow> bool" where
  "won_arbitration E cl \<longleftrightarrow> (Arbitration (Conf cl) \<longrightarrow> ArbitratorAnswer E = Some ''winner'')"

definition count_ok :: "dbenv \<Rightarrow> cluster \<Rightarrow> bool" where
  "count_ok E cl \<longleftrightarrow> FailLimit (Conf cl) = 0 \<or> FailoverCtr cl \<noteq> FailLimit (Conf cl)"

definition arbitrator_ok :: "dbenv \<Rightarrow> cluster \<Rightarrow> bool" where
  "arbitrator_ok E cl \<longleftrightarrow> (Arbitration (Conf cl) \<longrightarrow> \<not> IsFailedArbitrator cl)"

definition master_failed :: "dbenv \<Rightarrow> cluster \<Rightarrow> bool" where
  "master_failed E cl \<longleftrightarrow> (\<exists>m. master cl = Some m \<and> State (srv cl m) = stateFailed)"

definition external_alive :: "dbenv \<Rightarrow> cluster \<Rightarrow> bool" where
  "external_alive E cl \<longleftrightarrow> CheckFalsePositiveExternal (Conf cl) \<and> master cl \<noteq> None \<and> ExternalStatusCode E = Some 200"

definition heartbeat_alive :: "dbenv \<Rightarrow> cluster \<Rightarrow> bool" where
  "heartbeat_alive E cl \<longleftrightarrow> CheckFalsePositiveHeartbeat (Conf cl) \<and> (\<exists>x \<in> set (slaves cl). heartbeat_moves E cl x)"

definition maxscale_alive :: "dbenv \<Rightarrow> cluster \<Rightarrow> bool" where
  "maxscale_alive E cl \<longleftrightarrow>
     MxsOn (Conf cl) \<and> CheckFalsePositiveMaxscale (Conf cl) \<and> MaxscaleConnects E \<and>
     (MxsGetInfoMethod (Conf cl) = ''maxinfo'' \<or> MaxscaleListsMonitors E) \<and> MaxscaleStoppedMonitor E \<noteq> '''' \<and>
     MaxscaleRestarts E \<and>
     (\<exists>m. master cl = Some m \<and> MxsServerName (srv cl m) \<noteq> '''' \<and> str_contains (MxsServerStatus (srv cl m)) ''Running'')"

interpretation time: failover_guard isBetweenFailoverTimeValid time_ok
  by unfold_locales
    (auto simp: isBetweenFailoverTimeValid_def time_ok_def Let_def untouched_fields split: if_splits)

lemma errant_loop_verdict:
  assumes "errant_loop E xs cl = Some (b, cl')"
  shows "b = (\<forall>x \<in> set xs. IsFailed (srv cl x) \<or> IsIgnored (srv cl x) \<or> \<not> ErrantTrx E x) \<and> untouched cl cl'"
  using assms by (induction xs) (auto simp: Let_def split: if_splits)

lemma errant_loop_no_panic: "master cl \<noteq> None \<Longrightarrow> errant_loop E xs cl \<noteq> None"
  by (induction xs) (auto simp: Let_def)

interpretation errant: failover_guard IsNotHavingMySQLErrantTransaction errant_ok
proof
  show "b = errant_ok E cl" "untouched cl cl'" if "IsNotHavingMySQLErrantTransaction E cl = Some (b, cl')" for E cl b cl'
    using that errant_loop_verdict [of E "slaves cl" cl b cl']
    by (auto simp: IsNotHavingMySQLErrantTransaction_def errant_ok_def split: option.splits if_splits)
  show "IsNotHavingMySQLErrantTransaction E cl \<noteq> None" if "master cl \<noteq> None" for E cl
    using that errant_loop_no_panic [OF that, of E "slaves cl"]
    by (auto simp: IsNotHavingMySQLErrantTransaction_def split: option.splits)
qed (simp add: errant_ok_def GetMaster_cong untouched_fields)

lemma set_live_pairs:
  "set (live_pairs cl) = {(s, t). s \<in> set (Servers cl) \<and> t \<in> set (Servers cl) \<and> \<not> IsFailed (srv cl s) \<and>
     \<not> IsFailed (srv cl t) \<and> URL (srv cl s) \<noteq> URL (srv cl t)}"
  by (auto simp: live_pairs_def)

interpretation uuid: failover_guard IsSameWsrepUUID uuid_ok
proof
  show "b = uuid_ok E cl" "untouched cl cl'" if "IsSameWsrepUUID E cl = Some (b, cl')" for E cl b cl'
    using that
    by (auto simp: IsSameWsrepUUID_def uuid_ok_def find_None_iff set_live_pairs split: if_splits option.splits
        dest!: find_SomeD)
qed (auto simp: IsSameWsrepUUID_def uuid_ok_def untouched_fields GetTopology_def split: option.splits)

interpretation failcount: failover_guard isMaxMasterFailedCountReached failcount_ok
  by unfold_locales
    (auto simp: isMaxMasterFailedCountReached_def failcount_ok_def GetMaster_cong untouched_fields split: option.splits if_splits)

interpretation arbitration: failover_guard isActiveArbitration won_arbitration
  by unfold_locales
    (auto simp: isActiveArbitration_def won_arbitration_def untouched_fields split: option.splits if_splits)

interpretation count: failover_guard isMaxClusterFailoverCountNotReached count_ok
  by unfold_locales
    (auto simp: isMaxClusterFailoverCountNotReached_def count_ok_def untouched_fields split: if_splits)

interpretation automatic: failover_guard isAutomaticFailover "\<lambda>E cl. \<not> Interactive (Conf cl)"
  by unfold_locales (auto simp: isAutomaticFailover_def untouched_fields split: if_splits)

interpretation masterfailed: failover_guard isMasterFailed master_failed
  by unfold_locales (auto simp: isMasterFailed_def master_failed_def untouched_fields split: option.splits)

interpretation notfirst: failover_guard isNotFirstSlave
  "\<lambda>E cl. Interactive (Conf cl) \<or> FailRestartUnsafe (Conf cl) \<or> master cl \<noteq> None"
  by unfold_locales (auto simp: isNotFirstSlave_def untouched_fields split: if_splits)

interpretation arbitrator: failover_guard isArbitratorAlive arbitrator_ok
  by unfold_locales (auto simp: isArbitratorAlive_def arbitrator_ok_def untouched_fields split: if_splits)

interpretation external: failover_guard isExternalOk external_alive
  by unfold_locales
    (auto simp: isExternalOk_def external_alive_def untouched_fields split: if_splits option.splits)

lemma heartbeat_moves_cong: "untouched a b \<Longrightarrow> heartbeat_moves E b = heartbeat_moves E a"
  by (simp add: heartbeat_moves_def fun_eq_iff GetMasterFromReplication_def untouched_fields cong: option.case_cong)

interpretation heartbeat: failover_guard isOneSlaveHeartbeatIncreasing heartbeat_alive
proof
  show "b = heartbeat_alive E cl" "untouched cl cl'" if "isOneSlaveHeartbeatIncreasing E cl = Some (b, cl')" for E cl b cl'
    using that
    by (auto simp: isOneSlaveHeartbeatIncreasing_def heartbeat_alive_def find_None_iff split: if_splits option.splits
        dest!: find_SomeD)
qed (auto simp: isOneSlaveHeartbeatIncreasing_def heartbeat_alive_def heartbeat_moves_cong untouched_fields
    split: option.splits)

lemma srv_emit: "srv (emit o1 cl) = srv cl"
  by (simp add: emit_def)

interpretation maxscale: failover_guard isMaxscaleSupectRunning maxscale_alive
proof
  show "b = maxscale_alive E cl" "untouched cl cl'" if "isMaxscaleSupectRunning E cl = Some (b, cl')" for E cl b cl'
    using that untouched_trans [OF untouched_state(3) untouched_state(2)]
    by (auto simp: isMaxscaleSupectRunning_def maxscale_alive_def Let_def srv_emit split: if_splits option.splits)
qed (auto simp: isMaxscaleSupectRunning_def maxscale_alive_def untouched_fields Let_def)

section \<open>The chain of guards\<close>

definition later_ok :: "dbenv \<Rightarrow> cluster \<Rightarrow> bool" where
  "later_ok E cl \<longleftrightarrow>
     time_ok E cl \<and> errant_ok E cl \<and> uuid_ok E cl \<and> failcount_ok E cl \<and> won_arbitration E cl \<and> count_ok E cl \<and>
     \<not> Interactive (Conf cl) \<and> master_failed E cl \<and>
     (Interactive (Conf cl) \<or> FailRestartUnsafe (Conf cl) \<or> master cl \<noteq> None) \<and> arbitrator_ok E cl \<and>
     \<not> external_alive E cl \<and> \<not> heartbeat_alive E cl \<and> \<not> maxscale_alive E cl \<and> True"

interpretation later: failover_guard "all_guards later_guards" later_ok
proof -
  note false_positives = failover_guard.conjoined [OF external.denied failover_guard.conjoined
    [OF heartbeat.denied failover_guard.conjoined [OF maxscale.denied no_guards]]]
  note last = masterfailed.conjoined [OF notfirst.conjoined [OF arbitrator.conjoined [OF false_positives]]]
  note middle = failcount.conjoined [OF arbitration.conjoined [OF count.conjoined [OF automatic.conjoined [OF last]]]]
  from time.conjoined [OF errant.conjoined [OF uuid.conjoined [OF middle]]]
  show "failover_guard (all_guards later_guards) later_ok"
    unfolding later_guards_def later_ok_def [abs_def] .
qed

text \<open>The first guard: an election that leaves the cluster alone.\<close>

lemma view_fo_step:
  assumes "fo_step E i x acc cl = Some (r, c)"
  shows "same_view cl c"
proof -
  have r: "same_view cl c1" if "fo_record E mi x t acc cl = Some (t1, acc1, c1)" for mi t t1 acc1 c1
    using that by (cases rule: fo_record_views) simp_all
  show ?thesis
    using assms by (auto simp: fo_step_def Let_def view split: if_splits option.splits dest!: r)
qed

lemma view_fo_loop: "fo_loop E i xs ts acc cl = Some (r, c) \<Longrightarrow> same_view cl c"
proof (induction xs arbitrary: i ts acc cl)
  case (Cons x xs)
  from Cons.prems obtain r1 c1 where s: "fo_step E i x acc cl = Some (r1, c1)"
    by (auto split: option.splits)
  with Cons show ?case
    using view_fo_step [OF s] by (auto split: ctl.splits intro: same_view_trans)
qed simp

lemma view_electFailoverCandidate:
  assumes "electFailoverCandidate E l cl = Some (r, c)"
  shows "same_view cl c"
proof -
  from assms obtain q c1 where l: "fo_loop E 0 l [] \<lparr>maxseq = 0, maxpos = 0, HaveOneValidReader = False\<rparr> cl = Some (q, c1)"
    by (auto simp: electFailoverCandidate_def split: option.splits)
  have "c = c1 \<or> c = set_state ''ERR00085'' LvlWarn [] ''CHECK'' '''' c1"
    using assms l by (auto simp: electFailoverCandidate_def split: ctl.splits if_splits)
  with view_fo_loop [OF l] show ?thesis
    by (auto intro: same_view_trans same_view_set_state)
qed

lemma view_group_second: "same_view cl (snd (group_second i xs cl))"
proof (induction xs arbitrary: i cl)
  case (Cons x xs)
  have "same_view cl (snd (group_second (Suc i) xs (skip_state ''ERR00037'' (srv cl x) cl)))"
    by (rule same_view_trans [OF view_skip_state Cons.IH])
  with Cons.IH show ?case
    by (simp add: Let_def)
qed simp

definition found_candidate :: "dbenv \<Rightarrow> cluster \<Rightarrow> bool" where
  "found_candidate E cl \<longleftrightarrow>
     GetTopology cl = TopoActivePassive \<or>
     (if MultiMasterGrouprep (Conf cl) then fst (electSwitchoverGroupReplicationCandidate (slaves cl) cl) \<noteq> None
      else \<exists>k c. electFailoverCandidate E (slaves cl) cl = Some (Some k, c))"

lemma isFoundCandidateMaster_verdict:
  assumes "isFoundCandidateMaster E cl = Some (b, c)"
  shows "b = found_candidate E cl \<and> untouched cl c"
proof -
  have v: "untouched cl (snd (electSwitchoverGroupReplicationCandidate (slaves cl) cl))"
    by (auto simp: electSwitchoverGroupReplicationCandidate_def view_group_second intro: untouched_view split: option.split)
  have w: "untouched cl c1" if "electFailoverCandidate E (slaves cl) cl = Some (r, c1)" for r c1
    using view_electFailoverCandidate [OF that] by (rule untouched_view)
  show ?thesis
    using assms v
    by (cases "electSwitchoverGroupReplicationCandidate (slaves cl) cl")
      (auto simp: isFoundCandidateMaster_def found_candidate_def split: if_splits option.splits
        dest!: w intro: untouched_check_err)
qed

section \<open>Properties of the decision\<close>

definition failover_due :: "dbenv \<Rightarrow> cluster \<Rightarrow> bool" where
  "failover_due E cl \<longleftrightarrow> found_candidate E cl \<and> later_ok E cl"

lemma guards_verdict:
  assumes g: "all_guards (isFoundCandidateMaster # later_guards) E cl = Some (b, c)"
  shows "b = failover_due E cl \<and> untouched cl c"
proof -
  from g obtain b1 c1 where f: "isFoundCandidateMaster E cl = Some (b1, c1)"
    by (auto split: option.splits)
  note v = isFoundCandidateMaster_verdict [OF f]
  show ?thesis
  proof (cases b1)
    case True
    with g f have l: "all_guards later_guards E c1 = Some (b, c)"
      by simp
    have "b = later_ok E cl"
      using later.verdict [OF l] later.stable [of cl c1 E] v by simp
    moreover have "untouched cl c"
      using later.kept [OF l] v by (blast intro: untouched_trans)
    ultimately show ?thesis
      using v True by (simp add: failover_due_def)
  next
    case False
    with g f v show ?thesis
      by (auto simp: failover_due_def)
  qed
qed

lemma CheckFailed_cases:
  assumes "\<not> IsInFailover cl" "CheckFailed E cl = Some cl'"
  shows "(\<exists>c. untouched cl c \<and> failover_due E cl \<and>
      map_option (\<lambda>(_, c'). emit OpFailoverCond c') (MasterFailover E True c) = Some cl') \<or>
    untouched cl cl' \<and> \<not> failover_due E cl"
proof -
  from assms obtain b c where g: "all_guards (isFoundCandidateMaster # later_guards) E cl = Some (b, c)"
    by (auto simp: CheckFailed_def split: option.splits)
  with assms guards_verdict [OF g] show ?thesis
    by (cases b) (auto simp: CheckFailed_def simp del: all_guards.simps split: option.splits)
qed

lemma CheckFailed_due:
  assumes "\<not> IsInFailover cl" "master cl \<noteq> None" "isFoundCandidateMaster E cl \<noteq> None"
  shows "if failover_due E cl
    then \<exists>c. untouched cl c \<and> CheckFailed E cl = map_option (\<lambda>(_, c'). emit OpFailoverCond c') (MasterFailover E True c)
    else \<exists>c. untouched cl c \<and> CheckFailed E cl = Some c"
proof -
  from assms(3) obtain b1 c1 where f: "isFoundCandidateMaster E cl = Some (b1, c1)"
    by auto
  note v = isFoundCandidateMaster_verdict [OF f]
  have "master c1 \<noteq> None"
    using v assms(2) untouched_fields(7) [of cl c1] by simp
  from later.no_panic [OF this, of E] obtain b c where l: "all_guards later_guards E c1 = Some (b, c)"
    by auto
  have "b = later_ok E cl" "untouched cl c"
    using later.verdict [OF l] later.stable [of cl c1 E] later.kept [OF l] v by (auto intro: untouched_trans)
  then show ?thesis
    using f l v assms(1)
    by (cases b; cases b1) (auto simp: CheckFailed_def failover_due_def split: option.split)
qed

text \<open>
  C1: an automatic failover happens only when every guard holds: if a monitoring round changes anything but the
  raised states, then no leader change was running, the master is known, failed, and has missed at least
  \<open>failover-max-fail\<close> probes in a row, a candidate was elected, the failover count and the time since the last
  failover allow it, the mode is not interactive, the arbitrator (if any) answers and elected this manager, and
  no false positive check saw the master alive.
\<close>

theorem failover_only_when_due:
  assumes "CheckFailed E cl = Some cl'" "\<not> untouched cl cl'"
  shows "\<not> IsInFailover cl \<and> \<not> Interactive (Conf cl) \<and> found_candidate E cl \<and>
    (\<exists>m. master cl = Some m \<and> State (srv cl m) = stateFailed \<and> MaxFail (Conf cl) \<le> FailCount (srv cl m)) \<and>
    (FailLimit (Conf cl) = 0 \<or> FailoverCtr cl \<noteq> FailLimit (Conf cl)) \<and> time_ok E cl \<and>
    (Arbitration (Conf cl) \<longrightarrow> ArbitratorAnswer E = Some ''winner'' \<and> \<not> IsFailedArbitrator cl) \<and>
    errant_ok E cl \<and> uuid_ok E cl \<and> \<not> external_alive E cl \<and> \<not> heartbeat_alive E cl \<and> \<not> maxscale_alive E cl"
proof -
  have n: "\<not> IsInFailover cl"
    using assms by (auto simp: CheckFailed_def)
  with CheckFailed_cases [OF this assms(1)] assms(2) have "failover_due E cl"
    by blast
  with n show ?thesis
    by (auto simp: failover_due_def later_ok_def master_failed_def failcount_ok_def count_ok_def
        won_arbitration_def arbitrator_ok_def GetMaster_def)
qed

text \<open>
  C8: the decision is complete: with a known master and an election that returns, a round runs \<open>MasterFailover\<close>
  exactly when a failover is due, on a state that differs only by raised states; otherwise it only raises states.
\<close>

theorem failover_whenever_due:
  assumes "\<not> IsInFailover cl" "master cl \<noteq> None" "isFoundCandidateMaster E cl \<noteq> None"
  shows "if failover_due E cl
    then \<exists>c. untouched cl c \<and> CheckFailed E cl = map_option (\<lambda>(_, c'). emit OpFailoverCond c') (MasterFailover E True c)
    else \<exists>c. untouched cl c \<and> CheckFailed E cl = Some c"
  using assms by (rule CheckFailed_due)

text \<open>
  C9: the failover limit holds: a monitoring round never takes the failover counter past \<open>failover-limit\<close>, and it
  moves the counter by at most one.
\<close>

theorem failover_limit_holds:
  assumes "CheckFailed E cl = Some cl'" "plain_topology cl" "well_formed cl" "FailLimit (Conf cl) \<noteq> 0"
    "FailoverCtr cl \<le> FailLimit (Conf cl)"
  shows "FailoverCtr cl' \<le> FailLimit (Conf cl') \<and> FailoverCtr cl' \<in> {FailoverCtr cl, FailoverCtr cl + 1}"
proof (cases "untouched cl cl'")
  case True
  with assms show ?thesis
    by (simp add: untouched_fields)
next
  case False
  then have n: "\<not> IsInFailover cl"
    using assms(1) by (auto simp: CheckFailed_def)
  with CheckFailed_cases [OF this assms(1)] False obtain c v c2 where c: "untouched cl c" "failover_due E cl"
    "MasterFailover E True c = Some (v, c2)" and cl': "cl' = emit OpFailoverCond c2"
    by auto
  note u = untouched_fields [OF c(1)]
  have lim: "FailoverCtr cl < FailLimit (Conf cl)"
    using c(2) assms(4,5) by (auto simp: failover_due_def later_ok_def count_ok_def)
  have pre: "plain_topology c" "\<not> IsInFailover c" "well_formed c"
    using assms(2,3) n u by (simp_all add: plain_topology_def GetTopology_def well_formed_def)
  have "may_change (\<lambda>_. True) True c"
    by (simp add: may_change_def quiet_def talks_def may_open_def)
  from MasterFailover_cases [OF c(3) pre this]
  have "FailoverCtr c2 \<in> {FailoverCtr c, FailoverCtr c + 1} \<and> Conf c2 = Conf c"
    by (auto simp: leader_changed_def steps_fields split: if_splits)
  with lim u cl' show ?thesis
    by (auto simp: emit_def)
qed

section \<open>A round that fails over\<close>

definition small_failed :: cluster where
  "small_failed = small_cluster\<lparr>srv := (srv small_cluster)(0 := (small_server ''a'')\<lparr>State := stateFailed\<rparr>),
     Conf := zero_conf\<lparr>FailLimit := 5, MaxFail := 0\<rparr>\<rparr>"

lemma small_failed_facts:
  "plain_topology small_failed" "\<not> IsInFailover small_failed" "well_formed small_failed" "master small_failed = Some 0"
  "FailLimit (Conf small_failed) = 5" "FailoverCtr small_failed = 0"
  by (auto simp: small_failed_def plain_topology_def small_cluster_def zero_cluster_def GetTopology_def IsInFailover_def
      SM_IsInFailover_def zero_sm_def well_formed_def small_server_def inj_on_def)

lemma small_due:
  "case all_guards (isFoundCandidateMaster # later_guards) small_env small_failed of
     Some (True, c) \<Rightarrow> reaches_crash small_env True (set_failover c)
   | _ \<Rightarrow> False"
  by code_simp

lemma small_round: "\<exists>cl'. CheckFailed small_env small_failed = Some cl' \<and> FailoverCtr cl' = 1"
proof -
  from small_due obtain c where g: "all_guards (isFoundCandidateMaster # later_guards) small_env small_failed = Some (True, c)"
    and r: "reaches_crash small_env True (set_failover c)"
    by (auto simp del: all_guards.simps split: option.splits bool.splits)
  from guards_verdict [OF g] have u: "untouched small_failed c"
    by simp
  note f = untouched_fields [OF u] small_failed_facts
  have pre: "plain_topology c" "\<not> IsInFailover c" "well_formed c" "\<not> MultiMasterGrouprep (Conf c)"
    using small_failed_facts(1-3) f
    by (simp_all add: plain_topology_def GetTopology_def well_formed_def small_failed_def zero_conf_def)
  have "\<not> MxsBinlogOn (Conf c)" "\<not> MultiTierSlave (Conf c)"
    using f(3) by (simp_all add: small_failed_def zero_conf_def)
  from MasterFailover_completes [OF pre(1,2) this, of True small_env] pre(4) r
  obtain c2 where c2: "MasterFailover small_env True c = Some (True, c2)"
    by auto
  have "may_change (\<lambda>_. True) True c"
    by (simp add: may_change_def quiet_def talks_def may_open_def)
  from MasterFailover_cases [OF c2 pre(1-3) this] pre(4) have "FailoverCtr c2 = FailoverCtr c + 1"
    by (auto simp: leader_changed_def)
  with g c2 f show ?thesis
    by (simp add: CheckFailed_def emit_def del: all_guards.simps)
qed

theorem failover_only_when_due_witness:
  "\<exists>cl' m. CheckFailed small_env small_failed = Some cl' \<and> master small_failed = Some m \<and>
     State (srv small_failed m) = stateFailed \<and> \<not> Interactive (Conf small_failed)"
proof -
  obtain cl' where c: "CheckFailed small_env small_failed = Some cl'" "FailoverCtr cl' = 1"
    using small_round by blast
  then have "\<not> untouched small_failed cl'"
    using small_failed_facts(6) by (auto simp: untouched_fields)
  from failover_only_when_due [OF c(1) this] c(1) show ?thesis
    by blast
qed

theorem failover_whenever_due_witness:
  "\<exists>c. untouched small_failed c \<and> failover_due small_env small_failed \<and> CheckFailed small_env small_failed =
     map_option (\<lambda>(_, c'). emit OpFailoverCond c') (MasterFailover small_env True c)"
proof -
  from small_due obtain c where g: "all_guards (isFoundCandidateMaster # later_guards) small_env small_failed = Some (True, c)"
    by (auto simp del: all_guards.simps split: option.splits bool.splits)
  then have "isFoundCandidateMaster small_env small_failed \<noteq> None"
    by (auto split: option.splits)
  with guards_verdict [OF g] failover_whenever_due [of small_failed small_env] small_failed_facts(2,4) show ?thesis
    by simp
qed

theorem failover_limit_holds_witness:
  "\<exists>cl'. CheckFailed small_env small_failed = Some cl' \<and> FailoverCtr cl' \<le> FailLimit (Conf cl') \<and> FailoverCtr cl' = 1"
  using small_round failover_limit_holds [of small_env small_failed] small_failed_facts
  by force

definition small_galera :: cluster where
  "small_galera = small_cluster\<lparr>Topology := TopoMultiMasterWsrep,
     srv := (\<lambda>i. (small_server (if i = 0 then ''a'' else if i = 1 then ''b'' else ''c''))
       \<lparr>State := if i = 0 then stateFailed else stateWsrep\<rparr>),
     master := None, vmaster := Some 0\<rparr>"

text \<open>
  A round without a known master can crash the monitor: \<open>CheckFailed\<close> goes on after noticing that the master is
  nil, and dereferences it, here on a Galera cluster whose virtual master
  has failed.
\<close>

theorem round_without_master_panics:
  "\<exists>E cl. master cl = None \<and> GetMaster cl \<noteq> None \<and> \<not> IsInFailover cl \<and> CheckFailed E cl = None"
  by (intro exI [of _ small_env] exI [of _ small_galera] conjI) code_simp+

text \<open>The limit is tested for equality: a counter already past the limit does not stop a failover.\<close>

lemma limit_test_is_equality:
  "0 < FailLimit (Conf cl) \<Longrightarrow> FailLimit (Conf cl) < FailoverCtr cl \<Longrightarrow>
   isMaxClusterFailoverCountNotReached E cl = Some (True, cl)"
  by (simp add: isMaxClusterFailoverCountNotReached_def)

end
