(* ===== verification/DelayStats.thy ===== *)
theory DelayStats
  imports Sample
begin

text \<open>
  Replication delay statistics, \<open>src/cluster/cluster_stat.go\<close>: hourly buckets of a server's delay and error counts
  and a running total, used to break ties in the failover election. Averages are exact rationals instead of
  \<open>float64\<close> (a division by zero reads as 0 where Go gives NaN); the \<open>int32\<close> counters wrap with \<open>s32\<close>. A time is in
  seconds and an hour starts at a multiple of 3600 (time zones whose offset is a whole number of hours). \<open>None\<close> is
  an index out of range.
\<close>

section \<open>Operations\<close>

definition CurrentDelayDatetime :: "int \<Rightarrow> int" where
  "CurrentDelayDatetime t = t - t mod 3600"

definition ResetCurrentStat :: "int \<Rightarrow> server_delay_stat \<Rightarrow> server_delay_stat" where
  "ResetCurrentStat now d = d\<lparr>Current := zero_delay, CurrentDT := CurrentDelayDatetime now\<rparr>"

definition ResetDelayStat :: "int \<Rightarrow> server_delay_stat \<Rightarrow> server_delay_stat" where
  "ResetDelayStat now d =
     (let d1 = ResetCurrentStat now d
      in d1\<lparr>Total := Current d1, Rotated := Current d1, DelayHistory := [(Current d1, CurrentDT d1)]\<rparr>)"

definition UpdateCurrentDelayStat :: "int \<Rightarrow> server_delay_stat \<Rightarrow> server_delay_stat" where
  "UpdateCurrentDelayStat s d =
     (let c = Current d
      in d\<lparr>Current := c\<lparr>DelayCount := (if s > 0 then s32 (DelayCount c + 1) else DelayCount c),
             DelayAvg := (DelayAvg c * of_int (Counter c) + of_int s) / of_int (s32 (Counter c + 1)),
             Counter := s32 (Counter c + 1)\<rparr>\<rparr>)"

text \<open>The start of both rotating updates: the oldest bucket is remembered, and leaves a full history.\<close>

definition rotate :: "int \<Rightarrow> server_delay_stat \<Rightarrow> server_delay_stat option" where
  "rotate limit d =
     (let h = DelayHistory d; n = int (length h)
      in if h = [] then None
         else if n \<ge> limit then
           if limit < 1 then None
           else Some (d\<lparr>Rotated := fst (hd h), DelayHistory := drop (nat (n - limit + 1)) h\<rparr>)
         else Some (d\<lparr>Rotated := fst (hd h)\<rparr>))"

definition UpdateDelayWithRotate :: "int \<Rightarrow> int \<Rightarrow> int \<Rightarrow> server_delay_stat \<Rightarrow> server_delay_stat option" where
  "UpdateDelayWithRotate now s limit d =
     (case rotate limit d of
        None \<Rightarrow> None
      | Some d1 \<Rightarrow>
          let d2 = UpdateCurrentDelayStat s (ResetCurrentStat now d1);
              t = Total d2; r = Rotated d2;
              cnt = s32 (s32 (Counter t + 1) - Counter r);
              avg = (DelayAvg t * of_int (Counter t) - DelayAvg r * of_int (Counter r) + of_int s) / of_int cnt
          in Some (d2\<lparr>DelayHistory := DelayHistory d2 @ [(Current d2, CurrentDT d2)],
               Total := t\<lparr>DelayAvg := avg, Counter := cnt,
                 DelayCount := (if s > 0 then s32 (s32 (DelayCount t + 1) - DelayCount r)
                                else s32 (DelayCount t - DelayCount r))\<rparr>\<rparr>))"

definition set_last :: "delay_stat \<Rightarrow> (delay_stat \<times> int) list \<Rightarrow> (delay_stat \<times> int) list option" where
  "set_last c h = (if h = [] then None else Some (butlast h @ [(c, snd (last h))]))"

definition UpdateDelayWithoutRotate :: "int \<Rightarrow> server_delay_stat \<Rightarrow> server_delay_stat option" where
  "UpdateDelayWithoutRotate s d =
     (let d1 = UpdateCurrentDelayStat s d; t = Total d1
      in map_option (\<lambda>h. d1\<lparr>DelayHistory := h,
             Total := t\<lparr>DelayAvg := (DelayAvg t * of_int (Counter t) + of_int s) / of_int (s32 (Counter t + 1)),
                        Counter := s32 (Counter t + 1),
                        DelayCount := (if s > 0 then s32 (DelayCount t + 1) else DelayCount t)\<rparr>\<rparr>)
           (set_last (Current d1) (DelayHistory d1)))"

definition UpdateDelayStat :: "int \<Rightarrow> int \<Rightarrow> int \<Rightarrow> server_delay_stat \<Rightarrow> server_delay_stat option" where
  "UpdateDelayStat now s limit d =
     (if CurrentDelayDatetime now \<noteq> CurrentDT d then UpdateDelayWithRotate now s limit d
      else UpdateDelayWithoutRotate s d)"

definition count_error :: "delay_stat \<Rightarrow> delay_stat" where
  "count_error c = c\<lparr>SlaveErrCount := s32 (SlaveErrCount c + 1), Counter := s32 (Counter c + 1)\<rparr>"

definition UpdateSlaveErrorWithRotate :: "int \<Rightarrow> int \<Rightarrow> server_delay_stat \<Rightarrow> server_delay_stat option" where
  "UpdateSlaveErrorWithRotate now limit d =
     (case rotate limit d of
        None \<Rightarrow> None
      | Some d1 \<Rightarrow>
          let d2 = ResetCurrentStat now d1; c = count_error (Current d2); t = Total d2; r = Rotated d2
          in Some (d2\<lparr>Current := c, DelayHistory := DelayHistory d2 @ [(c, CurrentDT d2)],
               Total := t\<lparr>Counter := s32 (s32 (Counter t + 1) - Counter r),
                          SlaveErrCount := s32 (s32 (SlaveErrCount t + 1) - SlaveErrCount r)\<rparr>\<rparr>))"

definition UpdateSlaveErrorWithoutRotate :: "server_delay_stat \<Rightarrow> server_delay_stat option" where
  "UpdateSlaveErrorWithoutRotate d =
     (let c = count_error (Current d)
      in map_option (\<lambda>h. d\<lparr>Current := c, DelayHistory := h, Total := count_error (Total d)\<rparr>)
           (set_last c (DelayHistory d)))"

definition UpdateSlaveErrorStat :: "int \<Rightarrow> int \<Rightarrow> server_delay_stat \<Rightarrow> server_delay_stat option" where
  "UpdateSlaveErrorStat now limit d =
     (if CurrentDelayDatetime now \<noteq> CurrentDT d then UpdateSlaveErrorWithRotate now limit d
      else UpdateSlaveErrorWithoutRotate d)"

section \<open>The total is the sum of the history\<close>

definition hist_sum :: "(delay_stat \<Rightarrow> int) \<Rightarrow> server_delay_stat \<Rightarrow> int" where
  "hist_sum f d = sum_list (map (f \<circ> fst) (DelayHistory d))"

text \<open>
  The invariant of the running total: the history ends with the current bucket, no bucket has a negative count, and
  the total counts as many observations as the buckets together.
\<close>

definition totals_ok :: "server_delay_stat \<Rightarrow> bool" where
  "totals_ok d \<longleftrightarrow>
     DelayHistory d \<noteq> [] \<and> fst (last (DelayHistory d)) = Current d \<and>
     Counter (Total d) = hist_sum Counter d \<and> list_all (\<lambda>(b, _). 0 \<le> Counter b) (DelayHistory d)"

text \<open>One more observation does not overflow the total.\<close>

definition room :: "server_delay_stat \<Rightarrow> bool" where
  "room d \<longleftrightarrow> Counter (Total d) + 1 < 2 ^ 31"

lemma s32_id: "- (2 ^ 31) \<le> x \<Longrightarrow> x < 2 ^ 31 \<Longrightarrow> s32 x = x"
  by (simp add: s32_def)

lemma hist_sum_nonneg: "list_all (\<lambda>(b, _). 0 \<le> f b) xs \<Longrightarrow> 0 \<le> sum_list (map (f \<circ> fst) xs :: int list)"
  by (induction xs) auto

lemma bucket_bounds:
  assumes "totals_ok d" "DelayHistory d = xs @ (b, t) # ys"
  shows "0 \<le> Counter b \<and> Counter b \<le> Counter (Total d)"
  using assms hist_sum_nonneg [of Counter xs] hist_sum_nonneg [of Counter ys] by (simp add: totals_ok_def hist_sum_def)

lemma last_bucket: "totals_ok d \<Longrightarrow> \<exists>bs u. DelayHistory d = bs @ [(Current d, u)]"
  by (cases "DelayHistory d" rule: rev_cases) (auto simp: totals_ok_def prod_eq_iff)

lemma same_hour_ok:
  assumes "totals_ok d" "room d" "UpdateDelayWithoutRotate s d = Some d' \<or> UpdateSlaveErrorWithoutRotate d = Some d'"
  shows "totals_ok d' \<and> Counter (Total d') = Counter (Total d) + 1"
proof -
  obtain bs u where h: "DelayHistory d = bs @ [(Current d, u)]"
    using last_bucket [OF assms(1)] by blast
  have c: "0 \<le> Counter (Current d)" "Counter (Current d) \<le> Counter (Total d)"
    using bucket_bounds [OF assms(1), of bs "Current d" u "[]"] h by auto
  then have s1: "s32 (Counter (Current d) + 1) = Counter (Current d) + 1"
    "s32 (Counter (Total d) + 1) = Counter (Total d) + 1"
    using assms(2) by (auto simp: room_def intro!: s32_id)
  then have "DelayHistory d' = bs @ [(Current d', u)]" "Counter (Current d') = Counter (Current d) + 1"
    "Counter (Total d') = Counter (Total d) + 1"
    using assms(3)
    by (auto simp: UpdateDelayWithoutRotate_def UpdateCurrentDelayStat_def UpdateSlaveErrorWithoutRotate_def
        set_last_def Let_def h count_error_def)
  then show ?thesis
    using assms(1) c by (simp add: totals_ok_def hist_sum_def h)
qed

text \<open>A new hour: the count of the oldest bucket leaves the total, and the new bucket holds one observation.\<close>

lemma new_hour:
  assumes "totals_ok d" "room d" "DelayHistory d = (b0, t0) # h"
    "UpdateDelayWithRotate now s limit d = Some d' \<or> UpdateSlaveErrorWithRotate now limit d = Some d'"
  shows "Counter (Total d') = Counter (Total d) - Counter b0 + 1 \<and> Counter (Current d') = 1 \<and>
    (\<exists>u. DelayHistory d' = (if int (length h) + 1 \<ge> limit then drop (nat (int (length h) + 1 - limit)) h
       else (b0, t0) # h) @ [(Current d', u)])"
proof -
  have b: "0 \<le> Counter b0" "Counter b0 \<le> Counter (Total d)"
    using bucket_bounds [OF assms(1), of "[]" b0 t0 h] assms(3) by auto
  then have s1: "s32 (Counter (Total d) + 1) = Counter (Total d) + 1"
    "s32 (Counter (Total d) + 1 - Counter b0) = Counter (Total d) + 1 - Counter b0" "s32 1 = 1"
    using assms(2) by (auto simp: room_def intro!: s32_id)
  have dr: "drop (nat (int (length ((b0, t0) # h)) - limit + 1)) ((b0, t0) # h) = drop (nat (int (length h) + 1 - limit)) h"
    if "int (length h) + 1 \<ge> limit"
  proof -
    have "nat (int (length ((b0, t0) # h)) - limit + 1) = Suc (nat (int (length h) + 1 - limit))"
      using that by simp
    then show ?thesis by (simp only: drop_Suc_Cons)
  qed
  from assms(4) obtain d1 where r: "rotate limit d = Some d1"
    by (auto simp: UpdateDelayWithRotate_def UpdateSlaveErrorWithRotate_def split: option.splits)
  then have d1: "Total d1 = Total d" "Rotated d1 = b0"
    "DelayHistory d1 = (if int (length h) + 1 \<ge> limit then drop (nat (int (length h) + 1 - limit)) h else (b0, t0) # h)"
    using dr by (auto simp: rotate_def assms(3) Let_def split: if_splits)
  show ?thesis
    using assms(4) r d1 s1
    by (auto simp: UpdateDelayWithRotate_def UpdateSlaveErrorWithRotate_def ResetCurrentStat_def UpdateCurrentDelayStat_def
        count_error_def zero_delay_def Let_def)
qed

section \<open>Properties\<close>

text \<open>
  The number of observations in the running delay statistics is exact: within an hour, and when a new hour
  starts on a full history, recording a delay or a replication error keeps the total equal to the sum of the hourly
  buckets, with the current bucket last.
\<close>

theorem delay_totals_exact:
  assumes "totals_ok d" "room d" "UpdateDelayStat now s limit d = Some d' \<or> UpdateSlaveErrorStat now limit d = Some d'"
    "CurrentDelayDatetime now = CurrentDT d \<or> int (length (DelayHistory d)) = limit"
  shows "totals_ok d'"
proof (cases "CurrentDelayDatetime now = CurrentDT d")
  case True
  with assms show ?thesis
    using same_hour_ok [OF assms(1,2), of s d'] by (auto simp: UpdateDelayStat_def UpdateSlaveErrorStat_def)
next
  case False
  then have u: "UpdateDelayWithRotate now s limit d = Some d' \<or> UpdateSlaveErrorWithRotate now limit d = Some d'"
    and l: "int (length (DelayHistory d)) = limit"
    using assms by (auto simp: UpdateDelayStat_def UpdateSlaveErrorStat_def)
  obtain b0 t0 h where h: "DelayHistory d = (b0, t0) # h"
    using assms(1) by (cases "DelayHistory d") (auto simp: totals_ok_def)
  with new_hour [OF assms(1,2) h u] l obtain u where
    "DelayHistory d' = h @ [(Current d', u)]" "Counter (Total d') = Counter (Total d) - Counter b0 + 1"
    "Counter (Current d') = 1"
    by auto
  then show ?thesis
    using assms(1) by (simp add: totals_ok_def hist_sum_def h)
qed

definition sample_stat :: server_delay_stat where
  "sample_stat =
     \<lparr>Total = zero_delay\<lparr>Counter := 3\<rparr>, Rotated = zero_delay, Current = zero_delay\<lparr>Counter := 2\<rparr>, CurrentDT = 7200,
      DelayHistory = [(zero_delay\<lparr>Counter := 1\<rparr>, 3600), (zero_delay\<lparr>Counter := 2\<rparr>, 7200)]\<rparr>"

lemma sample_stat_ok: "totals_ok sample_stat" "room sample_stat"
  by (simp_all add: totals_ok_def hist_sum_def room_def sample_stat_def zero_delay_def)

theorem delay_totals_exact_witness:
  "\<exists>d'. UpdateDelayStat 10801 5 2 sample_stat = Some d' \<and> totals_ok d'"
proof -
  have "UpdateDelayStat 10801 5 2 sample_stat \<noteq> None"
    by code_simp
  then obtain d' where d': "UpdateDelayStat 10801 5 2 sample_stat = Some d'"
    by auto
  with delay_totals_exact [OF sample_stat_ok, of 10801 5 2 d'] show ?thesis
    by (simp add: sample_stat_def)
qed

text \<open>
  A new hour that does not fill the history still subtracts the oldest bucket from the total, although the
  bucket stays: the total then counts fewer observations than the buckets, by the count of the oldest one.
\<close>

theorem delay_totals_lose_kept_hour:
  assumes "totals_ok d" "room d" "UpdateDelayStat now s limit d = Some d'" "CurrentDelayDatetime now \<noteq> CurrentDT d"
    "int (length (DelayHistory d)) < limit"
  shows "Counter (Total d') = hist_sum Counter d' - Counter (fst (hd (DelayHistory d'))) \<and>
    hd (DelayHistory d') = hd (DelayHistory d)"
proof -
  obtain b0 t0 h where h: "DelayHistory d = (b0, t0) # h"
    using assms(1) by (cases "DelayHistory d") (auto simp: totals_ok_def)
  from assms have "UpdateDelayWithRotate now s limit d = Some d'"
    by (simp add: UpdateDelayStat_def)
  with new_hour [OF assms(1,2) h] assms(5) h obtain u where
    "DelayHistory d' = (b0, t0) # h @ [(Current d', u)]" "Counter (Total d') = Counter (Total d) - Counter b0 + 1"
    "Counter (Current d') = 1"
    by fastforce
  then show ?thesis
    using assms(1) by (simp add: totals_ok_def hist_sum_def h)
qed

theorem delay_totals_lose_kept_hour_witness:
  "\<exists>d'. UpdateDelayStat 10801 5 3 sample_stat = Some d' \<and> Counter (Total d') = hist_sum Counter d' - 1"
proof -
  have "UpdateDelayStat 10801 5 3 sample_stat \<noteq> None"
    by code_simp
  then obtain d' where d': "UpdateDelayStat 10801 5 3 sample_stat = Some d'"
    by auto
  with delay_totals_lose_kept_hour [OF sample_stat_ok d'] show ?thesis
    by (simp add: sample_stat_def CurrentDelayDatetime_def)
qed

end
