(* ===== verification/SrvCheck.thy ===== *)
theory SrvCheck
  imports ServerOps DelayStats
begin

text \<open>
  The checks of one server in a monitoring round, \<open>src/cluster/srv_chk.go\<close>: the replication status and the state it
  gives the server, disk, connection and version alarms, the settings of replicas and of the master with their
  enforcement, and the users missing on a candidate. A statement sent through a \<open>dbhelper\<close> function is named by
  that function in the trace. \<open>None\<close> is a run-time panic. A disk is its total and used space.
\<close>

section \<open>Replication status\<close>

text \<open>The state of a plain server, or that of a relay; a MaxScale server keeps its own.\<close>

definition mark :: "sid \<Rightarrow> string \<Rightarrow> string \<Rightarrow> cluster \<Rightarrow> cluster" where
  "mark i st relay cl =
     (if \<not> IsRelay (srv cl i) \<and> \<not> IsMaxscale (srv cl i) then Server_SetState i st cl
      else if IsRelay (srv cl i) then Server_SetState i relay cl
      else cl)"

definition capture_delay :: "dbenv \<Rightarrow> sid \<Rightarrow> int \<Rightarrow> cluster \<Rightarrow> cluster option" where
  "capture_delay E i n cl =
     (if DelayStatCapture (Conf cl) then
        map_option (\<lambda>d. upd_srv i (\<lambda>s. s\<lparr>DelayStat := d\<rparr>) cl)
          (UpdateDelayStat (Now E) n (DelayStatRotate (Conf cl)) (DelayStat (srv cl i)))
      else Some cl)"

text \<open>A replica whose \<open>Seconds_Behind_Master\<close> is null.\<close>

definition check_stopped :: "sid \<Rightarrow> slave_status \<Rightarrow> cluster \<Rightarrow> string \<times> cluster" where
  "check_stopped i ss cl =
     (if SlaveSQLRunning ss = ''Yes'' \<and> SlaveIORunning ss = ''No''
      then (''NOT OK, IO Stopped ('' @ LastIOErrno ss @ '')'', mark i stateSlaveErr stateRelayErr cl)
      else if SlaveSQLRunning ss = ''No'' \<and> SlaveIORunning ss = ''Yes''
      then (''NOT OK, SQL Stopped ('' @ LastSQLErrno ss @ '')'', mark i stateSlaveErr stateRelayErr cl)
      else if SlaveSQLRunning ss = ''No'' \<and> SlaveIORunning ss = ''No''
      then (''NOT OK, ALL Stopped'', mark i stateSlaveErr stateRelayErr cl)
      else if SlaveSQLRunning ss = ''Connecting''
      then (''NOT OK, IO Connecting'', mark i stateSlave stateRelay cl)
      else (''Running OK'', mark i stateSlave stateRelay cl))"

definition check_delay :: "dbenv \<Rightarrow> sid \<Rightarrow> int \<Rightarrow> cluster \<Rightarrow> (string \<times> cluster) option" where
  "check_delay E i n cl =
     (if n > 0 then
        map_option (Pair ''Behind master'')
          (capture_delay E i n
            (if n > FailMaxDelay (Conf cl) \<and> RplChecks (Conf cl)
             then mark i stateSlaveLate stateRelayLate cl else mark i stateSlave stateRelay cl))
      else map_option (Pair ''Running OK'') (capture_delay E i n (mark i stateSlave stateRelay cl)))"

definition CheckReplication :: "dbenv \<Rightarrow> sid \<Rightarrow> cluster \<Rightarrow> (string \<times> cluster) option" where
  "CheckReplication E i cl =
     (let s = srv cl i
      in if HaveWsrep s then
           if IsWsrepSync s then Some (''Galera OK'', Server_SetState i stateWsrep cl)
           else if IsWsrepDonor s then Some (''Galera OK'', Server_SetState i stateWsrepDonor cl)
           else Some (''Galera Late'', Server_SetState i stateWsrepLate cl)
         else if IsInFailover cl then Some (''In Failover'', cl)
         else if IsDown s \<and> \<not> IsSlave s then Some (''Master OK'', cl)
         else if (\<exists>m \<in> set_option (master cl). ServerID s = ServerID (srv cl m)) then Some (''Master OK'', cl)
         else if Topology cl = TopoActivePassive then Some (''Master OK'', cl)
         else if IsMaintenance s then Some (''Maintenance'', Server_SetState i stateMaintenance cl)
         else case own_status s of
             None \<Rightarrow> Some (''Not a slave'', cl)
           | Some ss \<Rightarrow>
               (case SecondsBehindMaster ss of
                  None \<Rightarrow> Some (check_stopped i ss cl)
                | Some n \<Rightarrow> check_delay E i n cl))"

section \<open>Alarms\<close>

definition CheckMaxConnections :: "sid \<Rightarrow> cluster \<Rightarrow> cluster" where
  "CheckMaxConnections i cl =
     (let s = srv cl i; maxCx = atoi (Variables s ''MAX_CONNECTIONS''); curCx = atoi (Status s ''THREADS_CONNECTED'')
      in if curCx > go_div (s64 (maxCx * 80)) 100
         then set_state ''ERR00076'' LvlWarn [FS (URL s)] ''MON'' (URL s) cl else cl)"

definition HasBinlogRow :: "server \<Rightarrow> bool" where
  "HasBinlogRow s \<longleftrightarrow> Variables s ''BINLOG_FORMAT'' = ''ROW''"

definition version_state :: "string \<Rightarrow> sid \<Rightarrow> cluster \<Rightarrow> cluster" where
  "version_state key i cl = set_state key ''WARNING'' [FS (URL (srv cl i))] ''MON'' (URL (srv cl i)) cl"

text \<open>A comparison of versions panics on a version string it cannot parse; the strings here all parse.\<close>

definition CheckVersion :: "sid \<Rightarrow> cluster \<Rightarrow> cluster" where
  "CheckVersion i cl =
     (let s = srv cl i; v = DBVersion s;
          cl1 = (if IsMariaDB v \<and> LowerReleaseList v [''10.4.12'', ''10.5.1''] = Some True
                 then version_state ''MDEV20821'' i cl else cl);
          cl2 = (if IsMariaDB v \<and> \<not> HasBinlogRow s \<and>
                   LowerReleaseList v [''10.2.44'', ''10.3.35'', ''10.4.25'', ''10.5.16'', ''10.6.8'', ''10.7.4'', ''10.8.3'', ''10.9.1'']
                     = Some True
                 then version_state ''MDEV28310'' i cl1 else cl1)
      in if IsMariaDB v \<and> \<not> HasBinlogRow s \<and> Variables s ''INNODB_AUTOINC_LOCK_MODE'' = ''2'' \<and>
            (GreaterEqualRelease v ''10.2'' = Some True \<or>
             LowerReleaseList v [''10.3.35'', '' 10.4.25'', '' 10.5.16'', '' 10.6.8'', '' 10.7.4'', '' 10.8.3''] = Some True)
         then version_state ''MDEV19577'' i cl2 else cl2)"

fun check_disks :: "sid \<Rightarrow> (int \<times> int) list \<Rightarrow> cluster \<Rightarrow> cluster option" where
  "check_disks i [] cl = Some cl"
| "check_disks i ((tot, used) # ds) cl =
     (if tot = 0 then None
      else check_disks i ds
        (if s32 (s32 (go_div used tot) * 100) > s32 (MonitorDiskUsagePct (Conf cl))
         then set_state ''ERR00079'' ''WARNING'' [FS (URL (srv cl i))] ''MON'' (URL (srv cl i)) cl else cl))"

definition CheckDisks :: "sid \<Rightarrow> cluster \<Rightarrow> cluster option" where
  "CheckDisks i cl = check_disks i (Disks (srv cl i)) cl"

definition user_key :: "string \<times> string \<Rightarrow> string" where
  "user_key u = [CHR 0x27] @ fst u @ [CHR 0x27] @ ''@'' @ [CHR 0x27] @ snd u @ [CHR 0x27]"

definition CheckSlaveSameMasterGrants :: "sid \<Rightarrow> cluster \<Rightarrow> bool \<times> cluster" where
  "CheckSlaveSameMasterGrants i cl =
     (let s = srv cl i
      in case GetMaster cl of
           None \<Rightarrow> (True, cl)
         | Some m \<Rightarrow>
             if IsIgnored s \<or> \<not> CheckGrants (Conf cl) then (True, cl)
             else case find (\<lambda>u. user_key u \<notin> user_key ` set (Users s)) (Users (srv cl m)) of
                 None \<Rightarrow> (True, cl)
               | Some u \<Rightarrow>
                   (False, set_state ''ERR00056'' ''ERROR'' [FS (user_key u), FS (URL s)] ''TOPO'' (URL s) cl))"

section \<open>Settings\<close>

definition GetReplicationHearbeatPeriod :: "server \<Rightarrow> rat" where
  "GetReplicationHearbeatPeriod s = (case own_status s of None \<Rightarrow> 0 | Some ss \<Rightarrow> SlaveHeartbeatPeriod ss)"

definition GetReplicationUsingGtid :: "server \<Rightarrow> string" where
  "GetReplicationUsingGtid s =
     (if IsMariaDB (DBVersion s) then (case own_status s of None \<Rightarrow> ''No'' | Some ss \<Rightarrow> UsingGtid ss)
      else if HaveMySQLGTID s then ''Yes'' else ''No'')"

definition IsReplicationUsingGtidStrict :: "server \<Rightarrow> bool" where
  "IsReplicationUsingGtidStrict s =
     (if IsMariaDB (DBVersion s) then Variables s ''GTID_STRICT_MODE'' = ''ON'' else True)"

definition IsAcid :: "server \<Rightarrow> bool" where
  "IsAcid s =
     (if IsPostgreSQL (DBVersion s)
      then Variables s ''FSYNC'' = ''ON'' \<and> Variables s ''SYNCHRONOUS_COMMIT'' = ''ON''
      else Variables s ''SYNC_BINLOG'' = ''1'' \<and> Variables s ''INNODB_FLUSH_LOG_AT_TRX_COMMIT'' = ''1'')"

text \<open>One setting: the statement that enforces it when its option is on, else a warning.\<close>

definition enforce :: "sid \<Rightarrow> bool \<Rightarrow> string \<Rightarrow> bool \<Rightarrow> string \<Rightarrow> string \<Rightarrow> cluster \<Rightarrow> cluster" where
  "enforce i force cmd complain key lvl cl =
     (if force then emit (OpSQL i cmd) cl
      else if complain then set_state key lvl [FS (URL (srv cl i))] ''TOPO'' (URL (srv cl i)) cl
      else cl)"

definition acid_state :: "sid \<Rightarrow> string \<Rightarrow> cluster \<Rightarrow> cluster" where
  "acid_state i lvl cl =
     (if \<not> IsAcid (srv cl i) \<and> IsDiscovered cl then
        Cluster_SetState ''WARN0007''
          \<lparr>ErrKey = '''', ErrType = lvl,
           ErrDesc = ''At least one server is not ACID-compliant. Please make sure that sync_binlog and innodb_flush_log_at_trx_commit are set to 1'',
           ErrFrom = ''CONF'', ServerUrl = URL (srv cl i)\<rparr> cl
      else cl)"

definition parallel_mode :: "sid \<Rightarrow> cluster \<Rightarrow> cluster" where
  "parallel_mode i cl =
     (let s = srv cl i; mode = str_upper (ForceSlaveParallelMode (Conf cl));
          on = (GetTopology cl \<noteq> TopoMultiMasterWsrep \<and> IsMariaDB (DBVersion s))
      in if mode = ''OPTIMISTIC'' \<and> \<not> HaveSlaveOptimistic s \<and> on then emit (OpSQL i ''SetSlaveParallelMode OPTIMISTIC'') cl
         else if mode = ''SERIALIZED'' \<and> \<not> HaveSlaveSerialized s \<and> on then emit (OpSQL i ''SetSlaveParallelMode NONE'') cl
         else if mode = ''AGGRESSIVE'' \<and> \<not> HaveSlaveAggressive s \<and> on then emit (OpSQL i ''SetSlaveParallelMode AGGRESSIVE'') cl
         else if mode = ''MINIMAL'' \<and> \<not> HaveSlaveMinimal s \<and> on then emit (OpSQL i ''SetSlaveParallelMode MINIMAL'') cl
         else if mode = ''CONSERVATIVE'' \<and> \<not> HaveSlaveConservative s \<and> on then emit (OpSQL i ''SetSlaveParallelMode CONSERVATIVE'') cl
         else cl)"

text \<open>The replication settings of a replica.\<close>

definition slave_replication :: "dbenv \<Rightarrow> sid \<Rightarrow> cluster \<Rightarrow> cluster" where
  "slave_replication E i cl =
     (let s = srv cl i; cf = Conf cl; vis = (\<not> IsIgnored s); galera = (GetTopology cl = TopoMultiMasterWsrep);
          maria = IsMariaDB (DBVersion s);
          cl1 = enforce i (ForceSlaveSemisync cf \<and> \<not> HaveSemiSync s \<and> \<not> galera) ''InstallSemiSync''
                  (vis \<and> \<not> HaveSemiSync s \<and> \<not> galera) ''WARN0048'' LvlWarn cl;
          cl2 = enforce i (ForceBinlogRow cf \<and> \<not> HaveBinlogRow s) ''SetBinlogFormat ROW''
                  (vis \<and> \<not> HaveBinlogRow s \<and> (AutorejoinFlashback cf \<or> galera)) ''WARN0049'' LvlWarn cl1;
          cl3 = (if ForceSlaveReadOnly cf \<and> ReadOnly s = ''OFF'' \<and> \<not> IsIgnoredReadonly s \<and> \<not> IsMultiMaster cl \<and> \<not> IsMaster cl s
                 then snd (SetReadOnly E i cl2) else cl2);
          cl4 = enforce i (ForceSlaveHeartbeat cf \<and> GetReplicationHearbeatPeriod s > 1) ''SetSlaveHeartbeat 1''
                  (vis \<and> GetReplicationHearbeatPeriod s > 1) ''WARN0050'' LvlWarn cl3;
          cl5 = enforce i (ForceSlaveGtid cf \<and> GetReplicationUsingGtid s = ''No'') ''SetSlaveGTIDMode slave_pos''
                  (vis \<and> GetReplicationUsingGtid s = ''No'' \<and> \<not> galera \<and> maria) ''WARN0051'' LvlWarn cl4;
          cl6 = enforce i (ForceSlaveGtidStrict cf \<and> \<not> IsReplicationUsingGtidStrict s \<and> \<not> galera \<and> maria) ''SetSlaveGTIDModeStrict''
                  (vis \<and> \<not> IsReplicationUsingGtidStrict s \<and> \<not> galera \<and> maria) ''WARN0058'' LvlWarn cl5;
          cl7 = enforce i (ForceSlaveIdempotent cf \<and> \<not> HaveSlaveIdempotent s \<and> \<not> galera \<and> maria) ''SetSlaveExecMode IDEMPOTENT''
                  False '''' '''' cl6;
          cl8 = enforce i (ForceSlaveStrict cf \<and> HaveSlaveIdempotent s \<and> \<not> galera \<and> maria) ''SetSlaveExecMode STRICT''
                  False '''' '''' cl7
      in parallel_mode i cl8)"

text \<open>The binary log and durability settings of a replica.\<close>

definition CheckSlaveSettings :: "dbenv \<Rightarrow> sid \<Rightarrow> cluster \<Rightarrow> cluster" where
  "CheckSlaveSettings E i cl =
     (let s = srv cl i; cf = Conf cl; vis = (\<not> IsIgnored s); maria = IsMariaDB (DBVersion s);
          compress = (maria \<and> Major (DBVersion s) \<ge> 10 \<and> Minor (DBVersion s) \<ge> 2);
          cl1 = enforce i (ForceSyncInnoDB cf \<and> \<not> HaveInnodbTrxCommit s) ''SetSyncInnodb''
                  (vis \<and> \<not> HaveInnodbTrxCommit s) ''WARN0052'' LvlWarn (slave_replication E i cl);
          cl2 = enforce i (ForceBinlogChecksum cf \<and> \<not> HaveChecksum s) ''SetBinlogChecksum''
                  (vis \<and> \<not> HaveChecksum s) ''WARN0053'' LvlWarn cl1;
          cl3 = enforce i (ForceBinlogSlowqueries cf \<and> \<not> HaveBinlogSlowqueries s) ''SetBinlogSlowqueries''
                  (vis \<and> \<not> HaveBinlogSlowqueries s) ''WARN0054'' LvlWarn cl2;
          cl4 = enforce i (ForceBinlogAnnotate cf \<and> \<not> HaveBinlogAnnotate s \<and> maria) ''SetBinlogAnnotate''
                  (vis \<and> \<not> HaveBinlogAnnotate s \<and> maria) ''WARN0055'' LvlWarn cl3;
          cl5 = enforce i (ForceBinlogCompress cf \<and> \<not> HaveBinlogCompress s \<and> compress) ''SetBinlogCompress''
                  (vis \<and> \<not> HaveBinlogCompress s \<and> compress) ''WARN0056'' LvlWarn cl4;
          cl6 = enforce i False '''' (vis \<and> \<not> HaveBinlogSlaveUpdates s) ''WARN0057'' LvlWarn cl5
      in acid_state i LvlWarn cl6)"

definition CheckMasterSettings :: "sid \<Rightarrow> cluster \<Rightarrow> cluster" where
  "CheckMasterSettings i cl =
     (let s = srv cl i; cf = Conf cl; maria = IsMariaDB (DBVersion s);
          plain = (GetTopology cl \<noteq> TopoMultiMasterWsrep \<and> GetTopology cl \<noteq> TopoMultiMasterGrouprep);
          compress = (maria \<and> Major (DBVersion s) \<ge> 10 \<and> Minor (DBVersion s) \<ge> 2); w = ''WARNING'';
          cl1 = enforce i (ForceSlaveSemisync cf \<and> \<not> HaveSemiSync s) ''InstallSemiSync''
                  (\<not> HaveSemiSync s \<and> plain) ''WARN0060'' w cl;
          cl2 = enforce i (ForceBinlogRow cf \<and> \<not> HaveBinlogRow s) ''SetBinlogFormat ROW''
                  (\<not> HaveBinlogRow s \<and> AutorejoinFlashback cf) ''WARN0061'' w cl1;
          cl3 = enforce i (ForceSyncBinlog cf \<and> \<not> HaveBinlogSync s) ''SetSyncBinlog'' (\<not> HaveBinlogSync s) ''WARN0062'' w cl2;
          cl4 = enforce i (ForceSyncInnoDB cf \<and> \<not> HaveBinlogSync s) ''SetSyncInnodb'' (\<not> HaveBinlogSync s) ''WARN0064'' w cl3;
          cl5 = enforce i (ForceBinlogAnnotate cf \<and> \<not> HaveBinlogAnnotate s \<and> maria) ''SetBinlogAnnotate''
                  (\<not> HaveBinlogAnnotate s \<and> maria) ''WARN0067'' w cl4;
          cl6 = enforce i (ForceBinlogChecksum cf \<and> \<not> HaveChecksum s) ''SetBinlogChecksum'' (\<not> HaveChecksum s) ''WARN0065'' w cl5;
          cl7 = enforce i (ForceBinlogCompress cf \<and> \<not> HaveBinlogCompress s \<and> compress) ''SetBinlogCompress''
                  (\<not> HaveBinlogCompress s \<and> compress) ''WARN0068'' w cl6;
          cl8 = enforce i False '''' (\<not> HaveBinlogSlaveUpdates s) ''WARN0069'' w cl7;
          cl9 = enforce i False '''' (\<not> HaveGtidStrictMode s \<and> Flavor (DBVersion s) = ''MariaDB'' \<and> plain) ''WARN0070'' w cl8
      in acid_state i w cl9)"

section \<open>What the checks leave alone\<close>

text \<open>The commands a settings check may send: to its own server, and none that opens it for writes.\<close>

definition setting_op :: "sid \<Rightarrow> dbop \<Rightarrow> bool" where
  "setting_op i o1 \<longleftrightarrow> op_target o1 = Some i \<and> \<not> opens_writes o1"

lemma setting_sql [simp]: "setting_op i (OpSQL i c)"
  by (simp add: setting_op_def opens_writes_def)

lemma steps_enforce: "steps (setting_op i) a b \<Longrightarrow> steps (setting_op i) a (enforce i f c w k l b)"
  by (simp add: enforce_def steps_emit steps_set_state)

lemma steps_acid: "steps P a b \<Longrightarrow> steps P a (acid_state i l b)"
  by (simp add: acid_state_def steps_SetState)

lemma steps_parallel: "steps (setting_op i) a b \<Longrightarrow> steps (setting_op i) a (parallel_mode i b)"
  by (simp add: parallel_mode_def Let_def steps_emit)

lemma steps_enforce_read_only: "steps (setting_op i) a b \<Longrightarrow> steps (setting_op i) a (snd (SetReadOnly E i b))"
  by (rule steps_server_ops(3)) (auto simp: setting_op_def)

lemmas steps_settings = steps_enforce steps_acid steps_parallel steps_enforce_read_only

lemma steps_slave_replication: "steps (setting_op i) a b \<Longrightarrow> steps (setting_op i) a (slave_replication E i b)"
  by (auto simp: slave_replication_def Let_def intro!: steps_settings)

text \<open>The options that let a check change a setting.\<close>

definition no_force :: "conf \<Rightarrow> bool" where
  "no_force cf \<longleftrightarrow>
     \<not> ForceSlaveSemisync cf \<and> \<not> ForceBinlogRow cf \<and> \<not> ForceSlaveReadOnly cf \<and> \<not> ForceSlaveHeartbeat cf \<and>
     \<not> ForceSlaveGtid cf \<and> \<not> ForceSlaveGtidStrict cf \<and> \<not> ForceSlaveIdempotent cf \<and> \<not> ForceSlaveStrict cf \<and>
     ForceSlaveParallelMode cf = '''' \<and> \<not> ForceSyncInnoDB cf \<and> \<not> ForceSyncBinlog cf \<and> \<not> ForceBinlogChecksum cf \<and>
     \<not> ForceBinlogSlowqueries cf \<and> \<not> ForceBinlogAnnotate cf \<and> \<not> ForceBinlogCompress cf"

lemma trace_enforce [simp]: "trace (enforce i False c w k l cl) = trace cl"
  by (simp add: enforce_def)

lemma trace_acid [simp]: "trace (acid_state i l cl) = trace cl"
  by (simp add: acid_state_def)

lemma Conf_enforce [simp]: "Conf (enforce i f c w k l cl) = Conf cl"
  by (simp add: enforce_def emit_def set_state_def Cluster_SetState_def)

lemma no_force_quiet:
  assumes "no_force (Conf cl)"
  shows "trace (CheckSlaveSettings E i cl) = trace cl" "trace (CheckMasterSettings i cl) = trace cl"
  using assms
  by (simp_all add: no_force_def CheckSlaveSettings_def CheckMasterSettings_def slave_replication_def parallel_mode_def
      str_upper_def Let_def)

section \<open>Properties\<close>

text \<open>
  The state a monitoring round gives a replica is a function of its replication status: a replica whose delay
  is unknown is in error exactly when one of its two threads is stopped; one whose delay is known is late exactly
  when replication checks are on and the delay exceeds \<open>failover-max-slave-delay\<close>; otherwise it is a good replica.
  No other server changes and no role changes.
\<close>

theorem replica_state_from_status:
  assumes "CheckReplication E i cl = Some (msg, cl')" "own_status (srv cl i) = Some ss"
    "\<not> HaveWsrep (srv cl i)" "\<not> IsInFailover cl" "IsDown (srv cl i) \<longrightarrow> IsSlave (srv cl i)"
    "\<forall>m. master cl = Some m \<longrightarrow> ServerID (srv cl i) \<noteq> ServerID (srv cl m)" "Topology cl \<noteq> TopoActivePassive"
    "\<not> IsMaintenance (srv cl i)" "\<not> IsRelay (srv cl i)" "\<not> IsMaxscale (srv cl i)"
  shows "State (srv cl' i) =
      (case SecondsBehindMaster ss of
         None \<Rightarrow> if (SlaveSQLRunning ss, SlaveIORunning ss) \<in> {(''Yes'', ''No''), (''No'', ''Yes''), (''No'', ''No'')}
                  then stateSlaveErr else stateSlave
       | Some n \<Rightarrow> if 0 < n \<and> FailMaxDelay (Conf cl) < n \<and> RplChecks (Conf cl) then stateSlaveLate else stateSlave) \<and>
    (\<forall>j. j \<noteq> i \<longrightarrow> srv cl' j = srv cl j) \<and> roles cl' = roles cl"
proof -
  have m: "State (srv (mark i st r cl) i) = st" "\<And>j. j \<noteq> i \<Longrightarrow> srv (mark i st r cl) j = srv cl j"
    "roles (mark i st r cl) = roles cl" for st r
    using assms(9,10)
    by (simp_all add: mark_def Server_SetState_def upd_srv_def roles_def emit_def IsInFailover_def)
  have d: "State (srv c i) = State (srv b i) \<and> (\<forall>j. j \<noteq> i \<longrightarrow> srv c j = srv b j) \<and> roles c = roles b"
    if "capture_delay E i n b = Some c" for n b c
    using that by (auto simp: capture_delay_def upd_srv_def roles_def IsInFailover_def split: if_splits)
  have r: "(case SecondsBehindMaster ss of None \<Rightarrow> Some (check_stopped i ss cl) | Some n \<Rightarrow> check_delay E i n cl) = Some (msg, cl')"
    using assms(1-8) by (auto simp: CheckReplication_def Let_def split: option.splits)
  show ?thesis
  proof (cases "SecondsBehindMaster ss")
    case None
    with r m show ?thesis
      by (auto simp: check_stopped_def split: if_splits)
  next
    case (Some n)
    with r obtain st q where st: "capture_delay E i n (mark i st q cl) = Some cl'"
      "st = (if 0 < n \<and> FailMaxDelay (Conf cl) < n \<and> RplChecks (Conf cl) then stateSlaveLate else stateSlave)"
      by (cases "0 < n"; cases "FailMaxDelay (Conf cl) < n \<and> RplChecks (Conf cl)")
        (auto simp: check_delay_def)
    with d [OF st(1)] m Some show ?thesis
      by simp
  qed
qed

theorem replica_state_from_status_witness:
  "\<exists>msg cl'. CheckReplication calm_env 1 sample_live = Some (msg, cl') \<and> State (srv cl' 1) = stateSlave"
proof -
  have "CheckReplication calm_env 1 sample_live \<noteq> None" "own_status (srv sample_live 1) \<noteq> None"
    by code_simp+
  then obtain msg cl' ss where c: "CheckReplication calm_env 1 sample_live = Some (msg, cl')"
    and ss: "own_status (srv sample_live 1) = Some ss"
    by auto
  have "SecondsBehindMaster (the (own_status (srv sample_live 1))) = Some 0"
    by code_simp
  moreover have "\<not> HaveWsrep (srv sample_live 1)" "\<not> IsInFailover sample_live"
    "IsDown (srv sample_live 1) \<longrightarrow> IsSlave (srv sample_live 1)" "master sample_live = Some 0"
    "ServerID (srv sample_live 1) \<noteq> ServerID (srv sample_live 0)" "Topology sample_live \<noteq> TopoActivePassive"
    "\<not> IsMaintenance (srv sample_live 1)" "\<not> IsRelay (srv sample_live 1)" "\<not> IsMaxscale (srv sample_live 1)"
    by code_simp+
  ultimately show ?thesis
    using replica_state_from_status [OF c ss] c ss by auto
qed

text \<open>
  The settings checks only ever talk to the server they check, never open it for writes and change no role; and
  unless one of the enforcing options is set they send no command at all, they only warn.
\<close>

theorem settings_checks_safe:
  shows "steps (\<lambda>o1. op_target o1 = Some i \<and> \<not> opens_writes o1) cl (CheckSlaveSettings E i cl) \<and>
    steps (\<lambda>o1. op_target o1 = Some i \<and> \<not> opens_writes o1) cl (CheckMasterSettings i cl) \<and>
    (no_force (Conf cl) \<longrightarrow> trace (CheckSlaveSettings E i cl) = trace cl \<and> trace (CheckMasterSettings i cl) = trace cl)"
proof -
  have "steps (setting_op i) cl (CheckSlaveSettings E i cl)" "steps (setting_op i) cl (CheckMasterSettings i cl)"
    by (simp_all add: CheckSlaveSettings_def CheckMasterSettings_def Let_def steps_settings steps_slave_replication)
  then show ?thesis
    using no_force_quiet(1) [of cl E i] no_force_quiet(2) [of cl i] unfolding setting_op_def by simp
qed

theorem settings_checks_safe_witness:
  "trace (CheckSlaveSettings calm_env 1 sample_cluster) = trace sample_cluster"
proof -
  have "no_force (Conf sample_cluster)"
    by code_simp
  with settings_checks_safe [of 1 sample_cluster calm_env] show ?thesis
    by simp
qed

text \<open>
  The disk alarm divides before it multiplies, so a disk that is not entirely used never raises it, whatever the
  configured percentage.
\<close>

theorem disk_alarm_only_when_full:
  assumes "list_all (\<lambda>(tot, used). 0 \<le> used \<and> used < tot) (Disks (srv cl i))"
    "0 \<le> MonitorDiskUsagePct (Conf cl)" "MonitorDiskUsagePct (Conf cl) \<le> 100"
  shows "CheckDisks i cl = Some cl"
proof -
  have "go_div used tot = 0" if "0 \<le> used" "used < tot" for used tot :: int
    using that by (simp add: go_div_def)
  moreover have "\<not> s32 0 > s32 (MonitorDiskUsagePct (Conf cl))"
    using assms(2,3) by (simp add: s32_def)
  ultimately have "check_disks i ds cl = Some cl" if "list_all (\<lambda>(tot, used). 0 \<le> used \<and> used < tot) ds" for ds
    using that by (induction ds) (auto simp: s32_def)
  with assms(1) show ?thesis
    by (simp add: CheckDisks_def)
qed

definition sample_disk :: cluster where
  "sample_disk = zero_cluster\<lparr>srv := (\<lambda>_. zero_server\<lparr>Disks := [(1000, 999)]\<rparr>), Conf := zero_conf\<lparr>MonitorDiskUsagePct := 80\<rparr>\<rparr>"

theorem disk_alarm_only_when_full_witness: "CheckDisks 0 sample_disk = Some sample_disk"
  by (rule disk_alarm_only_when_full) (simp_all add: sample_disk_def)

end
