(* ===== verification/Repoint.thy ===== *)
theory Repoint
  imports ServerOps
begin

text \<open>
  Pointing a server at a master, \<open>src/cluster/srv_set.go\<close>: the three ways the rejoin and the split-brain code
  issue \<open>CHANGE MASTER\<close>, and replication stop and start with their results. A nil master is \<^const>\<open>None\<close>;
  \<open>None\<close> of a result is the panic of reading its address.
\<close>

definition gtid_opt :: "cluster \<Rightarrow> server \<Rightarrow> server \<Rightarrow> string \<Rightarrow> change_master_opt" where
  "gtid_opt cl s m mode = zero_cmo
     \<lparr>CmHost := Host m, CmPort := Port m, CmUser := RplUser (Conf cl), CmPassword := RplPass (Conf cl),
      CmRetry := dec_int (ForceSlaveHeartbeatRetry (Conf cl)),
      CmHeartbeat := dec_int (ForceSlaveHeartbeatTime (Conf cl)), CmSSL := ReplicationSSL (Conf cl),
      CmChannel := MasterConn (Conf cl), CmIsDelayed := IsDelayed s, CmMode := mode,
      CmDelay := dec_int (HostsDelayedTime (Conf cl)), CmPostgressDB := PostgressDB s\<rparr>"

definition run_stop :: "dbenv \<Rightarrow> sid \<Rightarrow> cluster \<Rightarrow> bool \<times> cluster" where
  "run_stop E i cl = (if HasConn (srv cl i) then run E (OpStopSlave i (MasterConn (Conf cl))) cl else (False, cl))"

definition run_start :: "dbenv \<Rightarrow> sid \<Rightarrow> cluster \<Rightarrow> bool \<times> cluster" where
  "run_start E i cl = (if HasConn (srv cl i) then run E (OpStartSlave i (MasterConn (Conf cl))) cl else (False, cl))"

definition SetReplicationGTIDSlavePosFromServer ::
  "dbenv \<Rightarrow> sid \<Rightarrow> sid option \<Rightarrow> cluster \<Rightarrow> (bool \<times> cluster) option" where
  "SetReplicationGTIDSlavePosFromServer E i m cl =
     (let cl1 = StopSlave i cl; s = srv cl1 i
      in case m of
           None \<Rightarrow> None
         | Some j \<Rightarrow>
             Some (run E (OpChangeMaster i (gtid_opt cl1 s (srv cl1 j)
               (if IsMariaDB (DBVersion s) then ''SLAVE_POS'' else ''MASTER_AUTO_POSITION''))) cl1))"

definition SetReplicationGTIDCurrentPosFromServer ::
  "dbenv \<Rightarrow> sid \<Rightarrow> sid option \<Rightarrow> cluster \<Rightarrow> (bool \<times> cluster) option" where
  "SetReplicationGTIDCurrentPosFromServer E i m cl =
     (let s = srv cl i
      in if IsMySQLOrPerconaGreater57 (Some (DBVersion s)) then
           case master cl of
             None \<Rightarrow> None
           | Some cm \<Rightarrow> Some (run E (OpChangeMaster i (gtid_opt cl s (srv cl cm) ''MASTER_AUTO_POSITION'')) cl)
         else
           case m of
             None \<Rightarrow> None
           | Some j \<Rightarrow> Some (run E (OpChangeMaster i (gtid_opt cl s (srv cl j) ''CURRENT_POS'')) cl))"

definition SetReplicationFromMaxsaleServer ::
  "dbenv \<Rightarrow> sid \<Rightarrow> sid option \<Rightarrow> cluster \<Rightarrow> (bool \<times> cluster) option" where
  "SetReplicationFromMaxsaleServer E i m cl =
     (case m of
        None \<Rightarrow> None
      | Some j \<Rightarrow>
          let r = srv cl j
          in Some (run E (OpChangeMaster i (zero_cmo
               \<lparr>CmHost := Host r, CmPort := Port r, CmUser := RplUser (Conf cl), CmPassword := RplPass (Conf cl),
                CmRetry := dec_int (ForceSlaveHeartbeatRetry (Conf cl)),
                CmHeartbeat := dec_int (ForceSlaveHeartbeatTime (Conf cl)), CmMode := ''MXS'',
                CmLogfile := FailoverMasterLogFile r, CmLogpos := FailoverMasterLogPos r\<rparr>)) cl))"

lemma repoint_steps:
  "SetReplicationGTIDSlavePosFromServer E i m cl = Some (ok, cl1) \<Longrightarrow> steps (\<lambda>o1. op_target o1 = Some i) cl cl1"
  "SetReplicationGTIDCurrentPosFromServer E i m cl = Some (ok, cl1) \<Longrightarrow> steps (\<lambda>o1. op_target o1 = Some i) cl cl1"
  "SetReplicationFromMaxsaleServer E i m cl = Some (ok, cl1) \<Longrightarrow> steps (\<lambda>o1. op_target o1 = Some i) cl cl1"
  by (auto simp: SetReplicationGTIDSlavePosFromServer_def SetReplicationGTIDCurrentPosFromServer_def run_def StopSlave_def
      SetReplicationFromMaxsaleServer_def Let_def intro!: steps_emit split: option.splits if_splits)

end
