(* ===== verification/Arbitrator.thy ===== *)
theory Arbitrator
  imports Prelude
begin

text \<open>
  The arbitrator: the heartbeat table of \<open>src/utils/dbhelper/arbitration.go\<close> with the statements that read and
  write it, and the HTTP handlers of \<open>src/arbitrator/arbitrator.go\<close>. Replication managers that lost sight of each
  other report to it, and it tells at most one of them that it may act.

  The table is the list of its rows. A time is in seconds. Whether a statement succeeds is an argument
  \<open>ok\<close>, by the number of the statement in the operation; a failed commit leaves the table as it was.
  The rows follow SQLite: a primary key with a null column never conflicts.
\<close>

section \<open>Data\<close>

record heartbeat =
  HUUID :: string
  HSecret :: string
  HCluster :: string
  HMaster :: string
  HUID :: int
  HStatus :: string
  HHosts :: int
  HFailed :: int

record hb_row =
  secret :: string
  cluster_name :: "string option"
  uid :: int
  uuid :: "string option"
  hb_master :: string
  date :: int
  arbitration_date :: "int option"
  status :: string
  hosts :: int
  failed :: int

type_synonym hb_table = "hb_row list"

definition same_key :: "hb_row \<Rightarrow> hb_row \<Rightarrow> bool" where
  "same_key a b \<longleftrightarrow>
     secret a = secret b \<and> uid a = uid b \<and> cluster_name a = cluster_name b \<and> cluster_name a \<noteq> None"

text \<open>\<open>INSERT OR REPLACE\<close>\<close>

definition insert_or_replace :: "hb_row \<Rightarrow> hb_table \<Rightarrow> hb_table" where
  "insert_or_replace r t = filter (\<lambda>x. \<not> same_key x r) t @ [r]"

text \<open>\<open>WHERE cluster=? AND secret=?\<close>\<close>

definition in_cluster :: "string \<Rightarrow> string \<Rightarrow> hb_row \<Rightarrow> bool" where
  "in_cluster s c r \<longleftrightarrow> cluster_name r = Some c \<and> secret r = s"

section \<open>Operations on the table\<close>

definition WriteHeartbeat ::
  "(nat \<Rightarrow> bool) \<Rightarrow> int \<Rightarrow> string \<Rightarrow> string \<Rightarrow> string \<Rightarrow> string \<Rightarrow> int \<Rightarrow> int \<Rightarrow> int \<Rightarrow> hb_table \<Rightarrow> bool \<times> hb_table" where
  "WriteHeartbeat ok now uu s c m u hs fl t =
     (if \<not> ok 0 then (False, t)
      else
        let t1 = insert_or_replace
                   \<lparr>secret = s, cluster_name = Some c, uid = u, uuid = Some uu, hb_master = m, date = now,
                    arbitration_date = None, status = ''U'', hosts = hs, failed = fl\<rparr> t;
            count = length (remdups (map hb_master (filter (\<lambda>r. in_cluster s c r \<and> date r > now - 10) t1)))
        in if ok 1 \<and> count = 1 then
             if ok 2 then
               (True, map (\<lambda>r. if status r = ''E'' \<and> in_cluster s c r then r\<lparr>status := ''U''\<rparr> else r) t1)
             else (False, t1)
           else (ok 1, t1))"

definition ForgetArbitration :: "(nat \<Rightarrow> bool) \<Rightarrow> string \<Rightarrow> hb_table \<Rightarrow> bool \<times> hb_table" where
  "ForgetArbitration ok s t = (if ok 0 then (True, filter (\<lambda>r. secret r \<noteq> s) t) else (False, t))"

definition RequestArbitration ::
  "(nat \<Rightarrow> bool) \<Rightarrow> int \<Rightarrow> string \<Rightarrow> string \<Rightarrow> string \<Rightarrow> string \<Rightarrow> int \<Rightarrow> int \<Rightarrow> int \<Rightarrow> hb_table \<Rightarrow> bool \<times> hb_table" where
  "RequestArbitration ok now uu s c m u hs fl t =
     (if \<not> ok 0 then (False, t)
      else if ok 1 \<and> length (filter (\<lambda>r. in_cluster s c r \<and> status r = ''E'' \<and> uid r \<noteq> u) t) = 0 then
        if ok 2 \<and>
           length (filter (\<lambda>r. in_cluster s c r \<and> status r = ''U'' \<and> uid r \<noteq> u \<and> failed r < fl) t) = 0 then
          if \<not> ok 3 then (False, t)
          else if \<not> ok 4 then (False, t)
          else (True, insert_or_replace
                 \<lparr>secret = s, cluster_name = Some c, uid = u, uuid = Some uu, hb_master = m, date = now,
                  arbitration_date = Some now, status = ''E'', hosts = hs, failed = fl\<rparr> t)
        else (False, t)
      else (False, t))"

definition GetArbitrationMaster :: "bool \<Rightarrow> string \<Rightarrow> string \<Rightarrow> hb_table \<Rightarrow> string" where
  "GetArbitrationMaster ok s c t =
     (if ok then
        case find (\<lambda>r. in_cluster s c r \<and> status r = ''E'') t of None \<Rightarrow> '''' | Some r \<Rightarrow> hb_master r
      else '''')"

definition SetStatusActiveHeartbeat ::
  "(nat \<Rightarrow> bool) \<Rightarrow> int \<Rightarrow> string \<Rightarrow> string \<Rightarrow> string \<Rightarrow> string \<Rightarrow> int \<Rightarrow> hb_table \<Rightarrow> bool \<times> hb_table" where
  "SetStatusActiveHeartbeat ok now uu st m s u t =
     (if ok 0 then
        (True, insert_or_replace
           \<lparr>secret = s, cluster_name = None, uid = u, uuid = None, hb_master = m, date = now,
            arbitration_date = None, status = ''U'', hosts = 0, failed = 0\<rparr> t)
      else (False, t))"

section \<open>HTTP handlers\<close>

text \<open>
  A request as the handler meets it: whether its body can be read and closed, the decoded heartbeat with
  whether decoding succeeded (a failed decoding may still have filled some fields), whether the storage
  opens, whether the arbitrator runs on the MySQL backend (only then \<open>arbitratorCluster\<close> is not nil), and
  whether the \<open>n\<close>th write of a reply succeeds. A reply is the list of what was written; \<open>None\<close> a panic.
\<close>

record request =
  BodyRead :: bool
  BodyClosed :: bool
  Decoded :: heartbeat
  DecodeOk :: bool
  StorageOpens :: bool
  OnMySQL :: bool
  Encodes :: "nat \<Rightarrow> bool"
  StmtOk :: "nat \<Rightarrow> bool"
  MasterReadOk :: bool
  ReqTime :: int

datatype written =
    Code int
  | DecodeError
  | Verdict string string
  | HeartbeatResult bool

definition handlerArbitrator :: "request \<Rightarrow> hb_table \<Rightarrow> (written list \<times> hb_table) option" where
  "handlerArbitrator r t =
     (let h = Decoded r in
      if \<not> BodyRead r then Some ([Code 500], t)
      else if \<not> BodyClosed r then Some ([Code 500], t)
      else
        let pre = (if DecodeOk r then [] else Code 422 # (if Encodes r 0 then [DecodeError] else [Code 500]))
        in if \<not> StorageOpens r then (if OnMySQL r then Some (pre, t) else None)
           else
             let (res, t1) = RequestArbitration (StmtOk r) (ReqTime r) (HUUID h) (HSecret h) (HCluster h) (HMaster h)
                               (HUID h) (HHosts h) (HFailed h) t;
                 electedmaster = GetArbitrationMaster (MasterReadOk r) (HSecret h) (HCluster h) t1
             in if Encodes r 1 then
                  Some (pre @ [Code 201, Verdict (if res then ''winner'' else ''looser'') electedmaster], t1)
                else None)"

definition handlerHeartbeat :: "request \<Rightarrow> hb_table \<Rightarrow> (written list \<times> hb_table) option" where
  "handlerHeartbeat r t =
     (let h = Decoded r in
      if \<not> BodyRead r then None
      else if \<not> BodyClosed r then Some ([Code 500], t)
      else if \<not> DecodeOk r then Some (Code 422 # (if Encodes r 0 then [DecodeError] else [Code 500]), t)
      else if \<not> StorageOpens r then (if OnMySQL r then Some ([Code 500], t) else None)
      else
        let (res, t1) = WriteHeartbeat (StmtOk r) (ReqTime r) (HUUID h) (HSecret h) (HCluster h) (HMaster h)
                          (HUID h) (HHosts h) (HFailed h) t
        in Some (if Encodes r 1 then [HeartbeatResult res] else [Code 500], t1))"

definition handlerForget :: "request \<Rightarrow> hb_table \<Rightarrow> (written list \<times> hb_table) option" where
  "handlerForget r t =
     (let h = Decoded r in
      if \<not> BodyRead r then Some ([Code 500], t)
      else if \<not> BodyClosed r then Some ([Code 500], t)
      else if \<not> DecodeOk r then Some (Code 422 # (if Encodes r 0 then [DecodeError] else [Code 500]), t)
      else if \<not> StorageOpens r then (if OnMySQL r then Some ([Code 500], t) else None)
      else
        let (res, t1) = ForgetArbitration (StmtOk r) (HSecret h) t
        in Some (if Encodes r 1 then [HeartbeatResult res] else [Code 500], t1))"

text \<open>One request served; a handler that panics has its table changes kept: they are committed.\<close>

definition panicked_table :: "request \<Rightarrow> hb_table \<Rightarrow> hb_table" where
  "panicked_table r t =
     (if BodyRead r \<and> BodyClosed r \<and> StorageOpens r then
        let h = Decoded r in
        snd (RequestArbitration (StmtOk r) (ReqTime r) (HUUID h) (HSecret h) (HCluster h) (HMaster h)
               (HUID h) (HHosts h) (HFailed h) t)
      else t)"

inductive serves :: "hb_table \<Rightarrow> hb_table \<Rightarrow> bool" where
  arbitrate: "handlerArbitrator r t = Some (w, t1) \<Longrightarrow> serves t t1"
| arbitrate_panic: "handlerArbitrator r t = None \<Longrightarrow> serves t (panicked_table r t)"
| beat: "handlerHeartbeat r t = Some (w, t1) \<Longrightarrow> serves t t1"
| forget: "handlerForget r t = Some (w, t1) \<Longrightarrow> serves t t1"

inductive arb_reachable :: "hb_table \<Rightarrow> bool" where
  empty: "arb_reachable []"
| step: "arb_reachable t \<Longrightarrow> serves t t1 \<Longrightarrow> arb_reachable t1"

section \<open>The lock the table implements\<close>

text \<open>The managers elected for a cluster.\<close>

definition holders :: "hb_table \<Rightarrow> string \<times> string \<Rightarrow> int set" where
  "holders t k = uid ` {r \<in> set t. in_cluster (fst k) (snd k) r \<and> status r = ''E''}"

text \<open>
  What the arbitrator promises, without a table: for each cluster a set of managers that may act. A step
  grants the cluster to a manager while no other one has it, or takes grants back.
\<close>

inductive lock_step :: "('k \<Rightarrow> 'u set) \<Rightarrow> ('k \<Rightarrow> 'u set) \<Rightarrow> bool" where
  grant: "L k \<subseteq> {u} \<Longrightarrow> lock_step L (L(k := {u}))"
| shrink: "(\<And>k. L1 k \<subseteq> L k) \<Longrightarrow> lock_step L L1"

locale election_lock =
  fixes holds :: "'t \<Rightarrow> 'k \<Rightarrow> 'u set"
    and next_step :: "'t \<Rightarrow> 't \<Rightarrow> bool"
    and start :: 't
  assumes start_free: "holds start k = {}"
    and refines: "next_step t t1 \<Longrightarrow> lock_step (holds t) (holds t1)"
begin

lemma step_exclusive:
  assumes "next_step t t1" and "\<And>k. \<exists>u. holds t k \<subseteq> {u}"
  shows "\<exists>u. holds t1 k \<subseteq> {u}"
  using refines [OF assms(1)]
proof cases
  case (grant k1 u)
  then show ?thesis using assms(2) by (cases "k = k1") auto
next
  case shrink
  then show ?thesis using assms(2) [of k] by (meson order_trans)
qed

lemma exclusive: "next_step\<^sup>*\<^sup>* start t \<Longrightarrow> \<exists>u. holds t k \<subseteq> {u}"
proof (induction arbitrary: k rule: rtranclp_induct)
  case base
  then show ?case by (simp add: start_free)
next
  case (step t t1)
  then show ?case by (intro step_exclusive [of t t1]) auto
qed

end

section \<open>Lemmas on the table\<close>

lemma holders_code:
  "holders t k = set (map uid (filter (\<lambda>r. in_cluster (fst k) (snd k) r \<and> status r = ''E'') t))"
  by (simp add: holders_def)

lemma holders_iff:
  "u \<in> holders t k \<longleftrightarrow> (\<exists>r \<in> set t. in_cluster (fst k) (snd k) r \<and> status r = ''E'' \<and> uid r = u)"
  by (auto simp: holders_def)

lemma holders_replace:
  assumes "cluster_name r = Some c"
  shows "holders (insert_or_replace r t) =
    (\<lambda>k. if k = (secret r, c) then holders t k - {uid r} \<union> (if status r = ''E'' then {uid r} else {})
         else holders t k)"
  using assms
  by (intro ext set_eqI) (auto simp: holders_iff insert_or_replace_def same_key_def in_cluster_def)

lemma holders_subset: "set t1 \<subseteq> set t \<Longrightarrow> holders t1 k \<subseteq> holders t k"
  by (auto simp: holders_def)

lemma holders_map_cancel:
  "holders (map (\<lambda>r. if status r = ''E'' \<and> in_cluster s c r then r\<lparr>status := ''U''\<rparr> else r) t) k \<subseteq> holders t k"
  by (auto simp: holders_iff in_cluster_def split: if_splits)

text \<open>The three operations as steps of the lock.\<close>

lemma WriteHeartbeat_shrinks: "holders (snd (WriteHeartbeat ok now uu s c m u hs fl t)) k \<subseteq> holders t k"
proof -
  let ?r = "\<lparr>secret = s, cluster_name = Some c, uid = u, uuid = Some uu, hb_master = m, date = now,
             arbitration_date = None, status = ''U'', hosts = hs, failed = fl\<rparr>"
  have "holders (insert_or_replace ?r t) k \<subseteq> holders t k"
    using holders_replace [of ?r c t] by simp
  moreover from this have "holders (map (\<lambda>r. if status r = ''E'' \<and> in_cluster s c r then r\<lparr>status := ''U''\<rparr> else r)
      (insert_or_replace ?r t)) k \<subseteq> holders t k"
    by (rule order_trans [OF holders_map_cancel])
  ultimately show ?thesis by (simp add: WriteHeartbeat_def Let_def)
qed

lemma ForgetArbitration_shrinks: "holders (snd (ForgetArbitration ok s t)) k \<subseteq> holders t k"
  by (simp add: ForgetArbitration_def holders_subset)

lemma SetStatusActiveHeartbeat_keeps: "holders (snd (SetStatusActiveHeartbeat ok now uu st m s u t)) k = holders t k"
  by (auto simp: SetStatusActiveHeartbeat_def holders_iff insert_or_replace_def same_key_def in_cluster_def)

lemma RequestArbitration_cases:
  obtains (granted) "RequestArbitration ok now uu s c m u hs fl t = (True, insert_or_replace
       \<lparr>secret = s, cluster_name = Some c, uid = u, uuid = Some uu, hb_master = m, date = now,
        arbitration_date = Some now, status = ''E'', hosts = hs, failed = fl\<rparr> t)"
      "holders t (s, c) \<subseteq> {u}"
  | (refused) "RequestArbitration ok now uu s c m u hs fl t = (False, t)"
  by (cases "fst (RequestArbitration ok now uu s c m u hs fl t)")
    (auto simp: RequestArbitration_def holders_def filter_empty_conv image_subset_iff split: if_splits)

lemma RequestArbitration_lock:
  "lock_step (holders t) (holders (snd (RequestArbitration ok now uu s c m u hs fl t)))"
proof (cases rule: RequestArbitration_cases [of ok now uu s c m u hs fl t])
  case granted
  then have "holders (snd (RequestArbitration ok now uu s c m u hs fl t)) = (holders t)((s, c) := {u})"
    by (auto simp: holders_replace fun_eq_iff)
  with granted(2) show ?thesis by (simp add: lock_step.grant)
next
  case refused
  then show ?thesis by (simp add: lock_step.shrink)
qed

lemmas handler_defs = handlerArbitrator_def handlerHeartbeat_def handlerForget_def

lemma serves_cases:
  assumes "serves t t1"
  obtains (same) "t1 = t"
  | (request) ok now and h :: heartbeat where "t1 = snd (RequestArbitration ok now (HUUID h) (HSecret h) (HCluster h) (HMaster h)
                               (HUID h) (HHosts h) (HFailed h) t)"
  | (beat) ok now and h :: heartbeat where "t1 = snd (WriteHeartbeat ok now (HUUID h) (HSecret h) (HCluster h) (HMaster h)
                               (HUID h) (HHosts h) (HFailed h) t)"
  | (forget) ok and h :: heartbeat where "t1 = snd (ForgetArbitration ok (HSecret h) t)"
  using assms
proof cases
  case (arbitrate r w)
  then show ?thesis
    using same request [of "StmtOk r" "ReqTime r" "Decoded r"]
    by (auto simp: handlerArbitrator_def Let_def split: if_splits prod.splits)
next
  case (arbitrate_panic r)
  then show ?thesis
    using same request [of "StmtOk r" "ReqTime r" "Decoded r"]
    by (auto simp: panicked_table_def Let_def split: if_splits)
next
  case (beat r w)
  then show ?thesis
    using same that(3) [of "StmtOk r" "ReqTime r" "Decoded r"]
    by (auto simp: handlerHeartbeat_def Let_def split: if_splits prod.splits)
next
  case (forget r w)
  then show ?thesis
    using same that(4) [of "StmtOk r" "Decoded r"]
    by (auto simp: handlerForget_def Let_def split: if_splits prod.splits)
qed

lemma serves_lock_step: "serves t t1 \<Longrightarrow> lock_step (holders t) (holders t1)"
  by (erule serves_cases)
    (auto simp: RequestArbitration_lock intro: lock_step.shrink
      WriteHeartbeat_shrinks [THEN subsetD] ForgetArbitration_shrinks [THEN subsetD])

interpretation arb: election_lock holders serves "[]"
  by unfold_locales (simp_all add: holders_def serves_lock_step)

lemma arb_reachable_star: "arb_reachable t \<Longrightarrow> serves\<^sup>*\<^sup>* [] t"
  by (induction rule: arb_reachable.induct) auto

section \<open>Well-formed tables\<close>

definition key_of :: "hb_row \<Rightarrow> string \<times> string option \<times> int" where
  "key_of r = (secret r, cluster_name r, uid r)"

definition row_ok :: "hb_row \<Rightarrow> bool" where
  "row_ok r \<longleftrightarrow> cluster_name r \<noteq> None \<and>
     (status r = ''U'' \<or> status r = ''E'' \<and> arbitration_date r = Some (date r))"

definition table_ok :: "hb_table \<Rightarrow> bool" where
  "table_ok t \<longleftrightarrow> distinct (map key_of t) \<and> list_all row_ok t"

lemma same_key_iff: "cluster_name r \<noteq> None \<Longrightarrow> same_key x r \<longleftrightarrow> key_of x = key_of r"
  by (auto simp: same_key_def key_of_def)

lemma table_ok_replace: "table_ok t \<Longrightarrow> row_ok r \<Longrightarrow> table_ok (insert_or_replace r t)"
  by (auto simp: table_ok_def insert_or_replace_def same_key_iff row_ok_def list_all_iff distinct_map
      intro: inj_on_subset)

lemma table_ok_filter: "table_ok t \<Longrightarrow> table_ok (filter P t)"
  by (auto simp: table_ok_def list_all_iff distinct_map intro: inj_on_subset)

lemma table_ok_cancel:
  "table_ok t \<Longrightarrow> table_ok (map (\<lambda>r. if status r = ''E'' \<and> in_cluster s c r then r\<lparr>status := ''U''\<rparr> else r) t)"
proof -
  have "key_of (if status r = ''E'' \<and> in_cluster s c r then r\<lparr>status := ''U''\<rparr> else r) = key_of r" for r
    by (simp add: key_of_def)
  then show "table_ok t \<Longrightarrow> ?thesis"
    by (auto simp: table_ok_def list_all_iff row_ok_def comp_def)
qed

lemma table_ok_serves: "serves t t1 \<Longrightarrow> table_ok t \<Longrightarrow> table_ok t1"
proof (erule serves_cases)
  fix ok now and h :: heartbeat
  assume "table_ok t"
  then show "t1 = snd (RequestArbitration ok now (HUUID h) (HSecret h) (HCluster h) (HMaster h)
                 (HUID h) (HHosts h) (HFailed h) t) \<Longrightarrow> table_ok t1"
    by (cases rule: RequestArbitration_cases
          [of ok now "HUUID h" "HSecret h" "HCluster h" "HMaster h" "HUID h" "HHosts h" "HFailed h" t])
      (simp_all add: table_ok_replace row_ok_def)
qed (auto simp: WriteHeartbeat_def ForgetArbitration_def Let_def table_ok_filter
    intro!: table_ok_cancel table_ok_replace simp: row_ok_def)

lemma table_ok_reachable: "arb_reachable t \<Longrightarrow> table_ok t"
  by (induction rule: arb_reachable.induct) (auto simp: table_ok_serves, simp add: table_ok_def)

section \<open>Properties\<close>

lemma GetArbitrationMaster_unique:
  assumes "table_ok t" "\<forall>u \<in> holders t (s, c). u = v" "r \<in> set t" "in_cluster s c r" "status r = ''E''"
  shows "GetArbitrationMaster True s c t = hb_master r"
proof -
  obtain x where x: "find (\<lambda>r. in_cluster s c r \<and> status r = ''E'') t = Some x"
    using assms(3-5) by (cases "find (\<lambda>r. in_cluster s c r \<and> status r = ''E'') t") (auto simp: find_None_iff)
  then have xs: "x \<in> set t" "in_cluster s c x" "status x = ''E''"
    by (auto simp: find_Some_iff)
  then have "key_of x = key_of r"
    using assms(2-5) by (auto simp: key_of_def in_cluster_def holders_def)
  then have "x = r" using assms(1,3) xs(1) by (auto simp: table_ok_def distinct_map inj_on_def)
  with x show ?thesis by (simp add: GetArbitrationMaster_def)
qed

lemma RequestArbitration_iff:
  assumes "\<forall>n. ok n"
  shows "fst (RequestArbitration ok now uu s c m u hs fl t) \<longleftrightarrow>
     holders t (s, c) \<subseteq> {u} \<and>
     (\<forall>r \<in> set t. in_cluster s c r \<and> status r = ''U'' \<and> uid r \<noteq> u \<longrightarrow> fl \<le> failed r)"
  using assms by (auto simp: RequestArbitration_def holders_def filter_empty_conv image_subset_iff not_less)

lemma one_holder: "arb_reachable t \<Longrightarrow> \<exists>u. holders t k \<subseteq> {u}"
  by (rule arb.exclusive [OF arb_reachable_star])

text \<open>Requests of two managers of the same cluster, for the examples.\<close>

definition manager :: "int \<Rightarrow> string \<Rightarrow> heartbeat" where
  "manager u m = \<lparr>HUUID = ''uuid'', HSecret = ''secret'', HCluster = ''c1'', HMaster = m, HUID = u,
     HStatus = ''A'', HHosts = 3, HFailed = 1\<rparr>"

definition good_request :: "heartbeat \<Rightarrow> int \<Rightarrow> request" where
  "good_request h now = \<lparr>BodyRead = True, BodyClosed = True, Decoded = h, DecodeOk = True, StorageOpens = True,
     OnMySQL = False, Encodes = (\<lambda>_. True), StmtOk = (\<lambda>_. True), MasterReadOk = True, ReqTime = now\<rparr>"

definition row_of :: "heartbeat \<Rightarrow> int \<Rightarrow> bool \<Rightarrow> hb_row" where
  "row_of h now won =
     \<lparr>secret = HSecret h, cluster_name = Some (HCluster h), uid = HUID h, uuid = Some (HUUID h), hb_master = HMaster h,
      date = now, arbitration_date = (if won then Some now else None), status = (if won then ''E'' else ''U''),
      hosts = HHosts h, failed = HFailed h\<rparr>"

abbreviation "winner_row \<equiv> row_of (manager 1 ''db1'') 0 True"

lemmas arb_eval = handler_defs RequestArbitration_def WriteHeartbeat_def ForgetArbitration_def GetArbitrationMaster_def
  insert_or_replace_def in_cluster_def same_key_def manager_def good_request_def row_of_def

lemma sample_arbitration:
  "handlerArbitrator (good_request (manager 1 ''db1'') 0) [] =
     Some ([Code 201, Verdict ''winner'' ''db1''], [winner_row])"
  by (simp add: arb_eval)

lemma sample_served: "serves [] [winner_row]"
  by (rule serves.arbitrate [OF sample_arbitration])

lemma sample_reachable: "arb_reachable [winner_row]"
  by (rule arb_reachable.step [OF arb_reachable.empty sample_served])

text \<open>
  C13: Every request served by the arbitrator, whatever its content and whichever of its statements fail, is a step
  of the abstract lock: it grants a cluster to a manager that no other manager holds, or only takes grants back.
\<close>

theorem arbitration_refines_lock: "serves t t1 \<Longrightarrow> lock_step (holders t) (holders t1)"
  by (rule arb.refines)

theorem arbitration_refines_lock_witness: "lock_step (holders []) (holders [winner_row])"
  by (rule arbitration_refines_lock [OF sample_served])

text \<open>
  C14: In every table the arbitrator can reach, at most one replication manager is elected for a cluster.
\<close>

theorem one_elected:
  assumes "arb_reachable t" "u \<in> holders t k" "v \<in> holders t k"
  shows "u = v"
  using one_holder [OF assms(1), of k] assms(2,3) by auto

theorem one_elected_witness: "\<exists>k. 1 \<in> holders [winner_row] k \<and> (\<forall>v. v \<in> holders [winner_row] k \<longrightarrow> 1 = v)"
proof -
  have h: "1 \<in> holders [winner_row] (''secret'', ''c1'')"
    by (simp add: holders_code row_of_def manager_def in_cluster_def)
  from one_elected [OF sample_reachable h] h show ?thesis by blast
qed

text \<open>
  C35: Every reachable heartbeat table is well typed: its primary keys are distinct, every row belongs to a cluster and
  is either not elected or elected with the date of its arbitration.
\<close>

theorem heartbeat_table_wf:
  "arb_reachable t \<Longrightarrow> distinct (map (\<lambda>r. (secret r, cluster_name r, uid r)) t) \<and>
     (\<forall>r \<in> set t. cluster_name r \<noteq> None \<and>
        (status r = ''U'' \<or> status r = ''E'' \<and> arbitration_date r = Some (date r)))"
  using table_ok_reachable [of t] by (simp add: table_ok_def key_of_def [abs_def] row_ok_def list_all_iff)

theorem heartbeat_table_wf_witness:
  "status winner_row = ''E'' \<and> arbitration_date winner_row = Some (date winner_row)"
  using heartbeat_table_wf [OF sample_reachable] by (simp add: row_of_def manager_def)

text \<open>
  The answer to a well-formed arbitration request on a reachable table. The manager is told that it wins exactly
  when no other manager is elected and no manager that is not elected sees fewer failed hosts; then it becomes
  the only elected one and its own master is returned. Otherwise the table is unchanged and the master returned is
  that of the elected manager, when there is one.
\<close>

theorem arbitration_answer:
  assumes "arb_reachable t" "BodyRead r" "BodyClosed r" "DecodeOk r" "StorageOpens r" "Encodes r 1"
    "\<forall>n. StmtOk r n" "MasterReadOk r"
  defines "h \<equiv> Decoded r"
  defines "k \<equiv> (HSecret h, HCluster h)"
  defines "wins \<equiv> holders t k \<subseteq> {HUID h} \<and>
      (\<forall>x \<in> set t. in_cluster (HSecret h) (HCluster h) x \<and> status x = ''U'' \<and> uid x \<noteq> HUID h
          \<longrightarrow> HFailed h \<le> failed x)"
  shows "\<exists>m t1. handlerArbitrator r t =
      Some ([Code 201, Verdict (if wins then ''winner'' else ''looser'') m], t1) \<and>
      (if wins then holders t1 k = {HUID h} \<and> m = HMaster h
       else t1 = t \<and> (\<forall>x \<in> set t. in_cluster (HSecret h) (HCluster h) x \<and> status x = ''E'' \<longrightarrow> m = hb_master x))"
proof -
  let ?R = "RequestArbitration (StmtOk r) (ReqTime r) (HUUID h) (HSecret h) (HCluster h) (HMaster h)
              (HUID h) (HHosts h) (HFailed h) t"
  let ?m = "GetArbitrationMaster True (HSecret h) (HCluster h) (snd ?R)"
  have won: "fst ?R = wins"
    using RequestArbitration_iff [OF assms(7)] by (simp add: wins_def k_def)
  have reply: "handlerArbitrator r t =
      Some ([Code 201, Verdict (if wins then ''winner'' else ''looser'') ?m], snd ?R)"
    using assms(2-8) by (simp add: handlerArbitrator_def Let_def h_def [symmetric] case_prod_beta won)
  have ok: "table_ok t" by (rule table_ok_reachable [OF assms(1)])
  show ?thesis
  proof (cases wins)
    case True
    with won obtain row where row: "snd ?R = insert_or_replace row t" "in_cluster (HSecret h) (HCluster h) row"
      "status row = ''E''" "uid row = HUID h" "hb_master row = HMaster h" "row_ok row"
      by (cases rule: RequestArbitration_cases [of "StmtOk r" "ReqTime r" "HUUID h" "HSecret h" "HCluster h"
            "HMaster h" "HUID h" "HHosts h" "HFailed h" t])
        (auto simp: in_cluster_def row_ok_def)
    then have h1: "holders (snd ?R) k = {HUID h}"
      using True by (auto simp: holders_replace k_def in_cluster_def wins_def)
    have "table_ok (snd ?R)" using row by (simp add: table_ok_replace ok)
    then have "?m = hb_master row"
      using h1 row by (intro GetArbitrationMaster_unique [where v = "HUID h"])
        (auto simp: k_def insert_or_replace_def [of row])
    with True reply h1 row(5) show ?thesis by auto
  next
    case False
    then have same: "snd ?R = t"
      using won by (cases rule: RequestArbitration_cases [of "StmtOk r" "ReqTime r" "HUUID h" "HSecret h" "HCluster h"
            "HMaster h" "HUID h" "HHosts h" "HFailed h" t]) auto
    obtain v where "holders t k \<subseteq> {v}" using one_holder [OF assms(1)] by blast
    then have "\<forall>x \<in> set t. in_cluster (HSecret h) (HCluster h) x \<and> status x = ''E'' \<longrightarrow> ?m = hb_master x"
      using GetArbitrationMaster_unique [OF ok, of "HSecret h" "HCluster h" v] same by (auto simp: k_def)
    with False reply same show ?thesis by auto
  qed
qed

theorem arbitration_answer_witness:
  "handlerArbitrator (good_request (manager 2 ''db2'') 5) [winner_row] =
     Some ([Code 201, Verdict ''looser'' ''db1''], [winner_row])"
  using arbitration_answer [OF sample_reachable, of "good_request (manager 2 ''db2'') 5"]
  by (auto simp: good_request_def manager_def row_of_def manager_def holders_code in_cluster_def)


end
