(* ===== verification/Split.thy ===== *)
theory Split
  imports Repoint Sample Arbitrator
begin

text \<open>
  A replication manager under split brain, \<open>src/cluster/cluster_split.go\<close> and the setters it calls: it reports to the
  arbitrator, asks for an election when the split-brain status changes, and becomes active or standby. A standby manager
  whose master is not the elected one points that master at the winner's.

  The HTTP exchange with the arbitrator is an argument: \<open>report\<close> gives the error of sending a heartbeat, \<open>ask n\<close> the
  answer of the \<open>n\<close>th election request (\<open>Inl\<close>: no reply or invalid JSON). The body of a request is the record
  \<^typ>\<open>heartbeat\<close>.
\<close>

definition ConstMonitorActif :: string where "ConstMonitorActif = ''A''"
definition ConstMonitorStandby :: string where "ConstMonitorStandby = ''S''"

record monitor =
  Mon :: cluster
  MonStatus :: string
  IsSplitBrain :: bool
  IsSplitBrainBck :: bool
  IsLostMajority :: bool
  SchedulerRunning :: bool
  runUUID :: string
  ArbitrationSasSecret :: string
  ArbitrationSasUniqueId :: int
  MonitorScheduler :: bool
  ArbitrationFailedMasterScript :: string
  ScriptCalls :: "(string \<times> string) list"

definition on_cluster :: "(cluster \<Rightarrow> cluster) \<Rightarrow> monitor \<Rightarrow> monitor" where
  "on_cluster f m = m\<lparr>Mon := f (Mon m)\<rparr>"

definition CountFailed :: "cluster \<Rightarrow> int" where
  "CountFailed cl = foldl (\<lambda>n i. if State (srv cl i) = stateFailed \<or> State (srv cl i) = stateErrorAuth then n + 1 else n)
     0 (Servers cl)"

definition LostMajority :: "cluster \<Rightarrow> bool" where
  "LostMajority cl =
     (let alive = int (length (Servers cl)) - CountFailed cl
      in if alive > go_div (int (length (Servers cl))) 2 then False else True)"

definition IsActive :: "monitor \<Rightarrow> bool" where
  "IsActive m = (if MonStatus m = ConstMonitorActif then True else False)"

definition SetActiveStatus :: "string \<Rightarrow> monitor \<Rightarrow> monitor" where
  "SetActiveStatus st m =
     (let m1 = m\<lparr>MonStatus := st\<rparr>
      in if MonitorScheduler m1 then m1\<lparr>SchedulerRunning := (MonStatus m1 = ConstMonitorActif)\<rparr> else m1)"

text \<open>The request body both endpoints get.\<close>

definition heartbeat_body :: "monitor \<Rightarrow> heartbeat" where
  "heartbeat_body m =
     \<lparr>HUUID = runUUID m, HSecret = ArbitrationSasSecret m, HCluster = CName (Mon m),
      HMaster = (case GetMaster (Mon m) of None \<Rightarrow> '''' | Some i \<Rightarrow> URL (srv (Mon m) i)),
      HUID = ArbitrationSasUniqueId m, HStatus = MonStatus m, HHosts = int (length (Servers (Mon m))),
      HFailed = CountFailed (Mon m)\<rparr>"

definition SetArbitratorReport :: "(heartbeat \<Rightarrow> string option) \<Rightarrow> monitor \<Rightarrow> string option \<times> monitor" where
  "SetArbitratorReport report m =
     (let m1 = m\<lparr>IsLostMajority := LostMajority (Mon m)\<rparr>
      in case report (heartbeat_body m1) of
           Some e \<Rightarrow> (Some e, on_cluster (\<lambda>cl. cl\<lparr>IsFailedArbitrator := True\<rparr>) m1)
         | None \<Rightarrow> (None, on_cluster (\<lambda>cl. cl\<lparr>IsFailedArbitrator := False\<rparr>) m1))"



definition LostArbitration :: "dbenv \<Rightarrow> string \<Rightarrow> monitor \<Rightarrow> monitor option" where
  "LostArbitration E realmasterurl m =
     (case GetServerFromURL realmasterurl (Mon m) of
        None \<Rightarrow> Some m
      | Some rm \<Rightarrow>
          (case GetMaster (Mon m) of
             None \<Rightarrow> None
           | Some gm \<Rightarrow>
               if ArbitrationFailedMasterScript m \<noteq> '''' then
                 Some (m\<lparr>ScriptCalls := ScriptCalls m @ [(Host (srv (Mon m) gm), Port (srv (Mon m) gm))]\<rparr>)
               else
                 map_option (\<lambda>(_, cl). m\<lparr>Mon := cl\<rparr>) (SetReplicationGTIDCurrentPosFromServer E gm (Some rm) (Mon m))))"

text \<open>The election request of one try: its error, if any.\<close>

definition ArbitratorElection ::
  "dbenv \<Rightarrow> (heartbeat \<Rightarrow> string + (string \<times> string)) \<Rightarrow> monitor \<Rightarrow> (string option \<times> monitor) option" where
  "ArbitratorElection E ask m =
     (if IsSplitBrainBck m = IsSplitBrain m then Some (None, m)
      else case ask (heartbeat_body m) of
          Inl e \<Rightarrow> Some (Some e, on_cluster (\<lambda>cl. cl\<lparr>IsFailedArbitrator := True\<rparr>) m)
        | Inr (arb, mst) \<Rightarrow>
            let m1 = on_cluster (\<lambda>cl. cl\<lparr>IsFailedArbitrator := False\<rparr>) m
            in if arb = ''winner'' then
                 Some (None, on_cluster (set_state ''WARN0083'' ''WARNING'' [] ''ARB'' '''') (SetActiveStatus ConstMonitorActif m1))
               else
                 let m2 = on_cluster (set_state ''ERR00068'' ''ERROR'' [] ''ARB'' '''') (SetActiveStatus ConstMonitorStandby m1)
                 in case GetMaster (Mon m2) of
                      None \<Rightarrow> Some (None, m2)
                    | Some gm \<Rightarrow>
                        if mst \<noteq> URL (srv (Mon m2) gm)
                        then map_option (Pair None) (LostArbitration E mst m2)
                        else Some (None, m2))"

text \<open>The three tries of a round, numbered 1 to 3.\<close>

fun election_tries ::
  "dbenv \<Rightarrow> (nat \<Rightarrow> heartbeat \<Rightarrow> string + (string \<times> string)) \<Rightarrow> nat \<Rightarrow> nat \<Rightarrow> monitor \<Rightarrow> monitor option" where
  "election_tries E ask i 0 m = Some m"
| "election_tries E ask i (Suc n) m =
     (case ArbitratorElection E (ask i) m of
        None \<Rightarrow> None
      | Some (None, m1) \<Rightarrow> Some m1
      | Some (Some e, m1) \<Rightarrow>
          election_tries E ask (Suc i) n (on_cluster (set_state ''WARN0082'' ''WARNING'' [FS e] ''ARB'' '''') m1))"

definition Heartbeat ::
  "dbenv \<Rightarrow> (heartbeat \<Rightarrow> string option) \<Rightarrow> (nat \<Rightarrow> heartbeat \<Rightarrow> string + (string \<times> string)) \<Rightarrow> monitor \<Rightarrow> monitor option" where
  "Heartbeat E report ask m =
     (if Arbitration (Conf (Mon m)) then
        map_option (\<lambda>m1. m1\<lparr>IsSplitBrainBck := IsSplitBrain m1\<rparr>)
          (if IsSplitBrain m then
             let (err, m1) = SetArbitratorReport report m
             in election_tries E ask 1 3
                  (case err of None \<Rightarrow> m1
                   | Some e \<Rightarrow> on_cluster (set_state ''WARN0081'' ''WARNING'' [FS e] ''ARB'' '''') m1)
           else Some m)
      else Some m)"

section \<open>The manager's view of its peers\<close>

text \<open>
  \<open>ReplicationManager.Heartbeat\<close> of \<open>src/server/server.go\<close>: every listed peer is polled and the split-brain status is
  passed to every cluster. A peer answers with a heartbeat or the poll fails at one of four points.
\<close>

datatype peer_reply = RequestFailed | Unreachable | BodyUnreadable | BadJson | PeerBeat heartbeat

record repman =
  ArbitrationPeerHosts :: string
  RArbitration :: bool
  SplitBrain :: bool
  Clusters :: "monitor list"

definition HeartbeatPeerSplitBrain :: "peer_reply \<Rightarrow> bool" where
  "HeartbeatPeerSplitBrain r =
     (case r of RequestFailed \<Rightarrow> True | Unreachable \<Rightarrow> True | BodyUnreadable \<Rightarrow> True | BadJson \<Rightarrow> True
      | PeerBeat h \<Rightarrow> False)"

definition peer_heartbeat :: "string \<Rightarrow> (string \<Rightarrow> peer_reply) \<Rightarrow> repman \<Rightarrow> repman" where
  "peer_heartbeat cfgGroup poll rm =
     (if cfgGroup = ''arbitrator'' then rm
      else if ArbitrationPeerHosts rm \<noteq> '''' then
        let rm1 = fold (\<lambda>p r. r\<lparr>SplitBrain := HeartbeatPeerSplitBrain (poll p)\<rparr>)
                    (str_split (CHR '','') (ArbitrationPeerHosts rm)) rm
        in rm1\<lparr>Clusters := map (\<lambda>m. m\<lparr>IsSplitBrain := SplitBrain rm1\<rparr>) (Clusters rm1)\<rparr>
      else rm\<lparr>RArbitration := False\<rparr>)"

lemma HeartbeatPeerSplitBrain_iff: "HeartbeatPeerSplitBrain r \<longleftrightarrow> (\<forall>h. r \<noteq> PeerBeat h)"
  by (cases r) (simp_all add: HeartbeatPeerSplitBrain_def)

lemma fold_split_brain:
  "ps \<noteq> [] \<Longrightarrow>
     fold (\<lambda>p r. r\<lparr>SplitBrain := HeartbeatPeerSplitBrain (poll p)\<rparr>) ps rm =
     rm\<lparr>SplitBrain := HeartbeatPeerSplitBrain (poll (last ps))\<rparr>"
  by (induction ps arbitrary: rm) auto

text \<open>The last peer of the list decides alone.\<close>

lemma last_peer_decides:
  assumes "cfgGroup \<noteq> ''arbitrator''" "ArbitrationPeerHosts rm \<noteq> ''''"
  shows "SplitBrain (peer_heartbeat cfgGroup poll rm) \<longleftrightarrow>
    (\<forall>h. poll (last (str_split (CHR '','') (ArbitrationPeerHosts rm))) \<noteq> PeerBeat h)"
  using assms
  by (simp add: peer_heartbeat_def fold_split_brain Let_def flip: HeartbeatPeerSplitBrain_iff)

section \<open>Lemmas\<close>

lemma on_cluster_fields [simp]:
  "MonStatus (on_cluster f m) = MonStatus m" "IsSplitBrain (on_cluster f m) = IsSplitBrain m"
  "IsSplitBrainBck (on_cluster f m) = IsSplitBrainBck m" "Mon (on_cluster f m) = f (Mon m)"
  "ArbitrationSasSecret (on_cluster f m) = ArbitrationSasSecret m"
  "ArbitrationSasUniqueId (on_cluster f m) = ArbitrationSasUniqueId m" "runUUID (on_cluster f m) = runUUID m"
  "MonitorScheduler (on_cluster f m) = MonitorScheduler m" "SchedulerRunning (on_cluster f m) = SchedulerRunning m"
  "ScriptCalls (on_cluster f m) = ScriptCalls m"
  "ArbitrationFailedMasterScript (on_cluster f m) = ArbitrationFailedMasterScript m"
  by (simp_all add: on_cluster_def)

lemma SetActiveStatus_fields [simp]:
  "MonStatus (SetActiveStatus st m) = st" "IsSplitBrain (SetActiveStatus st m) = IsSplitBrain m"
  "IsSplitBrainBck (SetActiveStatus st m) = IsSplitBrainBck m" "Mon (SetActiveStatus st m) = Mon m"
  "ArbitrationSasSecret (SetActiveStatus st m) = ArbitrationSasSecret m"
  "ArbitrationSasUniqueId (SetActiveStatus st m) = ArbitrationSasUniqueId m"
  "ArbitrationFailedMasterScript (SetActiveStatus st m) = ArbitrationFailedMasterScript m"
  "ScriptCalls (SetActiveStatus st m) = ScriptCalls m"
  by (simp_all add: SetActiveStatus_def Let_def)

text \<open>Raising a state changes nothing but the state machine.\<close>

lemma set_state_fields [simp]:
  "CName (set_state k ty as ef u cl) = CName cl"
  "Servers (set_state k ty as ef u cl) = Servers cl" "Conf (set_state k ty as ef u cl) = Conf cl"
  "GetMaster (set_state k ty as ef u cl) = GetMaster cl"
  "master (set_state k ty as ef u cl) = master cl"
  "IsFailedArbitrator (set_state k ty as ef u cl) = IsFailedArbitrator cl"
  "GetServerFromURL url (set_state k ty as ef u cl) = GetServerFromURL url cl"
  by (simp_all add: set_state_def Cluster_SetState_def GetMaster_def GetServerFromURL_def)

lemma failed_arbitrator_fields [simp]:
  "CName (cl\<lparr>IsFailedArbitrator := b\<rparr>) = CName cl" "GetMaster (cl\<lparr>IsFailedArbitrator := b\<rparr>) = GetMaster cl"
  "CountFailed (cl\<lparr>IsFailedArbitrator := b\<rparr>) = CountFailed cl"
  "GetServerFromURL url (cl\<lparr>IsFailedArbitrator := b\<rparr>) = GetServerFromURL url cl"
  by (simp_all add: GetMaster_def CountFailed_def GetServerFromURL_def)

lemma CountFailed_set_state [simp]: "CountFailed (set_state k ty as ef u cl) = CountFailed cl"
  by (simp add: CountFailed_def)

lemma heartbeat_body_cong [simp]:
  "heartbeat_body (on_cluster (set_state k ty as ef u) m) = heartbeat_body m"
  "heartbeat_body (on_cluster (\<lambda>cl. cl\<lparr>IsFailedArbitrator := b\<rparr>) m) = heartbeat_body m"
  "heartbeat_body (m\<lparr>IsLostMajority := b\<rparr>) = heartbeat_body m"
  by (simp_all add: heartbeat_body_def cong: option.case_cong)

lemma LostArbitration_fields:
  "LostArbitration E url m = Some m1 \<Longrightarrow>
     MonStatus m1 = MonStatus m \<and> IsSplitBrain m1 = IsSplitBrain m \<and> IsSplitBrainBck m1 = IsSplitBrainBck m \<and>
     IsFailedArbitrator (Mon m1) = IsFailedArbitrator (Mon m)"
  by (auto simp: LostArbitration_def SetReplicationGTIDCurrentPosFromServer_def run_def emit_def Let_def
      split: option.splits if_splits)

lemma CountFailed_eq:
  "CountFailed cl = int (length (filter (\<lambda>i. State (srv cl i) \<in> {stateFailed, stateErrorAuth}) (Servers cl)))"
proof -
  have "foldl (\<lambda>n i. if P i then n + 1 else n) k xs = k + int (length (filter P xs))" for P and k :: int and xs :: "sid list"
    by (induction xs arbitrary: k) auto
  then show ?thesis by (simp add: CountFailed_def)
qed

text \<open>The majority is lost exactly when at most half of the servers are alive.\<close>

lemma LostMajority_iff:
  "LostMajority cl \<longleftrightarrow>
     2 * length (filter (\<lambda>i. State (srv cl i) \<notin> {stateFailed, stateErrorAuth}) (Servers cl)) \<le> length (Servers cl)"
proof -
  let ?P = "\<lambda>i. State (srv cl i) \<in> {stateFailed, stateErrorAuth}"
  have "length (filter ?P (Servers cl)) + length (filter (\<lambda>i. \<not> ?P i) (Servers cl)) = length (Servers cl)"
    by (rule sum_length_filter_compl)
  moreover have "go_div (int (length (Servers cl))) 2 = int (length (Servers cl)) div 2"
    by (cases "Servers cl") (simp_all add: go_div_def)
  ultimately show ?thesis unfolding LostMajority_def CountFailed_eq by (simp add: Let_def) linarith
qed

section \<open>A round of the split-brain protocol\<close>

text \<open>The first answered one of \<open>n\<close> tries from the \<open>i\<close>th.\<close>

fun first_answer ::
  "(nat \<Rightarrow> heartbeat \<Rightarrow> string + (string \<times> string)) \<Rightarrow> heartbeat \<Rightarrow> nat \<Rightarrow> nat \<Rightarrow> (string \<times> string) option" where
  "first_answer ask h i 0 = None"
| "first_answer ask h i (Suc n) = (case ask i h of Inr a \<Rightarrow> Some a | Inl _ \<Rightarrow> first_answer ask h (Suc i) n)"

text \<open>What a settled election leaves behind.\<close>

definition decided :: "monitor \<Rightarrow> string \<times> string \<Rightarrow> monitor \<Rightarrow> bool" where
  "decided m a m1 \<longleftrightarrow>
     \<not> IsFailedArbitrator (Mon m1) \<and> (IsActive m1 \<longleftrightarrow> fst a = ''winner'') \<and>
     (fst a = ''winner'' \<longrightarrow> trace (Mon m1) = trace (Mon m))"

definition has_master :: "monitor \<Rightarrow> bool" where
  "has_master m \<longleftrightarrow> master (Mon m) \<noteq> None \<or> vmaster (Mon m) = None"

lemma SetReplication_returns:
  "master cl \<noteq> None \<Longrightarrow> \<exists>r. SetReplicationGTIDCurrentPosFromServer E i (Some m) cl = Some r"
  by (auto simp: SetReplicationGTIDCurrentPosFromServer_def Let_def)

lemma LostArbitration_returns:
  "has_master m \<Longrightarrow> GetMaster (Mon m) \<noteq> None \<Longrightarrow> \<exists>m1. LostArbitration E url m = Some m1"
  using SetReplication_returns [of "Mon m" E]
  by (fastforce simp: LostArbitration_def has_master_def GetMaster_def split: option.splits if_splits)

lemma decided_standby:
  "MonStatus m1 = ConstMonitorStandby \<Longrightarrow> \<not> IsFailedArbitrator (Mon m1) \<Longrightarrow> fst a \<noteq> ''winner'' \<Longrightarrow> decided m a m1"
  by (simp add: decided_def IsActive_def ConstMonitorStandby_def ConstMonitorActif_def)

lemma election_answered:
  assumes "IsSplitBrainBck m \<noteq> IsSplitBrain m" "ask (heartbeat_body m) = Inr a" "has_master m"
  shows "\<exists>m1. ArbitratorElection E ask m = Some (None, m1) \<and> decided m a m1"
proof -
  obtain arb mst where a: "a = (arb, mst)" by (cases a)
  define m2 where "m2 = on_cluster (set_state ''ERR00068'' ''ERROR'' [] ''ARB'' '''')
     (SetActiveStatus ConstMonitorStandby (on_cluster (\<lambda>cl. cl\<lparr>IsFailedArbitrator := False\<rparr>) m))"
  have hm: "has_master m2" and st: "MonStatus m2 = ConstMonitorStandby" and nf: "\<not> IsFailedArbitrator (Mon m2)"
    using assms(3) by (simp_all add: m2_def has_master_def set_state_def Cluster_SetState_def)
  show ?thesis
  proof (cases "arb = ''winner''")
    case True
    then show ?thesis using assms a by (simp add: ArbitratorElection_def decided_def IsActive_def Let_def)
  next
    case lost: False
    then have eq: "ArbitratorElection E ask m =
        (case GetMaster (Mon m2) of None \<Rightarrow> Some (None, m2)
         | Some gm \<Rightarrow> if mst \<noteq> URL (srv (Mon m2) gm) then map_option (Pair None) (LostArbitration E mst m2)
                      else Some (None, m2))"
      using assms(1,2) a unfolding ArbitratorElection_def Let_def m2_def [symmetric] by simp
    show ?thesis
    proof (cases "GetMaster (Mon m2) = None \<or> mst = URL (srv (Mon m2) (the (GetMaster (Mon m2))))")
      case True
      then show ?thesis
        using eq decided_standby [OF st nf] lost a by (auto split: option.splits)
    next
      case False
      then obtain m3 where m3: "LostArbitration E mst m2 = Some m3"
        using LostArbitration_returns [OF hm, of E mst] by auto
      with False eq LostArbitration_fields [OF m3] decided_standby [of m3 a m] st nf lost a show ?thesis
        by auto
    qed
  qed
qed

lemma election_unanswered:
  "IsSplitBrainBck m \<noteq> IsSplitBrain m \<Longrightarrow> ask (heartbeat_body m) = Inl e \<Longrightarrow>
     ArbitratorElection E ask m = Some (Some e, on_cluster (\<lambda>cl. cl\<lparr>IsFailedArbitrator := True\<rparr>) m)"
  by (simp add: ArbitratorElection_def)

text \<open>A failed try keeps everything the next one looks at.\<close>

definition retry :: "monitor \<Rightarrow> monitor \<Rightarrow> bool" where
  "retry m m1 \<longleftrightarrow> heartbeat_body m1 = heartbeat_body m \<and> IsSplitBrain m1 = IsSplitBrain m \<and>
     IsSplitBrainBck m1 = IsSplitBrainBck m \<and> has_master m1 = has_master m \<and>
     MonStatus m1 = MonStatus m \<and> trace (Mon m1) = trace (Mon m)"

lemma has_master_set_state [simp]: "has_master (on_cluster (set_state k ty as ef u) m) = has_master m"
  by (simp add: has_master_def set_state_def Cluster_SetState_def)

lemma has_master_failed [simp]:
  "has_master (on_cluster (\<lambda>cl. cl\<lparr>IsFailedArbitrator := b\<rparr>) m) = has_master m"
  "has_master (m\<lparr>IsLostMajority := b\<rparr>) = has_master m"
  by (simp_all add: has_master_def)

lemma retry_trans: "retry a b \<Longrightarrow> retry b c \<Longrightarrow> retry a c"
  by (simp add: retry_def)

lemma tries_Suc_unanswered:
  assumes "IsSplitBrainBck m \<noteq> IsSplitBrain m" "ask i (heartbeat_body m) = Inl e"
  obtains m1 where "election_tries E ask i (Suc n) m = election_tries E ask (Suc i) n m1" "retry m m1"
    "IsFailedArbitrator (Mon m1)"
  using that [of "on_cluster (set_state ''WARN0082'' ''WARNING'' [FS e] ''ARB'' '''')
                   (on_cluster (\<lambda>cl. cl\<lparr>IsFailedArbitrator := True\<rparr>) m)"] assms
  by (simp add: election_unanswered retry_def)

lemma tries_Suc_answered:
  assumes "IsSplitBrainBck m \<noteq> IsSplitBrain m" "ask i (heartbeat_body m) = Inr a" "has_master m"
  shows "\<exists>m1. election_tries E ask i (Suc n) m = Some m1 \<and> decided m a m1 \<and> IsSplitBrain m1 = IsSplitBrain m"
proof -
  from election_answered [of m "ask i" a E] assms obtain m1
    where m1: "ArbitratorElection E (ask i) m = Some (None, m1)" "decided m a m1" by blast
  moreover have "IsSplitBrain m1 = IsSplitBrain m"
    using m1(1) LostArbitration_fields
    by (auto simp: ArbitratorElection_def Let_def split: if_splits sum.splits option.splits dest: LostArbitration_fields)
  ultimately show ?thesis by simp
qed

lemma election_settles:
  assumes "IsSplitBrainBck m \<noteq> IsSplitBrain m" "has_master m"
  shows "\<exists>m1. election_tries E ask i n m = Some m1 \<and> IsSplitBrain m1 = IsSplitBrain m \<and>
     (case first_answer ask (heartbeat_body m) i n of
        None \<Rightarrow> (0 < n \<longrightarrow> IsFailedArbitrator (Mon m1)) \<and> (IsFailedArbitrator (Mon m) \<longrightarrow> IsFailedArbitrator (Mon m1)) \<and>
                MonStatus m1 = MonStatus m \<and> trace (Mon m1) = trace (Mon m)
      | Some a \<Rightarrow> decided m a m1)"
  using assms
proof (induction n arbitrary: i m)
  case 0
  then show ?case by simp
next
  case (Suc n)
  show ?case
  proof (cases "ask i (heartbeat_body m)")
    case (Inr a)
    with tries_Suc_answered [where ask = ask, OF Suc.prems(1) Inr Suc.prems(2), of E n] show ?thesis by auto
  next
    case (Inl e)
    obtain m1 where m1: "election_tries E ask i (Suc n) m = election_tries E ask (Suc i) n m1"
      and r: "retry m m1" and f: "IsFailedArbitrator (Mon m1)"
      using tries_Suc_unanswered [where ask = ask, OF Suc.prems(1) Inl] by blast
    from r have "decided m1 a m2 = decided m a m2" for a m2 by (simp add: decided_def retry_def)
    moreover from r Suc.prems have "IsSplitBrainBck m1 \<noteq> IsSplitBrain m1" "has_master m1"
      by (auto simp: retry_def)
    ultimately show ?thesis
      using Suc.IH [of m1 "Suc i"] r f Inl unfolding m1
      by (auto simp: retry_def split: option.splits)
  qed
qed

section \<open>Properties\<close>

text \<open>A manager that follows \<open>db\<close>, in a cluster of three servers.\<close>

definition sample_monitor :: "int \<Rightarrow> nat \<Rightarrow> monitor" where
  "sample_monitor u i =
     \<lparr>Mon = sample_cluster\<lparr>master := Some i, Conf := (Conf sample_cluster)\<lparr>Arbitration := True\<rparr>\<rparr>,
      MonStatus = ConstMonitorActif, IsSplitBrain = True, IsSplitBrainBck = False, IsLostMajority = False,
      SchedulerRunning = False, runUUID = ''uuid'', ArbitrationSasSecret = ''secret'', ArbitrationSasUniqueId = u,
      MonitorScheduler = False, ArbitrationFailedMasterScript = '''', ScriptCalls = []\<rparr>"

lemma sample_monitor_ok:
  "Arbitration (Conf (Mon (sample_monitor u i)))" "IsSplitBrain (sample_monitor u i)"
  "\<not> IsSplitBrainBck (sample_monitor u i)" "has_master (sample_monitor u i)"
  by (simp_all add: sample_monitor_def has_master_def)

lemma report_keeps:
  assumes "SetArbitratorReport report m = (err, m1)"
  shows "heartbeat_body m1 = heartbeat_body m" "IsSplitBrain m1 = IsSplitBrain m" "MonStatus m1 = MonStatus m"
    "IsSplitBrainBck m1 = IsSplitBrainBck m" "has_master m1 = has_master m" "trace (Mon m1) = trace (Mon m)"
  using assms by (auto simp: SetArbitratorReport_def Let_def split: option.splits)

lemma round_settles:
  assumes "Arbitration (Conf (Mon m))" "IsSplitBrain m" "\<not> IsSplitBrainBck m" "has_master m"
  shows "\<exists>m1. Heartbeat E report ask m = Some m1 \<and> IsSplitBrainBck m1 \<and>
     (case first_answer ask (heartbeat_body m) 1 3 of
        None \<Rightarrow> IsFailedArbitrator (Mon m1) \<and> MonStatus m1 = MonStatus m \<and> trace (Mon m1) = trace (Mon m)
      | Some a \<Rightarrow> decided m a m1)"
proof -
  obtain err m0 where rep: "SetArbitratorReport report m = (err, m0)" by fastforce
  let ?m = "case err of None \<Rightarrow> m0 | Some e \<Rightarrow> on_cluster (set_state ''WARN0081'' ''WARNING'' [FS e] ''ARB'' '''') m0"
  have keeps: "heartbeat_body ?m = heartbeat_body m" "IsSplitBrain ?m" "\<not> IsSplitBrainBck ?m" "has_master ?m"
    "MonStatus ?m = MonStatus m" "trace (Mon ?m) = trace (Mon m)"
    using report_keeps [OF rep] assms(2-4) by (auto split: option.splits)
  then have dec: "decided ?m a m1 = decided m a m1" for a m1 by (simp add: decided_def)
  show ?thesis
    using election_settles [of ?m E ask 1 3] keeps assms(1,2) rep
    by (auto simp: Heartbeat_def dec) (auto simp: decided_def IsActive_def split: option.splits)
qed



text \<open>What a manager reads in a reply of the arbitrator: one JSON object, or an error.\<close>

definition http_answer :: "written list \<Rightarrow> string + (string \<times> string)" where
  "http_answer w = (case w of [Code c, Verdict a m] \<Rightarrow> Inr (a, m) | _ \<Rightarrow> Inl ''invalid JSON'')"

lemma reply_winner:
  assumes "handlerArbitrator r t = Some (w, t1)" "http_answer w = Inr (''winner'', mst)"
  shows "holders t (HSecret (Decoded r), HCluster (Decoded r)) \<subseteq> {HUID (Decoded r)}"
    and "holders t1 (HSecret (Decoded r), HCluster (Decoded r)) = {HUID (Decoded r)}"
proof -
  let ?h = "Decoded r"
  have w: "RequestArbitration (StmtOk r) (ReqTime r) (HUUID ?h) (HSecret ?h) (HCluster ?h) (HMaster ?h)
              (HUID ?h) (HHosts ?h) (HFailed ?h) t = (True, t1)"
    using assms
    by (auto simp: handlerArbitrator_def http_answer_def Let_def case_prod_beta prod_eq_iff split: if_splits)
  then show "holders t (HSecret ?h, HCluster ?h) \<subseteq> {HUID ?h}" "holders t1 (HSecret ?h, HCluster ?h) = {HUID ?h}"
    by (cases rule: RequestArbitration_cases [of "StmtOk r" "ReqTime r" "HUUID ?h" "HSecret ?h" "HCluster ?h" "HMaster ?h"
          "HUID ?h" "HHosts ?h" "HFailed ?h" t];
        auto simp: holders_replace)+
qed


lemma sample_body: "heartbeat_body (sample_monitor u i) =
   \<lparr>HUUID = ''uuid'', HSecret = ''secret'', HCluster = ''c1'',
    HMaster = (if i = 0 then ''db0:3306'' else if i = 1 then ''db1:3306'' else ''db2:3306''), HUID = u, HStatus = ''A'',
    HHosts = 3, HFailed = 1\<rparr>"
  by (simp add: heartbeat_body_def sample_monitor_def sample_cluster_def zero_cluster_def zero_conf_def GetMaster_def
      sample_server_def zero_server_def CountFailed_eq ConstMonitorActif_def)


end
