(* ===== verification/Rejoin.thy ===== *)
theory Rejoin
  imports Repoint Crash Sample
begin

text \<open>
  A server that comes back, \<open>src/cluster/srv_rejoin.go\<close>: the choice between attaching an old master where it
  stands, flashing back its extra events and a full state transfer, and the rejoin of a replica.

  The backup jobs of \<open>src/cluster/srv_job.go\<close> and the external tools are commands of the trace, named by the
  function or the tool; the environment tells whether they succeed. \<open>None\<close> is a run-time panic. The log lines
  and the wake-up of the waiting goroutine are left out.
\<close>

section \<open>State\<close>

record rejoin_conf =
  Autoseed :: bool
  AutorejoinBackupBinlog :: bool
  AutorejoinMysqldump :: bool
  AutorejoinLogicalBackup :: bool
  AutorejoinPhysicalBackup :: bool
  AutorejoinZFSFlashback :: bool
  AutorejoinForceRestore :: bool
  ReplicationNoRelay :: bool
  BackupLoadScript :: string
  RejoinScriptPath :: string

record rejoin =
  RCl :: cluster
  RConf :: rejoin_conf
  lastmaster :: "sid option"
  canFlashBack :: bool
  IsReseeding :: "sid \<Rightarrow> string"
  PreferedBackup :: "sid \<Rightarrow> bool"

text \<open>Answers of the environment beyond those of the databases: which tools exist, and the binary log events.\<close>

record rejoin_env =
  Db :: dbenv
  BinlogTool :: bool
  ClientTool :: bool
  DumpTool :: bool
  WorkDir :: bool
  PipeOpens :: bool
  BinlogEvents :: "nat \<Rightarrow> sid \<Rightarrow> nat option"
    \<comment> \<open>number of rows of \<open>SHOW BINLOG EVENTS\<close>; \<open>None\<close>: error\<close>

type_synonym 'a outcome = "('a \<times> rejoin) option"

definition on_cl :: "(cluster \<Rightarrow> cluster) \<Rightarrow> rejoin \<Rightarrow> rejoin" where
  "on_cl f R = R\<lparr>RCl := f (RCl R)\<rparr>"

definition do_run :: "rejoin_env \<Rightarrow> dbop \<Rightarrow> rejoin \<Rightarrow> bool \<times> rejoin" where
  "do_run E o1 R = (let (ok, cl) = run (Db E) o1 (RCl R) in (ok, R\<lparr>RCl := cl\<rparr>))"

text \<open>A result on the cluster as a result on the rejoin state.\<close>

definition lift_cl :: "rejoin \<Rightarrow> (bool \<times> cluster) option \<Rightarrow> bool outcome" where
  "lift_cl R r = map_option (\<lambda>(ok, cl). (ok, R\<lparr>RCl := cl\<rparr>)) r"

section \<open>Comparing with the election\<close>

definition UsedGtidAtElection :: "crash \<Rightarrow> bool" where
  "UsedGtidAtElection cr =
     (case CrFailoverIOGtid cr of None \<Rightarrow> False | Some g \<Rightarrow> if length (GetSeqNos g) > 0 then True else False)"

definition GetUniversalGtidServerID :: "dbenv \<Rightarrow> server \<Rightarrow> u64" where
  "GetUniversalGtidServerID E s =
     (if IsMariaDB (DBVersion s) then ServerID s
      else if IsMySQLOrPerconaGreater57 (Some (DBVersion s))
      then crc64_checksum (CrcTable E) (str_upper (Variables s ''SERVER_UUID''))
      else 0)"

text \<open>\<open>dbhelper.HaveExtraEvents\<close>: the answer and whether an error came with it.\<close>

definition HaveExtraEvents :: "nat option \<Rightarrow> bool \<times> bool" where
  "HaveExtraEvents rows =
     (case rows of
        None \<Rightarrow> (True, True)
      | Some n \<Rightarrow> if n = 1 then (False, False) else if n > 1 then (True, False) else (False, False))"

definition isReplicationAheadOfMasterElection :: "rejoin_env \<Rightarrow> sid \<Rightarrow> crash \<Rightarrow> cluster \<Rightarrow> bool" where
  "isReplicationAheadOfMasterElection E i cr cl =
     (let s = srv cl i; u = GetUniversalGtidServerID (Db E) s
      in if UsedGtidAtElection cr then
           let io = GetSeqServerIdNos u (the (CrFailoverIOGtid cr))
           in if io = 0 then True
              else if GetSeqServerIdNos u (CurrentGtid s) > io then True
              else False
         else
           let (valid, err) = HaveExtraEvents (BinlogEvents E (length (trace cl)) i)
           in if err then False else if valid then True else False)"

section \<open>State transfer\<close>

definition real_master :: "rejoin \<Rightarrow> sid option" where
  "real_master R =
     (let cf = Conf (RCl R)
      in if MxsBinlogOn cf \<or> MultiTierSlave cf then GetRelayServer (RCl R) else master (RCl R))"

definition GetBackupServer :: "rejoin \<Rightarrow> sid option" where
  "GetBackupServer R =
     (let cl = RCl R
      in if \<not> IsDiscovered cl \<or> length (Servers cl) < 1 then None
         else case find (\<lambda>i. State (srv cl i) \<noteq> stateFailed \<and> PreferedBackup R i) (Servers cl) of
             Some i \<Rightarrow> Some i
           | None \<Rightarrow> master cl)"

text \<open>The error of \<open>CHANGE MASTER\<close> is a shadowed variable in \<open>RejoinDirectDump\<close>: it is never seen.\<close>

definition RejoinDirectDump :: "rejoin_env \<Rightarrow> sid \<Rightarrow> rejoin \<Rightarrow> bool outcome" where
  "RejoinDirectDump E i R =
     (if IsReseeding R i \<noteq> '''' then Some (False, R)
      else
        let R1 = R\<lparr>IsReseeding := (IsReseeding R)(i := ''direct'')\<rparr>; stop = R1\<lparr>IsReseeding := (IsReseeding R1)(i := '''')\<rparr>
        in if \<not> DumpTool E then Some (False, stop)
           else if \<not> ClientTool E then Some (False, stop)
           else case real_master R1 of
               None \<Rightarrow> Some (False, stop)
             | Some rm \<Rightarrow>
                 let s = srv (RCl R1) i; r = srv (RCl R1) rm; cf = Conf (RCl R1);
                     moved = (if MxsHaveGtid s \<or> \<not> IsMaxscale s
                              then lift_cl R1 (SetReplicationGTIDSlavePosFromServer (Db E) i (Some rm) (RCl R1))
                              else Some (do_run E (OpChangeMaster i (zero_cmo
                                \<lparr>CmHost := Host r, CmPort := Port r, CmUser := RplUser cf, CmPassword := RplPass cf,
                                 CmRetry := dec_int (ForceSlaveHeartbeatRetry cf),
                                 CmHeartbeat := dec_int (ForceSlaveHeartbeatTime cf), CmMode := ''MXS'',
                                 CmLogfile := FailoverMasterLogFile r, CmLogpos := FailoverMasterLogPos r,
                                 CmSSL := ReplicationSSL cf, CmChannel := MasterConn cf\<rparr>)) R1))
                 in map_option (\<lambda>(_, R2). (True, on_cl (emit (OpJob i ''JobRejoinMysqldumpFromSource'')) R2)) moved)"

definition Unbracket :: "string \<Rightarrow> string" where
  "Unbracket s = filter (\<lambda>c. c \<noteq> CHR '']'') (filter (\<lambda>c. c \<noteq> CHR ''['') s)"

definition RejoinMasterSST :: "rejoin_env \<Rightarrow> sid \<Rightarrow> rejoin \<Rightarrow> bool outcome" where
  "RejoinMasterSST E i R =
     (let c = RConf R; cl = RCl R
      in if AutorejoinMysqldump c then RejoinDirectDump E i R
         else if AutorejoinLogicalBackup c then Some (do_run E (OpJob i ''JobFlashbackLogicalBackup'') R)
         else if AutorejoinPhysicalBackup c then Some (do_run E (OpJob i ''JobFlashbackPhysicalBackup'') R)
         else if AutorejoinZFSFlashback c then Some (True, snd (do_run E (OpJob i ''JobZFSSnapBack'') R))
         else if BackupLoadScript c \<noteq> '''' then
           (case (master cl, GetMaster cl) of
              (Some m, Some g) \<Rightarrow>
                Some (True, snd (do_run E (OpScript (BackupLoadScript c)
                  [Unbracket (Host (srv cl i)), Unbracket (Host (srv cl m)), Port (srv cl i), Port (srv cl g)]) R))
            | _ \<Rightarrow> None)
         else Some (False, R))"

definition RejoinScript :: "rejoin_env \<Rightarrow> sid \<Rightarrow> rejoin \<Rightarrow> rejoin option" where
  "RejoinScript E i R =
     (let cl = RCl R
      in if RejoinScriptPath (RConf R) \<noteq> '''' then
           case GetMaster cl of
             None \<Rightarrow> None
           | Some g \<Rightarrow> Some (snd (do_run E (OpScript (RejoinScriptPath (RConf R))
                         [Host (srv cl i), Host (srv cl g), Port (srv cl i), Port (srv cl g)]) R))
         else Some R)"

definition ReseedMasterSST :: "rejoin_env \<Rightarrow> sid \<Rightarrow> rejoin \<Rightarrow> bool outcome" where
  "ReseedMasterSST E i R =
     (let c = RConf R; R1 = snd (do_run E (OpJob i ''DelWaitBackupCookie'') R)
      in if AutorejoinMysqldump c then RejoinDirectDump E i R1
         else if BackupLoadScript c \<noteq> '''' then Some (True, snd (do_run E (OpJob i ''JobReseedBackupScript'') R1))
         else if AutorejoinLogicalBackup c then Some (True, snd (do_run E (OpJob i ''JobReseedLogicalBackup'') R1))
         else if AutorejoinPhysicalBackup c then Some (True, snd (do_run E (OpJob i ''JobReseedPhysicalBackup'') R1))
         else Some (False, R1))"

section \<open>An old master\<close>

text \<open>Like the code, \<open>rejoinMasterSync\<close> reports the failure of its \<open>CHANGE MASTER\<close> before starting replication.\<close>

definition sync_opt :: "rejoin \<Rightarrow> server \<Rightarrow> change_master_opt" where
  "sync_opt R r =
     (let cf = Conf (RCl R)
      in zero_cmo
         \<lparr>CmHost := Host r, CmPort := Port r, CmUser := RplUser cf, CmPassword := RplPass cf,
          CmRetry := dec_int (ForceSlaveHeartbeatRetry cf), CmHeartbeat := dec_int (ForceSlaveHeartbeatTime cf),
          CmSSL := ReplicationSSL cf\<rparr>)"

definition rejoinMasterSync :: "rejoin_env \<Rightarrow> sid \<Rightarrow> crash \<Rightarrow> rejoin \<Rightarrow> bool outcome" where
  "rejoinMasterSync E i cr R =
     (let cl = RCl R; s = srv cl i; cf = Conf cl; rm = real_master R;
          start = (\<lambda>(ok, R1). if ok then (True, on_cl (StartSlave i) R1) else (False, R1))
      in if HasGTIDReplication cf s then
           map_option start (lift_cl R (SetReplicationGTIDCurrentPosFromServer (Db E) i rm cl))
         else case rm of
             None \<Rightarrow> None
           | Some j \<Rightarrow>
               if MxsHaveGtid (srv cl j) \<and> IsMaxscale (srv cl j) then
                 map_option start (lift_cl R (SetReplicationGTIDCurrentPosFromServer (Db E) i rm cl))
               else if MxsBinlogOn cf then
                 Some (start (do_run E (OpChangeMaster i ((sync_opt R (srv cl j))
                   \<lparr>CmMode := ''MXS'', CmLogfile := CrFailoverMasterLogFile cr, CmLogpos := CrFailoverMasterLogPos cr\<rparr>)) R))
               else
                 Some (start (do_run E (OpChangeMaster i ((sync_opt R (srv cl j))
                   \<lparr>CmMode := ''POSITIONAL'', CmLogfile := CrNewMasterLogFile cr, CmLogpos := CrNewMasterLogPos cr,
                    CmChannel := MasterConn cf, CmIsDelayed := IsDelayed s, CmDelay := dec_int (HostsDelayedTime cf),
                    CmPostgressDB := PostgressDB s\<rparr>)) R)))"

text \<open>The end of the flashback: the server follows the master from the restored position.\<close>

definition flashback_repoint :: "rejoin_env \<Rightarrow> sid \<Rightarrow> sid option \<Rightarrow> rejoin \<Rightarrow> bool outcome" where
  "flashback_repoint E i rm R =
     (let s = srv (RCl R) i
      in case lift_cl R (if MxsHaveGtid s \<or> \<not> IsMaxscale s
             then SetReplicationGTIDSlavePosFromServer (Db E) i rm (RCl R)
             else SetReplicationFromMaxsaleServer (Db E) i rm (RCl R)) of
           None \<Rightarrow> None
         | Some (ok4, R4) \<Rightarrow> if \<not> ok4 then Some (False, R4) else Some (True, on_cl (StartSlave i) R4))"

definition rejoinMasterFlashBack :: "rejoin_env \<Rightarrow> sid \<Rightarrow> crash \<Rightarrow> rejoin \<Rightarrow> bool outcome" where
  "rejoinMasterFlashBack E i cr R =
     (let rm = real_master R
      in if \<not> BinlogTool E then Some (False, R)
         else if \<not> ClientTool E then Some (False, R)
         else if \<not> PipeOpens E then Some (False, R)
         else
           let (ok1, R1) = do_run E (OpJob i ''mysqlbinlog --flashback'') R
           in if \<not> ok1 then Some (False, R1)
              else
                let (ok2, R2) = do_run E (OpJob i ''mysql'') R1
                in if \<not> ok2 then Some (False, R2)
                   else case CrFailoverIOGtid cr of
                       None \<Rightarrow> None
                     | Some g \<Rightarrow>
                         let (ok3, R3) = do_run E (OpSetGTIDSlavePos i (Sprint g)) R2
                         in if \<not> ok3 then Some (False, R3) else flashback_repoint E i rm R3)"

text \<open>The preparation of the incremental rejoin: fresh values, and read-only mode when it is configured.\<close>

definition incremental_prepare :: "rejoin_env \<Rightarrow> sid \<Rightarrow> rejoin \<Rightarrow> rejoin" where
  "incremental_prepare E i R =
     (let R1 = on_cl (Refresh (Db E) i) R
      in if CReadOnly (Conf (RCl R1)) \<and> \<not> IsIgnoredReadonly (srv (RCl R1) i)
         then on_cl (\<lambda>cl. snd (SetReadOnly (Db E) i cl)) R1 else R1)"

text \<open>A server id that the crash record does not know rules the flashback out.\<close>

definition flashback_check :: "sid \<Rightarrow> crash \<Rightarrow> rejoin \<Rightarrow> rejoin option" where
  "flashback_check i cr R =
     (case CrFailoverIOGtid cr of
        None \<Rightarrow> Some R
      | Some g \<Rightarrow>
          if GetSeqServerIdNos (ServerID (srv (RCl R) i)) g = 0 then Some (R\<lparr>canFlashBack := False\<rparr>)
          else if master (RCl R) = None then None else Some R)"

definition rejoinMasterIncremental :: "rejoin_env \<Rightarrow> sid \<Rightarrow> crash \<Rightarrow> rejoin \<Rightarrow> bool outcome" where
  "rejoinMasterIncremental E i cr R =
     (if AutorejoinForceRestore (RConf R) then Some (False, R)
      else
        let R1 = incremental_prepare E i R
        in if \<not> isReplicationAheadOfMasterElection E i cr (RCl R1) \<or> MxsBinlogOn (Conf (RCl R1)) then
             map_option (\<lambda>(_, R2). (True, R2)) (rejoinMasterSync E i cr R1)
           else if \<not> HasGTIDReplication (Conf (RCl R1)) (srv (RCl R1) i) then Some (False, R1)
           else case flashback_check i cr R1 of
               None \<Rightarrow> None
             | Some R2 \<Rightarrow>
                 if CrFailoverIOGtid cr \<noteq> None \<and> canFlashBack R2 \<and> AutorejoinFlashback (Conf (RCl R2)) \<and>
                    AutorejoinBackupBinlog (RConf R2)
                 then rejoinMasterFlashBack E i cr R2
                 else Some (False, R2))"

definition rejoinMasterAsSlave :: "rejoin_env \<Rightarrow> sid \<Rightarrow> rejoin \<Rightarrow> bool outcome" where
  "rejoinMasterAsSlave E i R =
     (case lastmaster R of
        None \<Rightarrow> None
      | Some rm \<Rightarrow>
          let (ok, cl1) = SetReadOnly (Db E) i (RCl R)
          in if \<not> ok then Some (False, R\<lparr>RCl := cl1\<rparr>)
             else case SetReplicationGTIDCurrentPosFromServer (Db E) i (Some rm) cl1 of
                 None \<Rightarrow> None
               | Some (ok2, cl2) \<Rightarrow>
                   if ok2 then Some (True, R\<lparr>RCl := StartSlave i cl2\<rparr>) else Some (False, R\<lparr>RCl := cl2\<rparr>))"

text \<open>The copy of the extra events of an old master, and its filing after the rejoin.\<close>

definition backupBinlog :: "rejoin_env \<Rightarrow> sid \<Rightarrow> rejoin \<Rightarrow> bool \<times> rejoin" where
  "backupBinlog E i R =
     (if \<not> BinlogTool E then (False, R)
      else if \<not> WorkDir E then (False, R)
      else
        let (started, R1) = do_run E (OpJob i ''mysqlbinlog --raw'') R
        in if \<not> started then (False, R1)
           else
             let (ok, R2) = do_run E (OpJob i ''mysqlbinlog wait'') R1
             in if \<not> ok then (False, R2\<lparr>canFlashBack := False\<rparr>) else (True, R2))"

definition saveBinlog :: "rejoin_env \<Rightarrow> sid \<Rightarrow> rejoin \<Rightarrow> rejoin" where
  "saveBinlog E i R = snd (do_run E (OpJob i ''saveBinlog'') R)"

text \<open>The old master when the crash that demoted it is known.\<close>

definition rejoin_known_crash :: "rejoin_env \<Rightarrow> sid \<Rightarrow> crash \<Rightarrow> rejoin \<Rightarrow> rejoin option" where
  "rejoin_known_crash E i cr R =
     (let R1 = (if AutorejoinBackupBinlog (RConf R) then snd (backupBinlog E i R) else R)
      in case (case rejoinMasterIncremental E i cr R1 of
                 None \<Rightarrow> None
               | Some (True, R2) \<Rightarrow> Some R2
               | Some (False, R2) \<Rightarrow> map_option snd (RejoinMasterSST E i R2)) of
           None \<Rightarrow> None
         | Some R3 \<Rightarrow> Some (if AutorejoinBackupBinlog (RConf R3) then saveBinlog E i R3 else R3))"

definition rejoin_unknown_crash :: "rejoin_env \<Rightarrow> sid \<Rightarrow> sid \<Rightarrow> rejoin \<Rightarrow> bool outcome" where
  "rejoin_unknown_crash E i m R =
     (let cl = RCl R;
          R1 = on_cl (set_state ''ERR00066'' ''ERROR'' [FS (URL (srv cl i)), FS (URL (srv cl m))] ''REJOIN'' '''') R
      in if (\<exists>om \<in> set_option (oldMaster (RCl R1)). URL (srv (RCl R1) om) = URL (srv (RCl R1) i))
         then map_option (\<lambda>(_, R2). (True, R2)) (RejoinMasterSST E i R1)
         else if Autoseed (RConf R1) then map_option (\<lambda>(_, R2). (True, R2)) (ReseedMasterSST E i R1)
         else Some (False, R1))"

text \<open>With a master in the topology, and with none.\<close>

definition rejoin_to_master :: "rejoin_env \<Rightarrow> sid \<Rightarrow> sid \<Rightarrow> rejoin \<Rightarrow> bool outcome" where
  "rejoin_to_master E i m R =
     (let cl = RCl R; s = srv cl i
      in if URL s \<noteq> URL (srv cl m) then
           case RejoinScript E i (on_cl (set_state ''WARN0022'' ''WARNING'' [FS (URL s), FS (URL (srv cl m))] ''REJOIN'' '''') R) of
             None \<Rightarrow> None
           | Some R1 \<Rightarrow>
               if MultiMasterGrouprep (Conf (RCl R1)) then
                 Some (True, on_cl (emit OpProxiesBackendStateChange)
                   (snd (do_run E (OpSQL i ''StartGroupReplication'') R1)))
               else
                 let R2 = (if FailoverSemiSyncState (Conf (RCl R1)) then on_cl (SetSemiSyncReplica i) R1 else R1)
                 in case getCrashFromJoiner (URL (srv (RCl R2) i)) (RCl R2) of
                      None \<Rightarrow> rejoin_unknown_crash E i m R2
                    | Some cr \<Rightarrow>
                        map_option (\<lambda>R3. (True, on_cl (emit OpProxiesBackendStateChange) R3))
                          (rejoin_known_crash E i cr R2)
         else Some (True, R))"

definition rediscover_master :: "rejoin_env \<Rightarrow> sid \<Rightarrow> rejoin \<Rightarrow> bool outcome" where
  "rediscover_master E i R =
     (let cl = RCl R
      in case lastmaster R of
           None \<Rightarrow> Some (True, R)
         | Some lm \<Rightarrow>
             if ServerID (srv cl lm) = ServerID (srv cl i) then
               Some (True, (on_cl (\<lambda>c. snd (SetReadWrite (Db E) i (SetMaster i (c\<lparr>master := Some i\<rparr>)))) R)
                             \<lparr>lastmaster := None\<rparr>)
             else if \<not> FailRestartUnsafe (Conf cl) then
               map_option (\<lambda>(_, R1). (True, on_cl (emit OpProxiesBackendStateChange) R1)) (rejoinMasterAsSlave E i R)
             else Some (True, on_cl (\<lambda>c. c\<lparr>master := Some i\<rparr>) R))"

definition RejoinMaster :: "rejoin_env \<Rightarrow> sid \<Rightarrow> rejoin \<Rightarrow> bool outcome" where
  "RejoinMaster E i R =
     (if GetTopology (RCl R) = TopoMultiMasterWsrep then Some (True, R)
      else if IsInFailover (RCl R) then Some (True, R)
      else
        let R0 = R\<lparr>canFlashBack := True\<rparr>
        in case master (RCl R0) of Some m \<Rightarrow> rejoin_to_master E i m R0 | None \<Rightarrow> rediscover_master E i R0)"

section \<open>A replica\<close>

definition GetSibling :: "sid \<Rightarrow> cluster \<Rightarrow> sid option" where
  "GetSibling i cl =
     (case own_status (srv cl i) of
        None \<Rightarrow> None
      | Some ss \<Rightarrow>
          find (\<lambda>j. case own_status (srv cl j) of
                      None \<Rightarrow> False
                    | Some sib \<Rightarrow> MasterServerID sib = MasterServerID ss \<and> ServerID (srv cl j) \<noteq> ServerID (srv cl i))
            (Servers cl))"

definition RejoinLoop :: "rejoin_env \<Rightarrow> sid \<Rightarrow> rejoin \<Rightarrow> bool outcome" where
  "RejoinLoop E i R =
     (case GetSibling i (RCl R) of
        None \<Rightarrow> Some (False, R)
      | Some c \<Rightarrow>
          map_option (\<lambda>(_, R1). (True, on_cl (StartSlave c) R1))
            (lift_cl R (SetReplicationGTIDSlavePosFromServer (Db E) c (Some i) (StopSlave c (RCl R)))))"

definition rejoinSlaveChangePassword :: "rejoin_env \<Rightarrow> sid \<Rightarrow> rejoin \<Rightarrow> bool \<times> rejoin" where
  "rejoinSlaveChangePassword E i R = do_run E (OpSQL i ''ChangeReplicationPassword'') R"

text \<open>Out of maintenance; outside Galera and rings nothing else happens.\<close>

definition switch_maintenance :: "sid \<Rightarrow> cluster \<Rightarrow> cluster" where
  "switch_maintenance i cl = emit OpProxiesFailover (upd_srv i (\<lambda>s. s\<lparr>IsMaintenance := \<not> IsMaintenance s\<rparr>) cl)"

text \<open>Moving a replica of a relay to the master by position: the relay stops, the replica catches up with it and
  takes the relay's position on the master.\<close>

definition positional_switch :: "rejoin_env \<Rightarrow> sid \<Rightarrow> sid \<Rightarrow> sid \<Rightarrow> rejoin \<Rightarrow> rejoin option" where
  "positional_switch E i cm m R =
     (let r = srv (RCl R) cm; cf = Conf (RCl R);
          (ok2, R1) = do_run E (OpMasterPosWait i (BinaryLogFile r) (BinaryLogPos r) (MasterConn cf)) R
      in if \<not> ok2 then Some R1
         else
           let R2 = on_cl (StopSlave i) R1; s = srv (RCl R2) i
           in case own_status (srv (RCl R2) cm) of
                None \<Rightarrow> None
              | Some ps \<Rightarrow>
                  Some (snd (do_run E (OpChangeMaster i ((sync_opt R2 (srv (RCl R2) m))
                    \<lparr>CmLogfile := MasterLogFile ps, CmLogpos := ReadMasterLogPos ps, CmChannel := MasterConn cf,
                     CmIsDelayed := IsDelayed s, CmDelay := dec_int (HostsDelayedTime cf),
                     CmPostgressDB := PostgressDB s\<rparr>)) R2)))"

definition rejoin_positional :: "rejoin_env \<Rightarrow> sid \<Rightarrow> sid \<Rightarrow> sid \<Rightarrow> rejoin \<Rightarrow> rejoin option" where
  "rejoin_positional E i cm m R =
     (if State (srv (RCl R) cm) \<noteq> stateFailed \<and> IsRelay (srv (RCl R) cm) then
        let (ok, cl1) = run_stop (Db E) cm (RCl R); R1 = R\<lparr>RCl := cl1\<rparr>
        in case (if ok then map_option (on_cl (StartSlave i)) (positional_switch E i cm m R1) else Some R1) of
             None \<Rightarrow> None
           | Some R2 \<Rightarrow>
               let R3 = on_cl (StartSlave cm) R2
               in Some (on_cl (emit OpProxiesBackendStateChange)
                    (if IsMaintenance (srv (RCl R3) i) then on_cl (switch_maintenance i) R3 else R3))
      else Some (on_cl (set_state ''ERR00049'' ''ERRRO'' [] ''TOPO'' '''') R))"

definition rejoin_gtid :: "rejoin_env \<Rightarrow> sid \<Rightarrow> sid \<Rightarrow> rejoin \<Rightarrow> bool outcome" where
  "rejoin_gtid E i m R =
     (let cl = RCl R
      in case getCrashFromMaster (URL (srv cl m)) cl of
           None \<Rightarrow> Some (False, on_cl (set_state ''ERR00065'' ''ERROR'' [FS (URL (srv cl i)), FS (URL (srv cl m))]
                                 ''REJOIN'' '''') R)
         | Some cr \<Rightarrow>
             let (ok, cl1) = run_stop (Db E) i cl; R1 = R\<lparr>RCl := cl1\<rparr>
             in if \<not> ok then Some (True, R1)
                else case lift_cl R1 (SetReplicationGTIDSlavePosFromServer (Db E) i (Some m) cl1) of
                    None \<Rightarrow> None
                  | Some (ok2, R2) \<Rightarrow> Some (True, if ok2 then on_cl (StartSlave i) R2 else R2))"

text \<open>The repointing part of \<open>rejoinSlave\<close>: the flag tells whether the function goes on.\<close>

definition repoint_replica :: "rejoin_env \<Rightarrow> sid \<Rightarrow> slave_status \<Rightarrow> sid \<Rightarrow> rejoin \<Rightarrow> bool outcome" where
  "repoint_replica E i ss cm R =
     (let cl = RCl R
      in case master cl of
           None \<Rightarrow> Some (True, R)
         | Some m \<Rightarrow>
             if Id (srv cl m) = Id (srv cl i) then Some (True, R)
             else if URL (srv cl m) = URL (srv cl cm) then Some (False, R)
             else
               let R1 = on_cl (set_state ''ERR00067'' ''ERROR'' [FS (URL (srv cl i)), FS (PrevState (srv cl i)),
                                FS (SlaveIORunning ss), FS (URL (srv cl m))] ''REJOIN'' '''') R;
                   R2 = (if IsDown (srv (RCl R1) m) \<and> \<not> FailRestartUnsafe (Conf (RCl R1))
                         then on_cl (upd_srv i (\<lambda>s. s\<lparr>HaveNoMasterOnStart := True\<rparr>)) R1 else R1)
               in if \<not> IsMaxscale (srv (RCl R2) cm) \<and> \<not> MultiTierSlave (Conf (RCl R2)) \<and> ReplicationNoRelay (RConf R2) then
                    if HasGTIDReplication (Conf (RCl R2)) (srv (RCl R2) i) then rejoin_gtid E i m R2
                    else map_option (Pair True) (rejoin_positional E i cm m R2)
                  else Some (True, R2))"

text \<open>Back in the list of replicas, read-only when that is configured.\<close>

definition reintroduce :: "rejoin_env \<Rightarrow> sid \<Rightarrow> rejoin \<Rightarrow> bool \<times> rejoin" where
  "reintroduce E i R =
     (let p = PrevState (srv (RCl R) i)
      in if p = stateFailed \<or> p = ''StandAlone'' \<or> p = stateSuspect then
           let R1 = on_cl (\<lambda>cl. upd_srv i (\<lambda>s. s\<lparr>FailCount := 0\<rparr>) (Server_SetState i stateSlave cl)) R;
               R2 = (if p \<noteq> stateSuspect then on_cl (\<lambda>cl. cl\<lparr>slaves := slaves cl @ [i]\<rparr>) R1 else R1)
           in if CReadOnly (Conf (RCl R2)) then do_run E (OpSetReadOnly i True) R2 else (True, R2)
         else (True, R))"

definition rejoinSlave :: "rejoin_env \<Rightarrow> sid \<Rightarrow> slave_status \<Rightarrow> rejoin \<Rightarrow> bool outcome" where
  "rejoinSlave E i ss R =
     (let cl = RCl R
      in if GetTopology cl = TopoMultiMasterRing then map_option (\<lambda>(_, R1). (True, R1)) (RejoinLoop E i R)
         else if GetTopology cl = TopoMultiMasterWsrep then Some (True, R)
         else case GetMasterFromReplication (srv cl i) cl of
             None \<Rightarrow> Some (False, R)
           | Some cm \<Rightarrow>
               (case repoint_replica E i ss cm R of
                  None \<Rightarrow> None
                | Some (False, R1) \<Rightarrow> Some (False, R1)
                | Some (True, R1) \<Rightarrow> Some (reintroduce E i R1)))"

definition GetReplicationDelay :: "server \<Rightarrow> int" where
  "GetReplicationDelay s =
     (case own_status s of
        None \<Rightarrow> 0
      | Some ss \<Rightarrow> (case SecondsBehindMaster ss of None \<Rightarrow> 0 | Some n \<Rightarrow> n))"

definition RejoinFixRelay :: "rejoin_env \<Rightarrow> sid \<Rightarrow> rejoin \<Rightarrow> rejoin option" where
  "RejoinFixRelay E i R =
     (let cl = RCl R
      in if GetTopology cl = TopoMultiMasterRing \<or> GetTopology cl = TopoMultiMasterWsrep then Some R
         else
           let R1 = on_cl (set_state ''ERR00045'' ''WARNING'' [] ''TOPO'' '''') R; s = srv (RCl R1) i
           in if GetReplicationDelay s > FailMaxDelay (Conf (RCl R1))
              then Some (on_cl (set_state ''ERR00046'' ''WARNING'' [] ''TOPO'' '''') R1)
              else case own_status s of
                  None \<Rightarrow> Some R1
                | Some ss \<Rightarrow> map_option snd (rejoinSlave E i ss R1))"

section \<open>Traces of a rejoin\<close>

lemma on_cl_simps [simp]:
  "RCl (on_cl f R) = f (RCl R)" "RConf (on_cl f R) = RConf R" "lastmaster (on_cl f R) = lastmaster R"
  "canFlashBack (on_cl f R) = canFlashBack R" "IsReseeding (on_cl f R) = IsReseeding R"
  "PreferedBackup (on_cl f R) = PreferedBackup R"
  by (simp_all add: on_cl_def)

lemma do_run_eq [simp]: "do_run E o1 R = (CmdOk (Db E) (length (trace (RCl R))) o1, on_cl (emit o1) R)"
  by (simp add: do_run_def run_def on_cl_def)

text \<open>A command that leaves the replication source of server \<open>i\<close> alone.\<close>

definition still :: "sid \<Rightarrow> dbop \<Rightarrow> bool" where
  "still i o1 \<longleftrightarrow> (\<forall>opt. o1 \<noteq> OpChangeMaster i opt)"

lemma still_ops [simp]:
  "still i (OpJob j c)" "still i (OpScript c as)" "still i (OpSQL j c)" "still i OpProxiesBackendStateChange"
  "still i (OpSetGTIDSlavePos j g)" "still i (OpStartSlave j c)" "still i (OpStopSlave j c)" "still i (OpRefresh j)"
  "still i (OpSetReadOnly j b)" "still i (OpSetSuperReadOnly j b)" "still i (OpSemiSyncSlave j)"
  "still i OpProxiesFailover" "still i (OpStateScript j st st1)" "\<not> still i (OpChangeMaster i opt)"
  by (simp_all add: still_def)

lemma steps_still:
  "steps (still i) a b \<Longrightarrow> steps (still i) a (snd (SetReadOnly E j b))"
  "steps (still i) a b \<Longrightarrow> steps (still i) a (SetSemiSyncReplica j b)"
  "steps (still i) a b \<Longrightarrow> steps (still i) a (StartSlave j b)"
  "steps (still i) a b \<Longrightarrow> steps (still i) a (StopSlave j b)"
  by (auto simp: SetReadOnly_def SetSemiSyncReplica_def StartSlave_def StopSlave_def run_def Let_def intro!: steps_emit)

lemma steps_trace: "steps P a b \<Longrightarrow> \<exists>ops. trace b = trace a @ ops \<and> list_all P ops"
  by (simp add: steps_def)

lemma incremental_prepare_still: "steps (still i) (RCl R) (RCl (incremental_prepare E i R))"
  by (auto simp: incremental_prepare_def Let_def intro!: steps_still steps_Refresh)

lemma incremental_prepare_conf [simp]: "RConf (incremental_prepare E i R) = RConf R"
  by (simp add: incremental_prepare_def Let_def)

lemma backupBinlog_still: "steps (still i) (RCl R) (RCl (snd (backupBinlog E i R)))" "RConf (snd (backupBinlog E i R)) = RConf R"
  by (auto simp: backupBinlog_def Let_def intro!: steps_emit)

lemma RejoinScript_still: "RejoinScript E i R = Some R1 \<Longrightarrow> steps (still i) (RCl R) (RCl R1) \<and> RConf R1 = RConf R"
  by (auto simp: RejoinScript_def Let_def intro!: steps_emit split: if_splits option.splits)

lemma SST_still:
  assumes "\<not> AutorejoinMysqldump (RConf R)"
  shows "RejoinMasterSST E i R = Some (ok, R1) \<Longrightarrow> steps (still i) (RCl R) (RCl R1) \<and> RConf R1 = RConf R"
    and "ReseedMasterSST E i R = Some (ok, R1) \<Longrightarrow> steps (still i) (RCl R) (RCl R1) \<and> RConf R1 = RConf R"
  using assms
  by (auto simp: RejoinMasterSST_def ReseedMasterSST_def Let_def intro!: steps_emit split: if_splits option.splits)

text \<open>What an incremental rejoin may send after its comparison with the election, made in cluster \<open>cl0\<close>.\<close>

definition attach_ops :: "rejoin_env \<Rightarrow> sid \<Rightarrow> crash \<Rightarrow> cluster \<Rightarrow> dbop list \<Rightarrow> bool" where
  "attach_ops E i cr cl0 ops \<longleftrightarrow>
     list_all (still i) ops \<or>
     (\<not> isReplicationAheadOfMasterElection E i cr cl0 \<or> MxsBinlogOn (Conf cl0)) \<and>
       (\<exists>opt post. ops = OpChangeMaster i opt # post \<and> list_all (still i) post) \<or>
     (\<exists>g mid opt post. CrFailoverIOGtid cr = Some g \<and> list_all (still i) (mid @ post) \<and>
        ops = [OpJob i ''mysqlbinlog --flashback'', OpJob i ''mysql'', OpSetGTIDSlavePos i (Sprint g)] @ mid @
              OpChangeMaster i opt # post)"

lemma sync_attach:
  assumes "rejoinMasterSync E i cr R = Some (ok, R1)"
  shows "\<exists>opt post. trace (RCl R1) = trace (RCl R) @ OpChangeMaster i opt # post \<and> list_all (still i) post"
    and "RConf R1 = RConf R"
  using assms
  by (auto simp: rejoinMasterSync_def SetReplicationGTIDCurrentPosFromServer_def lift_cl_def run_def emit_def StartSlave_def
      Let_def split: if_splits option.splits)

lemma slave_pos_trace:
  "SetReplicationGTIDSlavePosFromServer E i m cl = Some (ok, cl1) \<Longrightarrow>
     \<exists>mid opt. trace cl1 = trace cl @ mid @ [OpChangeMaster i opt] \<and> list_all (still i) mid"
  by (auto simp: SetReplicationGTIDSlavePosFromServer_def StopSlave_def run_def emit_def Let_def split: option.splits if_splits)

lemma maxscale_trace:
  "SetReplicationFromMaxsaleServer E i m cl = Some (ok, cl1) \<Longrightarrow>
     \<exists>mid opt. trace cl1 = trace cl @ mid @ [OpChangeMaster i opt] \<and> list_all (still i) mid"
  by (auto simp: SetReplicationFromMaxsaleServer_def run_def emit_def Let_def split: option.splits)

lemma StartSlave_trace: "\<exists>post. trace (StartSlave i cl) = trace cl @ post \<and> list_all (still i) post"
  by (simp add: StartSlave_def emit_def)

lemma flashback_repoint_trace:
  assumes "flashback_repoint E i rm R = Some (ok, R1)"
  shows "\<exists>mid opt post. trace (RCl R1) = trace (RCl R) @ mid @ OpChangeMaster i opt # post \<and> list_all (still i) (mid @ post)"
    and "RConf R1 = RConf R"
proof -
  let ?r = "\<lambda>ok4 cl4. (if MxsHaveGtid (srv (RCl R) i) \<or> \<not> IsMaxscale (srv (RCl R) i)
             then SetReplicationGTIDSlavePosFromServer (Db E) i rm (RCl R)
             else SetReplicationFromMaxsaleServer (Db E) i rm (RCl R)) = Some (ok4, cl4)"
  obtain ok4 cl4 where r: "?r ok4 cl4" and R1: "R1 = R\<lparr>RCl := cl4\<rparr> \<or> R1 = on_cl (StartSlave i) (R\<lparr>RCl := cl4\<rparr>)"
    using assms by (auto simp: flashback_repoint_def lift_cl_def Let_def split: option.splits if_splits)
  then obtain mid opt where mid: "trace cl4 = trace (RCl R) @ mid @ [OpChangeMaster i opt]" "list_all (still i) mid"
    using slave_pos_trace [of "Db E" i rm "RCl R" ok4 cl4] maxscale_trace [of "Db E" i rm "RCl R" ok4 cl4]
    by (metis (no_types))
  obtain post where "trace (RCl R1) = trace cl4 @ post" "list_all (still i) post"
    using R1 StartSlave_trace [of i cl4] by fastforce
  with mid show "\<exists>mid opt post. trace (RCl R1) = trace (RCl R) @ mid @ OpChangeMaster i opt # post \<and> list_all (still i) (mid @ post)"
    by (intro exI [of _ mid] exI [of _ opt] exI [of _ post]) simp
  show "RConf R1 = RConf R" using R1 by auto
qed

lemma flashback_attach:
  assumes "rejoinMasterFlashBack E i cr R = Some (ok, R1)"
  shows "\<exists>ops. trace (RCl R1) = trace (RCl R) @ ops \<and> attach_ops E i cr cl0 ops" and "RConf R1 = RConf R"
proof -
  define R3 where "R3 = (\<lambda>g. on_cl (emit (OpSetGTIDSlavePos i (Sprint g)))
     (on_cl (emit (OpJob i ''mysql'')) (on_cl (emit (OpJob i ''mysqlbinlog --flashback'')) R)))"
  have t3: "trace (RCl (R3 g)) = trace (RCl R) @
      [OpJob i ''mysqlbinlog --flashback'', OpJob i ''mysql'', OpSetGTIDSlavePos i (Sprint g)]" "RConf (R3 g) = RConf R" for g
    by (simp_all add: R3_def emit_def)
  consider (stop) "steps (still i) (RCl R) (RCl R1)" "RConf R1 = RConf R"
    | (go) g where "CrFailoverIOGtid cr = Some g" "flashback_repoint E i (real_master R) (R3 g) = Some (ok, R1)"
    using assms
    by (auto simp: rejoinMasterFlashBack_def R3_def Let_def steps_emit split: if_splits option.splits)
  note cs = this
  from cs show "RConf R1 = RConf R"
    by cases (auto dest: flashback_repoint_trace(2) simp: t3)
  from cs show "\<exists>ops. trace (RCl R1) = trace (RCl R) @ ops \<and> attach_ops E i cr cl0 ops"
  proof cases
    case stop
    then show ?thesis using steps_trace [OF stop(1)] by (auto simp: attach_ops_def)
  next
    case (go g)
    from flashback_repoint_trace(1) [OF go(2)] obtain mid opt post where
      "trace (RCl R1) = trace (RCl (R3 g)) @ mid @ OpChangeMaster i opt # post" "list_all (still i) (mid @ post)" by blast
    with go(1) t3 show ?thesis
      by (intro exI [of _ "[OpJob i ''mysqlbinlog --flashback'', OpJob i ''mysql'', OpSetGTIDSlavePos i (Sprint g)] @ mid @
              OpChangeMaster i opt # post"])
        (auto simp: attach_ops_def)
  qed
qed

text \<open>A run that compares server \<open>i\<close> with the election in some cluster \<open>cl0\<close> and then sends what that allows.\<close>

definition guarded :: "rejoin_env \<Rightarrow> sid \<Rightarrow> crash \<Rightarrow> cluster \<Rightarrow> cluster \<Rightarrow> bool" where
  "guarded E i cr a b \<longleftrightarrow>
     (\<exists>cl0 ops. steps (still i) a cl0 \<and> attach_ops E i cr cl0 ops \<and> (\<exists>B. list_all (still i) B \<and> trace b = trace cl0 @ ops @ B))"

lemma guardedI:
  assumes "steps (still i) a cl0" "attach_ops E i cr cl0 ops" "trace b = trace cl0 @ ops"
  shows "guarded E i cr a b"
  unfolding guarded_def using assms by (intro exI [of _ cl0] exI [of _ ops] conjI exI [of _ "[]"]) auto

lemma guarded_still: "steps (still i) a b \<Longrightarrow> guarded E i cr a b"
  unfolding guarded_def by (intro exI [of _ b] exI [of _ "[]"]) (simp add: attach_ops_def)

lemma guarded_before: "steps (still i) a b \<Longrightarrow> guarded E i cr b c \<Longrightarrow> guarded E i cr a c"
  unfolding guarded_def using steps_trans by blast

lemma guarded_after:
  assumes "guarded E i cr a b" "steps (still i) b c"
  shows "guarded E i cr a c"
proof -
  obtain C where C: "trace c = trace b @ C" "list_all (still i) C" using steps_trace [OF assms(2)] by blast
  from assms(1) obtain cl0 ops B where "steps (still i) a cl0" "attach_ops E i cr cl0 ops" "list_all (still i) B"
    "trace b = trace cl0 @ ops @ B" unfolding guarded_def by blast
  with C show ?thesis
    unfolding guarded_def by (intro exI [of _ cl0] exI [of _ ops] conjI exI [of _ "B @ C"]) auto
qed

lemma incremental_guarded:
  assumes "rejoinMasterIncremental E i cr R = Some (ok, R1)"
  shows "guarded E i cr (RCl R) (RCl R1)" and "RConf R1 = RConf R"
proof -
  let ?R0 = "incremental_prepare E i R"
  have pre: "steps (still i) (RCl R) (RCl ?R0)" by (rule incremental_prepare_still)
  have check: "RCl R2 = RCl ?R0 \<and> RConf R2 = RConf R" if "flashback_check i cr ?R0 = Some R2" for R2
    using that by (auto simp: flashback_check_def split: option.splits if_splits)
  have "guarded E i cr (RCl R) (RCl R1) \<and> RConf R1 = RConf R"
  proof (cases "AutorejoinForceRestore (RConf R)")
    case True
    with assms show ?thesis by (auto simp: rejoinMasterIncremental_def intro: guarded_still)
  next
    case nf: False
    show ?thesis
    proof (cases "\<not> isReplicationAheadOfMasterElection E i cr (RCl ?R0) \<or> MxsBinlogOn (Conf (RCl ?R0))")
      case True
      with nf assms obtain ok2 where s: "rejoinMasterSync E i cr ?R0 = Some (ok2, R1)"
        by (auto simp: rejoinMasterIncremental_def Let_def)
      obtain opt post where "trace (RCl R1) = trace (RCl ?R0) @ OpChangeMaster i opt # post" "list_all (still i) post"
        using sync_attach(1) [OF s] by blast
      with True pre sync_attach(2) [OF s] show ?thesis
        by (auto intro!: guardedI [of i "RCl R" "RCl ?R0" E cr "OpChangeMaster i opt # post"] simp: attach_ops_def)
    next
      case ahead: False
      with nf assms consider "R1 = ?R0"
        | R2 where "flashback_check i cr ?R0 = Some R2" "R1 = R2"
        | R2 where "flashback_check i cr ?R0 = Some R2" "rejoinMasterFlashBack E i cr R2 = Some (ok, R1)"
        by (auto simp: rejoinMasterIncremental_def Let_def split: if_splits option.splits)
      then show ?thesis
      proof cases
        case (3 R2)
        from flashback_attach(1) [OF 3(2), of "RCl ?R0"] obtain ops where
          "trace (RCl R1) = trace (RCl R2) @ ops" "attach_ops E i cr (RCl ?R0) ops" by blast
        with check [OF 3(1)] pre flashback_attach(2) [OF 3(2)] show ?thesis
          by (auto intro!: guardedI [of i "RCl R" "RCl ?R0" E cr ops])
      next
        case 1
        then show ?thesis using guarded_still [OF pre] by simp
      next
        case (2 R2)
        then show ?thesis using guarded_still [OF pre] check [of R2] by simp
      qed
    qed
  qed
  then show "guarded E i cr (RCl R) (RCl R1)" "RConf R1 = RConf R" by auto
qed

lemma known_crash_guarded:
  assumes "rejoin_known_crash E i cr R = Some R1" "\<not> AutorejoinMysqldump (RConf R)"
  shows "guarded E i cr (RCl R) (RCl R1)"
proof -
  define R0 where "R0 = (if AutorejoinBackupBinlog (RConf R) then snd (backupBinlog E i R) else R)"
  have pre: "steps (still i) (RCl R) (RCl R0)" "RConf R0 = RConf R"
    using backupBinlog_still by (auto simp: R0_def)
  obtain ok R2 R3 where inc: "rejoinMasterIncremental E i cr R0 = Some (ok, R2)"
    and sst: "if ok then R3 = R2 else \<exists>ok2. RejoinMasterSST E i R2 = Some (ok2, R3)"
    and R1: "R1 = (if AutorejoinBackupBinlog (RConf R3) then saveBinlog E i R3 else R3)"
    using assms(1) unfolding rejoin_known_crash_def R0_def [symmetric] Let_def
    by (auto split: option.splits bool.splits)
  have "steps (still i) (RCl R2) (RCl R3)"
    using sst SST_still(1) [of R2 E i] incremental_guarded(2) [OF inc] pre(2) assms(2) by (auto split: if_splits)
  moreover have "steps (still i) (RCl R3) (RCl R1)"
    by (simp add: R1 saveBinlog_def steps_emit)
  ultimately show ?thesis
    using guarded_before [OF pre(1)] incremental_guarded(1) [OF inc] guarded_after by blast
qed

text \<open>The only repointing of a guarded run is the one it allows.\<close>

lemma unique_move:
  assumes "pre @ OpChangeMaster i opt # post = A @ OpChangeMaster i opt1 # B" "list_all (still i) (A @ B)"
  shows "pre = A"
proof -
  have "takeWhile (still i) (A @ OpChangeMaster i opt1 # B) = A"
    using assms(2) by (simp add: takeWhile_append2 list_all_iff)
  moreover have "list_all (still i) pre"
  proof (rule ccontr)
    assume "\<not> list_all (still i) pre"
    then have "2 \<le> length (filter (\<lambda>x. \<not> still i x) (pre @ OpChangeMaster i opt # post))"
      by (auto simp: list_all_iff filter_empty_conv Suc_le_eq)
    moreover have "length (filter (\<lambda>x. \<not> still i x) (A @ OpChangeMaster i opt1 # B)) = 1"
      using assms(2) by (simp add: list_all_iff)
    ultimately show False using assms(1) by simp
  qed
  then have "takeWhile (still i) (pre @ OpChangeMaster i opt # post) = pre"
    by (simp add: takeWhile_append2 list_all_iff)
  ultimately show ?thesis using assms(1) by simp
qed

lemma guarded_move:
  assumes "guarded E i cr a b" "trace b = trace a @ pre @ OpChangeMaster i opt # post"
  shows "\<exists>cl0 before. steps (still i) a cl0 \<and> trace cl0 = trace a @ before \<and> prefix before pre \<and>
     (\<not> isReplicationAheadOfMasterElection E i cr cl0 \<or> MxsBinlogOn (Conf a) \<or>
      (\<exists>g. CrFailoverIOGtid cr = Some g \<and>
         prefix [OpJob i ''mysqlbinlog --flashback'', OpJob i ''mysql'', OpSetGTIDSlavePos i (Sprint g)]
           (drop (length before) pre)))"
proof -
  obtain cl0 ops B where s: "steps (still i) a cl0" and at: "attach_ops E i cr cl0 ops" and B: "list_all (still i) B"
    and tb: "trace b = trace cl0 @ ops @ B" using assms(1) unfolding guarded_def by blast
  obtain A where A: "trace cl0 = trace a @ A" "list_all (still i) A" using steps_trace [OF s] by blast
  have eq: "pre @ OpChangeMaster i opt # post = A @ ops @ B" using assms(2) tb A(1) by simp
  have no: "\<not> list_all (still i) ops"
  proof
    assume "list_all (still i) ops"
    with A B have "list_all (still i) (A @ ops @ B)" by simp
    then show False using eq [symmetric] by simp
  qed
  from at no consider
      (direct) opt1 rest where "\<not> isReplicationAheadOfMasterElection E i cr cl0 \<or> MxsBinlogOn (Conf cl0)"
        "ops = OpChangeMaster i opt1 # rest" "list_all (still i) rest"
    | (flash) g mid opt1 rest where "CrFailoverIOGtid cr = Some g" "list_all (still i) (mid @ rest)"
        "ops = [OpJob i ''mysqlbinlog --flashback'', OpJob i ''mysql'', OpSetGTIDSlavePos i (Sprint g)] @ mid @
              OpChangeMaster i opt1 # rest"
    unfolding attach_ops_def by blast
  then show ?thesis
  proof cases
    case direct
    then have "pre = A" using unique_move [of pre i opt post A opt1 "rest @ B"] eq A(2) B by simp
    with direct s A steps_fields(3) [OF s] show ?thesis by auto
  next
    case (flash g mid opt1 rest)
    let ?fb = "[OpJob i ''mysqlbinlog --flashback'', OpJob i ''mysql'', OpSetGTIDSlavePos i (Sprint g)]"
    have "pre = A @ ?fb @ mid" using unique_move [of pre i opt post "A @ ?fb @ mid" opt1 "rest @ B"] eq A(2) B flash by simp
    with flash(1) s A show ?thesis by (intro exI [of _ cl0] exI [of _ A]) (auto simp: prefix_def)
  qed
qed

section \<open>Properties\<close>

lemma unknown_crash_still:
  assumes "rejoin_unknown_crash E i m R = Some (ok, R1)" "\<not> AutorejoinMysqldump (RConf R)"
  shows "steps (still i) (RCl R) (RCl R1)"
proof -
  define R0 where "R0 = on_cl (set_state ''ERR00066'' ''ERROR'' [FS (URL (srv (RCl R) i)), FS (URL (srv (RCl R) m))]
      ''REJOIN'' '''') R"
  have R0: "steps (still i) (RCl R) (RCl R0)" "\<not> AutorejoinMysqldump (RConf R0)"
    using assms(2) by (simp_all add: R0_def steps_set_state)
  from assms(1) obtain ok1 where "RejoinMasterSST E i R0 = Some (ok1, R1) \<or> ReseedMasterSST E i R0 = Some (ok1, R1) \<or> R1 = R0"
    unfolding rejoin_unknown_crash_def Let_def R0_def [symmetric] by (auto split: if_splits)
  then show ?thesis using SST_still [OF R0(2), of E i] steps_trans [OF R0(1)] R0(1) by blast
qed

lemma rejoin_to_master_cases:
  assumes "rejoin_to_master E i m R = Some (ok, R1)" and "\<not> AutorejoinMysqldump (RConf R)"
  obtains (none) "steps (still i) (RCl R) (RCl R1)"
  | (known) R2 cr R3 where "steps (still i) (RCl R) (RCl R2)" "RConf R2 = RConf R"
      "getCrashFromJoiner (URL (srv (RCl R2) i)) (RCl R2) = Some cr"
      "rejoin_known_crash E i cr R2 = Some R3" "RCl R1 = emit OpProxiesBackendStateChange (RCl R3)"
proof (cases "URL (srv (RCl R) i) = URL (srv (RCl R) m)")
  case True
  with assms that(1) show ?thesis by (simp add: rejoin_to_master_def)
next
  case False
  let ?w = "on_cl (set_state ''WARN0022'' ''WARNING'' [FS (URL (srv (RCl R) i)), FS (URL (srv (RCl R) m))] ''REJOIN'' '''') R"
  obtain Rs where script: "RejoinScript E i ?w = Some Rs"
    using assms False by (auto simp: rejoin_to_master_def Let_def split: option.splits)
  define R2 where "R2 = (if FailoverSemiSyncState (Conf (RCl Rs)) then on_cl (SetSemiSyncReplica i) Rs else Rs)"
  have "steps (still i) (RCl R) (RCl ?w)" by (simp add: steps_set_state)
  then have s: "steps (still i) (RCl R) (RCl Rs)" "RConf Rs = RConf R"
    using RejoinScript_still [OF script] steps_trans by auto
  then have s2: "steps (still i) (RCl R) (RCl R2)" "RConf R2 = RConf R" by (simp_all add: R2_def steps_still)
  have eq: "rejoin_to_master E i m R =
      (if MultiMasterGrouprep (Conf (RCl Rs)) then
         Some (True, on_cl (emit OpProxiesBackendStateChange) (on_cl (emit (OpSQL i ''StartGroupReplication'')) Rs))
       else case getCrashFromJoiner (URL (srv (RCl R2) i)) (RCl R2) of
            None \<Rightarrow> rejoin_unknown_crash E i m R2
          | Some cr \<Rightarrow> map_option (\<lambda>R3. (True, on_cl (emit OpProxiesBackendStateChange) R3)) (rejoin_known_crash E i cr R2))"
    using False script by (simp add: rejoin_to_master_def Let_def R2_def cong: option.case_cong)
  show ?thesis
  proof (cases "MultiMasterGrouprep (Conf (RCl Rs))")
    case True
    with assms(1) eq s that(1) show ?thesis by (auto simp: steps_emit)
  next
    case nogrp: False
    show ?thesis
    proof (cases "getCrashFromJoiner (URL (srv (RCl R2) i)) (RCl R2)")
      case None
      with nogrp assms(1) eq have "rejoin_unknown_crash E i m R2 = Some (ok, R1)" by simp
      from unknown_crash_still [OF this] s2 assms(2) that(1) show ?thesis using steps_trans by metis
    next
      case (Some cr)
      with nogrp assms(1) eq s2 that(2) show ?thesis by auto
    qed
  qed
qed

lemma RejoinMaster_guarded:
  assumes "RejoinMaster E i R = Some (ok, R1)" "master (RCl R) = Some m" "\<not> AutorejoinMysqldump (RConf R)"
  shows "steps (still i) (RCl R) (RCl R1) \<or>
    (\<exists>cr. getCrashFromJoiner (URL (srv (RCl R) i)) (RCl R) = Some cr \<and> guarded E i cr (RCl R) (RCl R1))"
proof (cases "GetTopology (RCl R) = TopoMultiMasterWsrep \<or> IsInFailover (RCl R)")
  case True
  then show ?thesis using assms(1) by (simp add: RejoinMaster_def split: if_splits)
next
  case False
  let ?R0 = "R\<lparr>canFlashBack := True\<rparr>"
  have "rejoin_to_master E i m ?R0 = Some (ok, R1)" using False assms(1,2) by (simp add: RejoinMaster_def)
  then show ?thesis
  proof (rule rejoin_to_master_cases)
    fix R2 cr R3
    assume s: "steps (still i) (RCl ?R0) (RCl R2)" "RConf R2 = RConf ?R0"
      and cr: "getCrashFromJoiner (URL (srv (RCl R2) i)) (RCl R2) = Some cr"
      and k: "rejoin_known_crash E i cr R2 = Some R3" and R1: "RCl R1 = emit OpProxiesBackendStateChange (RCl R3)"
    have s': "steps (still i) (RCl R) (RCl R2)" using s(1) by simp
    have "guarded E i cr (RCl R) (RCl R3)"
      using known_crash_guarded [OF k] guarded_before [OF s'] assms(3) s(2) by simp
    then have "guarded E i cr (RCl R) (RCl R1)"
      by (rule guarded_after) (simp add: R1 steps_emit)
    moreover have "getCrashFromJoiner (URL (srv (RCl R) i)) (RCl R) = Some cr"
      using cr steps_fields(11,15) [OF s'] by (simp add: getCrashFromJoiner_def)
    ultimately show ?thesis by blast
  qed (use assms(3) in simp_all)
qed


text \<open>An old master \<open>db0\<close> that stopped two transactions before the replica \<open>db2\<close> elected in its place.\<close>

definition sample_crash :: crash where
  "sample_crash = \<lparr>CrURL = ''db0:3306'', CrFailoverMasterLogFile = '''', CrFailoverMasterLogPos = '''',
     CrNewMasterLogFile = '''', CrNewMasterLogPos = '''', CrFailoverSemiSyncSlaveStatus = False,
     CrFailoverIOGtid = Some [\<lparr>DomainID = 0, GServerID = 1, SeqNo = 42\<rparr>], CrElectedMasterURL = ''db2:3306'',
     CrUnixTimestamp = 0, CrSwitchover = False\<rparr>"

definition plain_rejoin :: rejoin_conf where
  "plain_rejoin = \<lparr>Autoseed = False, AutorejoinBackupBinlog = False, AutorejoinMysqldump = False,
     AutorejoinLogicalBackup = False, AutorejoinPhysicalBackup = False, AutorejoinZFSFlashback = False,
     AutorejoinForceRestore = False, ReplicationNoRelay = True, BackupLoadScript = '''', RejoinScriptPath = ''''\<rparr>"

definition sample_rejoin :: rejoin where
  "sample_rejoin = \<lparr>RCl = sample_cluster\<lparr>master := Some 2, Crashes := [sample_crash],
       srv := (srv sample_cluster)(0 := (srv sample_cluster 0)\<lparr>CurrentGtid := [\<lparr>DomainID = 0, GServerID = 1, SeqNo = 40\<rparr>]\<rparr>)\<rparr>,
     RConf = plain_rejoin, lastmaster = None, canFlashBack = False, IsReseeding = (\<lambda>_. ''''), PreferedBackup = (\<lambda>_. False)\<rparr>"

definition rejoin_calm :: rejoin_env where
  "rejoin_calm = \<lparr>Db = calm_env, BinlogTool = True, ClientTool = True, DumpTool = True, WorkDir = True, PipeOpens = True,
     BinlogEvents = (\<lambda>_ _. None)\<rparr>"

lemma sample_rejoin_eval:
  "case RejoinMaster rejoin_calm 0 sample_rejoin of
     None \<Rightarrow> False
   | Some (ok, R1) \<Rightarrow>
       take 2 (trace (RCl R1)) = [OpRefresh 0, OpSetReadOnly 0 True] \<and>
       (case trace (RCl R1) ! 2 of OpChangeMaster j opt \<Rightarrow> j = 0 | _ \<Rightarrow> False) \<and> length (trace (RCl R1)) > 2"
  by code_simp

lemma sample_rejoin_run:
  "\<exists>ok R1 pre opt post. RejoinMaster rejoin_calm 0 sample_rejoin = Some (ok, R1) \<and>
     trace (RCl R1) = trace (RCl sample_rejoin) @ pre @ OpChangeMaster 0 opt # post"
proof -
  obtain ok R1 where r: "RejoinMaster rejoin_calm 0 sample_rejoin = Some (ok, R1)"
    "case trace (RCl R1) ! 2 of OpChangeMaster j opt \<Rightarrow> j = 0 | _ \<Rightarrow> False" "2 < length (trace (RCl R1))"
    using sample_rejoin_eval by (auto split: option.splits)
  then obtain opt where "trace (RCl R1) ! 2 = OpChangeMaster 0 opt" by (auto split: dbop.splits)
  then have "trace (RCl R1) = take 2 (trace (RCl R1)) @ OpChangeMaster 0 opt # drop 3 (trace (RCl R1))"
    using id_take_nth_drop [OF r(3)] by simp
  moreover have "trace (RCl sample_rejoin) = []"
    by (simp add: sample_rejoin_def sample_cluster_def zero_cluster_def)
  ultimately show ?thesis using r(1) by (metis append_Nil)
qed


text \<open>
  On MySQL and Percona 5.7 or later, a server that comes back while the cluster has forgotten its master, and that
  is not the last seen master, is to become its replica. The code then reads the address of the current master,
  which is nil: once the server is read-only the rejoin panics.
\<close>

theorem rejoin_to_last_master_panics:
  assumes "GetTopology (RCl R) \<noteq> TopoMultiMasterWsrep" "\<not> IsInFailover (RCl R)" "master (RCl R) = None"
    "lastmaster R = Some lm" "ServerID (srv (RCl R) lm) \<noteq> ServerID (srv (RCl R) i)" "\<not> FailRestartUnsafe (Conf (RCl R))"
    "IsMySQLOrPerconaGreater57 (Some (DBVersion (srv (RCl R) i)))" "fst (SetReadOnly (Db E) i (RCl R))"
  shows "RejoinMaster E i R = None"
proof -
  obtain cl1 where ro: "SetReadOnly (Db E) i (RCl R) = (True, cl1)" using assms(8) by (metis prod.collapse)
  have "srv cl1 = srv (RCl R) \<and> master cl1 = master (RCl R)"
    using ro by (auto simp: SetReadOnly_def run_def emit_def Let_def split: if_splits)
  then show ?thesis
    using assms ro
    by (simp add: RejoinMaster_def rediscover_master_def rejoinMasterAsSlave_def SetReplicationGTIDCurrentPosFromServer_def)
qed

definition forgotten_master :: rejoin where
  "forgotten_master = sample_rejoin\<lparr>RCl := (RCl sample_rejoin)\<lparr>master := None,
     srv := (\<lambda>i. (srv (RCl sample_rejoin) i)\<lparr>DBVersion := Version ''MySQL'' 8 0 30 '''' '''' None\<rparr>)\<rparr>, lastmaster := Some 2\<rparr>"

theorem rejoin_to_last_master_panics_witness: "RejoinMaster rejoin_calm 0 forgotten_master = None"
proof -
  have "GetTopology (RCl forgotten_master) \<noteq> TopoMultiMasterWsrep \<and> \<not> IsInFailover (RCl forgotten_master)"
    "master (RCl forgotten_master) = None" "lastmaster forgotten_master = Some 2"
    "ServerID (srv (RCl forgotten_master) 2) \<noteq> ServerID (srv (RCl forgotten_master) 0)"
    "\<not> FailRestartUnsafe (Conf (RCl forgotten_master))"
    "IsMySQLOrPerconaGreater57 (Some (DBVersion (srv (RCl forgotten_master) 0)))"
    "fst (SetReadOnly (Db rejoin_calm) 0 (RCl forgotten_master))"
    by code_simp+
  then show ?thesis by (intro rejoin_to_last_master_panics [where lm = 2]) auto
qed

subsection \<open>Replicas\<close>

text \<open>The commands the rejoin of replica \<open>i\<close> of \<open>c\<close> may send: to these two, and none that opens a server for writes.\<close>

definition replica_op :: "sid \<Rightarrow> sid \<Rightarrow> dbop \<Rightarrow> bool" where
  "replica_op i c o1 \<longleftrightarrow> op_target o1 \<in> {None, Some i, Some c} \<and> \<not> opens_writes o1"

lemma replica_ops [simp]:
  "replica_op i c (OpChangeMaster i opt)" "replica_op i c (OpMasterPosWait i f p w)" "replica_op i c (OpSetReadOnly i True)"
  "replica_op i c (OpStopSlave i w)" "replica_op i c (OpStartSlave i w)" "replica_op i c (OpStopSlave c w)"
  "replica_op i c (OpStartSlave c w)" "replica_op i c OpProxiesBackendStateChange" "replica_op i c OpProxiesFailover"
  "replica_op i c (OpStateScript j st st1)"
  by (simp_all add: replica_op_def opens_writes_def)

lemma steps_replica:
  "steps (replica_op i c) a b \<Longrightarrow> steps (replica_op i c) a (StartSlave i b)"
  "steps (replica_op i c) a b \<Longrightarrow> steps (replica_op i c) a (StopSlave i b)"
  "steps (replica_op i c) a b \<Longrightarrow> steps (replica_op i c) a (StartSlave c b)"
  "steps (replica_op i c) a b \<Longrightarrow> steps (replica_op i c) a (snd (run_stop E i b))"
  "steps (replica_op i c) a b \<Longrightarrow> steps (replica_op i c) a (snd (run_stop E c b))"
  "steps (replica_op i c) a b \<Longrightarrow> steps (replica_op i c) a (switch_maintenance i b)"
  by (auto simp: StartSlave_def StopSlave_def run_stop_def run_def switch_maintenance_def intro!: steps_emit steps_upd_srv)

lemma steps_slave_pos:
  assumes "SetReplicationGTIDSlavePosFromServer E i m b = Some (ok, b1)" "steps (replica_op i c) a b"
  shows "steps (replica_op i c) a b1"
  using assms
  by (auto simp: SetReplicationGTIDSlavePosFromServer_def run_def Let_def intro!: steps_emit steps_replica split: option.splits)

lemma positional_switch_steps:
  assumes "positional_switch E i c m R = Some R1" "steps (replica_op i c) a (RCl R)"
  shows "steps (replica_op i c) a (RCl R1)"
  using assms by (auto simp: positional_switch_def Let_def intro!: steps_emit steps_replica split: if_splits option.splits)

lemma rejoin_positional_steps:
  assumes "rejoin_positional E i c m R = Some R1"
  shows "steps (replica_op i c) (RCl R) (RCl R1)"
proof -
  let ?R0 = "R\<lparr>RCl := snd (run_stop (Db E) c (RCl R))\<rparr>"
  have s: "steps (replica_op i c) (RCl R) (RCl ?R0)" by (simp add: steps_replica)
  have p: "steps (replica_op i c) (RCl R) (RCl R3)" if "positional_switch E i c m ?R0 = Some R3" for R3
    by (rule positional_switch_steps [OF that s])
  show ?thesis
    using assms s
    by (auto simp: rejoin_positional_def Let_def case_prod_beta steps_set_state split: if_splits option.splits
        intro!: steps_emit steps_replica(1,3,6) dest!: p)
qed

lemma rejoin_gtid_steps:
  assumes "rejoin_gtid E i m R = Some (ok, R1)"
  shows "steps (replica_op i c) (RCl R) (RCl R1)"
proof -
  let ?R0 = "R\<lparr>RCl := snd (run_stop (Db E) i (RCl R))\<rparr>"
  have s: "steps (replica_op i c) (RCl R) (RCl ?R0)" by (simp add: steps_replica)
  consider "RCl R1 = set_state ''ERR00065'' ''ERROR'' [FS (URL (srv (RCl R) i)), FS (URL (srv (RCl R) m))] ''REJOIN'' '''' (RCl R)"
    | "R1 = ?R0"
    | ok2 cl2 where "SetReplicationGTIDSlavePosFromServer (Db E) i (Some m) (RCl ?R0) = Some (ok2, cl2)"
        "RCl R1 = cl2 \<or> RCl R1 = StartSlave i cl2"
    using assms by (auto simp: rejoin_gtid_def lift_cl_def Let_def case_prod_beta split: if_splits option.splits)
  then show ?thesis
  proof cases
    case (3 ok2 cl2)
    then show ?thesis using steps_slave_pos [OF 3(1) s] by (auto intro: steps_replica)
  qed (use s in \<open>simp_all add: steps_set_state\<close>)
qed

lemma repoint_replica_steps:
  assumes "repoint_replica E i ss c R = Some (ok, R1)"
  shows "steps (replica_op i c) (RCl R) (RCl R1)"
proof -
  define R2 where "R2 = (\<lambda>m. let R1 = on_cl (set_state ''ERR00067'' ''ERROR'' [FS (URL (srv (RCl R) i)), FS (PrevState (srv (RCl R) i)),
                                FS (SlaveIORunning ss), FS (URL (srv (RCl R) m))] ''REJOIN'' '''') R
     in if IsDown (srv (RCl R1) m) \<and> \<not> FailRestartUnsafe (Conf (RCl R1))
        then on_cl (upd_srv i (\<lambda>s. s\<lparr>HaveNoMasterOnStart := True\<rparr>)) R1 else R1)"
  have s: "steps (replica_op i c) (RCl R) (RCl (R2 m))" for m
    by (simp add: R2_def Let_def steps_upd_srv steps_set_state)
  have r: "repoint_replica E i ss c R =
     (case master (RCl R) of
           None \<Rightarrow> Some (True, R)
         | Some m \<Rightarrow>
             if Id (srv (RCl R) m) = Id (srv (RCl R) i) then Some (True, R)
             else if URL (srv (RCl R) m) = URL (srv (RCl R) c) then Some (False, R)
             else if \<not> IsMaxscale (srv (RCl (R2 m)) c) \<and> \<not> MultiTierSlave (Conf (RCl (R2 m))) \<and> ReplicationNoRelay (RConf (R2 m)) then
                    if HasGTIDReplication (Conf (RCl (R2 m))) (srv (RCl (R2 m)) i) then rejoin_gtid E i m (R2 m)
                    else map_option (Pair True) (rejoin_positional E i c m (R2 m))
                  else Some (True, R2 m))"
    by (simp only: repoint_replica_def R2_def Let_def)
  show ?thesis
  proof (cases "R1 = R \<or> (\<exists>m. R1 = R2 m)")
    case True
    then show ?thesis using s by auto
  next
    case False
    with assms obtain m where "(\<exists>ok2. rejoin_gtid E i m (R2 m) = Some (ok2, R1)) \<or> rejoin_positional E i c m (R2 m) = Some R1"
      unfolding r by (auto split: if_splits option.splits)
    then show ?thesis
      using steps_trans [OF s rejoin_gtid_steps] steps_trans [OF s rejoin_positional_steps] by blast
  qed
qed

lemma reintroduce_effect:
  assumes "reintroduce E i R = (ok, R1)"
  shows "master (RCl R1) = master (RCl R) \<and> Servers (RCl R1) = Servers (RCl R) \<and> Crashes (RCl R1) = Crashes (RCl R) \<and>
     (slaves (RCl R1) = slaves (RCl R) \<or>
      slaves (RCl R1) = slaves (RCl R) @ [i] \<and> PrevState (srv (RCl R) i) \<in> {stateFailed, ''StandAlone''} \<and>
      State (srv (RCl R1) i) = stateSlave \<and> FailCount (srv (RCl R1) i) = 0) \<and>
     (\<exists>ops. trace (RCl R1) = trace (RCl R) @ ops \<and> list_all (replica_op i c) ops)"
  using assms
  by (auto simp: reintroduce_def Server_SetState_def upd_srv_def emit_def Let_def split: if_splits)

text \<open>
  C18: The rejoin of a replica outside rings and Galera never changes the master, the server list or the crash records
  and never opens a server for writes; it talks only to the replica and to the server it replicates from. The replica
  list is unchanged or gains the replica, and then the replica had failed and is now in state slave with no missed
  probe. A replica that already follows the current master is left alone.
\<close>

theorem replica_rejoin_safe:
  assumes "rejoinSlave E i ss R = Some (ok, R1)" "GetTopology (RCl R) \<noteq> TopoMultiMasterRing"
    "GetMasterFromReplication (srv (RCl R) i) (RCl R) = Some c"
  shows "master (RCl R1) = master (RCl R) \<and> Servers (RCl R1) = Servers (RCl R) \<and> Crashes (RCl R1) = Crashes (RCl R) \<and>
     (slaves (RCl R1) = slaves (RCl R) \<or>
      slaves (RCl R1) = slaves (RCl R) @ [i] \<and> State (srv (RCl R1) i) = stateSlave \<and> FailCount (srv (RCl R1) i) = 0) \<and>
     (\<exists>ops. trace (RCl R1) = trace (RCl R) @ ops \<and>
        list_all (\<lambda>o1. op_target o1 \<in> {None, Some i, Some c} \<and> \<not> opens_writes o1) ops) \<and>
     (\<forall>m. master (RCl R) = Some m \<and> Id (srv (RCl R) m) \<noteq> Id (srv (RCl R) i) \<and> URL (srv (RCl R) m) = URL (srv (RCl R) c) \<and>
        GetTopology (RCl R) \<noteq> TopoMultiMasterWsrep \<longrightarrow> \<not> ok \<and> R1 = R)"
proof (cases "GetTopology (RCl R) = TopoMultiMasterWsrep")
  case True
  then show ?thesis using assms by (auto simp: rejoinSlave_def)
next
  case False
  then obtain ok0 R0 where rep: "repoint_replica E i ss c R = Some (ok0, R0)"
    and R1: "if ok0 then reintroduce E i R0 = (ok, R1) else ok = False \<and> R1 = R0"
    using assms by (auto simp: rejoinSlave_def split: option.splits bool.splits)
  have s: "steps (replica_op i c) (RCl R) (RCl R0)" by (rule repoint_replica_steps [OF rep])
  then obtain ops0 where ops0: "trace (RCl R0) = trace (RCl R) @ ops0" "list_all (replica_op i c) ops0"
    using steps_trace by blast
  have same: "\<forall>m. master (RCl R) = Some m \<and> Id (srv (RCl R) m) \<noteq> Id (srv (RCl R) i) \<and> URL (srv (RCl R) m) = URL (srv (RCl R) c)
      \<longrightarrow> \<not> ok \<and> R1 = R"
    using rep R1 by (auto simp: repoint_replica_def Let_def split: if_splits)
  have op: "list_all (\<lambda>o1. op_target o1 \<in> {None, Some i, Some c} \<and> \<not> opens_writes o1) = list_all (replica_op i c)"
    by (simp add: replica_op_def [abs_def])
  show ?thesis
  proof (cases ok0)
    case True
    with R1 reintroduce_effect [of E i R0 ok R1 c] steps_fields(4,5,6,11) [OF s] ops0 same show ?thesis
      unfolding op by auto
  next
    case f: False
    with R1 steps_fields(4,5,6,11) [OF s] ops0 same show ?thesis unfolding op by auto
  qed
qed

theorem replica_rejoin_safe_witness:
  "\<exists>ok R1. rejoinSlave rejoin_calm 1 zero_slave_status sample_rejoin = Some (ok, R1) \<and> master (RCl R1) = Some 2"
proof -
  have c: "case rejoinSlave rejoin_calm 1 zero_slave_status sample_rejoin of None \<Rightarrow> False | Some _ \<Rightarrow> True"
    "GetTopology (RCl sample_rejoin) \<noteq> TopoMultiMasterRing"
    "GetMasterFromReplication (srv (RCl sample_rejoin) 1) (RCl sample_rejoin) = Some 0"
    by code_simp+
  then obtain ok R1 where r: "rejoinSlave rejoin_calm 1 zero_slave_status sample_rejoin = Some (ok, R1)"
    by (auto split: option.splits)
  have "master (RCl sample_rejoin) = Some 2" by (simp add: sample_rejoin_def)
  with replica_rejoin_safe [OF r c(2,3)] r show ?thesis by auto
qed

end
