(* ===== verification/Topology.thy ===== *)
theory Topology
  imports Split Rejoin SrvCheck FailCheck
begin

text \<open>
  Topology discovery, \<open>src/cluster/cluster_topo.go\<close>: which servers are replicas, which one is the master, whether the
  cluster is down, which topology it has, and the corrections a discovery makes on the way.

  The state is the cluster with the rejoin state and the fields only discovery uses. What the pings of a round and
  the Spider shard discovery leave in it are arguments of the model (\<open>Ping\<close> refreshes the view of a server from the
  database). A server list is never empty once hosts are configured, so an empty list stands for a nil slice.
  \<open>None\<close> is a run-time panic.
\<close>

section \<open>State\<close>

record srv_ext =
  IsWsrepPrimary :: bool
  IsGroupReplicationSlave :: bool
  IsGroupReplicationMaster :: bool
  BinlogDumpThreads :: int
  HaveHealthyReplica :: bool
  IsVirtualMaster :: bool

record topo =
  TR :: rejoin
  ext :: "sid \<Rightarrow> srv_ext"
  LogSlaveServers :: "string list"
  ClusterIsDown :: bool
  IsClusterDown :: bool
  runOnceAfterTopology :: bool
  ActivePassive :: bool
  MultiMasterRing :: bool
  MultiMasterRingUnsafe :: bool
  MultiMasterWsrep :: bool
  Spider :: bool
  MasterSlavePgStream :: bool
  MasterSlavePgLogical :: bool
  IsPostgres :: bool
  ConfTopology :: string
  TopologyTarget :: string
  TStatus :: string
  TIsSplitBrain :: bool
  TIsLostMajority :: bool
  ArbitratorAddress :: string

record topo_env =
  RE :: rejoin_env
  PingAll :: "sid list \<Rightarrow> topo \<Rightarrow> topo"
  SpiderShardsDiscovery :: "topo \<Rightarrow> topo"

abbreviation "TopoUnknown \<equiv> ''unknown''"
abbreviation "TopoMasterSlave \<equiv> ''master-slave''"
abbreviation "TopoBinlogServer \<equiv> ''binlog-server''"
abbreviation "TopoMultiTierSlave \<equiv> ''multi-tier-slave''"
abbreviation "TopoMasterSlavePgStream \<equiv> ''master-slave-pg-stream''"
abbreviation "TopoMasterSlavePgLog \<equiv> ''master-slave-pg-logical''"
abbreviation "stateUnconn \<equiv> ''StandAlone''"

abbreviation cl :: "topo \<Rightarrow> cluster" where "cl T \<equiv> RCl (TR T)"

definition on_topo :: "(cluster \<Rightarrow> cluster) \<Rightarrow> topo \<Rightarrow> topo" where
  "on_topo f T = T\<lparr>TR := on_cl f (TR T)\<rparr>"

definition open_writes :: "topo_env \<Rightarrow> sid \<Rightarrow> topo \<Rightarrow> topo" where
  "open_writes E i T = on_topo (\<lambda>c. snd (SetReadWrite (Db (RE E)) i c)) T"

section \<open>Predicates\<close>

definition HasAllDbUp :: "cluster \<Rightarrow> bool" where
  "HasAllDbUp c =
     (if Servers c = [] then False
      else list_all (\<lambda>i. let s = srv c i in
             if State s = stateFailed then False
             else if State s = stateSuspect \<and> GetTopology c \<noteq> TopoUnknown then False
             else HasConn s) (Servers c))"

definition HasNoDbUnconnected :: "cluster \<Rightarrow> bool" where
  "HasNoDbUnconnected c =
     (if Servers c = [] then False
      else list_all (\<lambda>i. let s = srv c i in
             if State s = stateFailed \<or> State s = stateUnconn then False
             else if State s = stateSuspect \<and> GetTopology c \<noteq> TopoUnknown then False
             else HasConn s) (Servers c))"

definition HasSlaves :: "server \<Rightarrow> sid list \<Rightarrow> cluster \<Rightarrow> bool" where
  "HasSlaves s sib c =
     list_ex (\<lambda>j. case own_status (srv c j) of
                    None \<Rightarrow> False
                  | Some ss \<Rightarrow> ServerID s = MasterServerID ss \<and> ServerID (srv c j) \<noteq> ServerID s) sib"

text \<open>Follows the replication sources, as many steps as there are servers.\<close>

fun cycle_walk :: "nat \<Rightarrow> u64 \<Rightarrow> server \<Rightarrow> cluster \<Rightarrow> bool" where
  "cycle_walk 0 sid0 s c = False"
| "cycle_walk (Suc n) sid0 s c =
     (case GetMasterFromReplication s c of
        None \<Rightarrow> False
      | Some m \<Rightarrow> if ServerID (srv c m) = sid0 then True else cycle_walk n sid0 (srv c m) c)"

definition HasCycling :: "server \<Rightarrow> cluster \<Rightarrow> bool" where
  "HasCycling s c = cycle_walk (length (Servers c)) (ServerID s) s c"

definition IsReadWrite :: "server \<Rightarrow> bool" where
  "IsReadWrite s = (if IsFailed s \<or> State s = stateSuspect then False else \<not> HaveReadOnly s)"

definition GetFailedServer :: "cluster \<Rightarrow> sid option" where
  "GetFailedServer c = find (\<lambda>i. State (srv c i) = stateFailed) (Servers c)"

definition getOnePreferedMaster :: "cluster \<Rightarrow> sid option" where
  "getOnePreferedMaster c =
     (if PrefMaster (Conf c) = '''' then None
      else find (\<lambda>i. SourceClusterName (srv c i) = CName c \<and> IsPrefered (srv c i)) (Servers c))"

definition HasAllSlavesRunning :: "sid list \<Rightarrow> cluster \<Rightarrow> bool" where
  "HasAllSlavesRunning sl c =
     (if sl = [] then False
      else list_all (\<lambda>i. case own_status (srv c i) of
                           None \<Rightarrow> False
                         | Some ss \<Rightarrow> SlaveSQLRunning ss = ''Yes'' \<and> SlaveIORunning ss = ''Yes'') sl)"

section \<open>Cluster down\<close>

definition AllServersFailed :: "cluster \<Rightarrow> bool \<times> cluster" where
  "AllServersFailed c =
     (if list_all (\<lambda>i. IsFailed (srv c i)) (Servers c)
      then (True, set_state ''ERR00077'' ''ERROR'' [] ''TOPO'' '''' c) else (False, c))"

definition TopologyClusterDown :: "topo \<Rightarrow> bool \<times> topo" where
  "TopologyClusterDown T =
     (if (case GetMaster (cl T) of None \<Rightarrow> True | Some m \<Rightarrow> State (srv (cl T) m) = stateFailed) then
        if list_all (\<lambda>i. let s = srv (cl T) i in State s = stateFailed \<or> State s = stateErrorAuth \<or> IsIgnored s)
             (slaves (cl T)) then
          let T1 = (if IsDiscovered (cl T) \<and> master (cl T) \<noteq> None then
                      let T0 = T\<lparr>TR := (TR T)\<lparr>lastmaster := master (cl T)\<rparr>\<rparr>
                      in if \<not> FailRestartUnsafe (Conf (cl T0)) then on_topo (\<lambda>c. c\<lparr>master := None\<rparr>) T0 else T0
                    else T)
          in (True, (on_topo (set_state ''ERR00021'' ''ERROR'' [] ''TOPO'' '''') T1)\<lparr>IsClusterDown := True\<rparr>)
        else (False, T\<lparr>IsClusterDown := False, ClusterIsDown := False\<rparr>)
      else (False, T\<lparr>ClusterIsDown := False\<rparr>))"

definition MultipleSlavesUp :: "server \<Rightarrow> cluster \<Rightarrow> bool" where
  "MultipleSlavesUp candidate c =
     (let ct = length (filter (\<lambda>i. let s = srv c i in
            \<not> IsDown s \<and>
            (Host candidate = GetReplicationMasterHost s \<or> IP candidate = GetReplicationMasterHost s) \<and>
            Port candidate = GetReplicationMasterPort s) (slaves c))
      in if ct > 0 then True else False)"

definition FailedMasterDiscovery :: "cluster \<Rightarrow> cluster option" where
  "FailedMasterDiscovery c =
     (if slaves c = [] then None
      else
        let s0 = srv c (hd (slaves c)); smh = GetReplicationMasterHost s0
        in Some (case find (\<lambda>i. let s = srv c i in
                     (State s = stateFailed \<or> State s = stateErrorAuth) \<and> (Host s = smh \<or> IP s = smh) \<and>
                     Port s = GetReplicationMasterPort s0) (Servers c) of
                   None \<Rightarrow> c
                 | Some i \<Rightarrow>
                     if FailRestartUnsafe (Conf c) \<or> MultipleSlavesUp (srv c i) c
                     then upd_srv i (\<lambda>s. s\<lparr>PrevState := stateMaster\<rparr>) (c\<lparr>master := Some i\<rparr>) else c))"

section \<open>Configured topology\<close>

definition BootstrapTopology :: "string \<Rightarrow> topo \<Rightarrow> topo" where
  "BootstrapTopology t T =
     (let setup = (\<lambda>ring tier nogtid mm mxs wsrep grp name.
            (on_topo (\<lambda>c. c\<lparr>Conf := (Conf c)\<lparr>MultiTierSlave := tier, ForceSlaveNoGtid := nogtid, MultiMaster := mm,
                MxsBinlogOn := mxs, MultiMasterGrouprep := grp\<rparr>, Topology := name\<rparr>) T)
              \<lparr>MultiMasterRing := ring, MultiMasterWsrep := wsrep, TopologyTarget := name\<rparr>)
      in if t = ''master-slave'' then setup False False False False False False False TopoMasterSlave
         else if t = ''master-slave-no-gtid'' then setup False False True False False False False TopoMasterSlave
         else if t = ''multi-master'' then setup False False False True False False False TopoMultiMaster
         else if t = ''multi-tier-slave'' then setup False True False False False False False TopoMultiTierSlave
         else if t = ''maxscale-binlog'' then setup False False False False True False False TopoBinlogServer
         else if t = ''multi-master-ring'' then setup True False False False False False False TopoMultiMasterRing
         else if t = ''multi-master-wsrep'' then setup False False False False False True False TopoMultiMasterWsrep
         else if t = ''multi-master-grprep'' then setup False False False False False False True TopoMultiMasterGrouprep
         else T)"

definition conf_topology :: "topo \<Rightarrow> string" where
  "conf_topology T =
     (let cf = Conf (cl T)
      in if MultiMaster cf then TopoMultiMaster
         else if MultiMasterRing T then TopoMultiMasterRing
         else if MultiMasterWsrep T then TopoMultiMasterWsrep
         else if MultiMasterGrouprep cf then TopoMultiMasterGrouprep
         else if MxsBinlogOn cf then TopoBinlogServer
         else if MultiTierSlave cf then TopoMultiTierSlave
         else if MasterSlavePgStream T then TopoMasterSlavePgStream
         else if MasterSlavePgLogical T then TopoMasterSlavePgLog
         else if ActivePassive T then TopoActivePassive
         else if GetRelayServer (cl T) \<noteq> None \<and> \<not> ReplicationNoRelay (RConf (TR T)) then TopoMultiTierSlave
         else if master (cl T) \<noteq> None then TopoMasterSlave
         else TopoUnknown)"

definition GetTopologyFromConf :: "topo \<Rightarrow> string \<times> topo" where
  "GetTopologyFromConf T =
     (let t = conf_topology T;
          T1 = T\<lparr>ConfTopology := t, IsPostgres := (if t = TopoMasterSlavePgStream \<or> t = TopoMasterSlavePgLog then True else IsPostgres T)\<rparr>;
          T2 = (if TopologyTarget T1 = '''' \<or> TopologyTarget T1 = TopoUnknown
                then T1\<lparr>TopologyTarget := ConfTopology T1\<rparr> else T1)
      in (ConfTopology T2, T2))"

section \<open>Classifying the servers\<close>

definition note_log_slave :: "sid \<Rightarrow> topo \<Rightarrow> topo" where
  "note_log_slave i T =
     (let s = srv (cl T) i
      in if Variables s ''LOG_SLAVE_UPDATES'' = ''ON'' \<and> URL s \<notin> set (LogSlaveServers T)
         then T\<lparr>LogSlaveServers := LogSlaveServers T @ [URL s]\<rparr> else T)"

text \<open>A server with replicas but no replication of its own is the master, unless an active manager has another one.\<close>

definition last_non_slave :: "topo_env \<Rightarrow> sid \<Rightarrow> topo \<Rightarrow> topo" where
  "last_non_slave E i T =
     (if TStatus T = ConstMonitorActif \<and> GetTopology (cl T) = TopoMasterSlave \<and>
         (\<exists>m \<in> set_option (GetMaster (cl T)). URL (srv (cl T) i) \<noteq> URL (srv (cl T) m))
      then on_topo (set_state ''ERR00063'' ''ERROR'' [] ''TOPO'' '''') T
      else
        let T0 = (if length (Servers (cl T)) = 1 then T\<lparr>ActivePassive := True\<rparr> else T);
            T1 = on_topo (\<lambda>c. SetMaster i (c\<lparr>master := Some i\<rparr>)) T0;
            T2 = (if State (srv (cl T1) i) = stateSuspect then on_topo (SetMaster i) T1 else T1)
        in if IsReadOnly (srv (cl T2) i) \<and> \<not> IsRelay (srv (cl T2) i) then open_writes E i T2 else T2)"

definition classify :: "topo_env \<Rightarrow> sid \<Rightarrow> topo \<Rightarrow> topo" where
  "classify E i T =
     (let s = srv (cl T) i; x = ext T i
      in if IsFailed s then T
         else
           let T1 = note_log_slave i T
           in if IsSlave s \<or> IsWsrepPrimary x \<or> IsGroupReplicationSlave x
              then on_topo (\<lambda>c. c\<lparr>slaves := slaves c @ [i]\<rparr>) T1
              else if IsGroupReplicationMaster x then
                let T2 = on_topo (\<lambda>c. SetMaster i (c\<lparr>master := Some i, vmaster := Some i\<rparr>)) T1
                in if IsReadOnly (srv (cl T2) i) then open_writes E i T2 else T2
              else if BinlogDumpThreads x = 0 \<and> State s \<noteq> stateMaster then T1
              else last_non_slave E i T1)"

text \<open>A server that every replica follows, when the first discovery found no master.\<close>

definition guess_master :: "sid \<Rightarrow> topo \<Rightarrow> topo" where
  "guess_master i T =
     (let c = cl T; s = srv c i
      in if \<not> runOnceAfterTopology T \<and> GetMaster c = None \<and> slaves c \<noteq> [] \<and> TopologyTarget T = TopoMasterSlave then
           if length (filter (\<lambda>j. GetReplicationMasterHost (srv c j) = Host s \<and> GetReplicationMasterPort (srv c j) = Port s)
                (slaves c)) = length (slaves c)
           then on_topo (\<lambda>c. SetMaster i (c\<lparr>master := Some i\<rparr>)) T else T
         else T)"

definition find_slaves :: "topo_env \<Rightarrow> topo \<Rightarrow> topo" where
  "find_slaves E T =
     (let T1 = fold (classify E) (Servers (cl T)) (on_topo (\<lambda>c. c\<lparr>slaves := []\<rparr>) T); t = GetTopology (cl T1)
      in if slaves (cl T1) = [] \<and> t \<noteq> TopoMultiMasterWsrep \<and> t \<noteq> TopoMultiMasterGrouprep \<and> t \<noteq> TopoActivePassive
         then on_topo (set_state ''ERR00010'' ''ERROR'' [] ''TOPO'' '''') T1
         else fold guess_master (Servers (cl T1)) T1)"

section \<open>Checking the replicas\<close>

definition topo_warn :: "string \<Rightarrow> string \<Rightarrow> topo \<Rightarrow> topo" where
  "topo_warn key desc T =
     on_topo (Cluster_SetState key \<lparr>ErrKey = '''', ErrType = ''WARNING'', ErrDesc = desc, ErrFrom = ''TOPO'', ServerUrl = ''''\<rparr>) T"

text \<open>A replica on a cycle makes a multi-master pair or a ring; a replica off the cycle breaks the ring.\<close>

definition cycle_topology :: "sid \<Rightarrow> topo \<Rightarrow> topo" where
  "cycle_topology i T =
     (let T1 = (if \<not> MultiMaster (Conf (cl T)) \<and> length (Servers (cl T)) = 2 then
                  on_topo (\<lambda>c. (set_state ''ERR00011'' ''WARNING'' [] ''TOPO'' (URL (srv c i)) c)
                      \<lparr>Conf := (Conf c)\<lparr>MultiMaster := True\<rparr>, Topology := TopoMultiMaster\<rparr>) T
                else T);
          T2 = (if \<not> MultiMasterRing T1 \<and> length (Servers (cl T1)) > 2 \<and>
                   (length (LogSlaveServers T1) > 1 \<or> MultiMasterRingUnsafe T1)
                then T1\<lparr>MultiMasterRing := True\<rparr> else T1)
      in if MultiMasterRing T2 \<and> GetMaster (cl T2) = None then on_topo (\<lambda>c. c\<lparr>vmaster := Some i\<rparr>) T2 else T2)"

definition check_conformity :: "topo_env \<Rightarrow> sid \<Rightarrow> bool \<times> topo \<Rightarrow> bool \<times> topo" where
  "check_conformity E i = (\<lambda>(hasCycling, T).
     (if \<not> IsMaxscale (srv (cl T) i) \<and> \<not> IsFailed (srv (cl T) i) then
        let T1 = on_topo (\<lambda>c. snd (CheckSlaveSameMasterGrants i (CheckSlaveSettings (Db (RE E)) i c))) T
        in if HasCycling (srv (cl T1) i) (cl T1) then (True, cycle_topology i T1)
           else if MultiMasterRing T1 then
             (hasCycling, on_topo (\<lambda>c. (set_state ''ERR00048'' ''WARNING'' [] ''TOPO'' '''' c)
                \<lparr>master := GetFailedServer (set_state ''ERR00048'' ''WARNING'' [] ''TOPO'' '''' c)\<rparr>) T1)
           else (hasCycling, T1)
      else (hasCycling, T)))"

definition mark_relay :: "sid \<Rightarrow> topo \<Rightarrow> topo" where
  "mark_relay i T =
     (let s = srv (cl T) i
      in if \<not> MultiMaster (Conf (cl T)) \<and> \<not> IsMaxscale s then
           if IsSlave s \<and> HasSlaves s (slaves (cl T)) (cl T) then
             if \<not> IsRelay s then on_topo (\<lambda>c. Server_SetState i stateRelay (upd_srv i (\<lambda>s. s\<lparr>IsRelay := True\<rparr>) c)) T else T
           else if IsRelay s then on_topo (upd_srv i (\<lambda>s. s\<lparr>IsRelay := False\<rparr>)) T
           else T
         else T)"

definition check_slave :: "topo_env \<Rightarrow> sid \<Rightarrow> bool \<times> bool \<times> topo \<Rightarrow> bool \<times> bool \<times> topo" where
  "check_slave E i = (\<lambda>(hasRelay, hasCycling, T).
     (let (hc, T1) = check_conformity E i (hasCycling, T); T2 = mark_relay i T1
      in (hasRelay \<or> IsRelay (srv (cl T2) i), hc, T2)))"

section \<open>Multi-master clusters\<close>

definition count_rw :: "sid \<Rightarrow> nat \<times> topo \<Rightarrow> nat \<times> topo" where
  "count_rw i = (\<lambda>(n, T).
     (if IsReadWrite (srv (cl T) i) then n + 1 else n,
      if own_status (srv (cl T) i) = None then on_topo (\<lambda>c. c\<lparr>Conf := (Conf c)\<lparr>MultiMaster := False\<rparr>\<rparr>) T else T))"

definition prefer_writer :: "topo_env \<Rightarrow> topo \<Rightarrow> topo" where
  "prefer_writer E T =
     (let T1 = topo_warn ''WARN0004'' ''RO server count > 1 in 2 node multi-master mode.  switching to preferred master.'' T
      in case getOnePreferedMaster (cl T1) of
           Some i \<Rightarrow> open_writes E i T1
         | None \<Rightarrow> topo_warn ''WARN0006'' ''Multi-master need a preferred master.'' T1)"

definition wsrep_leader :: "topo_env \<Rightarrow> topo \<Rightarrow> topo" where
  "wsrep_leader E T =
     (let T1 = topo_warn ''WARN0006'' ''Wsrep cluster need a leader electing one'' T
      in case getOnePreferedMaster (cl T1) of
           Some i \<Rightarrow> open_writes E i (on_topo (\<lambda>c. c\<lparr>vmaster := Some i\<rparr>) T1)
         | None \<Rightarrow> T1)"

definition multi_master :: "topo_env \<Rightarrow> topo \<Rightarrow> topo" where
  "multi_master E T =
     (if MultiMaster (Conf (cl T)) \<or> GetTopology (cl T) = TopoMultiMasterWsrep \<or> GetTopology (cl T) = TopoMultiMasterGrouprep then
        let (srw, T1) = fold count_rw (Servers (cl T)) (0, T);
            T2 = (if srw > 1 then topo_warn ''WARN0003''
                    ''RW server count > 1 in multi-master mode. set read_only=1 in cnf is a must have, choosing prefered master'' T1
                  else T1);
            sro = length (filter (\<lambda>i. IsReadOnly (srv (cl T2) i)) (Servers (cl T2)));
            T3 = (if sro > 1 \<and> GetTopology (cl T2) \<noteq> TopoMultiMasterGrouprep \<and> GetTopology (cl T2) \<noteq> TopoMultiMasterWsrep
                  then prefer_writer E T2 else T2)
        in if sro = length (Servers (cl T3)) \<and> GetTopology (cl T3) = TopoMultiMasterWsrep \<and> GetMaster (cl T3) = None
           then wsrep_leader E T3 else T3
      else T)"

section \<open>Finding the master\<close>

fun autodetect :: "topo_env \<Rightarrow> u64 \<Rightarrow> sid list \<Rightarrow> topo \<Rightarrow> topo" where
  "autodetect E sid0 [] T = T"
| "autodetect E sid0 (i # is) T =
     (let s = srv (cl T) i; mm = MultiMaster (Conf (cl T)); t = GetTopology (cl T)
      in if \<not> mm \<and> State s = stateUnconn \<and> ServerID s = sid0
         then open_writes E i (on_topo (\<lambda>c. SetMaster i (c\<lparr>master := Some i\<rparr>)) T)
         else if (mm \<or> t = TopoMultiMasterWsrep \<or> t = TopoMultiMasterGrouprep) \<and> \<not> IsDown s \<and> IsReadWrite s
         then if mm then on_topo (\<lambda>c. SetMaster i (c\<lparr>master := Some i\<rparr>)) T
              else on_topo (\<lambda>c. c\<lparr>master := Some i, vmaster := Some i\<rparr>) T
         else autodetect E sid0 is T)"

definition detect_master :: "topo_env \<Rightarrow> topo \<Rightarrow> topo option" where
  "detect_master E T =
     (if slaves (cl T) \<noteq> [] \<and> \<not> MultiMasterGrouprep (Conf (cl T)) then
        let T1 = autodetect E (GetReplicationServerID (srv (cl T) (hd (slaves (cl T))))) (Servers (cl T)) T
        in if master (cl T1) = None
           then map_option (\<lambda>c. on_topo (\<lambda>_. c) T1) (FailedMasterDiscovery (cl T1)) else Some T1
      else Some T)"

section \<open>Replication checks against the master\<close>

definition set_healthy :: "sid \<Rightarrow> bool \<Rightarrow> topo \<Rightarrow> topo" where
  "set_healthy m b T = T\<lparr>ext := (ext T)(m := (ext T m)\<lparr>HaveHealthyReplica := b\<rparr>)\<rparr>"

definition check_replica :: "topo_env \<Rightarrow> sid \<Rightarrow> sid \<Rightarrow> topo \<Rightarrow> topo option" where
  "check_replica E m i T =
     (let c = cl T; sl = srv c i; ms = srv c m
      in case (if \<not> IsRelay sl then
                 case GetMasterFromReplication sl c of
                   None \<Rightarrow> Some T
                 | Some rm \<Rightarrow>
                     if Id (srv c rm) \<noteq> Id ms \<and> Id ms \<noteq> Id sl \<and> \<not> MultiTierSlave (Conf c) then
                       let T1 = on_topo (set_state ''ERR00064'' ''ERROR'' [FS (URL sl), FS (URL ms), FS (URL (srv c rm))]
                                  ''TOPO'' (URL sl)) T
                       in if ReplicationNoRelay (RConf (TR T1)) \<and> TStatus T1 = ConstMonitorActif
                          then map_option (\<lambda>R. T1\<lparr>TR := R\<rparr>) (RejoinFixRelay (RE E) i (TR T1)) else Some T1
                     else Some T
               else Some T) of
           None \<Rightarrow> None
         | Some T2 \<Rightarrow>
             let s2 = srv (cl T2) i
             in Some (if GetReplicationDelay s2 \<le> FailMaxDelay (Conf (cl T2)) \<and> IsSQLThreadRunning s2 \<and> \<not> IsIgnored s2
                      then set_healthy m True T2 else T2))"

fun check_replicas :: "topo_env \<Rightarrow> sid \<Rightarrow> sid list \<Rightarrow> topo \<Rightarrow> topo option" where
  "check_replicas E m [] T = Some T"
| "check_replicas E m (i # is) T = Option.bind (check_replica E m i T) (check_replicas E m is)"

definition check_master :: "sid \<Rightarrow> topo \<Rightarrow> topo" where
  "check_master m T =
     (let T1 = set_healthy m False T
      in if \<not> IsDown (srv (cl T1) m) then on_topo (CheckMasterSettings m) T1 else T1)"

definition replication_checks :: "topo_env \<Rightarrow> sid \<Rightarrow> topo \<Rightarrow> topo option" where
  "replication_checks E m T =
     (if \<not> MultiMaster (Conf (cl T)) then check_replicas E m (slaves (cl T)) T else Some T)"

definition false_positive :: "sid \<Rightarrow> topo \<Rightarrow> topo" where
  "false_positive m T =
     (if IsFailed (srv (cl T) m) \<and> HasAllSlavesRunning (slaves (cl T)) (cl T)
      then on_topo (set_state ''ERR00016'' ''ERROR'' [] ''NET'' (URL (srv (cl T) m))) T else T)"

definition master_checks :: "topo_env \<Rightarrow> topo \<Rightarrow> topo option" where
  "master_checks E T =
     (case master (cl T) of
        None \<Rightarrow>
          Some (if GetMaster (cl T) = None then on_topo (set_state ''ERR00012'' ''ERROR'' [] ''TOPO'' '''') T else T)
      | Some m \<Rightarrow> map_option (false_positive m) (replication_checks E m (check_master m T)))"

definition finish_discovery :: "topo_env \<Rightarrow> topo \<Rightarrow> bool \<times> topo" where
  "finish_discovery E T =
     (let (t, T1) = GetTopologyFromConf T;
          T2 = on_topo (\<lambda>c. c\<lparr>Topology := t\<rparr>) T1;
          T3 = (case GetMaster (cl T2) of
                  None \<Rightarrow> T2
                | Some i \<Rightarrow>
                    if IsDiscovered (cl T2) \<and> IsReadOnly (srv (cl T2) i) \<and> \<not> IsMaintenance (srv (cl T2) i) \<and>
                       Topology (cl T2) \<noteq> TopoMasterSlave
                    then open_writes E i T2 else T2);
          T4 = (case (master (cl T3), vmaster (cl T3)) of
                  (Some m, Some v) \<Rightarrow>
                    if Topology (cl T3) = TopoMasterSlave
                    then on_topo (\<lambda>c. c\<lparr>vmaster := None\<rparr>) (T3\<lparr>ext := (ext T3)(v := (ext T3 v)\<lparr>IsVirtualMaster := False\<rparr>)\<rparr>)
                    else T3
                | _ \<Rightarrow> T3);
          (ok, SM) = CanMonitor (StateMachine (cl T4))
      in (ok, on_topo (\<lambda>c. c\<lparr>StateMachine := SM\<rparr>) T4))"

section \<open>Discovery\<close>

definition arbitration_states :: "topo \<Rightarrow> topo" where
  "arbitration_states T =
     (if Arbitration (Conf (cl T)) then
        let T1 = (if TIsSplitBrain T then on_topo (set_state ''WARN0079'' ''WARNING'' [] ''ARB'' '''') T else T);
            T2 = (if TIsLostMajority T1 then on_topo (set_state ''WARN0080'' ''WARNING'' [] ''ARB'' '''') T1 else T1)
        in if IsFailedArbitrator (cl T2)
           then on_topo (set_state ''WARN0090'' ''WARNING'' [FS (ArbitratorAddress T2)] ''ARB'' '''') T2 else T2
      else T)"

definition purge_crashes :: "topo \<Rightarrow> topo" where
  "purge_crashes T =
     (if HasAllDbUp (cl T) \<and> Crashes (cl T) \<noteq> [] \<and> HasNoDbUnconnected (cl T)
      then on_topo (\<lambda>c. emit OpSaveCluster (c\<lparr>Crashes := []\<rparr>)) T else T)"

definition check_down :: "topo \<Rightarrow> topo" where
  "check_down T =
     (let T0 = snd (TopologyClusterDown T);
          (down, c0) = AllServersFailed (cl T0)
      in (on_topo (\<lambda>_. CheckSameServerID c0) T0)\<lparr>ClusterIsDown := down\<rparr>)"

definition check_slaves :: "topo_env \<Rightarrow> topo \<Rightarrow> bool \<times> bool \<times> topo" where
  "check_slaves E T =
     (let cyc = (length (Servers (cl T)) = 2 \<and> HasCycling (srv (cl T) (hd (Servers (cl T)))) (cl T))
      in if \<not> MultiMaster (Conf (cl T)) \<and> \<not> Spider T then fold (check_slave E) (slaves (cl T)) (False, cyc, T)
         else (False, cyc, T))"

definition prefer_master_slave :: "bool \<times> bool \<times> topo \<Rightarrow> topo" where
  "prefer_master_slave = (\<lambda>(hasRelay, hasCycling, T).
     (if \<not> hasRelay \<and> \<not> hasCycling \<and> TopologyTarget T = TopoMasterSlave then BootstrapTopology TopoMasterSlave T else T))"

text \<open>The discovery of a cluster of more than one server, after the pings.\<close>

definition discover :: "topo_env \<Rightarrow> topo \<Rightarrow> (bool \<times> topo) option" where
  "discover E T =
     (let T1 = check_down (T\<lparr>ActivePassive := False\<rparr>);
          T2 = (if Spider T1 then SpiderShardsDiscovery E T1 else T1);
          T3 = prefer_master_slave (check_slaves E (find_slaves E T2))
      in Option.bind (detect_master E (multi_master E T3))
           (\<lambda>T4. map_option (finish_discovery E) (master_checks E T4)))"

definition TopologyDiscover :: "topo_env \<Rightarrow> topo \<Rightarrow> (bool \<times> topo) option" where
  "TopologyDiscover E T =
     (if Hosts (Conf (cl T)) = '''' then Some (False, T)
      else
        let T1 = PingAll E (filter (\<lambda>i. IsIgnored (srv (cl T) i)) (Servers (cl T))) T;
            T2 = PingAll E (filter (\<lambda>i. \<not> IsIgnored (srv (cl T1) i)) (Servers (cl T1))) T1
        in if IsInFailover (cl T2) then Some (False, T2)
           else
             let T3 = arbitration_states (purge_crashes T2)
             in if length (Servers (cl T3)) = 1 then
                  Some (True, (on_topo (\<lambda>c. c\<lparr>Topology := TopoActivePassive, master := Some (hd (Servers c))\<rparr>) T3)
                    \<lparr>ActivePassive := True\<rparr>)
                else discover E T3)"

section \<open>What a discovery may do to a cluster\<close>

text \<open>
  \<open>tame S a b\<close>: the server list is the same, the master is the old one or a listed server, with \<open>S\<close> the set of replicas is
  the same, and a manager that the arbitrator has refused stays refused and has opened no server.
\<close>

definition tame :: "bool \<Rightarrow> cluster \<Rightarrow> cluster \<Rightarrow> bool" where
  "tame S a b \<longleftrightarrow>
     Servers b = Servers a \<and> (S \<longrightarrow> set (slaves b) = set (slaves a)) \<and>
     (\<forall>m. master b = Some m \<longrightarrow> master a = Some m \<or> m \<in> set (Servers a)) \<and>
     (Arbitration (Conf a) \<and> IsFailedArbitrator a \<longrightarrow>
        Arbitration (Conf b) \<and> IsFailedArbitrator b \<and>
        (\<exists>ops. trace b = trace a @ ops \<and> list_all (\<lambda>o1. \<not> opens_writes o1) ops))"

lemma tame_refl [simp, intro!]: "tame S a a"
  by (simp add: tame_def)

lemma tame_trans [trans]: "tame S a b \<Longrightarrow> tame S b c \<Longrightarrow> tame S a c"
  by (fastforce simp: tame_def)

lemma tame_weaken: "tame True a b \<Longrightarrow> tame S a b"
  by (simp add: tame_def)

lemma tame_steps: "steps (\<lambda>o1. \<not> opens_writes o1) a b \<Longrightarrow> tame S a b"
  by (auto simp: tame_def steps_def roles_def)

lemma on_topo_simps [simp]:
  "cl (on_topo f T) = f (cl T)" "ext (on_topo f T) = ext T" "Spider (on_topo f T) = Spider T"
  "LogSlaveServers (on_topo f T) = LogSlaveServers T" "TStatus (on_topo f T) = TStatus T"
  by (simp_all add: on_topo_def)

lemma tame_set_state: "tame S a (set_state k t as f u a)" "tame S a (Cluster_SetState k s a)"
  by (rule tame_steps, simp add: steps_set_state steps_SetState)+

lemma not_opens [simp]: "\<not> opens_writes o1" if "op_target o1 = None"
  using that by (auto simp: opens_writes_def)

lemma tame_open: "tame S (cl T) (cl (open_writes E i T))"
  by (auto simp: open_writes_def tame_def SetReadWrite_def run_def emit_def Let_def)

lemma tame_set_master: "i \<in> set (Servers a) \<Longrightarrow> tame S a (SetMaster i (a\<lparr>master := Some i\<rparr>))"
proof -
  assume i: "i \<in> set (Servers a)"
  have "steps (\<lambda>o1. \<not> opens_writes o1) (a\<lparr>master := Some i\<rparr>) (SetMaster i (a\<lparr>master := Some i\<rparr>))"
    by (rule steps_SetMaster) auto
  then have "tame S (a\<lparr>master := Some i\<rparr>) (SetMaster i (a\<lparr>master := Some i\<rparr>))" by (rule tame_steps)
  moreover have "tame S a (a\<lparr>master := Some i\<rparr>)" using i by (simp add: tame_def)
  ultimately show ?thesis using tame_trans by blast
qed

lemma tame_servers: "tame S a b \<Longrightarrow> Servers b = Servers a"
  by (simp add: tame_def)

lemma tame_fold:
  assumes "\<And>x s. x \<in> set xs \<Longrightarrow> Servers (g s) = V \<Longrightarrow> tame S (g s) (g (f x s))" "Servers (g s) = V"
  shows "tame S (g s) (g (fold f xs s))"
  using assms
proof (induction xs arbitrary: s)
  case (Cons x xs)
  have 1: "tame S (g s) (g (f x s))" using Cons.prems by simp
  have "tame S (g (f x s)) (g (fold f xs (f x s)))"
    using Cons.prems tame_servers [OF 1] by (intro Cons.IH) auto
  with 1 show ?case using tame_trans by fastforce
qed simp

section \<open>Classification\<close>

lemma tame_note [simp]: "cl (note_log_slave i T) = cl T" "ext (note_log_slave i T) = ext T" "Spider (note_log_slave i T) = Spider T"
  "TStatus (note_log_slave i T) = TStatus T"
  by (simp_all add: note_log_slave_def Let_def)

lemma tame_last_non_slave:
  assumes "i \<in> set (Servers (cl T))"
  shows "tame S (cl T) (cl (last_non_slave E i T))"
proof -
  let ?T0 = "if length (Servers (cl T)) = 1 then T\<lparr>ActivePassive := True\<rparr> else T"
  let ?T1 = "on_topo (\<lambda>c. SetMaster i (c\<lparr>master := Some i\<rparr>)) ?T0"
  let ?T2 = "if State (srv (cl ?T1) i) = stateSuspect then on_topo (SetMaster i) ?T1 else ?T1"
  have 1: "tame S (cl T) (cl ?T1)" using assms by (simp add: tame_set_master)
  have "tame S (cl ?T1) (cl ?T2)"
    by (auto intro!: tame_steps steps_SetMaster)
  with 1 have 2: "tame S (cl T) (cl ?T2)" by (rule tame_trans)
  have "tame S (cl T) (cl (open_writes E i ?T2))" by (rule tame_trans [OF 2 tame_open])
  with 2 show ?thesis
    unfolding last_non_slave_def Let_def
    by (auto intro: tame_set_state)
qed

lemma tame_group_master:
  assumes "i \<in> set (Servers a)"
  shows "tame S a (SetMaster i (a\<lparr>master := Some i, vmaster := Some i\<rparr>))"
proof -
  let ?b = "a\<lparr>vmaster := Some i\<rparr>"
  have "tame S a ?b" by (simp add: tame_def)
  moreover have "tame S ?b (SetMaster i (?b\<lparr>master := Some i\<rparr>))" by (rule tame_set_master) (simp add: assms)
  ultimately have "tame S a (SetMaster i (?b\<lparr>master := Some i\<rparr>))" by (rule tame_trans)
  moreover have "?b\<lparr>master := Some i\<rparr> = a\<lparr>master := Some i, vmaster := Some i\<rparr>" by simp
  ultimately show ?thesis by simp
qed

lemma tame_classify:
  assumes i: "i \<in> set (Servers (cl T))"
  shows "tame False (cl T) (cl (classify E i T))"
proof -
  let ?T1 = "note_log_slave i T"
  let ?T2 = "on_topo (\<lambda>c. SetMaster i (c\<lparr>master := Some i, vmaster := Some i\<rparr>)) ?T1"
  have 1: "tame False (cl T) (cl (on_topo (\<lambda>c. c\<lparr>slaves := slaves c @ [i]\<rparr>) ?T1))" by (simp add: tame_def)
  have 2: "tame False (cl T) (cl ?T2)" using tame_group_master [OF i] by simp
  have 3: "tame False (cl T) (cl (open_writes E i ?T2))" by (rule tame_trans [OF 2 tame_open])
  have 4: "tame False (cl T) (cl (last_non_slave E i ?T1))" using tame_last_non_slave [of i ?T1] i by simp
  show ?thesis
    unfolding classify_def Let_def using 1 2 3 4 by simp
qed

section \<open>The replicas found\<close>

text \<open>A server that answers and replicates, in one of the three ways the monitor knows.\<close>

definition replicates :: "topo \<Rightarrow> sid \<Rightarrow> bool" where
  "replicates T i \<longleftrightarrow> \<not> IsFailed (srv (cl T) i) \<and> (IsSlave (srv (cl T) i) \<or> IsWsrepPrimary (ext T i) \<or> IsGroupReplicationSlave (ext T i))"

text \<open>Another server than \<open>i\<close> stays as it was, and the set of replicas too.\<close>

definition spares :: "sid \<Rightarrow> topo \<Rightarrow> topo \<Rightarrow> bool" where
  "spares i T T' \<longleftrightarrow>
     slaves (cl T') = slaves (cl T) \<and> ext T' = ext T \<and>
     (\<forall>j. j \<noteq> i \<longrightarrow> State (srv (cl T') j) = State (srv (cl T) j) \<and> IsSlave (srv (cl T') j) = IsSlave (srv (cl T) j))"

lemma spares_refl [simp, intro!]: "spares i T T"
  by (simp add: spares_def)

lemma spares_trans: "spares i a b \<Longrightarrow> spares i b c \<Longrightarrow> spares i a c"
  by (simp add: spares_def)

lemma clear_no_master:
  "State (srv (fold (\<lambda>j. upd_srv j (\<lambda>s. s\<lparr>HaveNoMasterOnStart := False\<rparr>)) xs c) k) = State (srv c k)"
  "IsSlave (srv (fold (\<lambda>j. upd_srv j (\<lambda>s. s\<lparr>HaveNoMasterOnStart := False\<rparr>)) xs c) k) = IsSlave (srv c k)"
  by (induction xs arbitrary: c) (simp_all add: upd_srv_def)

lemma SetMaster_spares:
  "slaves (SetMaster i c) = slaves c"
  "j \<noteq> i \<Longrightarrow> State (srv (SetMaster i c) j) = State (srv c j)"
  "j \<noteq> i \<Longrightarrow> IsSlave (srv (SetMaster i c) j) = IsSlave (srv c j)"
proof -
  have "steps (\<lambda>_. True) c (SetMaster i c)" by (rule steps_SetMaster) auto
  then show "slaves (SetMaster i c) = slaves c" by (rule steps_fields)
qed (simp_all add: SetMaster_def clear_no_master Server_SetState_def upd_srv_def emit_def)

lemma spares_open: "spares i T (open_writes E i T)"
  by (simp add: spares_def open_writes_def SetReadWrite_def run_def emit_def Let_def)

lemma spares_last_non_slave: "spares i T (last_non_slave E i T)"
proof -
  let ?T0 = "if length (Servers (cl T)) = 1 then T\<lparr>ActivePassive := True\<rparr> else T"
  let ?T1 = "on_topo (\<lambda>c. SetMaster i (c\<lparr>master := Some i\<rparr>)) ?T0"
  let ?T2 = "if State (srv (cl ?T1) i) = stateSuspect then on_topo (SetMaster i) ?T1 else ?T1"
  have 1: "spares i T ?T1" by (simp add: spares_def SetMaster_spares)
  have "spares i ?T1 ?T2" by (simp add: spares_def SetMaster_spares)
  with 1 have 2: "spares i T ?T2" by (rule spares_trans)
  have 3: "spares i T (open_writes E i ?T2)" by (rule spares_trans [OF 2 spares_open])
  have "spares i T (on_topo (set_state ''ERR00063'' ''ERROR'' [] ''TOPO'' '''') T)"
    by (simp add: spares_def set_state_def Cluster_SetState_def)
  with 2 3 show ?thesis unfolding last_non_slave_def Let_def by auto
qed

lemma classify_replicas:
  "slaves (cl (classify E i T)) = slaves (cl T) @ (if replicates T i then [i] else [])"
  "j \<noteq> i \<Longrightarrow> replicates (classify E i T) j = replicates T j"
proof -
  let ?T1 = "note_log_slave i T"
  let ?T2 = "on_topo (\<lambda>c. SetMaster i (c\<lparr>master := Some i, vmaster := Some i\<rparr>)) ?T1"
  have 2: "spares i T ?T2" by (simp add: spares_def SetMaster_spares)
  have 3: "spares i T (open_writes E i ?T2)" by (rule spares_trans [OF 2 spares_open])
  have 4: "spares i T (last_non_slave E i ?T1)" using spares_last_non_slave [of i ?T1 E] by (simp add: spares_def)
  have 1: "spares i T ?T1" by (simp add: spares_def)
  have yes: "classify E i T = on_topo (\<lambda>c. c\<lparr>slaves := slaves c @ [i]\<rparr>) ?T1" if "replicates T i"
    using that by (auto simp: classify_def Let_def replicates_def)
  have no: "spares i T (classify E i T)" if "\<not> replicates T i"
    using that 1 2 3 4 unfolding classify_def Let_def replicates_def by auto
  have cs: "replicates T i \<or> \<not> replicates T i" by simp
  from cs show "slaves (cl (classify E i T)) = slaves (cl T) @ (if replicates T i then [i] else [])"
    using yes no by (auto simp: spares_def)
  from cs show "replicates (classify E i T) j = replicates T j" if "j \<noteq> i"
    using that yes no by (auto simp: spares_def replicates_def IsFailed_def)
qed

lemma classify_all:
  "distinct xs \<Longrightarrow> slaves (cl (fold (classify E) xs T)) = slaves (cl T) @ filter (replicates T) xs"
proof (induction xs arbitrary: T)
  case (Cons x xs)
  have "filter (replicates (classify E x T)) xs = filter (replicates T) xs"
    using Cons.prems by (intro filter_cong refl classify_replicas(2)) auto
  with Cons show ?case by (simp add: classify_replicas(1))
qed simp

lemma tame_guess:
  assumes "i \<in> set (Servers (cl T))"
  shows "tame S (cl T) (cl (guess_master i T))"
  using tame_set_master [OF assms] by (simp add: guess_master_def Let_def)

lemma find_slaves_effect:
  "tame False (cl T) (cl (find_slaves E T))"
  "distinct (Servers (cl T)) \<Longrightarrow> set (slaves (cl (find_slaves E T))) = set (filter (replicates T) (Servers (cl T)))"
proof -
  let ?T0 = "on_topo (\<lambda>c. c\<lparr>slaves := []\<rparr>) T"
  let ?T1 = "fold (classify E) (Servers (cl T)) ?T0"
  have 0: "tame False (cl T) (cl ?T0)" by (simp add: tame_def)
  have "tame False (cl ?T0) (cl ?T1)" by (rule tame_fold [where g = cl]) (auto intro: tame_classify)
  with 0 have 1: "tame False (cl T) (cl ?T1)" by (rule tame_trans)
  have 2: "tame True (cl ?T1) (cl (find_slaves E T))"
    unfolding find_slaves_def Let_def
    using tame_fold [of "Servers (cl ?T1)" cl "Servers (cl ?T1)" True guess_master ?T1] tame_guess tame_set_state(1) by simp
  show "tame False (cl T) (cl (find_slaves E T))" by (rule tame_trans [OF 1 tame_weaken [OF 2]])
  assume d: "distinct (Servers (cl T))"
  have "replicates ?T0 = replicates T" by (simp add: replicates_def fun_eq_iff)
  with 2 classify_all [OF d, of E ?T0] show "set (slaves (cl (find_slaves E T))) = set (filter (replicates T) (Servers (cl T)))"
    by (simp add: tame_def)
qed

section \<open>The other stages\<close>

lemma tame_view:
  assumes "Servers b = Servers a" "slaves b = slaves a" "master b = master a" "Arbitration (Conf b) = Arbitration (Conf a)"
    "IsFailedArbitrator b = IsFailedArbitrator a" "trace b = trace a"
  shows "tame S a b"
  using assms by (simp add: tame_def)

lemma settings_still:
  "steps (\<lambda>o1. \<not> opens_writes o1) a (CheckSlaveSettings E i a)"
  "steps (\<lambda>o1. \<not> opens_writes o1) a (CheckMasterSettings i a)"
proof -
  have "steps (setting_op i) a (CheckSlaveSettings E i a)" "steps (setting_op i) a (CheckMasterSettings i a)"
    by (simp_all add: CheckSlaveSettings_def CheckMasterSettings_def Let_def steps_settings steps_slave_replication)
  then show "steps (\<lambda>o1. \<not> opens_writes o1) a (CheckSlaveSettings E i a)"
    "steps (\<lambda>o1. \<not> opens_writes o1) a (CheckMasterSettings i a)"
    by (auto elim!: steps_mono simp: setting_op_def)
qed

lemma grants_still: "steps P a (snd (CheckSlaveSameMasterGrants i a))"
  by (auto simp: CheckSlaveSameMasterGrants_def Let_def intro!: steps_set_state steps_SetState split: option.splits)

lemma failed_server_listed: "GetFailedServer c = Some m \<Longrightarrow> m \<in> set (Servers c)"
  by (auto simp: GetFailedServer_def find_Some_iff)

lemma tame_cycle: "tame S (cl T) (cl (cycle_topology i T))"
  by (auto simp: cycle_topology_def Let_def set_state_def Cluster_SetState_def intro!: tame_view)

lemma tame_broken_ring:
  "tame S c ((set_state k t as f u c)\<lparr>master := GetFailedServer (set_state k t as f u c)\<rparr>)"
  using failed_server_listed [of "set_state k t as f u c"] by (auto simp: tame_def set_state_def Cluster_SetState_def)

lemma tame_conformity: "tame S (cl T) (cl (snd (check_conformity E i (hc, T))))"
proof -
  let ?T1 = "on_topo (\<lambda>c. snd (CheckSlaveSameMasterGrants i (CheckSlaveSettings (Db (RE E)) i c))) T"
  have 1: "tame S (cl T) (cl ?T1)"
    using steps_trans [OF settings_still(1) grants_still] by (simp add: tame_steps)
  have 2: "tame S (cl T) (cl (cycle_topology i ?T1))" by (rule tame_trans [OF 1 tame_cycle])
  have 3: "tame S (cl T) (cl (on_topo (\<lambda>c. (set_state ''ERR00048'' ''WARNING'' [] ''TOPO'' '''' c)
                \<lparr>master := GetFailedServer (set_state ''ERR00048'' ''WARNING'' [] ''TOPO'' '''' c)\<rparr>) ?T1))"
    using tame_trans [OF 1 tame_broken_ring] by simp
  show ?thesis unfolding check_conformity_def Let_def using 1 2 3 by simp
qed

lemma tame_relay: "tame S (cl T) (cl (mark_relay i T))"
  by (auto simp: mark_relay_def Let_def intro!: tame_steps steps_Server_SetState steps_upd_srv)

lemma tame_check_slave: "tame S (cl (snd (snd st))) (cl (snd (snd (check_slave E i st))))"
proof (cases st)
  case (fields hr hc T)
  show ?thesis
    using tame_trans [OF tame_conformity [of S T E i hc] tame_relay]
    by (simp add: fields check_slave_def Let_def case_prod_beta)
qed

lemma tame_bootstrap: "tame S (cl T) (cl (BootstrapTopology t T))"
  by (simp add: BootstrapTopology_def tame_view)

lemma tame_warn: "tame S (cl T) (cl (topo_warn k d T))"
  by (simp add: topo_warn_def tame_set_state)

lemma tame_count: "tame S (cl (snd st)) (cl (snd (count_rw i st)))"
  by (cases st) (simp add: count_rw_def tame_view)

lemma tame_writers: "tame S (cl T) (cl (prefer_writer E T))" "tame S (cl T) (cl (wsrep_leader E T))"
proof -
  have v: "tame S (cl X) (cl (on_topo (\<lambda>c. c\<lparr>vmaster := Some i\<rparr>) X))" for X i by (simp add: tame_view)
  note t = tame_trans [OF tame_trans [OF tame_warn tame_warn] tame_refl] tame_trans [OF tame_warn tame_open]
    tame_trans [OF tame_trans [OF tame_warn v] tame_open]
  show "tame S (cl T) (cl (prefer_writer E T))"
    unfolding prefer_writer_def Let_def by (cases "getOnePreferedMaster (cl (topo_warn ''WARN0004''
        ''RO server count > 1 in 2 node multi-master mode.  switching to preferred master.'' T))")
      (simp_all only: option.case t)
  show "tame S (cl T) (cl (wsrep_leader E T))"
    unfolding wsrep_leader_def Let_def by (cases "getOnePreferedMaster (cl (topo_warn ''WARN0006''
        ''Wsrep cluster need a leader electing one'' T))") (simp_all only: option.case t tame_warn)
qed

lemma tame_if: "tame S a (cl X) \<Longrightarrow> tame S (cl X) (cl Y) \<Longrightarrow> tame S a (cl (if b then Y else X))"
  by (auto intro: tame_trans)

lemma tame_multi_master: "tame S (cl T) (cl (multi_master E T))"
proof -
  let ?p = "fold count_rw (Servers (cl T)) (0, T)"
  have "tame S (cl (snd (0::nat, T))) (cl (snd ?p))"
    by (rule tame_fold [where g = "\<lambda>s. cl (snd s)"]) (auto intro: tame_count)
  then have p: "tame S (cl T) (cl (snd ?p))" by simp
  show ?thesis
    unfolding multi_master_def Let_def case_prod_beta
    by (rule tame_if [OF tame_refl], intro tame_if tame_writers tame_warn p)
qed

lemma tame_autodetect:
  "set is \<subseteq> set (Servers (cl T)) \<Longrightarrow> tame S (cl T) (cl (autodetect E sid0 is T))"
proof (induction E sid0 "is" T rule: autodetect.induct)
  case (2 E sid0 i "is" T)
  let ?M = "on_topo (\<lambda>c. SetMaster i (c\<lparr>master := Some i\<rparr>)) T"
  have i: "i \<in> set (Servers (cl T))" using 2 by simp
  have 1: "tame S (cl T) (cl ?M)" using tame_set_master [OF i] by simp
  have o2: "tame S (cl T) (cl (open_writes E i ?M))" by (rule tame_trans [OF 1 tame_open])
  have 3: "tame S (cl T) (cl (on_topo (\<lambda>c. c\<lparr>master := Some i, vmaster := Some i\<rparr>) T))"
    using i by (simp add: tame_def)
  show ?case using i 1 o2 3 "2.IH" "2.prems" by (simp add: Let_def)
qed simp

lemma tame_failed_master: "FailedMasterDiscovery a = Some b \<Longrightarrow> tame S a b"
  by (auto simp: FailedMasterDiscovery_def Let_def tame_def upd_srv_def find_Some_iff split: if_splits option.splits)

lemma tame_detect: "detect_master E T = Some T' \<Longrightarrow> tame S (cl T) (cl T')"
proof -
  assume a: "detect_master E T = Some T'"
  let ?T1 = "autodetect E (GetReplicationServerID (srv (cl T) (hd (slaves (cl T))))) (Servers (cl T)) T"
  have 1: "tame S (cl T) (cl ?T1)" by (rule tame_autodetect) simp
  from a consider "T' = T" | "T' = ?T1" | c where "FailedMasterDiscovery (cl ?T1) = Some c" "cl T' = c"
    by (auto simp: detect_master_def Let_def split: if_splits)
  then show ?thesis
    by cases (use 1 tame_trans [OF 1 tame_failed_master] in auto)
qed

lemma tame_reintroduce:
  assumes "i \<in> set (slaves (RCl R))"
  shows "tame S (RCl R) (RCl (snd (reintroduce E i R)))"
proof -
  let ?R1 = "on_cl (\<lambda>cl. upd_srv i (\<lambda>s. s\<lparr>FailCount := 0\<rparr>) (Server_SetState i stateSlave cl)) R"
  let ?R2 = "if PrevState (srv (RCl R) i) \<noteq> stateSuspect then on_cl (\<lambda>cl. cl\<lparr>slaves := slaves cl @ [i]\<rparr>) ?R1 else ?R1"
  have s: "steps (\<lambda>o1. \<not> opens_writes o1) (RCl R) (RCl ?R1)"
    by (auto intro!: steps_upd_srv steps_Server_SetState)
  have "tame S (RCl ?R1) (RCl ?R2)" using assms steps_fields(5) [OF s] by (auto simp: tame_def)
  then have 2: "tame S (RCl R) (RCl ?R2)" using tame_trans [OF tame_steps [OF s]] by blast
  have em: "tame S c (emit (OpSetReadOnly i True) c)" for c
    by (auto intro!: tame_steps steps_emit simp: opens_writes_def)
  have 3: "tame S (RCl R) (RCl (on_cl (emit (OpSetReadOnly i True)) ?R2))"
    unfolding on_cl_simps(1) by (rule tame_trans [OF 2 em])
  show ?thesis unfolding reintroduce_def Let_def using 2 3 by (cases "PrevState (srv (RCl R) i) = stateSuspect") simp_all
qed

lemma tame_replica:
  assumes "rejoinSlave E i ss R = Some (ok, R')" "i \<in> set (slaves (RCl R))" "GetTopology (RCl R) \<noteq> TopoMultiMasterRing"
  shows "tame S (RCl R) (RCl R')"
proof -
  have r: "tame S (RCl R) (RCl R1)" "i \<in> set (slaves (RCl R1))" if "repoint_replica E i ss c R = Some (b, R1)" for c b R1
  proof -
    have s: "steps (replica_op i c) (RCl R) (RCl R1)" by (rule repoint_replica_steps [OF that])
    then show "tame S (RCl R) (RCl R1)" by (auto intro!: tame_steps elim!: steps_mono simp: replica_op_def)
    show "i \<in> set (slaves (RCl R1))" using steps_fields(5) [OF s] assms(2) by simp
  qed
  have n: "tame S (RCl X) (RCl X')" if "reintroduce E i X = (b, X')" "i \<in> set (slaves (RCl X))" for X X' b
    using tame_reintroduce [OF that(2), of S E] that(1) by simp
  from assms(1,3) consider "R' = R" | c b where "repoint_replica E i ss c R = Some (b, R')"
    | c R1 where "repoint_replica E i ss c R = Some (True, R1)" "reintroduce E i R1 = (ok, R')"
    by (auto simp: rejoinSlave_def Let_def split: if_splits option.splits bool.splits)
  then show ?thesis
  proof cases
    case (3 c R1)
    then show ?thesis using tame_trans [OF r(1) n] r(2) by blast
  qed (use r in auto)
qed

lemma tame_fix_relay:
  assumes "RejoinFixRelay E i R = Some R'" "i \<in> set (slaves (RCl R))"
  shows "tame S (RCl R) (RCl R')"
proof -
  let ?R1 = "on_cl (set_state ''ERR00045'' ''WARNING'' [] ''TOPO'' '''') R"
  let ?R2 = "on_cl (set_state ''ERR00046'' ''WARNING'' [] ''TOPO'' '''') ?R1"
  have 1: "tame S (RCl R) (RCl ?R1)" by (simp add: tame_set_state)
  have 2: "tame S (RCl R) (RCl ?R2)" using tame_trans [OF 1, of "RCl ?R2"] by (simp add: tame_set_state)
  have f: "slaves (RCl ?R1) = slaves (RCl R)" "GetTopology (RCl ?R1) = GetTopology (RCl R)"
    by (simp_all add: set_state_def Cluster_SetState_def GetTopology_def)
  have r: "tame S (RCl ?R1) (RCl R')" if "rejoinSlave E i ss ?R1 = Some (b, R')" "GetTopology (RCl R) \<noteq> TopoMultiMasterRing" for ss b
    by (rule tame_replica [OF that(1)]) (use that f assms(2) in auto)
  from assms(1) consider "R' = R" | "R' = ?R1" | "R' = ?R2"
    | ss b where "rejoinSlave E i ss ?R1 = Some (b, R')" "GetTopology (RCl R) \<noteq> TopoMultiMasterRing"
    by (auto simp: RejoinFixRelay_def Let_def split: if_splits option.splits)
  then show ?thesis
    by cases (use 1 2 tame_trans [OF 1 r] in auto)
qed

lemma set_healthy_simps [simp]: "cl (set_healthy m b T) = cl T" "TR (set_healthy m b T) = TR T"
  by (simp_all add: set_healthy_def)

lemma tame_check_replica:
  assumes "check_replica E m i T = Some T'" "i \<in> set (slaves (cl T))"
  shows "tame True (cl T) (cl T')"
proof -
  define e where "e = on_topo (set_state ''ERR00064'' ''ERROR'' [FS (URL (srv (cl T) i)), FS (URL (srv (cl T) m)),
      FS (URL (srv (cl T) (the (GetMasterFromReplication (srv (cl T) i) (cl T)))))] ''TOPO'' (URL (srv (cl T) i))) T"
  have e: "tame True (cl T) (cl e)" "slaves (cl e) = slaves (cl T)"
    by (simp_all add: e_def tame_set_state) (simp add: set_state_def Cluster_SetState_def)
  have "cl T' = cl T \<or> cl T' = cl e \<or> (\<exists>R. cl T' = RCl R \<and> RejoinFixRelay (RE E) i (TR e) = Some R)"
    using assms(1) by (auto simp: check_replica_def Let_def e_def split: if_splits option.splits)
  moreover have "tame True (cl T) (RCl R)" if "RejoinFixRelay (RE E) i (TR e) = Some R" for R
    using tame_trans [OF e(1) tame_fix_relay [OF that]] e(2) assms(2) by simp
  ultimately show ?thesis using e(1) by auto
qed

lemma tame_check_replicas:
  "check_replicas E m is T = Some T' \<Longrightarrow> set is \<subseteq> set (slaves (cl T)) \<Longrightarrow> tame True (cl T) (cl T')"
proof (induction "is" arbitrary: T)
  case (Cons i "is")
  then obtain T1 where 1: "check_replica E m i T = Some T1" "check_replicas E m is T1 = Some T'"
    by (auto split: bind_splits)
  have t: "tame True (cl T) (cl T1)" using tame_check_replica [OF 1(1)] Cons.prems by simp
  have "tame True (cl T1) (cl T')" using Cons.IH [OF 1(2)] t Cons.prems by (auto simp: tame_def)
  with t show ?case by (rule tame_trans)
qed simp

lemma tame_master_checks:
  assumes "master_checks E T = Some T'"
  shows "tame True (cl T) (cl T')"
proof (cases "master (cl T)")
  case None
  with assms show ?thesis by (auto simp: master_checks_def tame_set_state)
next
  case (Some m)
  have 2: "tame True (cl T) (cl (check_master m T))" by (simp add: check_master_def Let_def tame_steps settings_still)
  obtain T3 where r: "replication_checks E m (check_master m T) = Some T3" and T': "T' = false_positive m T3"
    using assms Some by (auto simp: master_checks_def)
  have "tame True (cl (check_master m T)) (cl T3)"
    using r tame_check_replicas [OF _ subset_refl] by (auto simp: replication_checks_def split: if_splits)
  moreover have "tame True (cl T3) (cl T')" by (simp add: T' false_positive_def tame_set_state)
  ultimately show ?thesis using 2 tame_trans by blast
qed

lemma tame_conf_topology: "cl (snd (GetTopologyFromConf T)) = cl T"
  by (simp add: GetTopologyFromConf_def Let_def)

lemma tame_finish: "tame S (cl T) (cl (snd (finish_discovery E T)))"
proof -
  define T1 where "T1 = snd (GetTopologyFromConf T)"
  define T2 where "T2 = on_topo (\<lambda>c. c\<lparr>Topology := fst (GetTopologyFromConf T)\<rparr>) T1"
  define T3 where "T3 = (case GetMaster (cl T2) of None \<Rightarrow> T2
                | Some i \<Rightarrow>
                    if IsDiscovered (cl T2) \<and> IsReadOnly (srv (cl T2) i) \<and> \<not> IsMaintenance (srv (cl T2) i) \<and>
                       Topology (cl T2) \<noteq> TopoMasterSlave
                    then open_writes E i T2 else T2)"
  have 2: "tame S (cl T) (cl T2)" by (simp add: T2_def T1_def tame_conf_topology tame_view)
  have 3: "tame S (cl T) (cl T3)" using 2 tame_trans [OF 2 tame_open] by (simp add: T3_def split: option.split)
  have f: "finish_discovery E T = (let T4 = (case (master (cl T3), vmaster (cl T3)) of
                  (Some m, Some v) \<Rightarrow>
                    if Topology (cl T3) = TopoMasterSlave
                    then on_topo (\<lambda>c. c\<lparr>vmaster := None\<rparr>) (T3\<lparr>ext := (ext T3)(v := (ext T3 v)\<lparr>IsVirtualMaster := False\<rparr>)\<rparr>)
                    else T3
                | _ \<Rightarrow> T3);
          (ok, SM) = CanMonitor (StateMachine (cl T4))
      in (ok, on_topo (\<lambda>c. c\<lparr>StateMachine := SM\<rparr>) T4))"
    by (simp only: finish_discovery_def T3_def T2_def T1_def Let_def case_prod_beta)
  have "tame S (cl T3) (cl (snd (finish_discovery E T)))"
    unfolding f Let_def case_prod_beta by (auto intro!: tame_view split: option.split)
  with 3 show ?thesis by (rule tame_trans)
qed

lemma live_pairs_fold_still:
  "steps P a (CheckSameServerID a)"
  unfolding CheckSameServerID_def by (rule steps_fold) (auto intro: steps_set_state)

lemma srv_CheckSameServerID: "srv (CheckSameServerID a) = srv a"
  unfolding CheckSameServerID_def by (rule fold_invariant [where Q = "\<lambda>_. True" and P = "\<lambda>c. srv c = srv a"]) auto

lemma check_down_effect:
  "tame S (cl T) (cl (check_down T))" "srv (cl (check_down T)) = srv (cl T)" "ext (check_down T) = ext T"
  "Spider (check_down T) = Spider T"
proof -
  let ?T0 = "snd (TopologyClusterDown T)" and ?c = "snd (AllServersFailed (cl (snd (TopologyClusterDown T))))"
  have 1: "tame S (cl T) (cl ?T0)"
    by (auto simp: TopologyClusterDown_def Let_def set_state_def Cluster_SetState_def tame_def)
  have 2: "tame S (cl ?T0) ?c" by (simp add: AllServersFailed_def tame_set_state)
  have 3: "tame S ?c (CheckSameServerID ?c)" by (intro tame_steps live_pairs_fold_still)
  show "tame S (cl T) (cl (check_down T))"
    using tame_trans [OF tame_trans [OF 1 2] 3] by (simp add: check_down_def case_prod_beta Let_def)
  have 0: "srv (cl ?T0) = srv (cl T)" "ext ?T0 = ext T" "Spider ?T0 = Spider T"
    by (simp_all add: TopologyClusterDown_def Let_def)
  then show "srv (cl (check_down T)) = srv (cl T)"
    by (simp add: check_down_def case_prod_beta Let_def srv_CheckSameServerID AllServersFailed_def)
  show "ext (check_down T) = ext T" "Spider (check_down T) = Spider T"
    using 0 by (simp_all add: check_down_def case_prod_beta Let_def)
qed

lemma tame_check_slaves: "tame True (cl T) (cl (prefer_master_slave (check_slaves E T)))"
proof -
  have 1: "tame True (cl T) (cl (snd (snd (check_slaves E T))))"
    using tame_fold [where g = "\<lambda>s. cl (snd (snd s))" and f = "check_slave E" and S = True and V = "Servers (cl T)"
        and s = "(False, b, T)" for b, OF tame_check_slave]
    unfolding check_slaves_def Let_def by simp
  have "tame True (cl (snd (snd q))) (cl (prefer_master_slave q))" for q
    by (cases q) (simp add: prefer_master_slave_def tame_bootstrap)
  with 1 show ?thesis by (rule tame_trans)
qed

lemma discover_effect:
  assumes "discover E T = Some (ok, T')" "\<not> Spider T"
  shows "tame False (cl T) (cl T')"
    and "distinct (Servers (cl T)) \<Longrightarrow> set (slaves (cl T')) = {i \<in> set (Servers (cl T)). replicates T i}"
proof -
  let ?T1 = "check_down (T\<lparr>ActivePassive := False\<rparr>)"
  let ?T2 = "find_slaves E ?T1" and ?T3 = "prefer_master_slave (check_slaves E (find_slaves E ?T1))"
  have 1: "tame False (cl T) (cl ?T1)" using check_down_effect(1) [of False "T\<lparr>ActivePassive := False\<rparr>"] by simp
  have 2: "tame False (cl ?T1) (cl ?T2)" by (rule find_slaves_effect)
  obtain T4 T5 where "detect_master E (multi_master E ?T3) = Some T4" "master_checks E T4 = Some T5"
    "finish_discovery E T5 = (ok, T')"
    using assms check_down_effect(4) [of "T\<lparr>ActivePassive := False\<rparr>"] by (auto simp: discover_def Let_def bind_eq_Some_conv)
  then have t: "tame True (cl ?T2) (cl T')"
    using tame_check_slaves [of ?T2 E] tame_multi_master [of True ?T3 E] tame_detect [of E "multi_master E ?T3" T4 True]
      tame_master_checks [of E T4 T5] tame_finish [of True T5 E] tame_trans by (metis snd_conv)
  show "tame False (cl T) (cl T')" using tame_trans [OF tame_trans [OF 1 2] tame_weaken [OF t]] .
  assume di: "distinct (Servers (cl T))"
  have s: "Servers (cl ?T1) = Servers (cl T)" using tame_servers [OF 1] .
  have r: "replicates ?T1 = replicates T"
    using check_down_effect(2,3) [of "T\<lparr>ActivePassive := False\<rparr>"] by (simp add: replicates_def fun_eq_iff)
  show "set (slaves (cl T')) = {i \<in> set (Servers (cl T)). replicates T i}"
    using t find_slaves_effect(2) [of ?T1 E] di s r by (auto simp: tame_def)
qed

section \<open>Discovery returns\<close>

text \<open>No stage changes the role of the manager.\<close>

lemma status_steps [simp]:
  "TStatus (open_writes E i T) = TStatus T" "TStatus (topo_warn k d T) = TStatus T"
  "TStatus (guess_master i T) = TStatus T" "TStatus (cycle_topology i T) = TStatus T" "TStatus (mark_relay i T) = TStatus T"
  "TStatus (BootstrapTopology t T) = TStatus T" "TStatus (set_healthy m b T) = TStatus T"
  by (simp_all add: open_writes_def topo_warn_def guess_master_def cycle_topology_def mark_relay_def BootstrapTopology_def
      set_healthy_def Let_def)

lemma status_classify [simp]: "TStatus (classify E i T) = TStatus T"
  by (simp add: classify_def last_non_slave_def Let_def)

lemma status_fold:
  assumes "\<And>x s. TStatus (g (f x s)) = TStatus (g s)"
  shows "TStatus (g (fold f xs s)) = TStatus (g s)"
  using assms by (induction xs arbitrary: s) simp_all

lemma status_find_slaves [simp]: "TStatus (find_slaves E T) = TStatus T"
  using status_fold [of "\<lambda>T. T" "classify E"] status_fold [of "\<lambda>T. T" guess_master] by (simp add: find_slaves_def Let_def)

lemma status_check_slave: "TStatus (snd (snd (check_slave E i s))) = TStatus (snd (snd s))"
  by (cases s) (simp add: check_slave_def check_conformity_def case_prod_beta Let_def)

lemma status_count: "TStatus (snd (count_rw i s)) = TStatus (snd s)"
  by (cases s) (simp add: count_rw_def)

lemma status_writers: "TStatus (prefer_writer E T) = TStatus T" "TStatus (wsrep_leader E T) = TStatus T"
  by (simp_all add: prefer_writer_def wsrep_leader_def Let_def split: option.split)

lemma status_if: "TStatus X = s \<Longrightarrow> TStatus Y = TStatus X \<Longrightarrow> TStatus (if b then Y else X) = s"
  by simp

lemma status_multi_master [simp]: "TStatus (multi_master E T) = TStatus T"
proof -
  have p: "TStatus (snd (fold count_rw (Servers (cl T)) (0, T))) = TStatus T"
    using status_fold [of snd count_rw "Servers (cl T)" "(0, T)", OF status_count] by simp
  show ?thesis
    unfolding multi_master_def Let_def case_prod_beta
    by (rule status_if [OF refl], intro status_if status_writers status_steps(2) p)
qed

lemma status_autodetect [simp]: "TStatus (autodetect E sid0 is T) = TStatus T"
  by (induction E sid0 "is" T rule: autodetect.induct) (simp_all add: Let_def)

lemma status_check_down [simp]: "TStatus (check_down T) = TStatus T"
  by (simp add: check_down_def TopologyClusterDown_def Let_def case_prod_beta)

lemma detect_master_returns: "\<exists>T'. detect_master E T = Some T' \<and> TStatus T' = TStatus T"
proof -
  let ?T1 = "autodetect E (GetReplicationServerID (srv (cl T) (hd (slaves (cl T))))) (Servers (cl T)) T"
  have "tame True (cl T) (cl ?T1)" by (rule tame_autodetect) simp
  then have "slaves (cl T) \<noteq> [] \<Longrightarrow> slaves (cl ?T1) \<noteq> []" by (auto simp: tame_def)
  then show ?thesis by (auto simp: detect_master_def FailedMasterDiscovery_def Let_def)
qed

lemma check_replicas_return: "TStatus T \<noteq> ConstMonitorActif \<Longrightarrow> \<exists>T'. check_replicas E m is T = Some T'"
proof (induction "is" arbitrary: T)
  case (Cons i "is")
  have "\<exists>T1. check_replica E m i T = Some T1 \<and> TStatus T1 = TStatus T"
    using Cons.prems by (auto simp: check_replica_def Let_def split: option.split)
  with Cons show ?case by fastforce
qed simp

lemma master_checks_return: "TStatus T \<noteq> ConstMonitorActif \<Longrightarrow> \<exists>T'. master_checks E T = Some T'"
  using check_replicas_return [of "check_master m T" for m]
  by (auto simp: master_checks_def replication_checks_def check_master_def Let_def split: option.split)

lemma status_check_slaves: "TStatus (prefer_master_slave (check_slaves E T)) = TStatus T"
proof -
  have "TStatus (snd (snd (check_slaves E T))) = TStatus T"
    using status_fold [of "\<lambda>s. snd (snd s)" "check_slave E", OF status_check_slave] by (simp add: check_slaves_def Let_def)
  then show ?thesis by (cases "check_slaves E T") (simp add: prefer_master_slave_def)
qed

lemma discover_returns:
  assumes "TStatus T \<noteq> ConstMonitorActif" "\<not> Spider T"
  shows "\<exists>ok T'. discover E T = Some (ok, T')"
proof -
  let ?T3 = "multi_master E (prefer_master_slave (check_slaves E (find_slaves E (check_down (T\<lparr>ActivePassive := False\<rparr>)))))"
  have "TStatus ?T3 \<noteq> ConstMonitorActif" using assms(1) by (simp add: status_check_slaves)
  then obtain T4 T5 where "detect_master E ?T3 = Some T4" "master_checks E T4 = Some T5"
    using detect_master_returns [of E ?T3] master_checks_return by metis
  then show ?thesis
    using assms(2) check_down_effect(4) [of "T\<lparr>ActivePassive := False\<rparr>"] by (simp add: discover_def Let_def)
qed

section \<open>Properties\<close>

text \<open>
  A topology discovery by a manager that lost the arbitration sends no command that opens a server for writes,
  whichever server it takes for the master.
\<close>

theorem refused_discovery_opens_nothing:
  assumes "discover E T = Some (ok, T')" "\<not> Spider T" "Arbitration (Conf (cl T))" "IsFailedArbitrator (cl T)"
  shows "\<exists>ops. trace (cl T') = trace (cl T) @ ops \<and> list_all (\<lambda>o1. \<not> opens_writes o1) ops"
  using discover_effect(1) [OF assms(1,2)] assms(3,4) by (simp add: tame_def)

text \<open>
  C19: after a topology discovery the replicas are exactly the listed servers that answer and replicate, as the discovery
  saw them when it began; the server list is unchanged and the master is the old one or a listed server.
\<close>

theorem discovery_finds_replicas:
  assumes "discover E T = Some (ok, T')" "\<not> Spider T" "distinct (Servers (cl T))"
  shows "Servers (cl T') = Servers (cl T) \<and> set (slaves (cl T')) = {i \<in> set (Servers (cl T)). replicates T i} \<and>
    (\<forall>m. master (cl T') = Some m \<longrightarrow> master (cl T) = Some m \<or> m \<in> set (Servers (cl T)))"
  using discover_effect [OF assms(1,2)] assms(3) by (simp add: tame_def)


text \<open>A cluster whose master \<open>db0\<close> has come back read-only, seen by a standby manager the arbitrator refused.\<close>

definition plain_ext :: srv_ext where
  "plain_ext = \<lparr>IsWsrepPrimary = False, IsGroupReplicationSlave = False, IsGroupReplicationMaster = False,
     BinlogDumpThreads = 0, HaveHealthyReplica = False, IsVirtualMaster = False\<rparr>"

definition sample_topo :: topo where
  "sample_topo =
     \<lparr>TR = sample_rejoin\<lparr>RCl := sample_cluster\<lparr>Conf := (Conf sample_cluster)\<lparr>Arbitration := True\<rparr>, IsFailedArbitrator := True,
        srv := (\<lambda>i. if i = 0 then (srv sample_cluster 0)\<lparr>State := stateMaster, HaveReadOnly := True\<rparr>
                    else (srv sample_cluster i)\<lparr>IsSlave := True\<rparr>)\<rparr>\<rparr>,
      ext = (\<lambda>_. plain_ext), LogSlaveServers = [], ClusterIsDown = False, IsClusterDown = False, runOnceAfterTopology = True,
      ActivePassive = False, MultiMasterRing = False, MultiMasterRingUnsafe = False, MultiMasterWsrep = False, Spider = False,
      MasterSlavePgStream = False, MasterSlavePgLogical = False, IsPostgres = False, ConfTopology = '''', TopologyTarget = '''',
      TStatus = ''S'', TIsSplitBrain = False, TIsLostMajority = False, ArbitratorAddress = ''''\<rparr>"

definition topo_calm :: topo_env where
  "topo_calm = \<lparr>RE = rejoin_calm, PingAll = (\<lambda>_ T. T), SpiderShardsDiscovery = (\<lambda>T. T)\<rparr>"

lemma sample_topo_facts:
  "TStatus sample_topo \<noteq> ConstMonitorActif" "\<not> Spider sample_topo" "Arbitration (Conf (cl sample_topo))"
  "IsFailedArbitrator (cl sample_topo)" "Servers (cl sample_topo) = [0, 1, 2]" "trace (cl sample_topo) = []"
  "replicates sample_topo 1" "replicates sample_topo 2" "\<not> replicates sample_topo 0"
  by code_simp+


theorem refused_discovery_opens_nothing_witness:
  "\<exists>ok T'. discover topo_calm sample_topo = Some (ok, T') \<and> list_all (\<lambda>o1. \<not> opens_writes o1) (trace (cl T'))"
proof -
  obtain ok T' where d: "discover topo_calm sample_topo = Some (ok, T')"
    using discover_returns [OF sample_topo_facts(1,2)] by blast
  show ?thesis
    using d refused_discovery_opens_nothing [OF d sample_topo_facts(2-4)] by (simp add: sample_topo_facts(6))
qed

theorem discovery_finds_replicas_witness:
  "\<exists>ok T'. discover topo_calm sample_topo = Some (ok, T') \<and> set (slaves (cl T')) = {1, 2}"
proof -
  obtain ok T' where d: "discover topo_calm sample_topo = Some (ok, T')"
    using discover_returns [OF sample_topo_facts(1,2)] by blast
  have "set (slaves (cl T')) = {i \<in> set (Servers (cl sample_topo)). replicates sample_topo i}"
    using discovery_finds_replicas [OF d sample_topo_facts(2)] by (simp add: sample_topo_facts(5))
  also have "\<dots> = {1, 2}" using sample_topo_facts(7-9) by (auto simp: sample_topo_facts(5))
  finally show ?thesis using d by blast
qed

end
