(* ===== verification/SrvRefresh.thy ===== *)
theory SrvRefresh
  imports Topology
begin

text \<open>
  The refresh of one server, \<open>src/cluster/srv.go\<close>: what the monitor reads from a database in a round and the view of the
  server it keeps, with the privilege check of \<open>src/cluster/srv_chk.go\<close>.

  The answers of the database are the environment; a refresh asks each query once. Errors are \<open>None\<close> or the
  text of the error. \<open>None\<close> as the result of an operation is a run-time panic. Left out: the goroutines a refresh starts
  (binary log and performance schema scans, metrics), the workload figures and the InnoDB status, which no
  decision reads.
\<close>

section \<open>State\<close>

record slave_variables =
  SlaveParallelMode :: string
  SlaveTypeConversions :: string
  SlaveParallelMaxQueued :: int
  SlaveParallelThreads :: int
  SlaveParallelWorkers :: int

record srv_mon =
  Strict :: string
  LongQueryTime :: string
  LogOutput :: string
  SlowQueryLog :: string
  HaveEventScheduler :: bool
  HaveBinlog :: bool
  HaveBinlogMixed :: bool
  HaveBinlogStatement :: bool
  HaveSlowQueryLog :: bool
  HavePFS :: bool
  HavePFSSlowQueryLog :: bool
  HaveMetaDataLocksLog :: bool
  HaveQueryResponseTimeLog :: bool
  HaveDiskMonitor :: bool
  HaveSQLErrorLog :: bool
  InCaptureMode :: bool
  ReplicationTags :: string
  ReplicationHealth :: string
  SensitiveVariables :: "string \<Rightarrow> string"
  PrevStatus :: "string \<Rightarrow> string"
  SlaveVariables :: slave_variables
  Plugins :: "string \<Rightarrow> string option"
  RelayLogSize :: u64
  GTIDExecuted :: string
  HashUUID :: u64
  MxsVersion :: int
  MonitorTime :: int
  PrevMonitorTime :: int
  FailSuspectHeartbeat :: int
  TLSConfigUsed :: string
  Cookies :: "string list"
  ReplicationsNil :: bool
    \<comment> \<open>\<open>Replications\<close> is nil, not just empty\<close>

record mon_conf =
  CheckType :: string
  Autorejoin :: bool
  MonitorScheduler :: bool
  MonitorProcessList :: bool
  MonitorPlugins :: bool
  MonitorCheckGrants :: bool
  ReplicationErrorScript :: string
  ReplicationRestartOnSQLErrorMatch :: string

record mon =
  MT :: topo
  mx :: "sid \<Rightarrow> srv_mon"
  MConf :: mon_conf
  IsInBackup :: bool
  HaveDBTLSCert :: bool
  RepMgrHostname :: string
  DbUser :: string
  RplUserName :: string
  IsAlertDisable :: bool
  SlavesMade :: bool
    \<comment> \<open>an empty list of replicas is not nil\<close>

text \<open>A user's row of the privilege query.\<close>

record privileges =
  Super_priv :: string
  Repl_slave_priv :: string
  Repl_client_priv :: string
  Reload_priv :: string

record mon_env =
  TE :: topo_env
  ConnPings :: "sid \<Rightarrow> bool"
  QMaxscaleVersion :: "sid \<Rightarrow> string"
  QVersion :: "sid \<Rightarrow> string option"
  QVersionComment :: "sid \<Rightarrow> string"
  QVariables :: "sid \<Rightarrow> (string \<Rightarrow> string) \<times> bool"
    \<comment> \<open>the rows read, values in upper case, and whether all were read\<close>
  QSensitiveVariables :: "sid \<Rightarrow> (string \<Rightarrow> string) \<times> bool"
  QPFSConsumer :: "sid \<Rightarrow> string \<Rightarrow> string"
  QGroupRole :: "sid \<Rightarrow> string \<Rightarrow> bool"
    \<comment> \<open>the server is an online member of its group with this role\<close>
  QEvents :: "sid \<Rightarrow> event_status list option"
  QUsers :: "sid \<Rightarrow> (string \<times> string) list"
  QProcesslist :: "sid \<Rightarrow> string option"
    \<comment> \<open>the error of the process list query\<close>
  QMasterStatus :: "sid \<Rightarrow> (string \<times> u64) option"
  QDumpThreads :: "nat \<Rightarrow> sid \<Rightarrow> int \<times> string option"
    \<comment> \<open>asked up to twice\<close>
  QDisks :: "sid \<Rightarrow> (int \<times> int) list"
  QSlaves :: "sid \<Rightarrow> (string option \<times> slave_status) list option"
    \<comment> \<open>the rows of the replication status, each with its channel\<close>
  QReplicateFilters :: "sid \<Rightarrow> bool"
    \<comment> \<open>one of the replication filters of the status row is not empty\<close>
  QStatus :: "sid \<Rightarrow> string \<Rightarrow> string"
  QPlugins :: "sid \<Rightarrow> string \<Rightarrow> string option"
  QLocks :: "sid \<Rightarrow> string option"
    \<comment> \<open>the error of the metadata lock query\<close>
  QUserFunction :: "sid \<Rightarrow> string option"
  QPrivileges :: "sid \<Rightarrow> string \<Rightarrow> string list \<Rightarrow> privileges \<times> string option"
    \<comment> \<open>of a user for a list of hosts\<close>
  LookupIP :: "string \<Rightarrow> string \<times> string option"

abbreviation mc :: "mon \<Rightarrow> cluster" where "mc M \<equiv> cl (MT M)"
abbreviation view :: "sid \<Rightarrow> mon \<Rightarrow> server" where "view i M \<equiv> srv (cl (MT M)) i"
abbreviation mon_db :: "mon_env \<Rightarrow> dbenv" where "mon_db E \<equiv> Db (RE (TE E))"

definition on_mon :: "(cluster \<Rightarrow> cluster) \<Rightarrow> mon \<Rightarrow> mon" where
  "on_mon f M = M\<lparr>MT := on_topo f (MT M)\<rparr>"

definition upd_view :: "sid \<Rightarrow> (server \<Rightarrow> server) \<Rightarrow> mon \<Rightarrow> mon" where
  "upd_view i f = on_mon (upd_srv i f)"

definition upd_ext :: "sid \<Rightarrow> (srv_ext \<Rightarrow> srv_ext) \<Rightarrow> mon \<Rightarrow> mon" where
  "upd_ext i f M = M\<lparr>MT := (MT M)\<lparr>ext := (ext (MT M))(i := f (ext (MT M) i))\<rparr>\<rparr>"

definition upd_mx :: "sid \<Rightarrow> (srv_mon \<Rightarrow> srv_mon) \<Rightarrow> mon \<Rightarrow> mon" where
  "upd_mx i f M = M\<lparr>mx := (mx M)(i := f (mx M i))\<rparr>"

section \<open>Version\<close>

text \<open>
  The pattern \<open>([0-9]+).([0-9]+).([0-9]+)*\<close>: the dots stand for any character but a newline. The candidates at a
  position, in the order a leftmost-first matcher tries them.
\<close>

definition digit_runs :: "string \<Rightarrow> nat list" where
  "digit_runs s = rev [1..<Suc (length (takeWhile is_digit s))]"

definition any_at :: "nat \<Rightarrow> string \<Rightarrow> bool" where
  "any_at n s \<longleftrightarrow> n < length s \<and> s ! n \<noteq> CHR 0x0A"

definition mxs_at :: "string \<Rightarrow> (string \<times> string \<times> string) list" where
  "mxs_at s = concat (map (\<lambda>a. let t = drop (Suc a) s in
       map (\<lambda>b. (take a s, take b t, takeWhile is_digit (drop (Suc b) t))) (filter (\<lambda>b. any_at b t) (digit_runs t)))
     (filter (\<lambda>a. any_at a s) (digit_runs s)))"

fun mxs_match :: "string \<Rightarrow> (string \<times> string \<times> string) option" where
  "mxs_match [] = None"
| "mxs_match (c # s) = (case mxs_at (c # s) of m # _ \<Rightarrow> Some m | [] \<Rightarrow> mxs_match s)"

definition MariaDBVersion :: "string \<Rightarrow> int option" where
  "MariaDBVersion s =
     (if s = '''' then Some 0
      else map_option (\<lambda>(x, y, z). if z = '''' then 0 else s64 (s64 (atoi x * 10000) + s64 (atoi y * 100) + atoi z))
             (mxs_match s))"

definition GetDBVersion :: "mon_env \<Rightarrow> sid \<Rightarrow> version option" where
  "GetDBVersion E i =
     (case QVersion E i of
        None \<Rightarrow> Some zero_version
      | Some s \<Rightarrow>
          Option.bind (NewMySQLVersion s '''') (\<lambda>(v, _).
            map_option fst (NewMySQLVersion s (if \<not> IsPostgreSQL v then QVersionComment E i else ''''))))"

section \<open>Privileges\<close>

definition GetHostFromConnection :: "mon_env \<Rightarrow> sid \<Rightarrow> server \<Rightarrow> string option" where
  "GetHostFromConnection E i s =
     (case QUserFunction E i of
        None \<Rightarrow> Some ''N/A''
      | Some u \<Rightarrow>
          if IsPostgreSQL (DBVersion s) then Some u
          else let parts = str_split (CHR ''@'') u in if 1 < length parts then Some (parts ! 1) else None)"

text \<open>
  The hosts whose grants are looked up for a client address; \<open>None\<close> when the address has fewer fields than the code
  reads. A PostgreSQL server is asked for the user alone.
\<close>

definition privilege_hosts :: "string \<Rightarrow> string \<Rightarrow> string list option" where
  "privilege_hosts host ip =
     (if CHR '':'' \<in> set ip then
        let f = str_split (CHR '':'') ip
        in if length f < 3 then None
           else Some [host, ip, ''::'', ip @ ''/255.0.0.0'', ip @ ''/255.255.0.0'', ip @ ''/255:255.255.0'',
                  f ! 0 @ '':%:%:%'', f ! 0 @ '':'' @ f ! 1 @ '':%:%'', f ! 0 @ '':'' @ f ! 1 @ '':'' @ f ! 2 @ '':%'']
      else
        let f = str_split (CHR ''.'') ip
        in if length f < 3 then None
           else Some [host, ip, ''%'', ip @ ''/255.0.0.0'', ip @ ''/255.255.0.0'', ip @ ''/255.255.255.0'',
                  f ! 0 @ ''.%.%.%'', f ! 0 @ ''.'' @ f ! 1 @ ''.%.%'', f ! 0 @ ''.'' @ f ! 1 @ ''.'' @ f ! 2 @ ''.%'',
                  f ! 0 @ ''.%'', f ! 0 @ ''.'' @ f ! 1 @ ''.%''])"

definition no_privileges :: privileges where
  "no_privileges = \<lparr>Super_priv = '''', Repl_slave_priv = '''', Repl_client_priv = '''', Reload_priv = ''''\<rparr>"

definition GetPrivileges :: "mon_env \<Rightarrow> sid \<Rightarrow> version \<Rightarrow> string \<Rightarrow> string \<Rightarrow> string \<Rightarrow> (privileges \<times> string option) option" where
  "GetPrivileges E i v user host ip =
     (if ip = '''' then Some (no_privileges, Some ''Error getting privileges for non-existent IP address'')
      else case privilege_hosts host ip of
          None \<Rightarrow> None
        | Some hs \<Rightarrow>
            let (priv, err) = QPrivileges E i user (if IsPostgreSQL v then [] else hs)
            in Some (priv, map_option (\<lambda>e. if str_contains e ''unsupported Scan''
                 then ''No replication user defined. Please check the replication user is created with the required privileges''
                 else e) err))"

definition conf_state :: "bool \<Rightarrow> string \<Rightarrow> string \<Rightarrow> fmt_arg list \<Rightarrow> string \<Rightarrow> cluster \<Rightarrow> cluster" where
  "conf_state cond key msg args url c =
     (if cond then Cluster_SetState key \<lparr>ErrKey = '''', ErrType = ''ERROR'', ErrDesc = sprintf (clusterError msg) args,
        ErrFrom = ''CONF'', ServerUrl = url\<rparr> c else c)"

definition manager_privileges :: "mon_env \<Rightarrow> sid \<Rightarrow> mon \<Rightarrow> mon option" where
  "manager_privileges E i M =
     (let s = view i M
      in Option.bind (GetHostFromConnection E i s) (\<lambda>myhost.
           case LookupIP E (Unbracket myhost) of
             (_, Some err) \<Rightarrow>
               Some (on_mon (conf_state True ''ERR00078'' ''ERR00005'' [FS (DbUser M), FS (URL s), FS myhost, FS err] (URL s)) M)
           | (myip, None) \<Rightarrow>
               map_option (\<lambda>(priv, err).
                   on_mon (conf_state (Reload_priv priv = ''N'') ''ERR00009'' ''ERR00009'' [FS (URL s)] (URL s))
                  (on_mon (conf_state (Super_priv priv = ''N'') ''ERR00008'' ''ERR00008'' [FS (URL s)] (URL s))
                  (on_mon (conf_state (Repl_client_priv priv = ''N'') ''ERR00006'' ''ERR00006'' [FS (URL s)] (URL s))
                  (on_mon (conf_state (err \<noteq> None) ''ERR00005'' ''ERR00005''
                     [FS (DbUser M), FS (RepMgrHostname M), FS (the err)] (URL s)) M))))
                 (GetPrivileges E i (DBVersion s) (DbUser M) (RepMgrHostname M) myip)))"

fun replica_privileges :: "mon_env \<Rightarrow> sid \<Rightarrow> sid list \<Rightarrow> mon \<Rightarrow> mon option" where
  "replica_privileges E i [] M = Some M"
| "replica_privileges E i (j # js) M =
     (let s = view i M; s2 = view j M
      in if URL s2 \<noteq> URL s \<and> \<not> IsRelay s2 \<and> \<not> IsDown s2 then
           Option.bind (GetPrivileges E i (DBVersion s) (DbUser M) (Host s2) (fst (LookupIP E (Unbracket (Host s2)))))
             (\<lambda>(priv, err). replica_privileges E i js
                (on_mon (conf_state (Repl_slave_priv priv = ''N'') ''ERR00007'' ''ERR00007'' [FS (URL s2)] (URL s2))
                (on_mon (conf_state (err \<noteq> None) ''ERR00015'' ''ERR00015''
                   [FS (RplUserName M), FS (URL s2), FS (the err)] (URL s2)) M)))
         else replica_privileges E i js M)"

definition CheckPrivileges :: "mon_env \<Rightarrow> sid \<Rightarrow> mon \<Rightarrow> mon option" where
  "CheckPrivileges E i M =
     (if \<not> MonitorCheckGrants (MConf M) then Some M
      else if State (view i M) \<noteq> '''' \<and> \<not> IsDown (view i M) \<and> \<not> IsRelay (view i M)
      then Option.bind (manager_privileges E i M) (\<lambda>M1. replica_privileges E i (Servers (mc M1)) M1)
      else Some M)"

section \<open>Variables\<close>

definition GetSlaveVariables :: "(string \<Rightarrow> string) \<Rightarrow> slave_variables" where
  "GetSlaveVariables v =
     (let num = (\<lambda>k. if atoi_ok (v k) then atoi (v k) else 0)
      in \<lparr>SlaveParallelMode = v ''SLAVE_PARALLEL_MODE'', SlaveTypeConversions = v ''SLAVE_TYPE_CONVERSIONS'',
          SlaveParallelMaxQueued = num ''SLAVE_PARALLEL_MAX_QUEUED'', SlaveParallelThreads = num ''SLAVE_PARALLEL_THREADS'',
          SlaveParallelWorkers = num ''SLAVE_PARALLEL_WORKERS''\<rparr>)"

definition read_settings :: "conf \<Rightarrow> server \<Rightarrow> server" where
  "read_settings cf s =
     (let v = Variables s
      in s\<lparr>ReadOnly := v ''READ_ONLY'', HaveReadOnly := v ''READ_ONLY'' = ''ON'',
           HaveSlaveIdempotent := v ''SLAVE_EXEC_MODE'' = ''IDEMPOTENT'',
           HaveSlaveOptimistic := v ''SLAVE_PARALLEL_MODE'' = ''OPTIMISTIC'',
           HaveSlaveSerialized := v ''SLAVE_PARALLEL_MODE'' = ''NONE'',
           HaveSlaveAggressive := v ''SLAVE_PARALLEL_MODE'' = ''AGGRESSIVE'',
           HaveSlaveMinimal := v ''SLAVE_PARALLEL_MODE'' = ''MINIMAL'',
           HaveSlaveConservative := v ''SLAVE_PARALLEL_MODE'' = ''CONSERVATIVE'',
           HaveBinlogRow := HasBinlogRow s, HaveBinlogAnnotate := v ''BINLOG_ANNOTATE_ROW_EVENTS'' = ''ON'',
           HaveBinlogSync := v ''SYNC_BINLOG'' = ''1'', HaveBinlogCompress := v ''LOG_BIN_COMPRESS'' = ''ON'',
           HaveBinlogSlaveUpdates := v ''LOG_SLAVE_UPDATES'' = ''ON'',
           HaveBinlogSlowqueries := v ''LOG_SLOW_SLAVE_STATEMENTS'' = ''ON'',
           HaveGtidStrictMode := v ''GTID_STRICT_MODE'' = ''ON'',
           HaveInnodbTrxCommit := v ''INNODB_FLUSH_LOG_AT_TRX_COMMIT'' = ''1'',
           HaveChecksum := v ''INNODB_CHECKSUM'' \<noteq> ''NONE'', HaveWsrep := v ''WSREP_ON'' = ''ON'',
           HaveMySQLGTID := HasMySQLGTID cf s\<rparr>)"

definition tag :: "bool \<Rightarrow> string \<Rightarrow> string" where
  "tag b t = (if b then '' '' @ t else '''')"

definition replication_tags :: "server \<Rightarrow> srv_mon \<Rightarrow> string" where
  "replication_tags s x =
     (let maria = IsMariaDB (DBVersion s)
      in concat (map (\<lambda>(b, t). tag b t)
        [(HaveReadOnly s, ''READ_ONLY''), (HaveEventScheduler x, ''SCHEDULER''), (Strict x = ''ON'' \<and> maria, ''GTID_STRICT_MODE''),
         (HaveSlaveIdempotent s, ''IDEMPOTENT''), (HaveSlaveOptimistic s \<and> maria, ''OPTIMISTIC''),
         (HaveSlaveSerialized s \<and> maria, ''SERIALIZED''), (HaveSlaveAggressive s \<and> maria, ''AGFRESSIVE''),
         (HaveSlaveMinimal s \<and> maria, ''MINIMAL''), (HaveSlaveConservative s \<and> maria, ''CONSERVATIVE''),
         (\<not> HaveBinlog x, ''NO_BINLOG''), (HaveBinlogRow s, ''ROW''), (HaveBinlogMixed x, ''MIXED''),
         (HaveBinlogStatement x, ''STATEMENT''), (\<not> HaveBinlogSync s, ''NO_SYNC''), (\<not> HaveBinlogRow s, ''NO_ANNOTATE''),
         (HaveBinlogCompress s \<and> maria, ''COMPRESS''), (\<not> HaveBinlogSlaveUpdates s, ''NO_SLAVE_UPDATES''),
         (\<not> HaveBinlogSlowqueries s, ''NO_IN_SLOW_QUERY_LOG''), (\<not> HaveGtidStrictMode s \<and> maria, ''NO_STRICT_MODE''),
         (HaveWsrep s \<and> maria, ''WSREP'')]))"

definition read_monitor :: "mon_env \<Rightarrow> sid \<Rightarrow> mon \<Rightarrow> mon" where
  "read_monitor E i M =
     (let s = view i M; v = Variables s;
          pfs = v ''PERFORMANCE_SCHEMA'' = ''ON'';
          scan = (pfs \<and> IsReseeding (TR (MT M)) i = '''' \<and> \<not> (IsInBackup M \<and> Some i = GetBackupServer (TR (MT M))))
      in upd_mx i (\<lambda>x. let x1 = x\<lparr>Strict := v ''GTID_STRICT_MODE'', HaveEventScheduler := v ''EVENT_SCHEDULER'' = ''ON'',
             LongQueryTime := v ''LONG_QUERY_TIME'', LogOutput := v ''LOG_OUTPUT'', SlowQueryLog := v ''SLOW_QUERY_LOG'',
             HaveBinlog := HasBinlog s, HaveBinlogMixed := v ''BINLOG_FORMAT'' = ''MIXED'',
             HaveBinlogStatement := v ''BINLOG_FORMAT'' = ''STATEMENT'', HaveSlowQueryLog := v ''SLOW_QUERY_LOG'' = ''ON'',
             HavePFS := pfs, HavePFSSlowQueryLog := (if scan then QPFSConsumer E i ''SLOW_QUERY_PFS'' = ''ON'' else HavePFSSlowQueryLog x),
             RelayLogSize := of_nat (parse_uint 64 (v ''RELAY_LOG_SPACE_LIMIT'')), SlaveVariables := GetSlaveVariables v\<rparr>
           in x1\<lparr>ReplicationTags := replication_tags s x1\<rparr>) M)"

section \<open>Positions and identity\<close>

definition group_role :: "mon_env \<Rightarrow> sid \<Rightarrow> mon \<Rightarrow> mon" where
  "group_role E i M =
     (if MultiMasterGrouprep (Conf (mc M)) then
        let M1 = upd_ext i (\<lambda>x. x\<lparr>IsGroupReplicationMaster := QGroupRole E i ''PRIMARY'',
                     IsGroupReplicationSlave := QGroupRole E i ''SECONDARY''\<rparr>) M
        in if IsGroupReplicationSlave (ext (MT M1) i) \<and> State (view i M1) = stateUnconn
           then on_mon (Server_SetState i stateSlave) M1 else M1
      else M)"

definition read_positions :: "mon_env \<Rightarrow> sid \<Rightarrow> mon \<Rightarrow> mon option" where
  "read_positions E i M =
     (let v = Variables (view i M)
      in if IsMariaDB (DBVersion (view i M)) then
           case (NewList (v ''GTID_BINLOG_POS''), NewList (v ''GTID_CURRENT_POS''), NewList (v ''GTID_SLAVE_POS'')) of
             (Some b, Some c, Some sl) \<Rightarrow>
               Some (group_role E i (upd_view i (\<lambda>s. s\<lparr>GTIDBinlogPos := b, CurrentGtid := c, SlaveGtid := sl,
                 SDomainID := (if uint_ok (v ''GTID_DOMAIN_ID'') then of_nat (parse_uint 64 (v ''GTID_DOMAIN_ID'')) else SDomainID s)\<rparr>) M))
           | _ \<Rightarrow> None
         else
           let b = NewMySQLList (CrcTable (mon_db E)) (v ''GTID_EXECUTED'')
           in map_option (\<lambda>sl. upd_mx i (\<lambda>x. x\<lparr>GTIDExecuted := v ''GTID_EXECUTED'',
                    HashUUID := crc64_checksum (CrcTable (mon_db E)) (str_upper (v ''SERVER_UUID''))\<rparr>)
                  (upd_view i (\<lambda>s. s\<lparr>GTIDBinlogPos := b, CurrentGtid := b, SlaveGtid := sl\<rparr>) M))
                (NewList (v ''GTID_SLAVE_POS'')))"

definition read_identity :: "sid \<Rightarrow> mon \<Rightarrow> mon" where
  "read_identity i = upd_view i (\<lambda>s. s\<lparr>ServerID := of_nat (parse_uint 64 (Variables s ''SERVER_ID''))\<rparr>)"

definition read_events :: "mon_env \<Rightarrow> sid \<Rightarrow> mon \<Rightarrow> mon" where
  "read_events E i M =
     (case QEvents E i of
        Some ev \<Rightarrow> upd_view i (\<lambda>s. s\<lparr>EventStatus := ev\<rparr>) M
      | None \<Rightarrow> on_mon (set_state ''ERR00073'' LvlErr [FS (URL (view i M))] ''MON'' '''')
                  (upd_view i (\<lambda>s. s\<lparr>EventStatus := []\<rparr>) M))"

definition grant_round :: "mon_env \<Rightarrow> sid \<Rightarrow> mon \<Rightarrow> mon option" where
  "grant_round E i M =
     (if GetHeartbeats (StateMachine (mc M)) mod 30 = 0 then
        if GetTopology (mc M) \<noteq> TopoActivePassive \<and> GetTopology (mc M) \<noteq> TopoMultiMasterWsrep
        then CheckPrivileges E i M else Some M
      else Some (on_mon (\<lambda>c. c\<lparr>StateMachine :=
             PreserveState [''ERR00007'', ''ERR00006'', ''ERR00008'', ''ERR00015'', ''ERR00078'', ''ERR00009''] (StateMachine c)\<rparr>) M))"

definition event_scheduler :: "sid \<Rightarrow> mon \<Rightarrow> mon" where
  "event_scheduler i M =
     (if FailEventScheduler (Conf (mc M)) \<and> IsMaster (mc M) (view i M) \<and> Variables (view i M) ''EVENT_SCHEDULER'' \<noteq> ''ON''
      then on_mon (emit (OpEventScheduler i True)) M else M)"

text \<open>The part that PostgreSQL servers skip.\<close>

definition read_mysql :: "mon_env \<Rightarrow> sid \<Rightarrow> mon \<Rightarrow> mon option" where
  "read_mysql E i M =
     (if IsPostgreSQL (DBVersion (view i M)) then Some M
      else Option.bind (read_positions E i (read_monitor E i (upd_view i (read_settings (Conf (mc M))) M))) (\<lambda>M1.
             map_option (event_scheduler i) (grant_round E i (read_events E i (read_identity i M1)))))"

text \<open>
  One round of queries for the settings; the flag tells whether the refresh goes on. When the variables cannot be read the
  code has already replaced them by what it got.
\<close>

definition read_users :: "mon_env \<Rightarrow> sid \<Rightarrow> mon \<Rightarrow> mon" where
  "read_users E i M =
     (let M1 = upd_view i (\<lambda>s. s\<lparr>Users := QUsers E i\<rparr>) M;
          M2 = (if MonitorScheduler (MConf M1)
                then on_mon (emit (OpJob i ''JobsCheckRunning'') \<circ> emit (OpJob i ''JobsCheckStates'')) M1 else M1)
      in case (MonitorProcessList (MConf M2), QProcesslist E i) of
           (True, Some err) \<Rightarrow> on_mon (set_state ''ERR00075'' LvlErr [FS err] ''MON'' (URL (view i M2))) M2
         | _ \<Rightarrow> M2)"

definition read_database :: "mon_env \<Rightarrow> sid \<Rightarrow> mon \<Rightarrow> (bool \<times> mon) option" where
  "read_database E i M =
     (case GetDBVersion E i of
        None \<Rightarrow> None
      | Some v \<Rightarrow>
          let M1 = upd_mx i (\<lambda>x. x\<lparr>PrevMonitorTime := MonitorTime x, MonitorTime := Now (mon_db E)\<rparr>)
                     (upd_view i (\<lambda>s. s\<lparr>DBVersion := v, Variables := fst (QVariables E i)\<rparr>) M)
          in if \<not> snd (QVariables E i) then Some (False, M1)
             else
               let M2 = upd_mx i (\<lambda>x. x\<lparr>SensitiveVariables := fst (QSensitiveVariables E i)\<rparr>) M1
               in if \<not> snd (QSensitiveVariables E i) then Some (False, M2)
                  else map_option (\<lambda>M3. (True, read_users E i M3)) (read_mysql E i M2))"

definition probe_maxscale :: "mon_env \<Rightarrow> sid \<Rightarrow> mon \<Rightarrow> mon option" where
  "probe_maxscale E i M =
     (if MxsBinlogOn (Conf (mc M)) \<and> QMaxscaleVersion E i \<noteq> '''' then
        map_option (\<lambda>n. on_mon (Server_SetState i stateRelay) (upd_mx i (\<lambda>x. x\<lparr>MxsVersion := n\<rparr>)
            (upd_view i (\<lambda>s. s\<lparr>IsMaxscale := True, IsRelay := True\<rparr>) M)))
          (MariaDBVersion (QMaxscaleVersion E i))
      else Some (upd_view i (\<lambda>s. s\<lparr>IsMaxscale := False\<rparr>) M))"

abbreviation is_maxscale :: "sid \<Rightarrow> mon \<Rightarrow> bool" where
  "is_maxscale i M \<equiv> MxsBinlogOn (Conf (mc M)) \<and> IsMaxscale (view i M)"

section \<open>Binary log and disks\<close>

abbreviation "LvlInfo \<equiv> ''INFO''"

definition read_binlog :: "mon_env \<Rightarrow> sid \<Rightarrow> mon \<Rightarrow> mon" where
  "read_binlog E i M =
     (let M1 = (if InCaptureMode (mx M i)
                then on_mon (set_state ''WARN0085'' LvlInfo [FS (URL (view i M))] ''MON'' (URL (view i M))) M else M)
      in case QMasterStatus E i of
           None \<Rightarrow> M1
         | Some (file, pos) \<Rightarrow> upd_view i (\<lambda>s. s\<lparr>BinaryLogFile := file, BinaryLogPos := dec (unat pos)\<rparr>) M1)"

definition disk_full :: "string option \<Rightarrow> bool" where
  "disk_full err = (case err of None \<Rightarrow> False | Some e \<Rightarrow> str_contains e ''Errcode: 28 '' \<or> str_contains e ''errno: 28 '')"

definition dump_threads :: "nat \<Rightarrow> mon_env \<Rightarrow> sid \<Rightarrow> mon \<Rightarrow> bool \<times> mon" where
  "dump_threads n E i M =
     (let (k, err) = QDumpThreads E n i; M1 = upd_ext i (\<lambda>x. x\<lparr>BinlogDumpThreads := k\<rparr>) M; url = URL (view i M)
      in if disk_full err
         then (False, on_mon (set_state ''WARN0100'' LvlWarn [FS url, FS (the err)] ''CONF'' url)
                 (upd_view i (\<lambda>s. s\<lparr>IsFull := True\<rparr>) M1))
         else (True, upd_view i (\<lambda>s. s\<lparr>IsFull := False\<rparr>) M1))"

definition read_disks :: "mon_env \<Rightarrow> sid \<Rightarrow> mon \<Rightarrow> mon option" where
  "read_disks E i M =
     (let M1 = (if HaveDiskMonitor (mx M i) then upd_view i (\<lambda>s. s\<lparr>Disks := QDisks E i\<rparr>) M else M)
      in if MonitorScheduler (MConf M1) then map_option (\<lambda>c. on_mon (\<lambda>_. c) M1) (CheckDisks i (mc M1)) else Some M1)"

definition read_storage :: "mon_env \<Rightarrow> sid \<Rightarrow> mon \<Rightarrow> (bool \<times> mon) option" where
  "read_storage E i M =
     (if IsPostgreSQL (DBVersion (view i M)) then Some (True, M)
      else
        let (go, M1) = dump_threads 0 E i M; err = snd (QDumpThreads E 0 i); url = URL (view i M)
        in if \<not> go then Some (False, M1)
           else map_option (Pair True) (read_disks E i
                  (if err \<noteq> None then on_mon (set_state ''ERR00014'' LvlErr [FS url, FS (the err)] ''CONF'' url) M1 else M1)))"

section \<open>Replication\<close>

definition GetAllSlavesStatus :: "(string option \<times> slave_status) list option \<Rightarrow> slave_status list" where
  "GetAllSlavesStatus rows = (case rows of None \<Rightarrow> [] | Some rs \<Rightarrow> map snd rs)"

definition GetChannelSlaveStatus :: "(string option \<times> slave_status) list option \<Rightarrow> slave_status list" where
  "GetChannelSlaveStatus rows =
     (case rows of
        None \<Rightarrow> []
      | Some rs \<Rightarrow> map (\<lambda>(ch, ss). case ch of
            None \<Rightarrow> ss | Some c \<Rightarrow> if c \<noteq> '''' then ss\<lparr>ConnectionName := c\<rparr> else ss) rs)"

definition read_replications :: "mon_env \<Rightarrow> sid \<Rightarrow> mon \<Rightarrow> mon" where
  "read_replications E i M =
     (let v = DBVersion (view i M); pg = IsPostgreSQL v; rows = QSlaves E i; all = GetAllSlavesStatus rows
      in upd_mx i (\<lambda>x. x\<lparr>ReplicationsNil := False\<rparr>) (if \<not> is_maxscale i M \<and> IsMariaDB v \<or> pg then
           upd_view i (\<lambda>s. s\<lparr>Replications := all, ReplicationSourceName :=
             (if all \<noteq> [] \<and> rows \<noteq> None \<and> pg \<and> ReplicationSourceName s = '''' then ConnectionName (hd all)
              else ReplicationSourceName s)\<rparr>) M
         else upd_view i (\<lambda>s. s\<lparr>Replications := GetChannelSlaveStatus rows\<rparr>) M))"

definition read_slave :: "mon_env \<Rightarrow> sid \<Rightarrow> mon \<Rightarrow> mon option" where
  "read_slave E i M =
     (let s = view i M; cf = Conf (mc M); v = DBVersion s
      in case own_status s of
           None \<Rightarrow> Some (upd_view i (\<lambda>s. s\<lparr>IsSlave := IsGroupReplicationSlave (ext (MT M) i)\<rparr>) M)
         | Some ss \<Rightarrow>
             if IsPostgreSQL v then
               let n = crc64_checksum (CrcTable (mon_db E)) (MasterHost ss @ MasterPort ss)
               in map_option (\<lambda>g. upd_view i (\<lambda>s. s\<lparr>IsSlave := True, SlaveGtid := g,
                      Replications := map (\<lambda>r. r\<lparr>MasterServerID := n\<rparr>) (Replications s)\<rparr>) M)
                    (NewList (GtidSlavePos ss))
             else
               let M1 = upd_mx i (\<lambda>x. x\<lparr>ReplicationTags := ReplicationTags x @ tag (QReplicateFilters E i) ''NO_ALL_SCHEMA''\<rparr>)
                          (upd_view i (\<lambda>s. s\<lparr>IsSlave := True,
                             HaveMariaDBGTID := UsingGtid ss = ''Slave_Pos'' \<or> UsingGtid ss = ''Current_Pos''\<rparr>) M)
               in if IsMySQLOrPerconaGreater57 (Some v) \<and> HasGTIDReplication cf (view i M1)
                  then map_option (\<lambda>g. upd_view i (\<lambda>s. s\<lparr>SlaveGtid := g\<rparr>) M1) (NewList (ExecutedGtidSet ss))
                  else Some M1)"

section \<open>Status\<close>

definition read_status :: "mon_env \<Rightarrow> sid \<Rightarrow> mon \<Rightarrow> mon" where
  "read_status E i M =
     (let old = Status (view i M); st = QStatus E i; maria = IsMariaDB (DBVersion (view i M));
          M1 = upd_view i (\<lambda>s. let s1 = s\<lparr>Status := st\<rparr> in
                 s1\<lparr>HaveSemiSync := IsSemiSyncReplica s1 \<or> IsSemiSyncMaster s1, SemiSyncMasterStatus := IsSemiSyncMaster s1,
                    SemiSyncSlaveStatus := IsSemiSyncReplica s1, IsWsrepSync := st ''WSREP_LOCAL_STATE'' = ''4'',
                    IsWsrepDonor := st ''WSREP_LOCAL_STATE'' = ''2''\<rparr>) M;
          M2 = upd_ext i (\<lambda>x. x\<lparr>IsWsrepPrimary := st ''WSREP_CLUSTER_STATUS'' = ''PRIMARY''\<rparr>) M1
      in upd_mx i (\<lambda>x. x\<lparr>PrevStatus := old, ReplicationTags := ReplicationTags x @
           tag (HaveGtidStrictMode (view i M2)) ''SEMISYNC'' @ tag (st ''WSREP_LOCAL_STATE'' = ''4'' \<and> maria) ''WSREPSYNC'' @
           tag (st ''WSREP_LOCAL_STATE'' = ''2'' \<and> maria) ''DONOR'' @ tag (st ''WSREP_CLUSTER_STATUS'' = ''PRIMARY'' \<and> maria) ''PRIMARY''\<rparr>) M2)"

definition check_replication :: "mon_env \<Rightarrow> sid \<Rightarrow> mon \<Rightarrow> mon option" where
  "check_replication E i M =
     Option.bind (CheckReplication (mon_db E) i (mc M)) (\<lambda>(health, c).
       let M1 = upd_mx i (\<lambda>x. x\<lparr>ReplicationHealth := health\<rparr>) (on_mon (\<lambda>_. c) M); s = view i M1
       in if IsSlave s \<and> DelayStatCapture (Conf (mc M1)) \<and> (State s = stateFailed \<or> State s = stateSlaveErr)
          then map_option (\<lambda>d. upd_view i (\<lambda>s. s\<lparr>DelayStat := d\<rparr>) M1)
                 (UpdateSlaveErrorStat (Now (mon_db E)) (DelayStatRotate (Conf (mc M1))) (DelayStat s))
          else Some M1)"

definition HasHighNumberSlowQueries :: "server \<Rightarrow> srv_mon \<Rightarrow> bool" where
  "HasHighNumberSlowQueries s x =
     (if Variables s ''LONG_QUERY_TIME'' = ''0'' \<or> Variables s ''LONG_QUERY_TIME'' = ''0.000010'' then False
      else
        let now = atoi (Status s ''SLOW_QUERIES''); before = atoi (PrevStatus x ''SLOW_QUERIES'');
            dt = s64 (MonitorTime x - PrevMonitorTime x)
        in dt > 0 \<and> s64 (go_div (s64 (now - before)) dt) > 20)"

definition HasInstallPlugin :: "string \<Rightarrow> srv_mon \<Rightarrow> bool" where
  "HasInstallPlugin name x = (case Plugins x name of None \<Rightarrow> False | Some st \<Rightarrow> st = ''ACTIVE'')"

definition read_plugins :: "mon_env \<Rightarrow> sid \<Rightarrow> mon \<Rightarrow> bool \<times> mon" where
  "read_plugins E i M =
     (if GetHeartbeats (StateMachine (mc M)) mod 60 = 0 then
        dump_threads 1 E i
          (if MonitorPlugins (MConf M)
           then upd_mx i (\<lambda>x. let x1 = x\<lparr>Plugins := QPlugins E i\<rparr> in
                  x1\<lparr>HaveMetaDataLocksLog := HasInstallPlugin ''METADATA_LOCK_INFO'' x1,
                     HaveQueryResponseTimeLog := HasInstallPlugin ''QUERY_RESPONSE_TIME'' x1,
                     HaveDiskMonitor := HasInstallPlugin ''DISK'' x1, HaveSQLErrorLog := HasInstallPlugin ''SQL_ERROR_LOG'' x1\<rparr>) M
           else M)
      else (True, M))"

definition read_locks :: "mon_env \<Rightarrow> sid \<Rightarrow> mon \<Rightarrow> mon" where
  "read_locks E i M =
     (let url = URL (view i M)
      in case QLocks E i of
           Some err \<Rightarrow>
             if Suffix (DBVersion (view i M)) \<noteq> ''ShardProxy'' \<and> HaveMetaDataLocksLog (mx M i)
             then on_mon (set_state ''WARN0122'' LvlWarn [FS (''Could not get Metat data locks  '' @ url @ '' '' @ err)] ''SRV'' url) M
             else M
         | None \<Rightarrow> M)"

definition read_workload :: "mon_env \<Rightarrow> sid \<Rightarrow> mon \<Rightarrow> mon" where
  "read_workload E i M =
     (let url = URL (view i M);
          M1 = (if HasHighNumberSlowQueries (view i M) (mx M i)
                then on_mon (set_state ''WARN0088'' LvlInfo [FS url] ''MON'' url) M else M);
          (go, M2) = (if IsPostgreSQL (DBVersion (view i M1)) then (True, M1)
                      else let (go, M2) = read_plugins E i M1 in if go then (True, read_locks E i M2) else (False, M2))
      in if go then on_mon (CheckMaxConnections i) M2 else M2)"

definition read_health :: "mon_env \<Rightarrow> sid \<Rightarrow> mon \<Rightarrow> mon option" where
  "read_health E i M =
     (if is_maxscale i M then Some M
      else map_option (read_workload E i) (check_replication E i (read_status E i M)))"

section \<open>Refresh\<close>

definition read_server :: "mon_env \<Rightarrow> sid \<Rightarrow> mon \<Rightarrow> mon option" where
  "read_server E i M =
     Option.bind (read_storage E i (read_binlog E i M)) (\<lambda>(go, M1).
       if \<not> go then Some M1
       else Option.bind (read_slave E i (read_replications E i M1)) (read_health E i))"

text \<open>Whether the server answered, and the new state.\<close>

definition Server_Refresh :: "mon_env \<Rightarrow> sid \<Rightarrow> mon \<Rightarrow> (bool \<times> mon) option" where
  "Server_Refresh E i M =
     (if \<not> HasConn (view i M) then Some (False, M)
      else if \<not> ConnPings E i then Some (False, on_mon (emit (OpRefresh i)) M)
      else map_option (Pair True)
        (Option.bind (probe_maxscale E i (on_mon (CheckVersion i \<circ> emit (OpRefresh i)) M)) (\<lambda>M1.
           if is_maxscale i M1 then read_server E i M1
           else Option.bind (read_database E i M1) (\<lambda>(go, M2). if go then read_server E i M2 else Some M2))))"

section \<open>What a refresh may touch\<close>

text \<open>
  \<open>local_to i M M'\<close>: from \<open>M\<close> to \<open>M'\<close> only what the monitor knows of server \<open>i\<close> changed, apart from the raised states and the
  trace; the fields of \<open>i\<close> that a refresh does not read are the same, and no command opened a server to writes.
\<close>

definition own_fields :: "server \<Rightarrow> _" where
  "own_fields s = (Id s, URL s, Host s, Port s, IP s, maxConn s, (PrevState s, FailCount s, HasConn s, LastSeenReplications s),
     IsMaintenance s, Ignored s, IgnoredRO s, Prefered s, SourceClusterName s)"

text \<open>Everything but the servers: the cluster, the views, their extensions and the monitor fields are blanked.\<close>

definition around :: "mon \<Rightarrow> mon" where
  "around M = M\<lparr>MT := (MT M)\<lparr>TR := (TR (MT M))\<lparr>RCl := undefined\<rparr>, ext := undefined\<rparr>, mx := undefined\<rparr>"

definition only_server :: "sid \<Rightarrow> cluster \<Rightarrow> cluster \<Rightarrow> bool" where
  "only_server i c c' \<longleftrightarrow>
     steps (\<lambda>o1. op_target o1 \<in> {None, Some i} \<and> \<not> opens_writes o1) c c' \<and>
     (\<forall>j. j \<noteq> i \<longrightarrow> srv c' j = srv c j) \<and> own_fields (srv c' i) = own_fields (srv c i)"

definition local_to :: "sid \<Rightarrow> mon \<Rightarrow> mon \<Rightarrow> bool" where
  "local_to i M M' \<longleftrightarrow>
     only_server i (mc M) (mc M') \<and> (\<forall>j. j \<noteq> i \<longrightarrow> ext (MT M') j = ext (MT M) j \<and> mx M' j = mx M j) \<and> around M' = around M"

lemma only_refl [simp]: "only_server i c c"
  by (simp add: only_server_def)

lemma only_trans: "only_server i a b \<Longrightarrow> only_server i b c \<Longrightarrow> only_server i a c"
  unfolding only_server_def by (auto elim: steps_trans)

named_theorems local_intros

lemma local_refl [simp, local_intros]: "local_to i M M"
  by (simp add: local_to_def)

lemma local_trans: "local_to i a b \<Longrightarrow> local_to i b c \<Longrightarrow> local_to i a c"
  unfolding local_to_def by (auto elim: only_trans)

lemma mon_simps [simp]:
  "mc (on_mon f M) = f (mc M)" "ext (MT (on_mon f M)) = ext (MT M)" "mx (on_mon f M) = mx M" "MConf (on_mon f M) = MConf M"
  "mc (upd_ext i g M) = mc M" "ext (MT (upd_ext i g M)) = (ext (MT M))(i := g (ext (MT M) i))" "mx (upd_ext i g M) = mx M"
  "MConf (upd_ext i g M) = MConf M"
  "mc (upd_mx i h M) = mc M" "ext (MT (upd_mx i h M)) = ext (MT M)" "mx (upd_mx i h M) = (mx M)(i := h (mx M i))"
  "MConf (upd_mx i h M) = MConf M"
  by (simp_all add: on_mon_def on_topo_def on_cl_def upd_ext_def upd_mx_def)

lemma around_simps [simp]:
  "around (on_mon f M) = around M" "around (upd_ext i g M) = around M" "around (upd_mx i h M) = around M"
  by (simp_all add: around_def on_mon_def on_topo_def on_cl_def upd_ext_def upd_mx_def)

lemma around_fields:
  assumes "around a = around b"
  shows "MConf a = MConf b" "DbUser a = DbUser b" "HaveDBTLSCert a = HaveDBTLSCert b"
  using assms by (metis around_def mon.select_convs mon.surjective mon.update_convs(1,2))+

named_theorems only_intros

lemma only_states [only_intros]:
  "only_server i a b \<Longrightarrow> only_server i a (Cluster_SetState k st b)"
  "only_server i a b \<Longrightarrow> only_server i a (set_state k t args f u b)"
  by (auto elim!: only_trans simp: only_server_def intro: steps_SetState steps_set_state)

lemma only_emit [only_intros]:
  "op_target o1 \<in> {None, Some i} \<Longrightarrow> \<not> opens_writes o1 \<Longrightarrow> only_server i a b \<Longrightarrow> only_server i a (emit o1 b)"
  by (erule only_trans) (auto simp: only_server_def intro: steps_emit)

lemma only_upd [only_intros]:
  assumes "\<And>s. own_fields (f s) = own_fields s" "only_server i a b"
  shows "only_server i a (upd_srv i f b)"
proof (rule only_trans [OF assms(2)])
  have "URL (f s) = URL s \<and> Host (f s) = Host s \<and> Port (f s) = Port s" for s
    using assms(1) [of s] by (simp add: own_fields_def)
  then show "only_server i b (upd_srv i f b)"
    using assms(1) unfolding only_server_def by (intro conjI steps_upd_srv) (auto simp: upd_srv_def)
qed

lemma only_Server_SetState [only_intros]: "only_server i a b \<Longrightarrow> only_server i a (Server_SetState i st b)"
  by (auto simp: Server_SetState_def own_fields_def opens_writes_def intro!: only_intros)

lemma local_cluster:
  "only_server i (mc M) (f (mc M)) \<Longrightarrow> local_to i a M \<Longrightarrow> local_to i a (on_mon f M)"
  by (rule local_trans [of _ _ M]) (simp_all add: local_to_def)

lemma local_view [local_intros]:
  "(\<And>s. own_fields (f s) = own_fields s) \<Longrightarrow> local_to i a M \<Longrightarrow> local_to i a (upd_view i f M)"
  by (auto simp: upd_view_def intro!: local_cluster only_intros)

lemma local_ext [local_intros]: "local_to i a M \<Longrightarrow> local_to i a (upd_ext i g M)"
  by (erule local_trans) (simp add: local_to_def)

lemma local_mx [local_intros]: "local_to i a M \<Longrightarrow> local_to i a (upd_mx i h M)"
  by (erule local_trans) (simp add: local_to_def)

lemma local_on_mon [local_intros]:
  "local_to i a M \<Longrightarrow> local_to i a (on_mon (set_state k t args f u) M)"
  "local_to i a M \<Longrightarrow> local_to i a (on_mon (conf_state b k m args u) M)"
  "op_target o1 \<in> {None, Some i} \<Longrightarrow> \<not> opens_writes o1 \<Longrightarrow> local_to i a M \<Longrightarrow> local_to i a (on_mon (emit o1) M)"
  "local_to i a M \<Longrightarrow> local_to i a (on_mon (Server_SetState i st) M)"
  by (auto simp: conf_state_def intro!: local_cluster only_intros)

section \<open>The stages of a refresh are local\<close>

lemma only_checks:
  "only_server i c (CheckVersion i c)" "only_server i c (CheckMaxConnections i c)"
  by (auto simp: CheckVersion_def CheckMaxConnections_def version_state_def Let_def intro!: only_intros)

lemma only_mark [only_intros]: "only_server i a b \<Longrightarrow> only_server i a (mark i st rl b)"
  by (auto simp: mark_def intro!: only_intros)

lemma only_capture: "capture_delay E i n b = Some c \<Longrightarrow> only_server i a b \<Longrightarrow> only_server i a c"
  by (auto simp: capture_delay_def own_fields_def split: if_splits intro!: only_intros)

lemma only_CheckReplication: "CheckReplication E i c = Some (h, d) \<Longrightarrow> only_server i c d"
  by (auto simp: CheckReplication_def check_stopped_def check_delay_def Let_def
      split: if_splits option.splits intro!: only_intros elim!: only_capture)

lemma only_CheckDisks: "check_disks i ds c = Some d \<Longrightarrow> only_server i c d"
  by (induction i ds c rule: check_disks.induct) (auto split: if_splits elim!: only_trans [rotated] intro!: only_intros)

lemma local_manager_privileges:
  assumes "manager_privileges E i M = Some M'" "local_to i a M"
  shows "local_to i a M'"
proof -
  obtain h where h: "GetHostFromConnection E i (view i M) = Some h"
    using assms(1) by (auto simp: manager_privileges_def Let_def bind_eq_Some_conv)
  show ?thesis
    using assms h
    by (cases "LookupIP E (Unbracket h)"; cases "snd (LookupIP E (Unbracket h))")
      (auto simp: manager_privileges_def Let_def intro!: local_intros)
qed

lemma local_replica_privileges: "replica_privileges E i js M = Some M' \<Longrightarrow> local_to i a M \<Longrightarrow> local_to i a M'"
proof (induction js arbitrary: M)
  case (Cons j js)
  then show ?case
    by (auto simp: Let_def bind_eq_Some_conv split: if_splits intro!: local_intros elim!: Cons.IH)
qed simp

lemma local_CheckPrivileges: "CheckPrivileges E i M = Some M' \<Longrightarrow> local_to i a M \<Longrightarrow> local_to i a M'"
  by (auto simp: CheckPrivileges_def bind_eq_Some_conv split: if_splits
      intro: local_manager_privileges local_replica_privileges)

lemma own_settings [simp]: "own_fields (read_settings cf s) = own_fields s"
  by (simp add: read_settings_def own_fields_def Let_def)

lemma local_pure [local_intros]:
  assumes "local_to i a M"
  shows "local_to i a (read_monitor E i M)" "local_to i a (group_role E i M)" "local_to i a (read_identity i M)"
    "local_to i a (read_events E i M)" "local_to i a (event_scheduler i M)" "local_to i a (read_binlog E i M)"
    "local_to i a (read_replications E i M)" "local_to i a (read_status E i M)" "local_to i a (read_locks E i M)"
  using assms
  by (auto simp: read_monitor_def group_role_def read_identity_def read_events_def event_scheduler_def read_binlog_def
      read_replications_def read_status_def read_locks_def Let_def own_fields_def opens_writes_def
      split: option.splits intro!: local_intros)

lemma local_read_users [local_intros]: "local_to i a M \<Longrightarrow> local_to i a (read_users E i M)"
  unfolding read_users_def
  by (auto simp: Let_def own_fields_def opens_writes_def split: option.splits bool.splits intro!: local_intros local_cluster only_intros)

lemma local_read_positions: "read_positions E i M = Some M' \<Longrightarrow> local_to i a M \<Longrightarrow> local_to i a M'"
  by (auto simp: read_positions_def Let_def own_fields_def split: if_splits option.splits intro!: local_intros)

lemma only_preserve: "only_server i c (c\<lparr>StateMachine := PreserveState ks (StateMachine c)\<rparr>)"
proof -
  have keys: "InFailover (fold (\<lambda>k M'. if prefix k o' then AddState (ErrKey v) v M' else M') ks M) = InFailover M" for o' v M
    by (induction ks arbitrary: M) (auto simp: AddState_def Let_def)
  have "InFailover (PreserveState ks SM) = InFailover SM" for SM
    unfolding PreserveState_def
    by (rule fold_keeps [where I = "\<lambda>M. InFailover M = InFailover SM"]) (auto simp: keys split: prod.splits)
  then show ?thesis
    by (auto simp: only_server_def steps_def roles_def IsInFailover_def SM_IsInFailover_def)
qed

lemma local_grant_round: "grant_round E i M = Some M' \<Longrightarrow> local_to i a M \<Longrightarrow> local_to i a M'"
  by (auto simp: grant_round_def split: if_splits intro!: local_cluster only_preserve intro: local_CheckPrivileges)

lemma local_read_mysql: "read_mysql E i M = Some M' \<Longrightarrow> local_to i a M \<Longrightarrow> local_to i a M'"
  by (auto simp: read_mysql_def bind_eq_Some_conv split: if_splits
      intro!: local_intros elim!: local_grant_round local_read_positions)

lemma local_read_database: "read_database E i M = Some (go, M') \<Longrightarrow> local_to i a M \<Longrightarrow> local_to i a M'"
  by (auto simp: read_database_def Let_def own_fields_def split: option.splits if_splits
      intro!: local_intros elim!: local_read_mysql)

lemma local_dump_threads: "dump_threads n E i M = (go, M') \<Longrightarrow> local_to i a M \<Longrightarrow> local_to i a M'"
  by (auto simp: dump_threads_def Let_def own_fields_def split: prod.splits if_splits intro!: local_intros)

lemma local_read_disks: "read_disks E i M = Some M' \<Longrightarrow> local_to i a M \<Longrightarrow> local_to i a M'"
  by (auto simp: read_disks_def CheckDisks_def Let_def own_fields_def split: if_splits
      dest!: only_CheckDisks intro!: local_intros local_cluster)

lemma local_read_storage: "read_storage E i M = Some (go, M') \<Longrightarrow> local_to i a M \<Longrightarrow> local_to i a M'"
  by (auto simp: read_storage_def Let_def split: if_splits prod.splits
      intro!: local_intros elim!: local_read_disks local_dump_threads)

lemma local_read_slave: "read_slave E i M = Some M' \<Longrightarrow> local_to i a M \<Longrightarrow> local_to i a M'"
  by (auto simp: read_slave_def Let_def own_fields_def split: if_splits option.splits intro!: local_intros)

lemma local_check_replication: "check_replication E i M = Some M' \<Longrightarrow> local_to i a M \<Longrightarrow> local_to i a M'"
  by (auto simp: check_replication_def Let_def bind_eq_Some_conv own_fields_def split: if_splits
      dest!: only_CheckReplication intro!: local_intros local_cluster)

lemma local_read_plugins: "read_plugins E i M = (go, M') \<Longrightarrow> local_to i a M \<Longrightarrow> local_to i a M'"
  by (auto simp: read_plugins_def Let_def split: if_splits intro!: local_intros elim!: local_dump_threads)

lemma local_read_workload [local_intros]: "local_to i a M \<Longrightarrow> local_to i a (read_workload E i M)"
  by (auto simp: read_workload_def Let_def split: prod.splits if_splits
      intro!: local_intros local_cluster only_checks elim!: local_read_plugins)

lemma local_read_server: "read_server E i M = Some M' \<Longrightarrow> local_to i a M \<Longrightarrow> local_to i a M'"
  by (auto simp: read_server_def read_health_def bind_eq_Some_conv split: if_splits
      intro!: local_intros elim!: local_check_replication local_read_slave local_read_storage)

lemma local_Server_Refresh:
  assumes "Server_Refresh E i M = Some (ok, M')"
  shows "local_to i M M'"
proof -
  have 0: "local_to i M (on_mon (CheckVersion i \<circ> emit (OpRefresh i)) M)"
    by (auto intro!: local_cluster only_trans [OF _ only_checks(1)] only_intros simp: opens_writes_def)
  have "local_to i M M1" if "probe_maxscale E i (on_mon (CheckVersion i \<circ> emit (OpRefresh i)) M) = Some M1" for M1
    using that 0 by (auto simp: probe_maxscale_def own_fields_def split: if_splits intro!: local_intros)
  then show ?thesis
    using assms
    by (auto simp: Server_Refresh_def bind_eq_Some_conv opens_writes_def split: if_splits
        intro!: local_intros elim!: local_read_server local_read_database)
qed

section \<open>What sets the state of a server\<close>

text \<open>The stages that read a server without deciding its state or its role in a group.\<close>

definition group_of :: "sid \<Rightarrow> mon \<Rightarrow> bool \<times> bool" where
  "group_of i M = (IsGroupReplicationMaster (ext (MT M) i), IsGroupReplicationSlave (ext (MT M) i))"

definition standing :: "sid \<Rightarrow> mon \<Rightarrow> (bool \<times> bool) \<times> string" where
  "standing i M = (group_of i M, State (view i M))"

lemma view_simps [simp]:
  "ext (MT (upd_view j f M)) = ext (MT M)" "mx (upd_view j f M) = mx M" "MConf (upd_view j f M) = MConf M"
  "view i (upd_view i f M) = f (view i M)" "Conf (mc (upd_view j f M)) = Conf (mc M)"
  by (simp_all add: upd_view_def upd_srv_def)

lemma standing_simps [simp]:
  "standing i (upd_mx j h M) = standing i M"
  "standing i (on_mon (set_state k t args f u) M) = standing i M"
  "standing i (on_mon (conf_state b k m args u) M) = standing i M"
  "standing i (on_mon (emit o1) M) = standing i M"
  "standing i (on_mon (CheckVersion j) M) = standing i M"
  "standing i (on_mon (CheckMaxConnections j) M) = standing i M"
  "standing i (on_mon (\<lambda>c. c\<lparr>StateMachine := S c\<rparr>) M) = standing i M"
  by (simp_all add: standing_def group_of_def conf_state_def CheckVersion_def CheckMaxConnections_def version_state_def Let_def)

lemma standing_view: "(\<And>s. State (f s) = State s) \<Longrightarrow> standing i (upd_view i f M) = standing i M"
  by (simp add: standing_def group_of_def)

lemma standing_ext:
  "(\<And>x. IsGroupReplicationMaster (g x) = IsGroupReplicationMaster x \<and> IsGroupReplicationSlave (g x) = IsGroupReplicationSlave x)
    \<Longrightarrow> standing i (upd_ext i g M) = standing i M"
  by (simp add: standing_def group_of_def)

lemma standing_pure [simp]:
  "standing i (read_monitor E i M) = standing i M" "standing i (read_identity i M) = standing i M"
  "standing i (read_events E i M) = standing i M" "standing i (event_scheduler i M) = standing i M"
  "standing i (read_binlog E i M) = standing i M" "standing i (read_replications E i M) = standing i M"
  "standing i (read_status E i M) = standing i M" "standing i (read_locks E i M) = standing i M"
  "standing i (upd_view i (read_settings cf) M) = standing i M"
  by (auto simp: read_monitor_def read_identity_def read_events_def event_scheduler_def read_binlog_def read_settings_def
      read_replications_def read_status_def read_locks_def Let_def standing_view standing_ext split: option.splits)

lemma standing_read_users [simp]: "standing i (read_users E i M) = standing i M"
  by (auto simp: read_users_def Let_def standing_def group_of_def split: option.splits bool.splits)

lemma standing_replica_privileges: "replica_privileges E i js M = Some M' \<Longrightarrow> standing i M' = standing i M"
proof (induction js arbitrary: M)
  case (Cons j js)
  then show ?case
    by (fastforce simp: Let_def bind_eq_Some_conv split: if_splits dest: Cons.IH)
qed simp

lemma standing_manager_privileges:
  assumes "manager_privileges E i M = Some M'"
  shows "standing i M' = standing i M"
proof -
  obtain h where "GetHostFromConnection E i (view i M) = Some h"
    using assms by (auto simp: manager_privileges_def Let_def bind_eq_Some_conv)
  then show ?thesis
    using assms
    by (cases "LookupIP E (Unbracket h)"; cases "snd (LookupIP E (Unbracket h))")
      (auto simp: manager_privileges_def Let_def)
qed

lemma standing_grant_round: "grant_round E i M = Some M' \<Longrightarrow> standing i M' = standing i M"
  by (auto simp: grant_round_def CheckPrivileges_def bind_eq_Some_conv split: if_splits
      dest!: standing_replica_privileges standing_manager_privileges)

lemma standing_read_positions:
  assumes "read_positions E i M = Some M'" "\<not> IsMariaDB (DBVersion (view i M)) \<or> \<not> MultiMasterGrouprep (Conf (mc M))"
  shows "standing i M' = standing i M"
  using assms
  by (auto simp: read_positions_def group_role_def standing_def group_of_def Let_def split: if_splits option.splits)

lemma DBVersion_settings [simp]: "DBVersion (read_settings cf s) = DBVersion s"
  by (simp add: read_settings_def Let_def)

lemma view_settings [simp]:
  "view i (read_monitor E i M) = view i M" "Conf (mc (read_monitor E i M)) = Conf (mc M)"
  by (simp_all add: read_monitor_def Let_def)

lemma standing_read_mysql:
  assumes "read_mysql E i M = Some M'" "\<not> IsMariaDB (DBVersion (view i M)) \<or> \<not> MultiMasterGrouprep (Conf (mc M))"
  shows "standing i M' = standing i M"
  using assms
  by (auto simp: read_mysql_def bind_eq_Some_conv split: if_splits
      dest!: standing_grant_round standing_read_positions)

lemma standing_read_database:
  assumes "read_database E i M = Some (go, M')" "GetDBVersion E i = Some v"
    "\<not> IsMariaDB v \<or> \<not> MultiMasterGrouprep (Conf (mc M))"
  shows "standing i M' = standing i M"
  using assms
  by (auto simp: read_database_def Let_def standing_view split: if_splits dest!: standing_read_mysql)

lemma standing_dump_threads: "dump_threads n E i M = (go, M') \<Longrightarrow> standing i M' = standing i M"
  by (auto simp: dump_threads_def Let_def standing_view standing_ext split: prod.splits if_splits)

lemma standing_read_disks: "read_disks E i M = Some M' \<Longrightarrow> standing i M' = standing i M"
proof -
  have "srv d = srv c" if "check_disks i ds c = Some d" for ds c d
    using that by (induction i ds c rule: check_disks.induct) (auto split: if_splits)
  then show "read_disks E i M = Some M' \<Longrightarrow> standing i M' = standing i M"
    by (auto simp: read_disks_def CheckDisks_def standing_def group_of_def Let_def split: if_splits)
qed

lemma standing_read_storage: "read_storage E i M = Some (go, M') \<Longrightarrow> standing i M' = standing i M"
  by (auto simp: read_storage_def Let_def split: if_splits prod.splits dest!: standing_read_disks standing_dump_threads)

lemma standing_read_slave: "read_slave E i M = Some M' \<Longrightarrow> standing i M' = standing i M"
  by (auto simp: read_slave_def Let_def standing_view split: if_splits option.splits)

text \<open>The verdict of the replication check is the last word on the state.\<close>

lemma standing_read_workload [simp]: "standing i (read_workload E i M) = standing i M"
proof -
  have "standing i M2 = standing i M1" if "read_plugins E i M1 = (go, M2)" for go M1 M2
    using that by (auto simp: read_plugins_def Let_def split: if_splits dest!: standing_dump_threads)
  then show ?thesis
    by (auto simp: read_workload_def Let_def split: prod.splits)
qed

lemma group_check_replication: "check_replication E i M = Some M' \<Longrightarrow> group_of i M' = group_of i M"
  by (auto simp: check_replication_def Let_def bind_eq_Some_conv group_of_def split: if_splits)

lemma group_standing: "group_of i M = fst (standing i M)"
  by (simp add: standing_def)

lemma group_pure [simp]:
  "group_of i (read_status E i M) = group_of i M" "group_of i (read_workload E i M) = group_of i M"
  "group_of i (read_replications E i M) = group_of i M" "group_of i (read_binlog E i M) = group_of i M"
  by (simp_all add: group_standing)

lemma group_read_health:
  assumes "read_health E i M = Some M'"
  shows "group_of i M' = group_of i M"
proof (cases "is_maxscale i M")
  case False
  then obtain M1 where "check_replication E i (read_status E i M) = Some M1" "M' = read_workload E i M1"
    using assms by (auto simp only: read_health_def if_False map_option_eq_Some)
  then show ?thesis by (simp add: group_check_replication)
qed (use assms in \<open>simp add: read_health_def\<close>)

lemma group_read_server:
  assumes "read_server E i M = Some M'"
  shows "group_of i M' = group_of i M"
proof -
  obtain go M1 where 1: "read_storage E i (read_binlog E i M) = Some (go, M1)"
    using assms by (auto simp only: read_server_def bind_eq_Some_conv)
  then have g1: "group_of i M1 = group_of i M"
    using standing_read_storage [OF 1] by (simp add: group_standing)
  show ?thesis
  proof (cases go)
    case True
    then obtain M2 where 2: "read_slave E i (read_replications E i M1) = Some M2" "read_health E i M2 = Some M'"
      using assms 1 by (auto simp: read_server_def bind_eq_Some_conv)
    then show ?thesis
      using group_read_health [OF 2(2)] standing_read_slave [OF 2(1)] g1 by (simp add: group_standing)
  qed (use assms 1 g1 in \<open>simp add: read_server_def\<close>)
qed

lemma group_probe_maxscale: "probe_maxscale E i M = Some M' \<Longrightarrow> group_of i M' = group_of i M \<and> Conf (mc M') = Conf (mc M)"
  by (auto simp: probe_maxscale_def group_of_def Server_SetState_def upd_srv_def emit_def split: if_splits)

section \<open>Properties of a refresh\<close>

abbreviation start_refresh :: "sid \<Rightarrow> mon \<Rightarrow> mon" where
  "start_refresh i M \<equiv> on_mon (CheckVersion i \<circ> emit (OpRefresh i)) M"

lemma start_refresh_keeps: "srv (mc (start_refresh i M)) = srv (mc M)" "Conf (mc (start_refresh i M)) = Conf (mc M)"
proof -
  show "srv (mc (start_refresh i M)) = srv (mc M)"
    by (simp add: CheckVersion_def version_state_def Let_def)
  have "Conf (CheckVersion i c) = Conf c" for c
    using only_checks(1) [of i c] by (auto simp: only_server_def dest: steps_fields(3))
  then show "Conf (mc (start_refresh i M)) = Conf (mc M)"
    by (simp add: emit_def)
qed

lemma Server_Refresh_cases:
  assumes "Server_Refresh E i M = Some (ok, M')"
  obtains (down) "\<not> ok" "M' = M \<or> M' = on_mon (emit (OpRefresh i)) M"
  | (maxscale) M1 where ok "probe_maxscale E i (start_refresh i M) = Some M1" "is_maxscale i M1" "read_server E i M1 = Some M'"
  | (stopped) M1 where ok "probe_maxscale E i (start_refresh i M) = Some M1" "\<not> is_maxscale i M1"
      "read_database E i M1 = Some (False, M')"
  | (full) M1 M2 where ok "probe_maxscale E i (start_refresh i M) = Some M1" "\<not> is_maxscale i M1"
      "read_database E i M1 = Some (True, M2)" "read_server E i M2 = Some M'"
proof (cases "HasConn (view i M) \<and> ConnPings E i")
  case True
  then obtain M1 where 1: ok "probe_maxscale E i (start_refresh i M) = Some M1"
      "(if is_maxscale i M1 then read_server E i M1
        else Option.bind (read_database E i M1) (\<lambda>(go, M2). if go then read_server E i M2 else Some M2)) = Some M'"
    using assms unfolding Server_Refresh_def by (auto simp only: bind_eq_Some_conv map_option_eq_Some if_True if_False not_False_eq_True not_True_eq_False)
  show thesis
  proof (cases "is_maxscale i M1")
    case True
    with 1 maxscale show thesis by simp
  next
    case False
    then obtain go M2 where 2: "read_database E i M1 = Some (go, M2)" "(if go then read_server E i M2 else Some M2) = Some M'"
      using 1(3) by (auto simp only: if_False bind_eq_Some_conv)
    then show thesis
      using stopped [OF 1(1,2) False] full [OF 1(1,2) False] by (cases go) auto
  qed
next
  case False
  then show thesis
    using assms down unfolding Server_Refresh_def by (auto simp only: split: if_splits)
qed

text \<open>
  C12: A refresh of one server implements the abstract refresh that the leader change uses: whatever the database answers, the
  views of all servers after it are those of \<open>Refresh\<close> for some answer. It changes no other server, no role, setting or
  counter of the cluster, leaves the failure count and the previous state of its own server alone, and sends no command to
  another server and none that opens a server to writes.
\<close>

theorem refresh_refines:
  assumes "Server_Refresh E i M = Some (ok, M')"
  shows "srv (mc M') = srv (Refresh (D\<lparr>RefreshAnswer := \<lambda>_ _ _. view i M'\<rparr>) i (mc M)) \<and>
    steps (\<lambda>o1. op_target o1 \<in> {None, Some i} \<and> \<not> opens_writes o1) (mc M) (mc M') \<and>
    (\<forall>j. j \<noteq> i \<longrightarrow> view j M' = view j M) \<and> FailCount (view i M') = FailCount (view i M) \<and>
    PrevState (view i M') = PrevState (view i M)"
proof -
  have l: "only_server i (mc M) (mc M')"
    using local_Server_Refresh [OF assms] by (simp add: local_to_def)
  then have k: "own_fields (view i M') = own_fields (view i M)" and j: "\<And>j. j \<noteq> i \<Longrightarrow> view j M' = view j M"
    by (auto simp: only_server_def)
  have "view i M'\<lparr>URL := URL (view i M), Id := Id (view i M), Host := Host (view i M), Port := Port (view i M),
      maxConn := maxConn (view i M)\<rparr> = view i M'"
    using k by (simp add: own_fields_def)
  then have "srv (mc M') = srv (Refresh (D\<lparr>RefreshAnswer := \<lambda>_ _ _. view i M'\<rparr>) i (mc M))"
    using j by (auto simp: Refresh_def upd_srv_def fun_eq_iff)
  then show ?thesis
    using l k j by (simp add: only_server_def own_fields_def)
qed

text \<open>
  The group replication role of a server is read on MariaDB servers only, which have none: on a MySQL or Percona server a
  refresh leaves it as it was, whatever the database says, and it starts as neither primary nor secondary.
\<close>

theorem group_role_needs_mariadb:
  assumes "Server_Refresh E i M = Some (ok, M')" "GetDBVersion E i = Some v" "\<not> IsMariaDB v"
  shows "IsGroupReplicationMaster (ext (MT M') i) = IsGroupReplicationMaster (ext (MT M) i) \<and>
    IsGroupReplicationSlave (ext (MT M') i) = IsGroupReplicationSlave (ext (MT M) i)"
proof -
  have start: "group_of i M1 = group_of i M" if "probe_maxscale E i (start_refresh i M) = Some M1" for M1
    using group_probe_maxscale [OF that] by (simp add: group_of_def)
  have db: "group_of i M2 = group_of i M1" if "read_database E i M1 = Some (go, M2)" for go M1 M2
    using standing_read_database [OF that assms(2)] assms(3) by (simp add: group_standing)
  from assms(1) have "group_of i M' = group_of i M"
  proof (cases rule: Server_Refresh_cases)
    case down
    then show ?thesis by (auto simp: group_of_def)
  qed (simp_all add: start db group_read_server)
  then show ?thesis by (simp add: group_of_def)
qed

text \<open>
  When the settings of a server cannot be read, the refresh still reports success: it keeps the rows it got as the settings
  and leaves the positions, the replication status and the state of the server as they were.
\<close>

theorem unreadable_settings_refresh:
  assumes "HasConn (view i M)" "ConnPings E i" "\<not> MxsBinlogOn (Conf (mc M))" "GetDBVersion E i = Some v" "\<not> snd (QVariables E i)"
  shows "\<exists>M'. Server_Refresh E i M = Some (True, M') \<and> Variables (view i M') = fst (QVariables E i) \<and>
    State (view i M') = State (view i M) \<and> Replications (view i M') = Replications (view i M) \<and>
    CurrentGtid (view i M') = CurrentGtid (view i M) \<and> IsSlave (view i M') = IsSlave (view i M)"
proof -
  define M0 where "M0 = start_refresh i M"
  have s: "srv (mc M0) = srv (mc M)" "Conf (mc M0) = Conf (mc M)"
    using start_refresh_keeps [of i M] by (simp_all add: M0_def)
  define M1 where "M1 = upd_view i (\<lambda>s. s\<lparr>IsMaxscale := False\<rparr>) M0"
  define M2 where "M2 = upd_mx i (\<lambda>x. x\<lparr>PrevMonitorTime := MonitorTime x, MonitorTime := Now (mon_db E)\<rparr>)
    (upd_view i (\<lambda>s. s\<lparr>DBVersion := v, Variables := fst (QVariables E i)\<rparr>) M1)"
  have "probe_maxscale E i M0 = Some M1"
    using assms(3) by (simp add: probe_maxscale_def s M1_def)
  moreover have "read_database E i M1 = Some (False, M2)"
    using assms(4,5) by (simp add: read_database_def M2_def Let_def)
  moreover have "\<not> IsMaxscale (view i M1)" "view i M2 = view i M\<lparr>IsMaxscale := False, DBVersion := v, Variables := fst (QVariables E i)\<rparr>"
    by (simp_all add: M1_def M2_def s)
  ultimately show ?thesis
    using assms(1,2) unfolding Server_Refresh_def M0_def [symmetric] by simp
qed

text \<open>
  The privilege check that is meant for the replication user asks for the monitoring user: the privileges of every other
  user, the replication user among them, have no effect on what it reports.
\<close>

theorem replication_user_unchecked:
  "CheckPrivileges (E\<lparr>QPrivileges := \<lambda>j u hs. if u = DbUser M then QPrivileges E j u hs else Q j u hs\<rparr>) i M = CheckPrivileges E i M"
  (is "CheckPrivileges ?E i M = _")
proof -
  have g: "GetPrivileges ?E i v (DbUser M) h ip = GetPrivileges E i v (DbUser M) h ip" for v h ip
    by (simp add: GetPrivileges_def split: option.split)
  have m: "manager_privileges ?E i M = manager_privileges E i M"
    unfolding manager_privileges_def g by (simp add: GetHostFromConnection_def)
  have r: "DbUser M1 = DbUser M \<Longrightarrow> replica_privileges ?E i js M1 = replica_privileges E i js M1" for js M1
  proof (induction js arbitrary: M1)
    case (Cons j js)
    have u: "DbUser (on_mon f (on_mon h M1)) = DbUser M" for f h
      by (simp add: on_mon_def Cons.prems)
    have l: "LookupIP ?E = LookupIP E" by simp
    show ?case
      by (simp only: replica_privileges.simps Let_def Cons.prems g l Cons.IH [OF u] Cons.IH [OF Cons.prems])
  qed simp
  have "DbUser M1 = DbUser M" if "manager_privileges E i M = Some M1" for M1
    using local_manager_privileges [OF that local_refl] by (intro around_fields(2)) (simp add: local_to_def)
  then show ?thesis
    by (cases "manager_privileges E i M") (simp_all add: CheckPrivileges_def m r)
qed

section \<open>A server that is down stays down\<close>

lemma view_workload:
  "HaveWsrep (view i (read_workload E i M)) = HaveWsrep (view i M)" "IsSlave (view i (read_workload E i M)) = IsSlave (view i M)"
proof -
  have d: "HaveWsrep (view i M2) = HaveWsrep (view i M1) \<and> IsSlave (view i M2) = IsSlave (view i M1)"
    if "dump_threads n E i M1 = (go, M2)" for n go M1 M2
    using that by (auto simp: dump_threads_def Let_def split: prod.splits if_splits)
  have "HaveWsrep (view i M2) = HaveWsrep (view i M1) \<and> IsSlave (view i M2) = IsSlave (view i M1)"
    if "read_plugins E i M1 = (go, M2)" for go M1 M2
    using that by (auto simp: read_plugins_def Let_def split: if_splits dest!: d)
  moreover have "view i (read_locks E i M1) = view i M1" "srv (CheckMaxConnections i c) = srv c" for M1 c
    by (simp_all add: read_locks_def CheckMaxConnections_def Let_def split: option.splits)
  ultimately show "HaveWsrep (view i (read_workload E i M)) = HaveWsrep (view i M)"
    "IsSlave (view i (read_workload E i M)) = IsSlave (view i M)"
    by (auto simp: read_workload_def Let_def split: prod.splits if_splits)
qed

text \<open>A check of the replication sets nothing but the state and the delay statistics.\<close>

definition traits :: "server \<Rightarrow> bool \<times> bool" where
  "traits s = (HaveWsrep s, IsSlave s)"

lemma traits_check_replication:
  assumes "check_replication E i M = Some M'"
  shows "traits (view i M') = traits (view i M)"
proof -
  have st: "traits (srv (Server_SetState i st c) i) = traits (srv c i)" for st c
    by (simp add: Server_SetState_def upd_srv_def traits_def)
  then have mk: "traits (srv (mark i st rl c) i) = traits (srv c i)" for st rl c
    by (simp add: mark_def)
  have cd: "traits (srv d i) = traits (srv c i)" if "capture_delay D i n c = Some d" for D n c d
    using that by (auto simp: capture_delay_def upd_srv_def traits_def split: if_splits)
  have "traits (srv d i) = traits (srv c i)" if "CheckReplication D i c = Some (h, d)" for D h c d
    using that
    by (auto simp: CheckReplication_def check_stopped_def check_delay_def Let_def st mk split: if_splits option.splits dest!: cd)
  then show ?thesis
    using assms by (auto simp: check_replication_def Let_def bind_eq_Some_conv traits_def split: if_splits)
qed

lemma down_check_replication:
  assumes "check_replication E i M = Some M'" "IsDown (view i M)" "\<not> HaveWsrep (view i M')" "\<not> IsSlave (view i M')"
  shows "State (view i M') = State (view i M)"
  using assms traits_check_replication [OF assms(1)]
  by (auto simp: check_replication_def CheckReplication_def traits_def Let_def bind_eq_Some_conv split: if_splits)

lemma down_read_health:
  assumes "read_health E i M = Some M'" "\<not> MxsBinlogOn (Conf (mc M))" "IsDown (view i M)"
    "\<not> HaveWsrep (view i M')" "\<not> IsSlave (view i M')"
  shows "State (view i M') = State (view i M)"
proof -
  obtain M1 where 1: "check_replication E i (read_status E i M) = Some M1" "M' = read_workload E i M1"
    using assms(1,2) by (auto simp: read_health_def)
  have "State (view i (read_status E i M)) = State (view i M)" "State (view i M') = State (view i M1)"
    using standing_pure(7) [of i E M] standing_read_workload [of i E M1] unfolding standing_def 1(2) by simp_all
  then show ?thesis
    using down_check_replication [OF 1(1)] assms(3-5) by (simp add: 1(2) view_workload IsDown_def)
qed

lemma state_standing: "State (view i M) = snd (standing i M)"
  by (simp add: standing_def)

lemma conf_local: "local_to i M M' \<Longrightarrow> Conf (mc M') = Conf (mc M)"
  by (auto simp: local_to_def only_server_def dest: steps_fields(3))

lemma down_read_server:
  assumes "read_server E i M = Some M'" "\<not> MxsBinlogOn (Conf (mc M))" "IsDown (view i M)"
    "\<not> HaveWsrep (view i M')" "\<not> IsSlave (view i M')"
  shows "State (view i M') = State (view i M)"
proof -
  obtain go M1 where 1: "read_storage E i (read_binlog E i M) = Some (go, M1)"
      "if go then Option.bind (read_slave E i (read_replications E i M1)) (read_health E i) = Some M' else M' = M1"
    using assms(1) by (auto simp: read_server_def bind_eq_Some_conv split: if_splits)
  have s1: "State (view i M1) = State (view i M)"
    using standing_read_storage [OF 1(1)] by (simp add: state_standing)
  show ?thesis
  proof (cases go)
    case True
    then obtain M2 where 2: "read_slave E i (read_replications E i M1) = Some M2" "read_health E i M2 = Some M'"
      using 1(2) by (auto simp: bind_eq_Some_conv)
    have s2: "State (view i M2) = State (view i M)"
      using standing_read_slave [OF 2(1)] s1 by (simp add: state_standing)
    have "local_to i M (read_replications E i M1)"
      using local_read_storage [OF 1(1)] by (auto intro!: local_intros)
    then have "Conf (mc M2) = Conf (mc M)"
      using local_read_slave [OF 2(1)] by (intro conf_local)
    then show ?thesis
      using down_read_health [OF 2(2)] assms(2-5) s2 by (simp add: IsDown_def)
  qed (use 1(2) s1 in simp)
qed

text \<open>A refresh brings neither a Galera nor a group member back, nor a replica: only discovery and the ping itself do.\<close>

lemma down_Server_Refresh:
  assumes "Server_Refresh E i M = Some (ok, M')" "\<not> MxsBinlogOn (Conf (mc M))" "\<not> MultiMasterGrouprep (Conf (mc M))"
    "IsDown (view i M)" "\<not> HaveWsrep (view i M')" "\<not> IsSlave (view i M')"
  shows "State (view i M') = State (view i M)"
proof -
  have start: "State (view i M1) = State (view i M) \<and> Conf (mc M1) = Conf (mc M)"
    if "probe_maxscale E i (start_refresh i M) = Some M1" for M1
    using that assms(2) start_refresh_keeps [of i M] by (auto simp: probe_maxscale_def split: if_splits)
  have db: "State (view i M2) = State (view i M1) \<and> Conf (mc M2) = Conf (mc M1)"
    if r: "read_database E i M1 = Some (go, M2)" "Conf (mc M1) = Conf (mc M)" for go M1 M2
  proof -
    obtain v where "GetDBVersion E i = Some v"
      using r(1) by (auto simp: read_database_def split: option.splits)
    then show ?thesis
      using standing_read_database [OF r(1)] conf_local [OF local_read_database [OF r(1) local_refl]] r(2) assms(3)
      by (simp add: state_standing)
  qed
  from assms(1) show ?thesis
  proof (cases rule: Server_Refresh_cases)
    case (maxscale M1)
    then show ?thesis using start [of M1] assms(2) by simp
  next
    case (full M1 M2)
    then show ?thesis
      using start [of M1] db [of M1 True M2] down_read_server [OF full(5)] assms(2,4-6) by (simp add: IsDown_def)
  qed (use start db in fastforce)+
qed

section \<open>The contract of a refresh\<close>

text \<open>
  What the ping relies on: a refresh touches only its own server, and a server that is down comes back up only as a replica or
  a Galera node.
\<close>

locale server_refresh =
  fixes refresh :: "sid \<Rightarrow> mon \<Rightarrow> (bool \<times> mon) option"
  assumes stays_local: "refresh i M = Some (ok, M') \<Longrightarrow> local_to i M M'"
    and stays_down: "refresh i M = Some (ok, M') \<Longrightarrow> \<not> MxsBinlogOn (Conf (mc M)) \<Longrightarrow> \<not> MultiMasterGrouprep (Conf (mc M)) \<Longrightarrow>
      IsDown (view i M) \<Longrightarrow> \<not> HaveWsrep (view i M') \<Longrightarrow> \<not> IsSlave (view i M') \<Longrightarrow> State (view i M') = State (view i M)"
begin

lemma keeps_own:
  assumes "refresh i M = Some (ok, M')"
  shows "FailCount (view i M') = FailCount (view i M)" "PrevState (view i M') = PrevState (view i M)" "URL (view i M') = URL (view i M)"
  using stays_local [OF assms] by (simp_all add: local_to_def only_server_def own_fields_def)

lemma keeps_roles:
  assumes "refresh i M = Some (ok, M')"
  shows "GetMaster (mc M') = GetMaster (mc M)" "GetTopology (mc M') = GetTopology (mc M)" "Conf (mc M') = Conf (mc M)"
  using stays_local [OF assms]
  by (simp_all add: local_to_def only_server_def steps_def roles_def GetMaster_def GetTopology_def)

lemma suspect_stays:
  assumes "refresh i M = Some (ok, M')" "State (view i M) = stateSuspect" "\<not> MxsBinlogOn (Conf (mc M))"
    "\<not> MultiMasterGrouprep (Conf (mc M))" "traits (view i M') = (False, False)"
  shows "State (view i M') = stateSuspect"
  using stays_down [OF assms(1,3,4)] assms(2,5) by (simp add: traits_def IsDown_def)

end

interpretation rf: server_refresh "Server_Refresh E" for E
  by unfold_locales (fact local_Server_Refresh down_Server_Refresh)+

text \<open>
  The hosts looked up for an IPv6 client do not contain the wildcard for any host, which the list for an IPv4 client has.
\<close>

theorem ipv6_any_host_missed:
  assumes "privilege_hosts host ip = Some hs" "CHR '':'' \<in> set ip" "host \<noteq> ''%''"
  shows "''%'' \<notin> set hs"
  using assms by (auto simp: privilege_hosts_def Let_def split: if_splits)

section \<open>A sample\<close>

text \<open>A MySQL master whose disk is full; its group calls it the primary.\<close>

definition blank_mon :: srv_mon where
  "blank_mon = \<lparr>Strict = '''', LongQueryTime = '''', LogOutput = '''', SlowQueryLog = '''', HaveEventScheduler = False,
     HaveBinlog = False, HaveBinlogMixed = False, HaveBinlogStatement = False, HaveSlowQueryLog = False, HavePFS = False,
     HavePFSSlowQueryLog = False, HaveMetaDataLocksLog = False, HaveQueryResponseTimeLog = False, HaveDiskMonitor = False,
     HaveSQLErrorLog = False, InCaptureMode = False, ReplicationTags = '''', ReplicationHealth = '''',
     SensitiveVariables = (\<lambda>_. ''''), PrevStatus = (\<lambda>_. ''''),
     SlaveVariables = \<lparr>SlaveParallelMode = '''', SlaveTypeConversions = '''', SlaveParallelMaxQueued = 0,
       SlaveParallelThreads = 0, SlaveParallelWorkers = 0\<rparr>,
     Plugins = (\<lambda>_. None), RelayLogSize = 0, GTIDExecuted = '''', HashUUID = 0, MxsVersion = 0, MonitorTime = 0,
     PrevMonitorTime = 0, FailSuspectHeartbeat = 0, TLSConfigUsed = ''&tls=tlsconfig'', Cookies = [], ReplicationsNil = False\<rparr>"

definition sample_mon :: mon where
  "sample_mon =
     \<lparr>MT = on_topo (upd_srv 0 (\<lambda>s. s\<lparr>State := stateMaster, PrevState := stateMaster,
        DBVersion := Version ''MySQL'' 8 0 36 '''' '''' None\<rparr>)) sample_topo,
      mx = (\<lambda>_. blank_mon),
      MConf = \<lparr>CheckType = ''tcp'', Autorejoin = False, MonitorScheduler = False, MonitorProcessList = False,
        MonitorPlugins = False, MonitorCheckGrants = False, ReplicationErrorScript = '''', ReplicationRestartOnSQLErrorMatch = ''''\<rparr>,
      IsInBackup = False, HaveDBTLSCert = False, RepMgrHostname = ''manager'', DbUser = ''admin'', RplUserName = ''repl'',
      IsAlertDisable = False, SlavesMade = True\<rparr>"

definition mon_calm :: mon_env where
  "mon_calm = \<lparr>TE = topo_calm, ConnPings = (\<lambda>_. True), QMaxscaleVersion = (\<lambda>_. ''''), QVersion = (\<lambda>_. Some ''8.0.36''),
     QVersionComment = (\<lambda>_. ''MySQL Community''),
     QVariables = (\<lambda>_. (\<lambda>k. if k = ''SERVER_ID'' then ''1'' else if k = ''LOG_BIN'' then ''ON'' else '''', True)),
     QSensitiveVariables = (\<lambda>_. (\<lambda>_. '''', True)), QPFSConsumer = (\<lambda>_ _. ''''), QGroupRole = (\<lambda>_ r. r = ''PRIMARY''),
     QEvents = (\<lambda>_. Some []), QUsers = (\<lambda>_. []), QProcesslist = (\<lambda>_. None), QMasterStatus = (\<lambda>_. Some (''bin.000004'', 155)),
     QDumpThreads = (\<lambda>_ _. (0, Some ''Errcode: 28 '')), QDisks = (\<lambda>_. []), QSlaves = (\<lambda>_. Some []), QReplicateFilters = (\<lambda>_. False),
     QStatus = (\<lambda>_ _. ''''), QPlugins = (\<lambda>_ _. None), QLocks = (\<lambda>_. None), QUserFunction = (\<lambda>_. Some ''admin@10.0.0.9''),
     QPrivileges = (\<lambda>_ _ _. (no_privileges, None)), LookupIP = (\<lambda>_. (''10.0.0.9'', None))\<rparr>"

lemma full_disk_returns:
  assumes "HasConn (view i M)" "ConnPings E i" "\<not> MxsBinlogOn (Conf (mc M))" "disk_full (snd (QDumpThreads E 0 i))"
    "read_database E i (upd_view i (\<lambda>s. s\<lparr>IsMaxscale := False\<rparr>) (start_refresh i M)) = Some (True, M2)"
    "\<not> IsPostgreSQL (DBVersion (view i M2))"
  shows "\<exists>M'. Server_Refresh E i M = Some (True, M') \<and> IsFull (view i M')"
proof -
  define M1 where "M1 = upd_view i (\<lambda>s. s\<lparr>IsMaxscale := False\<rparr>) (start_refresh i M)"
  have p: "probe_maxscale E i (start_refresh i M) = Some M1" "\<not> IsMaxscale (view i M1)"
    using assms(3) start_refresh_keeps(2) [of i M] by (simp_all add: probe_maxscale_def M1_def)
  have "DBVersion (view i (read_binlog E i M2)) = DBVersion (view i M2)"
    by (auto simp: read_binlog_def Let_def split: option.splits)
  then obtain M' where "read_server E i M2 = Some M'" "IsFull (view i M')"
    using assms(4,6) by (cases "QDumpThreads E 0 i") (simp add: read_server_def read_storage_def dump_threads_def Let_def)
  then show ?thesis
    using assms(1,2) p assms(5) [folded M1_def] unfolding Server_Refresh_def by simp
qed

lemma sample_database:
  "case read_database mon_calm 0 (upd_view 0 (\<lambda>s. s\<lparr>IsMaxscale := False\<rparr>) (start_refresh 0 sample_mon)) of
     None \<Rightarrow> False | Some (go, M2) \<Rightarrow> go \<and> \<not> IsPostgreSQL (DBVersion (view 0 M2))"
  by code_simp

lemma sample_refresh: "\<exists>M'. Server_Refresh mon_calm 0 sample_mon = Some (True, M') \<and> IsFull (view 0 M')"
proof -
  have "HasConn (view 0 sample_mon)" "ConnPings mon_calm 0" "\<not> MxsBinlogOn (Conf (mc sample_mon))"
    "disk_full (snd (QDumpThreads mon_calm 0 0))"
    by code_simp+
  then show ?thesis
    using sample_database by (auto intro!: full_disk_returns split: option.splits prod.splits)
qed

theorem refresh_refines_witness:
  "\<exists>M'. Server_Refresh mon_calm 0 sample_mon = Some (True, M') \<and> IsFull (view 0 M') \<and>
     FailCount (view 0 M') = FailCount (view 0 sample_mon)"
  using sample_refresh refresh_refines [of mon_calm 0 sample_mon True _ calm_env] by blast

theorem group_role_needs_mariadb_witness:
  "\<exists>M'. Server_Refresh mon_calm 0 sample_mon = Some (True, M') \<and> QGroupRole mon_calm 0 ''PRIMARY'' \<and>
     \<not> IsGroupReplicationMaster (ext (MT M') 0)"
proof -
  obtain M' where r: "Server_Refresh mon_calm 0 sample_mon = Some (True, M')"
    using sample_refresh by blast
  have v: "GetDBVersion mon_calm 0 = Some (Version ''MySQL'' 8 0 36 '''' '''' None)" "\<not> IsMariaDB (Version ''MySQL'' 8 0 36 '''' '''' None)"
    by code_simp+
  have "\<not> IsGroupReplicationMaster (ext (MT sample_mon) 0)" by code_simp
  with r group_role_needs_mariadb [OF r v] show ?thesis by (simp add: mon_calm_def)
qed

theorem unreadable_settings_refresh_witness:
  "\<exists>M'. Server_Refresh (mon_calm\<lparr>QVariables := \<lambda>_. (\<lambda>_. '''', False)\<rparr>) 0 sample_mon = Some (True, M') \<and> Variables (view 0 M') = (\<lambda>_. '''')"
proof -
  let ?E = "mon_calm\<lparr>QVariables := \<lambda>_. (\<lambda>_. '''', False)\<rparr>"
  have h: "HasConn (view 0 sample_mon)" "\<not> MxsBinlogOn (Conf (mc sample_mon))"
    "GetDBVersion ?E 0 = Some (Version ''MySQL'' 8 0 36 '''' '''' None)" "ConnPings ?E 0" "\<not> snd (QVariables ?E 0)"
    by code_simp+
  have "fst (QVariables ?E 0) = (\<lambda>_. '''')" by simp
  with unreadable_settings_refresh [OF h(1,4,2,3,5)] show ?thesis by metis
qed

end
