(* ===== verification/Ping.thy ===== *)
theory Ping
  imports SrvRefresh
begin

text \<open>
  The ping of one server, \<open>src/cluster/srv.go\<close>: failure detection, the count of failures that makes a server suspect and
  then failed, the return of a server that answers again, and the alerts on the way.

  Whether a connection opens, and with which driver error it fails, is an answer of the environment. \<open>None\<close> is a
  run-time panic. The rotation of the monitoring password after an access denial is one command of the trace.
\<close>

section \<open>Environment\<close>

datatype conn_error = MySQLError nat string | NoRows | OtherError string

fun err_text :: "conn_error \<Rightarrow> string" where
  "err_text (MySQLError _ txt) = txt"
| "err_text NoRows = ''sql: no rows in result set''"
| "err_text (OtherError txt) = txt"

record ping_env =
  ME :: mon_env
  Connect :: "sid \<Rightarrow> string \<Rightarrow> conn_error option"
    \<comment> \<open>a MySQL connection with a TLS configuration; \<open>None\<close>: it opens\<close>
  PgConnect :: "sid \<Rightarrow> conn_error option"
  AgentCheck :: "sid \<Rightarrow> int option"
    \<comment> \<open>the HTTP status of the agent; \<open>None\<close>: no response\<close>
  PingSlaveStatus :: "sid \<Rightarrow> conn_error + slave_status"
  VaultUsed :: bool
  LastSQLError :: "sid \<Rightarrow> string"
  RegexpMatch :: "string \<Rightarrow> string \<Rightarrow> bool option"

abbreviation "ConstTLSNoConfig \<equiv> ''''"
abbreviation "ConstTLSOldConfig \<equiv> ''&tls=tlsconfigold''"
abbreviation "ConstTLSCurrentConfig \<equiv> ''&tls=tlsconfig''"

abbreviation ping_rejoin :: "ping_env \<Rightarrow> rejoin_env" where "ping_rejoin E \<equiv> RE (TE (ME E))"

section \<open>Connection\<close>

definition GetNewDBConn :: "ping_env \<Rightarrow> sid \<Rightarrow> mon \<Rightarrow> conn_error option \<times> mon" where
  "GetNewDBConn E i M =
     (if MasterSlavePgStream (MT M) \<or> MasterSlavePgLogical (MT M) then (PgConnect E i, M)
      else case Connect E i (TLSConfigUsed (mx M i)) of
          None \<Rightarrow> (None, M)
        | Some err \<Rightarrow>
            if HaveDBTLSCert M then
              let M1 = upd_mx i (\<lambda>x. x\<lparr>TLSConfigUsed := ConstTLSCurrentConfig\<rparr>) M
              in case Connect E i ConstTLSOldConfig of
                   None \<Rightarrow> (None, on_mon (set_state ''ERR00080'' LvlErr [FS (URL (view i M))] ''MON'' (URL (view i M))) M1)
                 | Some _ \<Rightarrow> (Connect E i ConstTLSNoConfig, M1)
            else (Some err, M))"

text \<open>The outcome of the probe: the error, and whether a connection came with it.\<close>

definition probe :: "ping_env \<Rightarrow> sid \<Rightarrow> mon \<Rightarrow> (conn_error option \<times> bool \<times> mon) option" where
  "probe E i M =
     (if CheckType (MConf M) = ''tcp'' then let (err, M1) = GetNewDBConn E i M in Some (err, err = None, M1)
      else if CheckType (MConf M) = ''agent'' then
        (case AgentCheck E i of
           None \<Rightarrow> None
         | Some code \<Rightarrow>
             Some (if code \<noteq> 200 then Some (OtherError (''HTTP Response Code Error: '' @ dec_int code)) else None, False, M))
      else Some (None, False, M))"

section \<open>Cookies and alerts\<close>

definition delCookie :: "string \<Rightarrow> sid \<Rightarrow> mon \<Rightarrow> mon" where
  "delCookie k i = upd_mx i (\<lambda>x. x\<lparr>Cookies := removeAll k (Cookies x)\<rparr>)"

definition SetPrevState :: "sid \<Rightarrow> string \<Rightarrow> mon \<Rightarrow> mon" where
  "SetPrevState i st M = (if st = '''' then M else upd_view i (\<lambda>s. s\<lparr>PrevState := st\<rparr>) M)"

definition Server_SendAlert :: "sid \<Rightarrow> mon \<Rightarrow> mon" where
  "Server_SendAlert i M =
     (if TStatus (MT M) \<noteq> ConstMonitorActif \<and> IsDiscovered (mc M) then M
      else if State (view i M) = PrevState (view i M) then M
      else on_mon (SendAlert (IsAlertDisable M) (State (view i M)) False) M)"

definition announce :: "sid \<Rightarrow> mon \<Rightarrow> mon" where
  "announce i M = Server_SendAlert i (on_mon (emit OpProxiesBackendStateChange) M)"

definition HasReplicationSQLThreadRunning :: "server \<Rightarrow> bool" where
  "HasReplicationSQLThreadRunning s = (case own_status s of None \<Rightarrow> False | Some ss \<Rightarrow> SlaveSQLRunning ss = ''yes'')"

definition SkipReplicationEvent :: "sid \<Rightarrow> cluster \<Rightarrow> cluster" where
  "SkipReplicationEvent i c = StartSlave i (emit (OpSQL i ''SkipBinlogEvent'') (StopSlave i c))"

definition ProcessFailedSlave :: "ping_env \<Rightarrow> sid \<Rightarrow> mon \<Rightarrow> mon" where
  "ProcessFailedSlave E i M =
     (let s = view i M
      in if State s = stateSlaveErr then
           let script = ReplicationErrorScript (MConf M); pat = ReplicationRestartOnSQLErrorMatch (MConf M);
               M1 = (if script \<noteq> '''' then on_mon (emit (OpScript script [URL s, PrevState s, State s])) M else M)
           in if HasReplicationSQLThreadRunning s \<and> pat \<noteq> '''' \<and> RegexpMatch E pat (LastSQLError E i) = Some True
              then on_mon (StartSlave i \<circ> SkipReplicationEvent i) M1 else M1
         else M)"

section \<open>A server that does not answer\<close>

definition leave_slaves :: "sid \<Rightarrow> mon \<Rightarrow> mon" where
  "leave_slaves i M =
     upd_mx i (\<lambda>x. x\<lparr>ReplicationsNil := True\<rparr>) (upd_view i (\<lambda>s. s\<lparr>Replications := []\<rparr>)
       (if \<not> ReplicationsNil (mx M i) \<and> (slaves (mc M) \<noteq> [] \<or> SlavesMade M) then
          (on_mon (\<lambda>c. c\<lparr>slaves := server_delete i c (slaves c)\<rparr>)
            (upd_view i (\<lambda>s. s\<lparr>LastSeenReplications := Some (Replications s)\<rparr>) M))\<lparr>SlavesMade := True\<rparr>
        else M))"

abbreviation del_stop_cookies :: "sid \<Rightarrow> mon \<Rightarrow> mon" where
  "del_stop_cookies i M \<equiv> delCookie ''cookie_unprov'' i (delCookie ''cookie_waitstop'' i M)"

definition count_failure :: "sid \<Rightarrow> mon \<Rightarrow> mon" where
  "count_failure i M =
     (let M1 = upd_view i (\<lambda>s. s\<lparr>FailCount := s64 (FailCount s + 1)\<rparr>) M; n = FailCount (view i M1);
          mx_fail = MaxFail (Conf (mc M1)); known = GetTopology (mc M1) \<noteq> TopoUnknown
      in case (case GetMaster (mc M1) of
                 Some m \<Rightarrow> if URL (view i M1) = URL (view m M1) \<and> known then Some m else None | None \<Rightarrow> None) of
           Some m \<Rightarrow>
             let M2 = upd_mx i (\<lambda>x. x\<lparr>FailSuspectHeartbeat := GetHeartbeats (StateMachine (mc M1))\<rparr>) M1
             in if n \<ge> mx_fail then del_stop_cookies i (on_mon (Server_SetState m stateFailed) M2)
                else on_mon (Server_SetState m stateSuspect) M2
         | None \<Rightarrow>
             if n \<ge> mx_fail \<and> known then
               if n = mx_fail then leave_slaves i (del_stop_cookies i (on_mon (Server_SetState i stateFailed) M1))
               else M1
             else on_mon (Server_SetState i stateSuspect) M1)"

definition report_failure :: "ping_env \<Rightarrow> sid \<Rightarrow> mon \<Rightarrow> mon" where
  "report_failure E i M =
     (let s = view i M
      in if PrevState s \<noteq> State s then
           let M1 = (if State s \<noteq> stateSuspect then ProcessFailedSlave E i (announce i M) else M)
           in SetPrevState i (State (view i M1)) M1
         else M)"

definition deny_access :: "ping_env \<Rightarrow> sid \<Rightarrow> string \<Rightarrow> mon \<Rightarrow> mon" where
  "deny_access E i txt M =
     (let M1 = on_mon (set_state ''ERR00004'' LvlErr [FS (URL (view i M)), FS txt] ''SRV'' '''')
                 (on_mon (Server_SetState i stateErrorAuth) M)
      in if VaultUsed E then on_mon (emit (OpJob i ''CheckMonitoringCredentialsRotation'')) M1 else M1)"

definition ping_failed :: "ping_env \<Rightarrow> sid \<Rightarrow> conn_error \<Rightarrow> mon \<Rightarrow> mon" where
  "ping_failed E i err M =
     (let M1 = (if State (view i M) \<noteq> stateFailed
                then on_mon (\<lambda>c. c\<lparr>StateMachine := CopyOldStateFromUnknowServer (URL (view i M)) (StateMachine c)\<rparr>) M else M)
      in case err of
           MySQLError n txt \<Rightarrow> if n = 1045 then deny_access E i txt M1 else report_failure E i (count_failure i M1)
         | NoRows \<Rightarrow> report_failure E i M1
         | OtherError _ \<Rightarrow> report_failure E i (count_failure i M1))"

section \<open>A server that answers\<close>

definition db_step :: "ping_env \<Rightarrow> (dbenv \<Rightarrow> cluster \<Rightarrow> bool \<times> cluster) \<Rightarrow> mon \<Rightarrow> mon" where
  "db_step E f = on_mon (\<lambda>c. snd (f (mon_db (ME E)) c))"

definition on_rejoin :: "(rejoin \<Rightarrow> bool outcome) \<Rightarrow> mon \<Rightarrow> mon option" where
  "on_rejoin f M = map_option (\<lambda>(_, R). M\<lparr>MT := (MT M)\<lparr>TR := R\<rparr>\<rparr>) (f (TR (MT M)))"

definition set_attached :: "sid \<Rightarrow> mon \<Rightarrow> mon" where
  "set_attached i M =
     on_mon (Server_SetState i (if IsGroupReplicationSlave (ext (MT M) i) then stateSlave else stateUnconn)) M"

text \<open>A server that comes back from a failure and replicates from nobody.\<close>

definition return_read_only :: "ping_env \<Rightarrow> sid \<Rightarrow> mon \<Rightarrow> mon" where
  "return_read_only E i M =
     (let s = view i M; c = mc M; free = \<not> IsIgnoredReadonly s \<and> \<not> IsInFailover c
      in if CReadOnly (Conf c) \<and> \<not> HaveWsrep s \<and> IsDiscovered c then
           (case GetMaster c of
              None \<Rightarrow> M
            | Some m \<Rightarrow>
                if TStatus (MT M) = ConstMonitorActif \<and> Id (srv c m) \<noteq> Id s \<and> free then db_step E (\<lambda>D. SetReadOnly D i) M
                else if TStatus (MT M) = ConstMonitorStandby \<and> Arbitration (Conf c) \<and> free then db_step E (\<lambda>D. SetReadOnly D i) M
                else M)
         else M)"

definition return_failed :: "ping_env \<Rightarrow> sid \<Rightarrow> mon \<Rightarrow> mon option" where
  "return_failed E i M =
     (let M1 = return_read_only E i M;
          M2 = (if Topology (mc M1) = TopoActivePassive then on_mon (Server_SetState i stateMaster) M1
                else if GetTopology (mc M1) \<noteq> TopoMultiMasterWsrep \<or> GetTopology (mc M1) \<noteq> TopoMultiMasterGrouprep
                then set_attached i M1 else M1);
          M3 = announce i (upd_view i (\<lambda>s. s\<lparr>FailCount := 0\<rparr>) M2)
      in if Autorejoin (MConf M3) \<and> TStatus (MT M3) = ConstMonitorActif then on_rejoin (RejoinMaster (ping_rejoin E) i) M3
         else Some M3)"

definition return_alone :: "ping_env \<Rightarrow> sid \<Rightarrow> mon \<Rightarrow> mon" where
  "return_alone E i M =
     (let M1 = set_attached i M; s = view i M1; c = mc M1;
          M2 = (if CReadOnly (Conf c) \<and> \<not> HaveWsrep s \<and> IsDiscovered c \<and> \<not> IsIgnoredReadonly s \<and> \<not> IsInFailover c
                then db_step E (\<lambda>D. SetReadOnly D i) M1 else M1)
      in if State (view i M2) \<noteq> stateSuspect then announce i M2 else M2)"

definition not_replica :: "ping_env \<Rightarrow> sid \<Rightarrow> mon \<Rightarrow> mon option" where
  "not_replica E i M =
     (let s = view i M; c = mc M
      in if PrevState s = stateFailed \<or> PrevState s = stateErrorAuth then return_failed E i M
         else if State s \<noteq> stateMaster \<and> PrevState s \<noteq> stateUnconn \<and> State s = stateUnconn then Some (return_alone E i M)
         else if (case GetMaster c of None \<Rightarrow> False | Some m \<Rightarrow> Id (srv c m) \<noteq> Id s) \<and> PrevState s = stateSuspect \<and>
                 \<not> HaveWsrep s \<and> IsDiscovered c \<and> \<not> IsInFailover c
              then Some (set_attached i M)
         else if GetTopology c = TopoActivePassive then
           Some (if PrevState s = stateSuspect \<or> PrevState s = stateMaintenance \<and> \<not> IsMaintenance s
                 then on_mon (Server_SetState i stateMaster) M else M)
         else if State s \<noteq> stateMaster \<and> PrevState s = stateSlaveErr then Some (on_mon (Server_SetState i stateUnconn) M)
         else Some M)"

definition no_status :: "conn_error + slave_status \<Rightarrow> bool" where
  "no_status r =
     (case r of
        Inl err \<Rightarrow> err = NoRows \<or> str_contains (err_text err) ''1617'' \<or> str_contains (err_text err) ''3074''
      | Inr _ \<Rightarrow> False)"

definition reset_count :: "sid \<Rightarrow> mon \<Rightarrow> mon" where
  "reset_count i M =
     (let s = view i M
      in if State s \<noteq> stateFailed \<and> State s \<noteq> stateErrorAuth \<and> State s \<noteq> stateSuspect \<and> FailCount s > 0
         then upd_mx i (\<lambda>x. x\<lparr>FailSuspectHeartbeat := 0\<rparr>) (upd_view i (\<lambda>s. s\<lparr>FailCount := 0\<rparr>) M) else M)"

definition report_state :: "sid \<Rightarrow> mon \<Rightarrow> mon" where
  "report_state i M =
     (if PrevState (view i M) \<noteq> State (view i M) then
        let M1 = SetPrevState i (State (view i M)) M
        in if PrevState (view i M1) \<noteq> stateSuspect then announce i M1 else M1
      else M)"

definition follow_up :: "ping_env \<Rightarrow> sid \<Rightarrow> mon \<Rightarrow> mon option" where
  "follow_up E i M =
     map_option (report_state i)
       (let M1 = reset_count i M; r = PingSlaveStatus E i
        in if no_status r then not_replica E i M1
           else case r of
               Inr ss \<Rightarrow> if TStatus (MT M1) = ConstMonitorActif \<and> PrevState (view i M1) = stateFailed
                         then on_rejoin (rejoinSlave (ping_rejoin E) i ss) M1 else Some M1
             | Inl _ \<Rightarrow> Some M1)"

definition ping_answered :: "ping_env \<Rightarrow> sid \<Rightarrow> bool \<Rightarrow> mon \<Rightarrow> mon option" where
  "ping_answered E i conn M =
     (let s = view i M;
          M1 = (if (State s = stateErrorAuth \<or> State s = stateFailed) \<and> GetTopology (mc M) = TopoUnknown \<and> PrevState s \<noteq> stateSuspect
                then on_mon (Server_SetState i stateSuspect) M else M);
          M2 = (if PrevState (view i M1) = stateFailed
                then fold (\<lambda>k. delCookie k i) [''cookie_waitstart'', ''cookie_restart'', ''cookie_prov'', ''cookie_reprov''] M1
                else M1);
          connect = upd_view i (\<lambda>s. s\<lparr>HasConn := conn\<rparr>)
      in if \<not> HasConn (view i M2) then Some (connect M2)
         else if IsInFailover (mc M2) then Some M2
         else case Server_Refresh (ME E) i M2 of
             None \<Rightarrow> None
           | Some (ok, M3) \<Rightarrow> if \<not> ok then Some (connect M3) else if \<not> conn then None else follow_up E i M3)"

section \<open>Ping\<close>

definition mark_virtual :: "sid \<Rightarrow> mon \<Rightarrow> mon" where
  "mark_virtual i M =
     (case vmaster (mc M) of
        None \<Rightarrow> M
      | Some v \<Rightarrow> upd_ext i (\<lambda>x. x\<lparr>IsVirtualMaster := ServerID (view v M) = ServerID (view i M)\<rparr>) M)"

definition Server_Ping :: "ping_env \<Rightarrow> sid \<Rightarrow> mon \<Rightarrow> mon option" where
  "Server_Ping E i M =
     (case probe E i (mark_virtual i M) of
        None \<Rightarrow> None
      | Some (Some err, _, M1) \<Rightarrow> Some (ping_failed E i err M1)
      | Some (None, conn, M1) \<Rightarrow> ping_answered E i conn M1)"

section \<open>What a failed ping does\<close>

text \<open>An error that counts as a failure of the server.\<close>

definition fail_error :: "conn_error \<Rightarrow> bool" where
  "fail_error err = (case err of MySQLError n _ \<Rightarrow> n \<noteq> 1045 | NoRows \<Rightarrow> False | OtherError _ \<Rightarrow> True)"

lemma view_other: "j \<noteq> i \<Longrightarrow> view j (upd_view i f M) = view j M"
  by (simp add: upd_view_def upd_srv_def)

lemma frame_upd_view [simp]:
  "GetMaster (mc (upd_view i f M)) = GetMaster (mc M)" "Topology (mc (upd_view i f M)) = Topology (mc M)"
  "slaves (mc (upd_view i f M)) = slaves (mc M)" "trace (mc (upd_view i f M)) = trace (mc M)"
  "StateMachine (mc (upd_view i f M)) = StateMachine (mc M)"
  by (simp_all add: upd_view_def upd_srv_def GetMaster_def)

text \<open>The roles and settings a round of pings relies on.\<close>

definition setting :: "mon \<Rightarrow> sid option \<times> string \<times> conf" where
  "setting M = (GetMaster (mc M), GetTopology (mc M), Conf (mc M))"

lemma setting_simps [simp]:
  "setting (upd_view i f M) = setting M" "setting (upd_mx i h M) = setting M" "setting (upd_ext i g M) = setting M"
  "setting (on_mon (emit o1) M) = setting M" "setting (on_mon (set_state k t args ff u) M) = setting M"
  "setting (on_mon (Server_SetState i st) M) = setting M"
  "setting (on_mon (\<lambda>c. c\<lparr>StateMachine := F c\<rparr>) M) = setting M"
  "setting (on_mon (\<lambda>c. c\<lparr>slaves := G c\<rparr>) M) = setting M" "setting (M\<lparr>SlavesMade := b\<rparr>) = setting M"
  by (simp_all add: setting_def GetMaster_def GetTopology_def Server_SetState_def set_state_def Cluster_SetState_def
      upd_view_def upd_srv_def emit_def)

text \<open>The failure count and the states, as a server keeps them.\<close>

definition health :: "sid \<Rightarrow> mon \<Rightarrow> string \<times> string \<times> int" where
  "health j M = (State (view j M), PrevState (view j M), FailCount (view j M))"

lemma health_simps [simp]:
  "health j (upd_mx i h M) = health j M" "health j (upd_ext i g M) = health j M"
  "health j (on_mon (emit o1) M) = health j M" "health j (on_mon (set_state k t args ff u) M) = health j M"
  "health j (on_mon (\<lambda>c. c\<lparr>StateMachine := F c\<rparr>) M) = health j M"
  "health j (on_mon (\<lambda>c. c\<lparr>slaves := G c\<rparr>) M) = health j M" "health j (M\<lparr>SlavesMade := b\<rparr>) = health j M"
  by (simp_all add: health_def)

lemma health_set_state:
  "health j (on_mon (Server_SetState i st) M) = (if j = i then (st, snd (health j M)) else health j M)"
  by (simp add: health_def Server_SetState_def upd_srv_def)

lemma health_upd_view:
  "(\<And>s. State (f s) = State s \<and> PrevState (f s) = PrevState s \<and> FailCount (f s) = FailCount s) \<Longrightarrow> health j (upd_view i f M) = health j M"
  by (simp add: health_def upd_view_def upd_srv_def)

lemma health_leave [simp]: "health j (leave_slaves i M) = health j M" "setting (leave_slaves i M) = setting M"
  by (simp_all add: leave_slaves_def health_upd_view)

lemma health_cookie [simp]: "health j (delCookie k i M) = health j M" "setting (delCookie k i M) = setting M"
  by (simp_all add: delCookie_def)

lemma health_send [simp]: "health j (on_mon (SendAlert d t r) M) = health j M" "setting (on_mon (SendAlert d t r) M) = setting M"
  by (simp_all add: SendAlert_def health_def setting_def GetMaster_def GetTopology_def emit_def)

lemma health_alert [simp]: "health j (announce i M) = health j M" "setting (announce i M) = setting M"
  by (simp_all add: announce_def Server_SendAlert_def)

lemma health_process [simp]: "health j (ProcessFailedSlave E i M) = health j M" "setting (ProcessFailedSlave E i M) = setting M"
  by (auto simp: ProcessFailedSlave_def SkipReplicationEvent_def StartSlave_def StopSlave_def health_def setting_def GetMaster_def
      GetTopology_def emit_def Let_def)

lemma health_prev: "health j (SetPrevState i st M) =
    (if j = i \<and> st \<noteq> '''' then (fst (health j M), st, snd (snd (health j M))) else health j M)"
  "setting (SetPrevState i st M) = setting M"
  by (auto simp: SetPrevState_def health_def upd_view_def upd_srv_def setting_def GetMaster_def GetTopology_def)

lemma report_failure_health:
  "health j (report_failure E i M) =
     (if j = i \<and> State (view i M) \<noteq> '''' then (State (view i M), State (view i M), FailCount (view i M)) else health j M)"
  "setting (report_failure E i M) = setting M"
proof -
  let ?M1 = "if State (view i M) \<noteq> stateSuspect then ProcessFailedSlave E i (announce i M) else M"
  have h: "health j ?M1 = health j M" "setting ?M1 = setting M" for j
    by simp_all
  then have "State (view i ?M1) = State (view i M)"
    by (simp add: health_def)
  then show "health j (report_failure E i M) =
     (if j = i \<and> State (view i M) \<noteq> '''' then (State (view i M), State (view i M), FailCount (view i M)) else health j M)"
    "setting (report_failure E i M) = setting M"
    using h by (auto simp: report_failure_def Let_def health_prev) (simp_all add: health_def)
qed

lemma report_health:
  "health j (report_failure E i M) =
     (if j = i \<and> fst (health i M) \<noteq> [] then (fst (health i M), fst (health i M), snd (snd (health i M))) else health j M)"
  unfolding report_failure_health by (simp add: health_def)

lemma count_failure_setting [simp]: "setting (count_failure i M) = setting M"
  by (simp add: count_failure_def Let_def split: option.splits)

text \<open>The count goes up by one and the verdict follows from it; only the server, or the master of the same address, is judged.\<close>

lemma count_failure_health:
  "health j (count_failure i M) =
     (let n = s64 (FailCount (view i M) + 1); known = GetTopology (mc M) \<noteq> TopoUnknown; limit = MaxFail (Conf (mc M));
          leader = (case GetMaster (mc M) of Some m \<Rightarrow> if URL (view i M) = URL (view m M) \<and> known then Some m else None | None \<Rightarrow> None);
          st = (case leader of
                  Some m \<Rightarrow> if j = m then (if n \<ge> limit then stateFailed else stateSuspect) else State (view j M)
                | None \<Rightarrow> if j \<noteq> i then State (view j M)
                          else if n \<ge> limit \<and> known then (if n = limit then stateFailed else State (view j M))
                          else stateSuspect)
      in (st, PrevState (view j M), if j = i then n else FailCount (view j M)))"
proof -
  define M1 where "M1 = upd_view i (\<lambda>s. s\<lparr>FailCount := s64 (FailCount s + 1)\<rparr>) M"
  have h: "health j M1 = (State (view j M), PrevState (view j M), if j = i then s64 (FailCount (view i M) + 1) else FailCount (view j M))" for j
    by (simp add: M1_def health_def upd_view_def upd_srv_def)
  have u: "URL (view k M1) = URL (view k M)" for k
    by (simp add: M1_def upd_view_def upd_srv_def)
  have f: "FailCount (view i M1) = s64 (FailCount (view i M) + 1)"
    by (simp add: M1_def)
  have s: "GetMaster (mc M1) = GetMaster (mc M)" "GetTopology (mc M1) = GetTopology (mc M)" "Conf (mc M1) = Conf (mc M)"
    by (simp_all add: M1_def GetTopology_def)
  show ?thesis
    unfolding count_failure_def M1_def [symmetric] Let_def u s f
    by (auto simp: health_set_state h split: option.splits)
qed

lemma ping_failed_counted:
  assumes "fail_error err"
  obtains M1 where "ping_failed E i err M = report_failure E i (count_failure i M1)" "srv (mc M1) = srv (mc M)" "setting M1 = setting M"
proof (rule that)
  let ?M1 = "if State (view i M) \<noteq> stateFailed
    then on_mon (\<lambda>c. c\<lparr>StateMachine := CopyOldStateFromUnknowServer (URL (view i M)) (StateMachine c)\<rparr>) M else M"
  show "ping_failed E i err M = report_failure E i (count_failure i ?M1)"
    using assms by (simp add: ping_failed_def fail_error_def Let_def split: conn_error.splits)
  show "srv (mc ?M1) = srv (mc M)" "setting ?M1 = setting M" by simp_all
qed

lemma ping_failed_uncounted:
  assumes "\<not> fail_error err"
  shows "fst (health j (ping_failed E i err M)) = (if j = i \<and> err \<noteq> NoRows then stateErrorAuth else fst (health j M))"
proof -
  let ?M1 = "if State (view i M) \<noteq> stateFailed
    then on_mon (\<lambda>c. c\<lparr>StateMachine := CopyOldStateFromUnknowServer (URL (view i M)) (StateMachine c)\<rparr>) M else M"
  have h: "health j ?M1 = health j M" for j by simp
  have d: "fst (health j (deny_access E i t N)) = (if j = i then stateErrorAuth else fst (health j N))" for t N
    by (simp add: deny_access_def Let_def health_set_state)
  show ?thesis
  proof (cases err)
    case (MySQLError n t)
    with assms have "ping_failed E i err M = deny_access E i t ?M1"
      by (simp add: ping_failed_def fail_error_def)
    then show ?thesis by (simp only: d h) (simp add: MySQLError)
  next
    case NoRows
    then have "ping_failed E i err M = report_failure E i ?M1"
      by (simp add: ping_failed_def)
    then show ?thesis by (simp only: report_health h) (simp add: NoRows)
  qed (use assms in \<open>simp add: fail_error_def\<close>)
qed

section \<open>Detection\<close>

text \<open>A ping that meets an error that counts, and one that meets none.\<close>

definition unanswered :: "ping_env \<Rightarrow> sid \<Rightarrow> mon \<Rightarrow> bool" where
  "unanswered E i M = (case probe E i (mark_virtual i M) of Some (Some err, _) \<Rightarrow> fail_error err | _ \<Rightarrow> False)"

definition answered :: "ping_env \<Rightarrow> sid \<Rightarrow> mon \<Rightarrow> bool" where
  "answered E i M = (case probe E i (mark_virtual i M) of Some (None, _) \<Rightarrow> True | _ \<Rightarrow> False)"

lemma probe_frame:
  assumes "probe E i (mark_virtual i M) = Some (e, b, M1)"
  shows "srv (mc M1) = srv (mc M)" "setting M1 = setting M"
proof -
  have v: "srv (mc (mark_virtual i M)) = srv (mc M)" "setting (mark_virtual i M) = setting M"
    by (simp_all add: mark_virtual_def split: option.split)
  have g: "srv (mc (snd (GetNewDBConn E i N))) = srv (mc N)" "setting (snd (GetNewDBConn E i N)) = setting N" for N
    by (simp_all add: GetNewDBConn_def Let_def split: option.splits)
  show "srv (mc M1) = srv (mc M)" "setting M1 = setting M"
    using assms g [of "mark_virtual i M"] v
    by (auto simp: probe_def Let_def split: if_splits option.splits prod.splits)
qed

lemma unanswered_ping:
  assumes "unanswered E i M"
  obtains M1 where "Server_Ping E i M = Some (report_failure E i (count_failure i M1))" "srv (mc M1) = srv (mc M)"
    "setting M1 = setting M"
proof -
  obtain err b M0 where p: "probe E i (mark_virtual i M) = Some (Some err, b, M0)" "fail_error err"
    using assms by (auto simp: unanswered_def split: option.splits)
  obtain M1 where "ping_failed E i err M0 = report_failure E i (count_failure i M1)" "srv (mc M1) = srv (mc M0)" "setting M1 = setting M0"
    using p(2) by (rule ping_failed_counted)
  then show thesis
    using that [of M1] p(1) probe_frame [OF p(1)] by (simp add: Server_Ping_def)
qed

lemma missed_master:
  assumes "unanswered E i M" "Server_Ping E i M = Some M'" "GetMaster (mc M) = Some i" "GetTopology (mc M) \<noteq> TopoUnknown"
    "0 \<le> FailCount (view i M)" "FailCount (view i M) < 2 ^ 63 - 1"
  shows "health i M' =
    (let n = FailCount (view i M) + 1; st = (if n < MaxFail (Conf (mc M)) then stateSuspect else stateFailed) in (st, st, n))"
    "setting M' = setting M"
proof -
  obtain M1 where 1: "Server_Ping E i M = Some (report_failure E i (count_failure i M1))" "srv (mc M1) = srv (mc M)" "setting M1 = setting M"
    using assms(1) by (rule unanswered_ping)
  have s: "GetMaster (mc M1) = Some i" "GetTopology (mc M1) \<noteq> TopoUnknown" "MaxFail (Conf (mc M1)) = MaxFail (Conf (mc M))"
    using 1(3) assms(3,4) by (auto simp: setting_def)
  have n: "s64 (FailCount (view i M) + 1) = FailCount (view i M) + 1"
    using assms(5,6) by (simp add: s64_id in_s64_def)
  have "health i (count_failure i M1) =
    (let n = FailCount (view i M) + 1 in (if n < MaxFail (Conf (mc M)) then stateSuspect else stateFailed, PrevState (view i M), n))"
    unfolding count_failure_health Let_def s 1(2) n using s(2) by simp
  then show "health i M' =
    (let n = FailCount (view i M) + 1; st = (if n < MaxFail (Conf (mc M)) then stateSuspect else stateFailed) in (st, st, n))"
    "setting M' = setting M"
    using assms(2) 1 by (auto simp: report_health report_failure_health(2) Let_def)
qed

text \<open>Whatever the rest of a round does, it leaves the failure count, the master, the topology and the settings alone.\<close>

definition rest_of_round :: "sid \<Rightarrow> mon \<Rightarrow> mon \<Rightarrow> bool" where
  "rest_of_round i M M' \<longleftrightarrow> FailCount (view i M') = FailCount (view i M) \<and> setting M' = setting M"

text \<open>\<open>outage i n M M'\<close>: from \<open>M\<close> to \<open>M'\<close> server \<open>i\<close> missed \<open>n\<close> pings in a row.\<close>

inductive outage :: "sid \<Rightarrow> nat \<Rightarrow> mon \<Rightarrow> mon \<Rightarrow> bool" for i where
  first: "unanswered E i M \<Longrightarrow> Server_Ping E i M = Some M' \<Longrightarrow> outage i 1 M M'"
| more: "outage i n M M1 \<Longrightarrow> rest_of_round i M1 M2 \<Longrightarrow> unanswered E i M2 \<Longrightarrow> Server_Ping E i M2 = Some M' \<Longrightarrow>
     outage i (Suc n) M M'"

lemma outage_counts:
  assumes "outage i n M M'" "GetMaster (mc M) = Some i" "GetTopology (mc M) \<noteq> TopoUnknown" "FailCount (view i M) = 0" "int n < 2 ^ 63"
  shows "setting M' = setting M \<and>
    (let st = (if int n < MaxFail (Conf (mc M)) then stateSuspect else stateFailed) in health i M' = (st, st, int n))"
  using assms
proof (induction rule: outage.induct)
  case (first E M M')
  then show ?case
    using missed_master [of E i M M'] by (simp add: Let_def)
next
  case (more n M M1 M2 E M')
  have "setting M2 = setting M" "FailCount (view i M2) = int n"
    using more by (auto simp: rest_of_round_def health_def Let_def)
  then show ?case
    using missed_master [OF more.hyps(3,4)] more.prems by (simp add: setting_def Let_def)
qed


text \<open>
  C11: A ping that cannot connect declares a server failed only when the configured number of failed pings is reached, the
  topology is known and access was not merely denied; and the server is the one that was pinged or a master of the same address.
\<close>

theorem failed_needs_count:
  assumes "probe E i (mark_virtual i M) = Some (Some err, b, M1)" "Server_Ping E i M = Some M'"
    "State (view j M') = stateFailed" "State (view j M) \<noteq> stateFailed"
  shows "FailCount (view i M') \<ge> MaxFail (Conf (mc M)) \<and> GetTopology (mc M) \<noteq> TopoUnknown \<and> fail_error err \<and>
    (j = i \<or> GetMaster (mc M) = Some j \<and> URL (view i M) = URL (view j M))"
proof -
  note f = probe_frame [OF assms(1)]
  have p: "M' = ping_failed E i err M1" using assms(1,2) by (simp add: Server_Ping_def)
  have h: "fst (health j N) = State (view j N)" for N by (simp add: health_def)
  have c: "fail_error err"
  proof (rule ccontr)
    assume "\<not> fail_error err"
    from ping_failed_uncounted [OF this, of j E i M1] show False
      using assms(3,4) f(1) by (simp add: p h split: if_splits)
  qed
  obtain M2 where 2: "M' = report_failure E i (count_failure i M2)" "srv (mc M2) = srv (mc M)" "setting M2 = setting M"
    using ping_failed_counted [OF c, of E i M1] f p by metis
  have s: "GetMaster (mc M2) = GetMaster (mc M)" "GetTopology (mc M2) = GetTopology (mc M)" "Conf (mc M2) = Conf (mc M)"
    using 2(3) by (simp_all add: setting_def)
  have n: "FailCount (view i M') = s64 (FailCount (view i M) + 1)"
    using report_health [of i E i "count_failure i M2"] count_failure_health [of i i M2]
    by (simp add: health_def 2 Let_def split: if_splits)
  have "fst (health j (count_failure i M2)) = stateFailed"
    using assms(3) 2(1) report_health [of j E i "count_failure i M2"] by (simp add: h [symmetric] split: if_splits)
  then show ?thesis
    using assms(4) c unfolding n count_failure_health Let_def s 2(2)
    by (auto split: option.splits if_splits)
qed

section \<open>Pings that are answered again\<close>

text \<open>The count, the settings and the kind of a server.\<close>

definition standing_count :: "sid \<Rightarrow> mon \<Rightarrow> _" where
  "standing_count i M = (traits (view i M), FailCount (view i M), setting M)"

lemma count_simps [simp]:
  "standing_count i (on_mon (Server_SetState j st) M) = standing_count i M"
  "standing_count i (on_mon (emit o1) M) = standing_count i M"
  "standing_count i (on_mon (SendAlert d t r) M) = standing_count i M"
  "standing_count i (SetPrevState j st M) = standing_count i M"
  "standing_count i (upd_mx j h M) = standing_count i M"
  by (simp_all add: standing_count_def traits_def Server_SetState_def SendAlert_def SetPrevState_def setting_def GetMaster_def GetTopology_def
      upd_view_def upd_srv_def emit_def)

lemma count_alert [simp]: "standing_count i (announce j M) = standing_count i M"
  by (simp add: announce_def Server_SendAlert_def)

lemma count_attached [simp]: "standing_count i (set_attached j M) = standing_count i M"
  by (simp add: set_attached_def)

lemma count_read_only [simp]: "standing_count i (db_step E (\<lambda>D. SetReadOnly D j) M) = standing_count i M"
  by (simp add: db_step_def SetReadOnly_def run_def standing_count_def setting_def GetMaster_def GetTopology_def emit_def Let_def)

lemma count_report [simp]: "standing_count i (report_state j M) = standing_count i M"
  by (simp add: report_state_def Let_def)

lemma suspect_not_replica:
  assumes "not_replica E i M = Some M'" "PrevState (view i M) = stateSuspect"
  shows "standing_count i M' = standing_count i M"
  using assms
  by (auto simp: not_replica_def return_alone_def Let_def split: if_splits)

lemma traits_reset: "traits (view i (reset_count i M)) = traits (view i M)" "PrevState (view i (reset_count i M)) = PrevState (view i M)"
  by (simp_all add: reset_count_def Let_def traits_def)

lemma suspect_follow_up:
  assumes "follow_up E i M = Some M'" "PrevState (view i M) = stateSuspect"
  shows "standing_count i M' = standing_count i (reset_count i M)"
proof -
  have p: "PrevState (view i (reset_count i M)) = stateSuspect"
    using assms(2) by (simp add: traits_reset)
  obtain M1 where 1: "M' = report_state i M1" and
    2: "(if no_status (PingSlaveStatus E i) then not_replica E i (reset_count i M)
         else case PingSlaveStatus E i of
             Inr ss \<Rightarrow> if TStatus (MT (reset_count i M)) = ConstMonitorActif \<and> PrevState (view i (reset_count i M)) = stateFailed
                       then on_rejoin (rejoinSlave (ping_rejoin E) i ss) (reset_count i M) else Some (reset_count i M)
           | Inl _ \<Rightarrow> Some (reset_count i M)) = Some M1"
    using assms(1) unfolding follow_up_def Let_def by blast
  have "standing_count i M1 = standing_count i (reset_count i M)"
    using 2 p suspect_not_replica [OF _ p, of E M1] by (auto split: if_splits sum.splits)
  then show ?thesis by (simp add: 1)
qed

lemma reset_suspect: "State (view i M) = stateSuspect \<Longrightarrow> reset_count i M = M"
  by (simp add: reset_count_def)

lemma answered_ping:
  assumes "answered E i M" "Server_Ping E i M = Some M'"
  obtains b M1 where "ping_answered E i b M1 = Some M'" "srv (mc M1) = srv (mc M)" "setting M1 = setting M"
proof -
  obtain b M1 where 1: "probe E i (mark_virtual i M) = Some (None, b, M1)"
    using assms(1) by (auto simp: answered_def split: option.splits)
  then show thesis
    using that [of b M1] assms(2) probe_frame [OF 1] by (simp add: Server_Ping_def)
qed

lemma answered_keeps_count:
  assumes "answered E i M" "Server_Ping E i M = Some M'" "State (view i M) = stateSuspect" "PrevState (view i M) = stateSuspect"
    "\<not> MxsBinlogOn (Conf (mc M))" "\<not> MultiMasterGrouprep (Conf (mc M))" "\<not> HaveWsrep (view i M')" "\<not> IsSlave (view i M')"
  shows "FailCount (view i M') = FailCount (view i M) \<and> setting M' = setting M"
proof -
  obtain b M1 where 1: "ping_answered E i b M1 = Some M'" "srv (mc M1) = srv (mc M)" "setting M1 = setting M"
    using assms(1,2) by (rule answered_ping)
  have c: "MxsBinlogOn (Conf (mc M1)) = MxsBinlogOn (Conf (mc M))" "MultiMasterGrouprep (Conf (mc M1)) = MultiMasterGrouprep (Conf (mc M))"
    using 1(3) by (simp_all add: setting_def)
  have conn: "FailCount (view i (upd_view i (\<lambda>s. s\<lparr>HasConn := b\<rparr>) N)) = FailCount (view i N)" for N by simp
  consider "M' = upd_view i (\<lambda>s. s\<lparr>HasConn := b\<rparr>) M1" | "M' = M1"
    | M3 where "Server_Refresh (ME E) i M1 = Some (False, M3)" "M' = upd_view i (\<lambda>s. s\<lparr>HasConn := b\<rparr>) M3"
    | M3 where "Server_Refresh (ME E) i M1 = Some (True, M3)" "follow_up E i M3 = Some M'"
    using 1(1) assms(3,4) unfolding ping_answered_def
    by (auto simp: 1(2) Let_def split: if_splits option.splits)
  then show ?thesis
  proof cases
    case (4 M3)
    have k: "FailCount (view i M3) = FailCount (view i M)" "PrevState (view i M3) = stateSuspect" "setting M3 = setting M"
      using rf.keeps_own [OF 4(1)] rf.keeps_roles [OF 4(1)] assms(4) 1(2,3) by (simp_all add: setting_def)
    have t: "standing_count i M' = standing_count i (reset_count i M3)"
      using suspect_follow_up [OF 4(2) k(2)] .
    then have "traits (view i M3) = (False, False)"
      using assms(7,8) by (simp add: standing_count_def traits_reset) (simp add: traits_def)
    then have "State (view i M3) = stateSuspect"
      using rf.suspect_stays [OF 4(1)] assms(3,5,6) by (simp add: c 1(2))
    then have "reset_count i M3 = M3" by (rule reset_suspect)
    then show ?thesis
      using t k by (simp add: standing_count_def)
  next
    case (3 M3)
    then show ?thesis
      using rf.keeps_own [OF 3(1)] rf.keeps_roles [OF 3(1)] 1(2,3) by (simp add: setting_def GetTopology_def)
  qed (simp_all add: 1)
qed

text \<open>
  \<open>flapping i n M M'\<close>: from \<open>M\<close> to \<open>M'\<close> server \<open>i\<close> missed \<open>n\<close> pings, and answered the ping after each of them; it is no replica
  and no Galera node. The rest of each round may set its state, as discovery does.
\<close>

inductive flapping :: "sid \<Rightarrow> nat \<Rightarrow> mon \<Rightarrow> mon \<Rightarrow> bool" for i where
  start: "flapping i 0 M M"
| round: "flapping i n M M1 \<Longrightarrow> unanswered E i M1 \<Longrightarrow> Server_Ping E i M1 = Some M2 \<Longrightarrow> rest_of_round i M2 M3 \<Longrightarrow>
     State (view i M3) = stateSuspect \<Longrightarrow> PrevState (view i M3) = stateSuspect \<Longrightarrow>
     answered F i M3 \<Longrightarrow> Server_Ping F i M3 = Some M4 \<Longrightarrow> \<not> HaveWsrep (view i M4) \<Longrightarrow> \<not> IsSlave (view i M4) \<Longrightarrow>
     rest_of_round i M4 M' \<Longrightarrow> flapping i (Suc n) M M'"

lemma flapping_count:
  assumes "flapping i n M M'" "GetMaster (mc M) = Some i" "GetTopology (mc M) \<noteq> TopoUnknown" "FailCount (view i M) = 0" "int n < 2 ^ 63"
    "\<not> MxsBinlogOn (Conf (mc M))" "\<not> MultiMasterGrouprep (Conf (mc M))"
  shows "setting M' = setting M \<and> FailCount (view i M') = int n"
  using assms
proof (induction rule: flapping.induct)
  case (round n M M1 E M2 M3 F M4 M')
  then have 1: "setting M1 = setting M" "FailCount (view i M1) = int n"
    by simp_all
  have 2: "setting M2 = setting M" "FailCount (view i M2) = int (Suc n)"
    using missed_master [OF round.hyps(2,3)] round.prems 1 by (simp_all add: setting_def health_def Let_def)
  have 3: "setting M3 = setting M" "FailCount (view i M3) = int (Suc n)"
    using round.hyps(4) 2 by (simp_all add: rest_of_round_def)
  have 4: "FailCount (view i M4) = FailCount (view i M3) \<and> setting M4 = setting M3"
    using answered_keeps_count [OF round.hyps(7,8,5,6) _ _ round.hyps(9,10)] round.prems(5,6) 3(1) by (simp add: setting_def)
  then show ?case
    using 3 round.hyps(11) by (simp add: rest_of_round_def)
qed simp

text \<open>
  Missed pings need not be consecutive. A ping answered while the server is still suspect does not reset its failure count,
  so a master that answers every other ping, and that no discovery takes out of suspicion in between, is declared failed as
  soon as it has missed the configured number of pings.
\<close>

theorem flapping_master_fails:
  assumes "flapping i n M M1" "int n + 1 = MaxFail (Conf (mc M))" "unanswered E i M1" "Server_Ping E i M1 = Some M'"
    "GetMaster (mc M) = Some i" "GetTopology (mc M) \<noteq> TopoUnknown" "FailCount (view i M) = 0" "MaxFail (Conf (mc M)) < 2 ^ 63"
    "\<not> MxsBinlogOn (Conf (mc M))" "\<not> MultiMasterGrouprep (Conf (mc M))"
  shows "State (view i M') = stateFailed"
proof -
  have "setting M1 = setting M" "FailCount (view i M1) = int n"
    using flapping_count [OF assms(1,5-7)] assms(2,8-10) by simp_all
  then show ?thesis
    using missed_master [OF assms(3,4)] assms(2,5,6,8) by (simp add: setting_def health_def Let_def)
qed

text \<open>
  The alert for a server that changes state while it answers is lost: the new state is noted as the previous one before
  the alert is sent, and an alert for a server whose state did not change is dropped. The proxies are told, the operator is not.
\<close>

theorem state_change_alert_lost:
  assumes "State (view i M) \<noteq> ''''"
  shows "\<exists>ops. trace (mc (report_state i M)) = trace (mc M) @ ops \<and> set ops \<subseteq> {OpProxiesBackendStateChange}"
proof -
  have "State (view i (SetPrevState i (State (view i M)) M)) = PrevState (view i (SetPrevState i (State (view i M)) M))"
    "trace (mc (SetPrevState i (State (view i M)) M)) = trace (mc M)"
    using assms by (simp_all add: SetPrevState_def)
  then show ?thesis
    by (simp add: report_state_def announce_def Server_SendAlert_def Let_def) (simp add: emit_def)
qed

text \<open>
  A replica is declared failed only by the ping that brings its failure count exactly to the limit. Once the count is past
  it, as when the limit was reached before the topology was known, no further missed ping changes its state.
\<close>

theorem late_replica_not_failed:
  assumes "unanswered E i M" "Server_Ping E i M = Some M'" "GetMaster (mc M) = Some m" "URL (view i M) \<noteq> URL (view m M)"
    "MaxFail (Conf (mc M)) \<le> FailCount (view i M)" "FailCount (view i M) < 2 ^ 63 - 1" "0 \<le> FailCount (view i M)"
    "GetTopology (mc M) \<noteq> TopoUnknown"
  shows "State (view i M') = State (view i M) \<and> FailCount (view i M') = FailCount (view i M) + 1"
proof -
  obtain M1 where 1: "Server_Ping E i M = Some (report_failure E i (count_failure i M1))" "srv (mc M1) = srv (mc M)" "setting M1 = setting M"
    using assms(1) by (rule unanswered_ping)
  have s: "GetMaster (mc M1) = Some m" "GetTopology (mc M1) = GetTopology (mc M)" "Conf (mc M1) = Conf (mc M)"
    using 1(3) assms(3) by (auto simp: setting_def)
  have n: "s64 (FailCount (view i M) + 1) = FailCount (view i M) + 1"
    using assms(6,7) by (simp add: in_s64_def)
  have "health i (count_failure i M1) = (State (view i M), PrevState (view i M), FailCount (view i M) + 1)"
    unfolding count_failure_health Let_def s 1(2) n using assms(4,5,8) by simp
  then have "fst (health i M') = State (view i M)" "snd (snd (health i M')) = FailCount (view i M) + 1"
    using assms(2) 1(1) by (auto simp: report_health split: if_splits)
  then show ?thesis by (simp add: health_def)
qed

section \<open>Ping and discovery\<close>

lemma SetMaster_state: "State (srv (SetMaster i c) i) = stateMaster"
  by (simp add: SetMaster_def clear_no_master Server_SetState_def upd_srv_def emit_def)

text \<open>
  A master that missed a ping and is only suspect is called master again in the same round: the classification of the next
  discovery looks at the replicas its last refresh saw connected, not at whether it answers. The suspicion survives the
  round only for a master without connected replicas.
\<close>

theorem suspicion_ends_with_the_round:
  assumes "unanswered E i M" "Server_Ping E i M = Some M'" "GetMaster (mc M) = Some i" "GetTopology (mc M) \<noteq> TopoUnknown"
    "0 \<le> FailCount (view i M)" "FailCount (view i M) + 1 < MaxFail (Conf (mc M))" "MaxFail (Conf (mc M)) < 2 ^ 63"
    "\<not> IsSlave (view i M')" "\<not> IsWsrepPrimary (ext (MT M') i)" "\<not> IsGroupReplicationSlave (ext (MT M') i)"
    "BinlogDumpThreads (ext (MT M') i) \<noteq> 0"
  shows "State (view i M') = stateSuspect \<and> State (srv (cl (classify D i (MT M'))) i) = stateMaster"
proof -
  have h: "State (view i M') = stateSuspect" "GetMaster (mc M') = Some i"
    using missed_master [OF assms(1-4)] assms(3,5-7) by (simp_all add: health_def setting_def Let_def)
  have nl: "cl (note_log_slave i T) = cl T" "ext (note_log_slave i T) = ext T" "TStatus (note_log_slave i T) = TStatus T" for T
    by (simp_all add: note_log_slave_def Let_def)
  have open_writes: "srv (cl (open_writes D i T)) = srv (cl T)" for T
    by (simp add: open_writes_def on_topo_def on_cl_def SetReadWrite_def run_def emit_def Let_def)
  have last: "State (srv (cl (last_non_slave D i T)) i) = stateMaster" if "GetMaster (cl T) = Some i" for T
    using that by (simp add: last_non_slave_def Let_def open_writes SetMaster_state)
  have "State (srv (cl (classify D i (MT M'))) i) = stateMaster"
    using assms(8-11) h by (simp add: classify_def IsFailed_def Let_def nl open_writes SetMaster_state last)
  then show ?thesis using h(1) by blast
qed

section \<open>A sample\<close>

definition ping_down :: ping_env where
  "ping_down = \<lparr>ME = mon_calm\<lparr>ConnPings := \<lambda>_. False\<rparr>, Connect = (\<lambda>_ _. Some (OtherError ''connection refused'')),
     PgConnect = (\<lambda>_. Some (OtherError ''connection refused'')), AgentCheck = (\<lambda>_. None), PingSlaveStatus = (\<lambda>_. Inl NoRows),
     VaultUsed = False, LastSQLError = (\<lambda>_. []), RegexpMatch = (\<lambda>_ _. None)\<rparr>"

definition ping_up :: ping_env where
  "ping_up = ping_down\<lparr>Connect := \<lambda>_ _. None, PgConnect := \<lambda>_. None\<rparr>"

lemma down_unanswered: "CheckType (MConf M) = ''tcp'' \<Longrightarrow> unanswered ping_down i M"
  by (simp add: unanswered_def probe_def GetNewDBConn_def ping_down_def fail_error_def mark_virtual_def Let_def split: option.splits)

lemma up_answered:
  assumes "CheckType (MConf M) = ''tcp''" "State (view i M) = stateSuspect" "PrevState (view i M) = stateSuspect"
    "HasConn (view i M)" "\<not> IsInFailover (mc M)"
  shows "answered ping_up i M \<and>
    (\<exists>M'. Server_Ping ping_up i M = Some M' \<and> traits (view i M') = traits (view i M) \<and> MConf M' = MConf M)"
proof -
  define N where "N = mark_virtual i M"
  have n: "mc N = mc M" "MConf N = MConf M"
    by (simp_all add: N_def mark_virtual_def split: option.split)
  have p: "probe ping_up i N = Some (None, True, N)"
    using assms(1) by (simp add: probe_def GetNewDBConn_def ping_up_def n)
  have "Server_Refresh (ME ping_up) i N = Some (False, on_mon (emit (OpRefresh i)) N)"
    using assms(4) by (simp add: Server_Refresh_def ping_up_def ping_down_def n)
  then have "ping_answered ping_up i True N = Some (upd_view i (\<lambda>s. s\<lparr>HasConn := True\<rparr>) (on_mon (emit (OpRefresh i)) N))"
    using assms(2-5) by (simp add: ping_answered_def Let_def n)
  then show ?thesis
    using p by (simp add: answered_def Server_Ping_def N_def [symmetric] n traits_def)
qed

definition sample_limit :: "int \<Rightarrow> mon" where
  "sample_limit n = upd_ext 0 (\<lambda>x. x\<lparr>BinlogDumpThreads := 2\<rparr>) (on_mon (\<lambda>c. c\<lparr>Conf := (Conf c)\<lparr>MaxFail := n\<rparr>\<rparr>) sample_mon)"

lemma sample_limit_facts:
  "GetMaster (mc (sample_limit 2)) = Some 0" "GetTopology (mc (sample_limit 2)) \<noteq> TopoUnknown" "FailCount (view 0 (sample_limit 2)) = 0"
  "MaxFail (Conf (mc (sample_limit 2))) = 2" "\<not> MxsBinlogOn (Conf (mc (sample_limit 2)))" "\<not> MultiMasterGrouprep (Conf (mc (sample_limit 2)))"
  "unanswered ping_down 0 (sample_limit 2)"
  by code_simp+

lemma sample_first:
  "case Server_Ping ping_down 0 (sample_limit 2) of
     None \<Rightarrow> False
   | Some M1 \<Rightarrow> CheckType (MConf M1) = ''tcp'' \<and> HasConn (view 0 M1) \<and> \<not> IsInFailover (mc M1) \<and> traits (view 0 M1) = (False, False) \<and>
       State (view 0 M1) = stateSuspect \<and> PrevState (view 0 M1) = stateSuspect"
  by code_simp

lemma sample_first_missed:
  obtains M1 where "Server_Ping ping_down 0 (sample_limit 2) = Some M1" "CheckType (MConf M1) = ''tcp''" "HasConn (view 0 M1)"
    "\<not> IsInFailover (mc M1)" "traits (view 0 M1) = (False, False)" "State (view 0 M1) = stateSuspect" "PrevState (view 0 M1) = stateSuspect"
  using sample_first by (cases "Server_Ping ping_down 0 (sample_limit 2)") auto


theorem failed_needs_count_witness:
  "case Server_Ping ping_down 0 (sample_limit 1) of
     None \<Rightarrow> False | Some M' \<Rightarrow> State (view 0 M') = stateFailed \<and> FailCount (view 0 M') \<ge> 1"
proof -
  have e: "case Server_Ping ping_down 0 (sample_limit 1) of
     None \<Rightarrow> False | Some M' \<Rightarrow> State (view 0 M') = stateFailed" "State (view 0 (sample_limit 1)) \<noteq> stateFailed"
    "unanswered ping_down 0 (sample_limit 1)" "MaxFail (Conf (mc (sample_limit 1))) = 1"
    by code_simp+
  obtain err b M1 where p: "probe ping_down 0 (mark_virtual 0 (sample_limit 1)) = Some (Some err, b, M1)"
    using e(3) by (auto simp: unanswered_def split: option.splits)
  show ?thesis
    using e(1) failed_needs_count [OF p _ _ e(2)] by (auto simp: e(4) split: option.splits)
qed

theorem flapping_master_fails_witness:
  "\<exists>M1 M'. flapping 0 1 (sample_limit 2) M1 \<and> Server_Ping ping_down 0 M1 = Some M' \<and> State (view 0 M') = stateFailed"
proof -
  obtain M1 where 1: "Server_Ping ping_down 0 (sample_limit 2) = Some M1" "CheckType (MConf M1) = ''tcp''" "HasConn (view 0 M1)"
      "\<not> IsInFailover (mc M1)" "traits (view 0 M1) = (False, False)" "State (view 0 M1) = stateSuspect" "PrevState (view 0 M1) = stateSuspect"
    by (rule sample_first_missed)
  then obtain M2 where 2: "answered ping_up 0 M1" "Server_Ping ping_up 0 M1 = Some M2" "traits (view 0 M2) = (False, False)"
      "CheckType (MConf M2) = ''tcp''"
    using up_answered [of M1 0] by auto
  obtain M3 where 3: "Server_Ping ping_down 0 M2 = Some M3"
    using unanswered_ping [OF down_unanswered [OF 2(4)]] by metis
  have f: "flapping 0 1 (sample_limit 2) M2"
    using flapping.round [OF flapping.start sample_limit_facts(7) 1(1) _ 1(6,7) 2(1,2), of M2] 2(3)
    by (simp add: rest_of_round_def traits_def)
  then have "State (view 0 M3) = stateFailed"
    using flapping_master_fails [OF f _ down_unanswered [OF 2(4)] 3 sample_limit_facts(1-3) _ sample_limit_facts(5,6)]
    by (simp add: sample_limit_facts(4))
  with f 3 show ?thesis by blast
qed

theorem state_change_alert_lost_witness:
  "\<exists>ops. trace (mc (report_state 0 (upd_view 0 (\<lambda>s. s\<lparr>PrevState := stateSuspect\<rparr>) sample_mon))) = ops \<and>
     ops \<noteq> [] \<and> set ops \<subseteq> {OpProxiesBackendStateChange}"
proof -
  let ?M = "upd_view 0 (\<lambda>s. s\<lparr>PrevState := stateSuspect\<rparr>) sample_mon"
  have "State (view 0 ?M) \<noteq> ''''" "trace (mc ?M) = []" "trace (mc (report_state 0 ?M)) \<noteq> []"
    by code_simp+
  then show ?thesis using state_change_alert_lost [where i = 0 and M = ?M] by auto
qed

theorem late_replica_not_failed_witness:
  "case Server_Ping ping_down 1 (upd_view 1 (\<lambda>s. s\<lparr>FailCount := 5, State := stateSuspect\<rparr>) (sample_limit 2)) of
     None \<Rightarrow> False | Some M' \<Rightarrow> State (view 1 M') = stateSuspect"
proof -
  let ?M = "upd_view 1 (\<lambda>s. s\<lparr>FailCount := 5, State := stateSuspect\<rparr>) (sample_limit 2)"
  have h: "unanswered ping_down 1 ?M" "GetMaster (mc ?M) = Some 0" "URL (view 1 ?M) \<noteq> URL (view 0 ?M)" "GetTopology (mc ?M) \<noteq> TopoUnknown"
    "MaxFail (Conf (mc ?M)) \<le> FailCount (view 1 ?M)" "FailCount (view 1 ?M) = 5" "State (view 1 ?M) = stateSuspect"
    "\<not> Option.is_none (Server_Ping ping_down 1 ?M)"
    by code_simp+
  then show ?thesis
    using late_replica_not_failed [OF h(1) _ h(2,3,5) _ _ h(4)] by (auto simp: Option.is_none_def simp del: view_simps split: option.splits)
qed

theorem suspicion_ends_with_the_round_witness:
  "case Server_Ping ping_down 0 (sample_limit 2) of
     None \<Rightarrow> False | Some M' \<Rightarrow> State (view 0 M') = stateSuspect \<and> State (srv (cl (classify topo_calm 0 (MT M'))) 0) = stateMaster"
proof -
  have e: "case Server_Ping ping_down 0 (sample_limit 2) of
      None \<Rightarrow> False
    | Some M' \<Rightarrow> \<not> IsSlave (view 0 M') \<and> \<not> IsWsrepPrimary (ext (MT M') 0) \<and> \<not> IsGroupReplicationSlave (ext (MT M') 0) \<and>
        BinlogDumpThreads (ext (MT M') 0) = 2"
    by code_simp
  show ?thesis
    using e suspicion_ends_with_the_round [OF sample_limit_facts(7) _ sample_limit_facts(1,2), of _ topo_calm]
    by (auto simp: sample_limit_facts(3,4) split: option.splits)
qed

end
