(* ===== verification/Acl.thy ===== *)
theory Acl
  imports Prelude
begin

text \<open>
  Access control of the HTTP API, \<open>src/cluster/cluster_acl.go\<close>, with the grant tables of \<open>src/config/config.go\<close> and
  the user administration of \<open>src/cluster/cluster_add.go\<close>: how the grants of a user are read from the configuration and
  written back, who may open which URL, and what one user may hand to another.

  A Go map is a HOL map. Its iteration order is unspecified in Go: where a result depends on it, the order is an argument
  (\<open>ord\<close>, which lists the keys of a map). The grant table maps every name to itself, so it is the list of its names.
  Decryption of a password and the password generator are arguments too.
\<close>

section \<open>Grants and roles\<close>

abbreviation "RoleSysOps \<equiv> ''sysops''"
abbreviation "RoleDBOps \<equiv> ''dbops''"
abbreviation "RoleExtSysOps \<equiv> ''extsysops''"
abbreviation "RoleExtDBOps \<equiv> ''extdbops''"
abbreviation "RoleSponsor \<equiv> ''sponsor''"
abbreviation "RoleUnsubscribed \<equiv> ''unsubscribed''"
abbreviation "RolePending \<equiv> ''pending''"
abbreviation "RoleVisitor \<equiv> ''visitor''"
abbreviation "GrantDBStart \<equiv> ''db-start''"
abbreviation "GrantDBStop \<equiv> ''db-stop''"
abbreviation "GrantDBKill \<equiv> ''db-kill''"
abbreviation "GrantDBOptimize \<equiv> ''db-optimize''"
abbreviation "GrantDBAnalyse \<equiv> ''db-analyse''"
abbreviation "GrantDBReplication \<equiv> ''db-replication''"
abbreviation "GrantDBBackup \<equiv> ''db-backup''"
abbreviation "GrantDBRestore \<equiv> ''db-restore''"
abbreviation "GrantDBReadOnly \<equiv> ''db-readonly''"
abbreviation "GrantDBLogs \<equiv> ''db-logs''"
abbreviation "GrantDBShowVariables \<equiv> ''db-show-variables''"
abbreviation "GrantDBShowStatus \<equiv> ''db-show-status''"
abbreviation "GrantDBShowSchema \<equiv> ''db-show-schema''"
abbreviation "GrantDBShowProcess \<equiv> ''db-show-process''"
abbreviation "GrantDBShowLogs \<equiv> ''db-show-logs''"
abbreviation "GrantDBCapture \<equiv> ''db-capture''"
abbreviation "GrantDBMaintenance \<equiv> ''db-maintenance''"
abbreviation "GrantDBConfigCreate \<equiv> ''db-config-create''"
abbreviation "GrantDBConfigRessource \<equiv> ''db-config-ressource''"
abbreviation "GrantDBConfigFlag \<equiv> ''db-config-flag''"
abbreviation "GrantDBConfigGet \<equiv> ''db-config-get''"
abbreviation "GrantDBDebug \<equiv> ''db-debug''"
abbreviation "GrantClusterCreate \<equiv> ''cluster-create''"
abbreviation "GrantClusterDelete \<equiv> ''cluster-delete''"
abbreviation "GrantClusterDrop \<equiv> ''cluster-drop''"
abbreviation "GrantClusterCreateMonitor \<equiv> ''cluster-create-monitor''"
abbreviation "GrantClusterDropMonitor \<equiv> ''cluster-drop-monitor''"
abbreviation "GrantClusterFailover \<equiv> ''cluster-failover''"
abbreviation "GrantClusterSwitchover \<equiv> ''cluster-switchover''"
abbreviation "GrantClusterRolling \<equiv> ''cluster-rolling''"
abbreviation "GrantClusterSettings \<equiv> ''cluster-settings''"
abbreviation "GrantClusterGrant \<equiv> ''cluster-grant''"
abbreviation "GrantClusterChecksum \<equiv> ''cluster-checksum''"
abbreviation "GrantClusterSharding \<equiv> ''cluster-sharding''"
abbreviation "GrantClusterReplication \<equiv> ''cluster-replication''"
abbreviation "GrantClusterCertificatesRotate \<equiv> ''cluster-certificates-rotate''"
abbreviation "GrantClusterCertificatesReload \<equiv> ''cluster-certificates-reload''"
abbreviation "GrantClusterBench \<equiv> ''cluster-bench''"
abbreviation "GrantClusterProcess \<equiv> ''cluster-process''"
abbreviation "GrantClusterTest \<equiv> ''cluster-test''"
abbreviation "GrantClusterTraffic \<equiv> ''cluster-traffic''"
abbreviation "GrantClusterShowBackups \<equiv> ''cluster-show-backups''"
abbreviation "GrantClusterShowRoutes \<equiv> ''cluster-show-routes''"
abbreviation "GrantClusterShowGraphs \<equiv> ''cluster-show-graphs''"
abbreviation "GrantClusterConfigGraphs \<equiv> ''cluster-config-graphs''"
abbreviation "GrantClusterShowAgents \<equiv> ''cluster-show-agents''"
abbreviation "GrantClusterShowCertificates \<equiv> ''cluster-show-certificates''"
abbreviation "GrantClusterRotatePasswords \<equiv> ''cluster-rotate-passwords''"
abbreviation "GrantClusterResetSLA \<equiv> ''cluster-reset-sla''"
abbreviation "GrantClusterDebug \<equiv> ''cluster-debug''"
abbreviation "GrantProxyConfigCreate \<equiv> ''proxy-config-create''"
abbreviation "GrantProxyConfigGet \<equiv> ''proxy-config-get''"
abbreviation "GrantProxyConfigRessource \<equiv> ''proxy-config-ressource''"
abbreviation "GrantProxyConfigFlag \<equiv> ''proxy-config-flag''"
abbreviation "GrantProxyStart \<equiv> ''proxy-start''"
abbreviation "GrantProxyStop \<equiv> ''proxy-stop''"
abbreviation "GrantProvClusterProvision \<equiv> ''prov-cluster-provision''"
abbreviation "GrantProvClusterUnprovision \<equiv> ''prov-cluster-unprovision''"
abbreviation "GrantProvProxyProvision \<equiv> ''prov-proxy-provision''"
abbreviation "GrantProvProxyUnprovision \<equiv> ''prov-proxy-unprovision''"
abbreviation "GrantProvDBProvision \<equiv> ''prov-db-provision''"
abbreviation "GrantProvDBUnprovision \<equiv> ''prov-db-unprovision''"
abbreviation "GrantProvSettings \<equiv> ''prov-settings''"
abbreviation "GrantProvCluster \<equiv> ''prov-cluster''"
abbreviation "GrantGlobalSettings \<equiv> ''global-settings''"
abbreviation "GrantGlobalGrant \<equiv> ''global-grant''"
abbreviation "GrantGrantShow \<equiv> ''grant-show''"
abbreviation "GrantGrantAdd \<equiv> ''grant-add''"
abbreviation "GrantGrantDrop \<equiv> ''grant-drop''"
abbreviation "GrantGrantModify \<equiv> ''grant-modify''"
abbreviation "GrantGrantGlobal \<equiv> ''grant-global''"
abbreviation "GrantShow \<equiv> ''show''"
abbreviation "GrantSalesValidate \<equiv> ''sales-validate''"
abbreviation "GrantSalesRefuse \<equiv> ''sales-refuse''"
abbreviation "GrantSalesUnsubscribe \<equiv> ''sales-unsubscribe''"

definition GetGrantType :: "string list" where
  "GetGrantType = [
     GrantDBStart, GrantDBStop, GrantDBKill, GrantDBOptimize, GrantDBAnalyse, GrantDBReplication, GrantDBBackup,
     GrantDBRestore, GrantDBReadOnly, GrantDBLogs, GrantDBCapture, GrantDBMaintenance, GrantDBConfigCreate,
     GrantDBConfigRessource, GrantDBConfigFlag, GrantDBConfigGet, GrantDBShowVariables, GrantDBShowStatus,
     GrantDBShowSchema, GrantDBShowProcess, GrantDBShowLogs, GrantDBDebug, GrantClusterCreate, GrantClusterDrop,
     GrantClusterCreateMonitor, GrantClusterDropMonitor, GrantClusterFailover, GrantClusterSwitchover,
     GrantClusterRolling, GrantClusterSettings, GrantClusterGrant, GrantClusterReplication, GrantClusterChecksum,
     GrantClusterSharding, GrantClusterCertificatesRotate, GrantClusterCertificatesReload, GrantClusterBench,
     GrantClusterTest, GrantClusterTraffic, GrantClusterProcess, GrantClusterDebug, GrantClusterShowBackups,
     GrantClusterShowAgents, GrantClusterShowGraphs, GrantClusterConfigGraphs, GrantClusterShowRoutes,
     GrantClusterShowCertificates, GrantClusterResetSLA, GrantClusterRotatePasswords, GrantProxyConfigCreate,
     GrantProxyConfigGet, GrantProxyConfigRessource, GrantProxyConfigFlag, GrantProxyStart, GrantProxyStop,
     GrantProvSettings, GrantProvCluster, GrantProvClusterProvision, GrantProvClusterUnprovision,
     GrantProvDBUnprovision, GrantProvDBProvision, GrantProvProxyProvision, GrantProvProxyUnprovision,
     GrantGlobalGrant, GrantGlobalSettings, GrantSalesValidate, GrantSalesRefuse, GrantSalesUnsubscribe,
     GrantGrantShow, GrantGrantAdd, GrantGrantModify, GrantGrantDrop, GrantGrantGlobal, GrantShow]"

definition GetGrantDB :: "string list" where
  "GetGrantDB = [
     GrantDBStart, GrantDBStop, GrantDBKill, GrantDBOptimize, GrantDBAnalyse, GrantDBReplication, GrantDBBackup,
     GrantDBRestore, GrantDBReadOnly, GrantDBLogs, GrantDBCapture, GrantDBMaintenance, GrantDBConfigCreate,
     GrantDBConfigRessource, GrantDBConfigFlag, GrantDBConfigGet, GrantDBShowVariables, GrantDBShowStatus,
     GrantDBShowSchema, GrantDBShowProcess, GrantDBShowLogs, GrantDBDebug]"

definition GetGrantCluster :: "string list" where
  "GetGrantCluster = [
     GrantClusterCreate, GrantClusterDrop, GrantClusterCreateMonitor, GrantClusterDropMonitor, GrantClusterFailover,
     GrantClusterSwitchover, GrantClusterRolling, GrantClusterSettings, GrantClusterGrant, GrantClusterReplication,
     GrantClusterChecksum, GrantClusterSharding, GrantClusterCertificatesRotate, GrantClusterCertificatesReload,
     GrantClusterBench, GrantClusterTest, GrantClusterTraffic, GrantClusterProcess, GrantClusterDebug,
     GrantClusterShowBackups, GrantClusterShowAgents, GrantClusterShowGraphs, GrantClusterConfigGraphs,
     GrantClusterShowRoutes, GrantClusterShowCertificates, GrantClusterResetSLA, GrantClusterRotatePasswords]"

definition GetGrantProxy :: "string list" where
  "GetGrantProxy = [
     GrantProxyConfigCreate, GrantProxyConfigGet, GrantProxyConfigRessource, GrantProxyConfigFlag, GrantProxyStart,
     GrantProxyStop]"

definition GetGrantProvision :: "string list" where
  "GetGrantProvision = [
     GrantProvSettings, GrantProvCluster, GrantProvClusterProvision, GrantProvClusterUnprovision,
     GrantProvDBUnprovision, GrantProvDBProvision, GrantProvProxyProvision, GrantProvProxyUnprovision]"

definition GetGrantGlobal :: "string list" where
  "GetGrantGlobal = [
     GrantGlobalGrant, GrantGlobalSettings]"

definition GetGrantSales :: "string list" where
  "GetGrantSales = [
     GrantSalesValidate, GrantSalesRefuse, GrantSalesUnsubscribe]"

definition GetGrantGrant :: "string list" where
  "GetGrantGrant = [
     GrantGrantShow, GrantGrantAdd, GrantGrantModify, GrantGrantDrop, GrantGrantGlobal]"

definition GetRoleType :: "string list" where
  "GetRoleType = [
     RoleSysOps, RoleDBOps, RoleExtSysOps, RoleExtDBOps, RoleSponsor, RolePending, RoleUnsubscribed, RoleVisitor]"

section \<open>State\<close>

record api_user =
  User :: string
  Password :: string
  GitToken :: string
  GitUser :: string
  IsExternal :: bool
  Roles :: "string \<rightharpoonup> bool"
  Grants :: "string \<rightharpoonup> bool"

definition new_user :: api_user where
  "new_user = \<lparr>User = '''', Password = '''', GitToken = '''', GitUser = '''', IsExternal = False,
     Roles = Map.empty, Grants = Map.empty\<rparr>"

record acl =
  Name :: string
  ClGrants :: "string list"
  ClRoles :: "string list"
  APIUsers :: "string \<rightharpoonup> api_user"
  ApiCredentials :: string
  ApiCredentialsExternal :: string
  APIUsersExternal :: string
  APIUsersACLAllow :: string
  APIUsersACLDiscard :: string
  APIUsersACLAllowExternal :: string
  APIUsersACLDiscardExternal :: string
  Saves :: nat

record list_user_acl =
  LUser :: string
  LACLs :: string
  LRoles :: string

record user_form =
  Username :: string
  FPassword :: string
  FRoles :: string
  FGrants :: string

type_synonym key_order = "(string \<rightharpoonup> bool) \<Rightarrow> string list"

section \<open>Pairs and entries\<close>

definition SplitPair :: "string \<Rightarrow> string \<times> string" where
  "SplitPair s =
     (case str_split CHR '':'' s of
        [] \<Rightarrow> ('''', '''')
      | [a] \<Rightarrow> (a, '''')
      | [a, b] \<Rightarrow> (a, b)
      | a # bs \<Rightarrow> (a, str_join CHR '':'' bs))"

definition SplitAcls :: "string \<Rightarrow> string \<times> string \<times> string \<times> string" where
  "SplitAcls s =
     (case str_split CHR '':'' s of
        [] \<Rightarrow> ('''', '''', '''', '''')
      | [a] \<Rightarrow> (a, '''', '''', '''')
      | [a, b] \<Rightarrow> (a, b, '''', '''')
      | [a, b, c] \<Rightarrow> (a, b, c, '''')
      | [a, b, c, d] \<Rightarrow> (a, b, c, d)
      | a # b # c # ds \<Rightarrow> (a, b, c, str_join CHR '':'' ds))"

section \<open>Setting grants and roles\<close>

text \<open>A grant is allowed by a prefix of its name.\<close>

definition matches :: "string \<Rightarrow> string \<Rightarrow> bool" where
  "matches acls key = list_ex (\<lambda>a. prefix a key \<and> a \<noteq> '''') (str_split CHR '' '' acls)"

definition SetUserGrants :: "acl \<Rightarrow> api_user \<Rightarrow> string \<Rightarrow> api_user" where
  "SetUserGrants c u grant =
     u\<lparr>Grants := fold (\<lambda>g m. if m g = None \<or> matches grant g then m(g \<mapsto> matches grant g) else m) (ClGrants c) (Grants u)\<rparr>"

definition SetUserRoles :: "acl \<Rightarrow> api_user \<Rightarrow> string \<Rightarrow> api_user" where
  "SetUserRoles c u roles =
     u\<lparr>Roles := fold (\<lambda>r m. if r \<in> set (str_split CHR '' '' roles) then m(r \<mapsto> True) else m) (ClRoles c) (Roles u)\<rparr>"

datatype grant_error = ErrUserNotGranted string | ErrGrantNotFound

definition Granted :: "api_user \<Rightarrow> string \<Rightarrow> grant_error option" where
  "Granted u grant =
     (case Grants u grant of
        Some v \<Rightarrow> if \<not> v then Some (ErrUserNotGranted (User u)) else None
      | None \<Rightarrow> Some ErrGrantNotFound)"

section \<open>Compact grants\<close>

text \<open>\<open>HasAllDBGrants\<close> and its six variants, on the list of a category.\<close>

definition has_all :: "string list \<Rightarrow> (string \<rightharpoonup> bool) \<Rightarrow> bool" where
  "has_all gs m = list_all (\<lambda>g. m g = Some True) gs"

text \<open>One category: its name when all of it is granted or none of it, else the grants one by one.\<close>

definition compact_category :: "(string \<rightharpoonup> bool) \<Rightarrow> string \<times> string list \<Rightarrow> string list \<times> string list" where
  "compact_category m = (\<lambda>(name, gs).
     (if has_all gs m then ([name], [])
      else
        let yes = filter (\<lambda>g. m g = Some True) gs; no = filter (\<lambda>g. m g \<noteq> Some True) gs
        in (yes, if length yes = 0 then [name] else no)))"

definition categories :: "(string \<times> string list) list" where
  "categories = [(''db'', GetGrantDB), (''cluster'', GetGrantCluster), (''proxy'', GetGrantProxy), (''prov'', GetGrantProvision),
     (''global'', GetGrantGlobal), (''sales'', GetGrantSales), (''grant'', GetGrantGrant)]"

definition compact_all ::
  "(string \<times> string list) list \<Rightarrow> string \<Rightarrow> (string \<rightharpoonup> bool) \<Rightarrow> string list \<times> string list" where
  "compact_all cats single m =
     (let parts = map (compact_category m) cats; show = (m single = Some True)
      in (concat (map fst parts) @ (if show then [single] else []),
          concat (map snd parts) @ (if show then [] else [single])))"

definition GetCompactGrants :: "(string \<rightharpoonup> bool) \<Rightarrow> string list \<times> string list" where
  "GetCompactGrants m = compact_all categories GrantShow m"

definition GetCompactRoles :: "key_order \<Rightarrow> (string \<rightharpoonup> bool) \<Rightarrow> string list" where
  "GetCompactRoles ord m = filter (\<lambda>r. m r = Some True) (ord m)"

section \<open>Default grants of a role\<close>

definition GetDefaultAllowDiscardACL :: "string \<Rightarrow> string \<times> string" where
  "GetDefaultAllowDiscardACL role =
     (if role = RoleSysOps then (''*'', '''')
      else if role = RoleExtSysOps then (''*'', ''sales global'')
      else if role = RoleDBOps then (''*'', ''cluster prov sales global'')
      else if role = RoleSponsor then (''db show proxy grant extrole sales-unsubscribe'', '''')
      else if role = RoleExtDBOps then (''db show proxy grant'', '''')
      else (''show'', ''''))"

definition default_granted :: "string \<Rightarrow> string \<Rightarrow> bool" where
  "default_granted role g =
     (let (allow, discard) = GetDefaultAllowDiscardACL role; found = (if allow = ''*'' then True else matches allow g)
      in if discard \<noteq> '''' \<and> matches discard g then False else found)"

definition GetDefaultGrants :: "string \<Rightarrow> string" where
  "GetDefaultGrants role =
     (let m = fold (\<lambda>g m. m(g \<mapsto> default_granted role g)) GetGrantType Map.empty
      in str_join CHR '' '' (fst (GetCompactGrants m)))"

definition GetRoleDefaultGrant :: "string \<Rightarrow> string" where
  "GetRoleDefaultGrant roles =
     (let list = set (str_split CHR '' '' roles)
      in if RoleSysOps \<in> list then GetDefaultGrants RoleSysOps
         else if RoleExtSysOps \<in> list then GetDefaultGrants RoleExtSysOps
         else if RoleSponsor \<in> list then GetDefaultGrants RoleSponsor
         else if RoleDBOps \<in> list then GetDefaultGrants RoleDBOps
         else if RoleExtDBOps \<in> list then GetDefaultGrants RoleExtDBOps
         else '''')"

section \<open>Saving\<close>

definition user_grants :: "acl \<Rightarrow> string \<Rightarrow> string \<rightharpoonup> bool" where
  "user_grants c u = (case APIUsers c u of None \<Rightarrow> Map.empty | Some a \<Rightarrow> Grants a)"

definition SaveUserAcls :: "acl \<Rightarrow> string \<Rightarrow> string \<times> string" where
  "SaveUserAcls c u =
     (let (granted, discarded) = GetCompactGrants (user_grants c u)
      in (str_join CHR '' '' granted, str_join CHR '' '' discarded))"

definition SaveUserRoles :: "key_order \<Rightarrow> acl \<Rightarrow> string \<Rightarrow> string" where
  "SaveUserRoles ord c u =
     (let m = (case APIUsers c u of None \<Rightarrow> Map.empty | Some a \<Rightarrow> Roles a)
      in str_join CHR '' '' (filter (\<lambda>r. m r = Some True) (ord m)))"

definition credentials :: "acl \<Rightarrow> string list" where
  "credentials c = str_split CHR '','' (ApiCredentials c @ '','' @ ApiCredentialsExternal c)"

definition acl_entry :: "acl \<Rightarrow> string \<Rightarrow> string \<Rightarrow> string \<Rightarrow> string" where
  "acl_entry c u grants roles =
     (let e = u @ '':'' @ grants @ '':'' @ Name c in if roles \<noteq> '''' then e @ '':'' @ roles else e)"

text \<open>The users met so far, the entries that allow and those that discard.\<close>

definition save_user ::
  "key_order \<Rightarrow> acl \<Rightarrow> string \<Rightarrow> string list \<times> string list \<times> string list \<Rightarrow> string list \<times> string list \<times> string list" where
  "save_user ord c credential = (\<lambda>(users, allow, discard).
     (let u = fst (SplitPair credential)
      in if APIUsers c u = None \<or> u \<in> set users then (users, allow, discard)
         else
           let (enabled, discarded) = SaveUserAcls c u
           in (users @ [u], allow @ [acl_entry c u enabled (SaveUserRoles ord c u)],
               if discarded \<noteq> '''' then discard @ [u @ '':'' @ discarded] else discard)))"

definition SaveAcls :: "key_order \<Rightarrow> acl \<Rightarrow> acl" where
  "SaveAcls ord c =
     (let (users, allow, discard) = fold (save_user ord c) (credentials c) ([], [], [])
      in c\<lparr>APIUsersACLAllowExternal := str_join CHR '','' allow, APIUsersACLDiscardExternal := str_join CHR '','' discard\<rparr>)"

section \<open>Loading\<close>

definition allow_entry :: "acl \<Rightarrow> string \<Rightarrow> (string \<rightharpoonup> list_user_acl) \<Rightarrow> (string \<rightharpoonup> list_user_acl)" where
  "allow_entry c e res =
     (if e = '''' then res
      else
        let (u, acls, list1, list2) = SplitAcls e;
            in1 = (Name c \<in> set (str_split CHR '' '' list1)); in2 = (Name c \<in> set (str_split CHR '' '' list2))
        in if (list1 = '''' \<and> list2 = '''') \<or> in1 \<or> in2
           then res(u \<mapsto> \<lparr>LUser = u, LACLs = acls,
                  LRoles = (if in1 \<and> list2 \<noteq> '''' then list2 else if in2 \<and> list1 \<noteq> '''' then list1 else '''')\<rparr>)
           else res)"

definition GetClusterUserAllowACLs :: "acl \<Rightarrow> string \<Rightarrow> (string \<rightharpoonup> list_user_acl)" where
  "GetClusterUserAllowACLs c acls = fold (allow_entry c) (str_split CHR '','' acls) Map.empty"

definition discard_entry :: "acl \<Rightarrow> string \<Rightarrow> (string \<rightharpoonup> list_user_acl) \<Rightarrow> (string \<rightharpoonup> list_user_acl)" where
  "discard_entry c e res =
     (if e = '''' then res
      else
        let (u, acls, _, listcluster) = SplitAcls e
        in if listcluster = '''' \<or> Name c \<in> set (str_split CHR '' '' listcluster)
           then res(u \<mapsto> \<lparr>LUser = u, LACLs = acls, LRoles = ''''\<rparr>)
           else res)"

definition GetClusterUserDiscardACLs :: "acl \<Rightarrow> string \<Rightarrow> (string \<rightharpoonup> list_user_acl)" where
  "GetClusterUserDiscardACLs c acls = fold (discard_entry c) (str_split CHR '','' acls) Map.empty"

definition assign_acls :: "acl \<Rightarrow> (string \<rightharpoonup> list_user_acl) \<Rightarrow> api_user \<Rightarrow> api_user" where
  "assign_acls c acls u =
     (case acls (User u) of None \<Rightarrow> u | Some a \<Rightarrow> SetUserRoles c (SetUserGrants c u (LACLs a)) (LRoles a))"

definition discard_acls :: "(string \<rightharpoonup> list_user_acl) \<Rightarrow> api_user \<Rightarrow> api_user" where
  "discard_acls acls u =
     (case acls (User u) of
        None \<Rightarrow> u
      | Some a \<Rightarrow> u\<lparr>Grants := fold (\<lambda>g m. m(g \<mapsto> False)) (str_split CHR '' '' (LACLs a)) (Grants u)\<rparr>)"

text \<open>A user with no other role is a visitor.\<close>

definition visitor_role :: "key_order \<Rightarrow> api_user \<Rightarrow> api_user" where
  "visitor_role ord u =
     (if list_ex (\<lambda>r. r \<noteq> RoleVisitor \<and> Roles u r = Some True) (ord (Roles u)) then u
      else u\<lparr>Roles := (Roles u)(RoleVisitor \<mapsto> True)\<rparr>)"

definition load_user :: "key_order \<Rightarrow> (string \<Rightarrow> string) \<Rightarrow> acl \<Rightarrow> string \<Rightarrow> (string \<rightharpoonup> api_user) \<Rightarrow> (string \<rightharpoonup> api_user)" where
  "load_user ord decrypt c credential users =
     (if credential = '''' then users
      else
        let (u, pass) = SplitPair credential
        in if users u \<noteq> None then users
           else
             let u0 = new_user\<lparr>User := u, Password := decrypt pass\<rparr>;
                 u1 = assign_acls c (GetClusterUserAllowACLs c (APIUsersACLAllow c)) u0;
                 u2 = discard_acls (GetClusterUserDiscardACLs c (APIUsersACLDiscard c)) u1;
                 u3 = assign_acls c (GetClusterUserAllowACLs c (APIUsersACLAllowExternal c)) u2;
                 u4 = discard_acls (GetClusterUserDiscardACLs c (APIUsersACLDiscardExternal c)) u3
             in users(u \<mapsto> visitor_role ord u4))"

definition LoadAPIUsers :: "key_order \<Rightarrow> (string \<Rightarrow> string) \<Rightarrow> acl \<Rightarrow> acl" where
  "LoadAPIUsers ord decrypt c = c\<lparr>APIUsers := fold (load_user ord decrypt c) (credentials c) Map.empty\<rparr>"

section \<open>Administration of users\<close>

datatype acl_error = NoDelegator string | UserExists string | NoUser string

definition FilterGrants :: "acl \<Rightarrow> string \<Rightarrow> api_user \<Rightarrow> string" where
  "FilterGrants c grants delegator =
     (let m = Grants (SetUserGrants c new_user grants)
      in str_join CHR '' '' (fst (GetCompactGrants (\<lambda>g. if Grants delegator g = Some False then Some False else m g))))"

text \<open>These two change the user they are given.\<close>

definition AppendGrants :: "acl \<Rightarrow> string \<Rightarrow> api_user \<Rightarrow> string \<times> api_user" where
  "AppendGrants c grants u =
     (let u1 = SetUserGrants c u grants in (str_join CHR '' '' (fst (GetCompactGrants (Grants u1))), u1))"

definition AppendRoles :: "key_order \<Rightarrow> string \<Rightarrow> api_user \<Rightarrow> string \<times> api_user" where
  "AppendRoles ord roles u =
     (let u1 = u\<lparr>Roles := fold (\<lambda>r m. m(r \<mapsto> True)) (str_split CHR '' '' roles) (Roles u)\<rparr>
      in (str_join CHR '' '' (GetCompactRoles ord (Roles u1)), u1))"

definition reload :: "key_order \<Rightarrow> (string \<Rightarrow> string) \<Rightarrow> bool \<Rightarrow> acl \<Rightarrow> acl" where
  "reload ord decrypt reloadACL c =
     (if reloadACL then (\<lambda>c. c\<lparr>Saves := Suc (Saves c)\<rparr>) (SaveAcls ord (LoadAPIUsers ord decrypt c)) else c)"

text \<open>What the delegator may hand on; the administrator everything.\<close>

definition delegated :: "acl \<Rightarrow> string \<Rightarrow> string \<Rightarrow> acl_error + string" where
  "delegated c delegator grants =
     (if delegator \<noteq> ''admin'' then
        case APIUsers c delegator of None \<Rightarrow> Inl (NoDelegator delegator) | Some d \<Rightarrow> Inr (FilterGrants c grants d)
      else Inr grants)"

definition AddUser ::
  "key_order \<Rightarrow> (string \<Rightarrow> string) \<Rightarrow> string \<Rightarrow> user_form \<Rightarrow> string \<Rightarrow> bool \<Rightarrow> acl \<Rightarrow> acl_error option \<times> acl" where
  "AddUser ord decrypt pass form delegator reloadACL c =
     (case delegated c delegator (FGrants form) of
        Inl e \<Rightarrow> (Some e, c)
      | Inr grants \<Rightarrow>
          let u = Username form
          in if APIUsers c u \<noteq> None then (Some (UserExists u), c)
             else
               let ext = (if ApiCredentialsExternal c = '''' then u @ '':'' @ pass
                          else ApiCredentialsExternal c @ '','' @ u @ '':'' @ pass);
                   e = acl_entry c u grants (FRoles form);
                   allow = (if APIUsersACLAllowExternal c = '''' then e else APIUsersACLAllowExternal c @ '','' @ e)
               in (None, reload ord decrypt reloadACL (c\<lparr>APIUsersExternal := ext, ApiCredentialsExternal := ext,
                     APIUsersACLAllowExternal := allow\<rparr>)))"

definition UpdateUser ::
  "key_order \<Rightarrow> (string \<Rightarrow> string) \<Rightarrow> user_form \<Rightarrow> string \<Rightarrow> bool \<Rightarrow> acl \<Rightarrow> acl_error option \<times> acl" where
  "UpdateUser ord decrypt form delegator reloadACL c =
     (case delegated c delegator (FGrants form) of
        Inl e \<Rightarrow> (Some e, c)
      | Inr grants \<Rightarrow>
          let u = Username form
          in if APIUsers c u = None then (Some (NoUser u), c)
             else
               let acls = map (\<lambda>e. if fst (SplitAcls e) = u then acl_entry c u grants (FRoles form) else e)
                            (str_split CHR '','' (APIUsersACLAllowExternal c))
               in (None, reload ord decrypt reloadACL (c\<lparr>APIUsersACLAllowExternal := str_join CHR '','' acls\<rparr>)))"

definition DropUser :: "key_order \<Rightarrow> user_form \<Rightarrow> bool \<Rightarrow> acl \<Rightarrow> acl_error option \<times> acl" where
  "DropUser ord form reloadACL c =
     (let u = Username form
      in if APIUsers c u = None then (Some (NoUser u), c)
         else
           let cred = filter (\<lambda>e. fst (SplitPair e) \<noteq> u) (str_split CHR '','' (APIUsersExternal c));
               c1 = c\<lparr>APIUsers := (APIUsers c)(u := None), APIUsersExternal := str_join CHR '','' cred\<rparr>
           in (None, if reloadACL then (\<lambda>c. c\<lparr>Saves := Suc (Saves c)\<rparr>) (SaveAcls ord c1) else c1))"

section \<open>URL rules\<close>

text \<open>A grant with the parts of a URL it opens, in the order of the code.\<close>

definition databases_rules :: "(string \<times> string list) list" where
  "databases_rules = [
     (GrantClusterProcess, [''/actions/run-jobs'']),
     (GrantProvDBProvision, [''/actions/provision'', ''/service-opensvc'']),
     (GrantProvDBUnprovision, [''/actions/unprovision'']),
     (GrantDBStart, [''/actions/start'']),
     (GrantDBStop, [''/actions/stop'']),
     (GrantClusterSwitchover, [''/actions/switchover'']),
     (GrantClusterFailover, [''/actions/set-prefered'', ''/actions/set-unrated'', ''/actions/set-ignored'']),
     (GrantDBKill, [''/actions/kill'']),
     (GrantDBOptimize, [''/actions/analyze-pfs'']),
     (GrantDBAnalyse, [''/actions/analyze-pfs'',
        ''/actions/analyze-slowlog'',
        ''/actions/reset-pfs-queries'']),
     (GrantDBReplication, [''/all-slaves-status'',
        ''/master-status'',
        ''actions/start-slave'',
        ''actions/stop-slave'',
        ''actions/skip-replication-event'',
        ''actions/reset-master'',
        ''actions/reset-slave-all'']),
     (GrantDBBackup, [''/actions/backup-logical'',
        ''/actions/backup-error-log'',
        ''/actions/backup-physical'',
        ''/actions/backup-slowquery-log'',
        ''/actions/flush-logs'']),
     (GrantDBRestore, [''/actions/reseed/'', ''/actions/pitr'', ''/actions/reseed-cancel'']),
     (GrantClusterProcess, [''/actions/job-cancel/'', ''/actions/reseed-cancel'']),
     (GrantDBReadOnly, [''actions/toogle-read-only'']),
     (GrantProxyConfigFlag, [''/config'']),
     (GrantDBLogs, [''/processlist'',
        ''/status-innodb'',
        ''/errorlog'',
        ''/slow-queries'',
        ''/query-response-time'',
        ''/meta-data-locks'',
        ''/digest-statements-pfs'',
        ''/digest-statements-slow'',
        ''/actions/toogle-sql-error-log'',
        ''/actions/toogle-sql-error-log'',
        ''/actions/toogle-query-response-time'',
        ''/actions/toogle-meta-data-locks'',
        ''/actions/toogle-slow-query-table'',
        ''/actions/toogle-slow-query-capture'',
        ''/actions/toogle-slow-query'',
        ''/actions/set-long-query-time'',
        ''/actions/toogle-pfs-slow-query'',
        ''/actions/toogle-slow-query'',
        ''actions/toogle-innodb-monitor'',
        ''/actions/explain-pfs'',
        ''/actions/explain-slowlog'']),
     (GrantDBCapture, [''/actions/toogle-slow-query-capture'']),
     (GrantDBMaintenance, [''/actions/optimize'',
        ''/actions/maintenance'',
        ''/actions/set-maintenance'',
        ''/actions/del-maintenance'',
        ''/actions/wait-innodb-purge'']),
     (GrantDBShowVariables, [''/variables'']),
     (GrantDBShowSchema, [''/tables'', ''/vtables'', ''/tables'', ''/schemas'']),
     (GrantDBShowStatus, [''/status'', ''/status-delta''])]"

definition proxies_rules :: "(string \<times> string list) list" where
  "proxies_rules = [
     (GrantProvProxyProvision, [''/actions/provision'']),
     (GrantProvProxyUnprovision, [''/actions/unprovision'']),
     (GrantProxyStart, [''/actions/start'']),
     (GrantProxyStop, [''/actions/stop''])]"

definition cluster_rules :: "string \<Rightarrow> (string \<times> string list) list" where
  "cluster_rules name = [
     (GrantClusterSharding, [''/api/clusters/'' @ name @ ''/schema'',
        ''/api/clusters/'' @ name @ ''/shardclusters'']),
     (GrantClusterProcess, [''/api/clusters/'' @ name @ ''/jobs'']),
     (GrantClusterProcess, [''/api/clusters/'' @ name @ ''/top'']),
     (GrantClusterShowBackups, [''/api/clusters/'' @ name @ ''/backups'']),
     (GrantClusterShowRoutes, [''/api/clusters/'' @ name @ ''/queryrules'']),
     (GrantClusterShowCertificates, [''/api/clusters/'' @ name @ ''/certificates'']),
     (GrantClusterCertificatesReload, [''/api/clusters/'' @ name @ ''/actions/certificates-reload'']),
     (GrantClusterCertificatesRotate, [''/api/clusters/'' @ name @ ''/actions/certificates-rotate'']),
     (GrantClusterResetSLA, [''/api/clusters/'' @ name @ ''/actions/reset-sla'']),
     (GrantClusterCreateMonitor, [''/api/clusters/'' @ name @ ''/actions/addserver'']),
     (GrantClusterDropMonitor, [''/api/clusters/'' @ name @ ''/actions/dropserver'']),
     (GrantClusterSwitchover, [''/api/clusters/'' @ name @ ''/actions/switchover'']),
     (GrantClusterTraffic, [''/api/clusters/'' @ name @ ''/actions/stop-traffic'',
        ''/api/clusters/'' @ name @ ''/actions/start-traffic'']),
     (GrantDBBackup, [''/actions/master-logical-backup'',
        ''/actions/master-physical-backup'']),
     (GrantClusterBench, [''/api/clusters/'' @ name @ ''/actions/sysbench'']),
     (GrantClusterTest, [''/api/clusters/'' @ name @ ''/actions/sysbench'',
        ''/api/clusters/'' @ name @ ''/tests/'']),
     (GrantClusterFailover, [''/api/clusters/'' @ name @ ''/actions/failover'']),
     (GrantClusterReplication, [''/api/clusters/'' @ name @ ''/actions/replication/bootstrap'',
        ''/api/clusters/'' @ name @ ''/actions/replication/cleanup'']),
     (GrantClusterRolling, [''/api/clusters/'' @ name @ ''/actions/optimize'',
        ''/api/clusters/'' @ name @ ''/actions/rolling'',
        ''/api/clusters/'' @ name @ ''/actions/cancel-rolling-restart'',
        ''/api/clusters/'' @ name @ ''/actions/cancel-rolling-reprov'']),
     (GrantClusterRotatePasswords, [''/api/clusters/'' @ name @ ''/actions/rotate-passwords'']),
     (GrantDBConfigFlag, [''/api/clusters/'' @ name @ ''/settings/actions/drop-db-tag'',
        ''/api/clusters/'' @ name @ ''/settings/actions/add-db-tag'',
        ''/api/clusters/'' @ name @ ''/settings/actions/apply-dynamic-config'']),
     (GrantProxyConfigFlag, [''/api/clusters/'' @ name @ ''/settings/actions/drop-proxy-tag'',
        ''/api/clusters/'' @ name @ ''/settings/actions/add-proxy-tag'']),
     (GrantClusterSettings, [''/api/clusters/'' @ name @ ''/settings/actions/reload'',
        ''/api/clusters/'' @ name @ ''/settings/actions/switch'',
        ''/api/clusters/'' @ name @ ''/settings/actions/set'',
        ''/api/clusters/'' @ name @ ''/settings/actions/clear'',
        ''/api/clusters/'' @ name @ ''/settings/actions/discover'',
        ''/api/clusters/'' @ name @ ''/actions/reset-failover-control'']),
     (GrantClusterChecksum, [''/api/clusters/'' @ name @ ''/actions/checksum-all-tables'']),
     (GrantProvCluster, [''/api/clusters/'' @ name @ ''/services/actions/provision'',
        ''/api/clusters/actions/add'']),
     (GrantProvClusterUnprovision, [''/api/clusters/'' @ name @ ''/services/actions/unprovision'']),
     (GrantClusterCreate, [''/api/clusters/actions/add'']),
     (GrantClusterDelete, [''/api/clusters/actions/delete'']),
     (GrantClusterConfigGraphs, [''/api/clusters/'' @ name @ ''/settings/actions/set-graphite-filterlist'',
        ''/api/clusters/'' @ name @ ''/settings/actions/reload-graphite-filterlist'',
        ''/api/clusters/'' @ name @ ''/settings/actions/reset-graphite-filterlist'']),
     (GrantGrantShow, [''/api/clusters/'' @ name @ ''/users/send-credentials'']),
     (GrantGrantAdd, [''/api/monitor/actions/adduser/'',
        ''/api/clusters/'' @ name @ ''/users/add'']),
     (GrantGrantModify, [''/api/clusters/'' @ name @ ''/users/update'']),
     (GrantGrantDrop, [''/api/clusters/'' @ name @ ''/users/drop'']),
     (GrantSalesValidate, [''/api/clusters/'' @ name @ ''/sales/accept-subscription'']),
     (GrantSalesRefuse, [''/api/clusters/'' @ name @ ''/sales/refuse-subscription'',
        ''/api/clusters/'' @ name @ ''/unsubscribe'']),
     (GrantSalesUnsubscribe, [''/api/clusters/'' @ name @ ''/sales/end-subscription''])]"

section \<open>Access\<close>

definition granted :: "acl \<Rightarrow> string \<Rightarrow> string \<Rightarrow> bool" where
  "granted c u g = (user_grants c u g = Some True)"

definition rules_pass :: "(string \<Rightarrow> bool) \<Rightarrow> (string \<times> string list) list \<Rightarrow> string \<Rightarrow> bool" where
  "rules_pass has rules URL = list_ex (\<lambda>(g, parts). has g \<and> list_ex (str_contains URL) parts) rules"

definition IsURLPassDatabasesACL :: "acl \<Rightarrow> string \<Rightarrow> string \<Rightarrow> bool" where
  "IsURLPassDatabasesACL c u URL = rules_pass (granted c u) databases_rules URL"

definition IsURLPassProxiesACL :: "acl \<Rightarrow> string \<Rightarrow> string \<Rightarrow> bool" where
  "IsURLPassProxiesACL c u URL = rules_pass (granted c u) proxies_rules URL"

definition public_urls :: "string \<Rightarrow> string list" where
  "public_urls name = [''/api/login'', ''/api/auth/callback'', ''/api/clusters'', ''/api/monitor'',
     ''/api/clusters/'' @ name @ ''/actions/waitdatabases'', ''/api/clusters/'' @ name, ''/api/clusters/'' @ name @ ''/diffvariables'']"

definition settings_urls :: "string list" where
  "settings_urls = [''/api/clusters/settings/actions/switch'', ''/api/clusters/settings/actions/set'',
     ''/api/clusters/settings/actions/clear'', ''/api/clusters/settings/actions/reload-clusters-plans'']"

definition IsURLPassACL :: "acl \<Rightarrow> string \<Rightarrow> string \<Rightarrow> bool" where
  "IsURLPassACL c u URL =
     (if URL \<in> set (public_urls (Name c)) then True
      else if list_ex (str_contains URL) settings_urls then granted c u GrantGlobalSettings
      else if str_contains URL (''/api/clusters/'' @ Name c @ ''/servers'') then IsURLPassDatabasesACL c u URL
      else if str_contains URL (''/api/clusters/'' @ Name c @ ''/proxies'') then IsURLPassProxiesACL c u URL
      else rules_pass (granted c u) (cluster_rules (Name c)) URL)"

definition IsValidACL :: "(string \<Rightarrow> string) \<Rightarrow> acl \<Rightarrow> string \<Rightarrow> string \<Rightarrow> string \<Rightarrow> string \<Rightarrow> bool" where
  "IsValidACL decrypt c u pass URL AuthMethod =
     (case APIUsers c u of
        Some a \<Rightarrow> if Password a = decrypt pass \<or> AuthMethod = ''oidc'' then IsURLPassACL c u URL else False
      | None \<Rightarrow> False)"

datatype user_error = IncorrectPassword | UserNotFound

definition GetAPIUser :: "acl \<Rightarrow> string \<Rightarrow> string \<Rightarrow> user_error + api_user" where
  "GetAPIUser c u pass =
     (case APIUsers c u of
        Some a \<Rightarrow> if Password a = pass then Inr a else Inl IncorrectPassword
      | None \<Rightarrow> Inl UserNotFound)"

section \<open>The grant table\<close>

lemma compact_category_sets:
  "set (fst (compact_category m p)) = (if has_all (snd p) m then {fst p} else {g \<in> set (snd p). m g = Some True})"
  "set (snd (compact_category m p)) =
     (if has_all (snd p) m then {} else if \<exists>g \<in> set (snd p). m g = Some True then {g \<in> set (snd p). m g \<noteq> Some True} else {fst p})"
  by (cases p; simp add: compact_category_def Let_def filter_empty_conv)+

text \<open>
  What the compact form relies on: the name of a category is a prefix of exactly its grants and of no other grant, it is
  no grant itself and no grant is a prefix of it; one grant is in no category; no name contains a separator.
\<close>

locale grant_table =
  fixes table :: "string list" and cats :: "(string \<times> string list) list" and single :: string
  assumes closed: "(n, gs) \<in> set cats \<Longrightarrow> g \<in> set table \<Longrightarrow> prefix n g \<Longrightarrow> g \<in> set gs"
    and name_free: "(n, gs) \<in> set cats \<Longrightarrow> n \<notin> set table"
    and named: "(n, gs) \<in> set cats \<Longrightarrow> g \<in> set gs \<Longrightarrow> prefix n g \<and> g \<in> set table"
    and short: "(n, gs) \<in> set cats \<Longrightarrow> h \<in> set table \<Longrightarrow> \<not> prefix h n"
    and covers: "g \<in> set table \<Longrightarrow> g = single \<or> (\<exists>(n, gs) \<in> set cats. g \<in> set gs)"
    and single: "single \<in> set table" "(n, gs) \<in> set cats \<Longrightarrow> single \<notin> set gs"
    and distinct_names: "(n, gs) \<in> set cats \<Longrightarrow> (n', gs') \<in> set cats \<Longrightarrow> prefix n n' \<Longrightarrow> gs = gs'"
    and plain: "a \<in> set (table @ map fst cats) \<Longrightarrow> a \<noteq> [] \<and> CHR '' '' \<notin> set a \<and> CHR '','' \<notin> set a \<and> CHR '':'' \<notin> set a"
begin

text \<open>A grant whose name begins with another one is in the same category.\<close>

lemma category_prefix:
  assumes "(n, gs) \<in> set cats" "g \<in> set gs" "h \<in> set table" "prefix h g"
  shows "h \<in> set gs"
proof -
  have "prefix h n \<or> prefix n h" using assms(4) named [OF assms(1,2)] prefix_same_cases by blast
  then show ?thesis using closed [OF assms(1,3)] short [OF assms(1,3)] by blast
qed

lemma same_category:
  assumes "(n, gs) \<in> set cats" "g \<in> set gs" "(n', gs') \<in> set cats" "g \<in> set gs'"
  shows "gs' = gs"
proof -
  have "prefix n n' \<or> prefix n' n" using named [OF assms(1,2)] named [OF assms(3,4)] prefix_same_cases by blast
  then show ?thesis using distinct_names [OF assms(1,3)] distinct_names [OF assms(3,1)] by auto
qed

lemma allow_members:
  "a \<in> set (fst (compact_all cats single m)) \<longleftrightarrow>
     a = single \<and> m single = Some True \<or>
     (\<exists>p \<in> set cats. a \<in> (if has_all (snd p) m then {fst p} else {g \<in> set (snd p). m g = Some True}))"
  by (simp only: compact_all_def Let_def fst_conv set_append set_concat set_map image_image compact_category_sets Un_iff UN_iff) auto

lemma discard_members:
  "a \<in> set (snd (compact_all cats single m)) \<longleftrightarrow>
     a = single \<and> m single \<noteq> Some True \<or>
     (\<exists>p \<in> set cats. a \<in> (if has_all (snd p) m then {}
        else if \<exists>g \<in> set (snd p). m g = Some True then {g \<in> set (snd p). m g \<noteq> Some True} else {fst p}))"
  by (simp only: compact_all_def Let_def snd_conv set_append set_concat set_map image_image compact_category_sets Un_iff UN_iff) auto

lemma compact_plain:
  assumes "a \<in> set (fst (compact_all cats single m)) \<or> a \<in> set (snd (compact_all cats single m))"
  shows "a \<noteq> []" "CHR '' '' \<notin> set a" "CHR '','' \<notin> set a" "CHR '':'' \<notin> set a"
proof -
  have "a = single \<or> (\<exists>p \<in> set cats. a = fst p \<or> a \<in> set (snd p))"
    using assms unfolding allow_members discard_members by (auto split: if_splits)
  then have "a \<in> set table \<or> a \<in> fst ` set cats"
    using named single(1) by (metis image_eqI prod.collapse)
  then show "a \<noteq> []" "CHR '' '' \<notin> set a" "CHR '','' \<notin> set a" "CHR '':'' \<notin> set a"
    using plain [of a] by auto
qed

text \<open>What a saved allow list allows: the grants and those whose names begin with one of them.\<close>

lemma allow_expand:
  assumes "g \<in> set table"
  shows "(\<exists>a \<in> set (fst (compact_all cats single m)). prefix a g) \<longleftrightarrow> (\<exists>h \<in> set table. m h = Some True \<and> prefix h g)"
proof
  assume "\<exists>a \<in> set (fst (compact_all cats single m)). prefix a g"
  then obtain a where a: "a \<in> set (fst (compact_all cats single m))" "prefix a g" by blast
  then consider "a = single" "m single = Some True"
    | n gs where "(n, gs) \<in> set cats" "has_all gs m" "a = n"
    | n gs where "(n, gs) \<in> set cats" "a \<in> set gs" "m a = Some True"
    by (auto simp: allow_members split: if_splits)
  then show "\<exists>h \<in> set table. m h = Some True \<and> prefix h g"
  proof cases
    case (2 n gs)
    then have "g \<in> set gs" using closed assms a(2) by blast
    with 2 assms show ?thesis by (auto simp: has_all_def list_all_iff)
  qed (use a single(1) named in blast)+
next
  assume "\<exists>h \<in> set table. m h = Some True \<and> prefix h g"
  then obtain h where h: "h \<in> set table" "m h = Some True" "prefix h g" by blast
  show "\<exists>a \<in> set (fst (compact_all cats single m)). prefix a g"
  proof (cases "h = single")
    case True
    with h show ?thesis by (auto simp: allow_members)
  next
    case False
    then obtain n gs where c: "(n, gs) \<in> set cats" "h \<in> set gs" using covers [OF h(1)] by auto
    then have "(if has_all gs m then n else h) \<in> set (fst (compact_all cats single m))" using h by (fastforce simp: allow_members)
    moreover have "prefix n g" using named [OF c] h(3) prefix_order.trans by blast
    ultimately show ?thesis using h(3) by (metis (full_types))
  qed
qed

lemma granted_not_discarded: "g \<in> set table \<Longrightarrow> m g = Some True \<Longrightarrow> g \<notin> set (snd (compact_all cats single m))"
  using name_free by (fastforce simp: discard_members split: if_splits)

text \<open>
  Reading the two lists back, over what the user has anyway (\<open>b\<close>), gives the grants that were saved, unless the user has a
  grant anyway of a category that was saved as empty.
\<close>

lemma compact_roundtrip:
  assumes g: "g \<in> set table" and b: "\<And>n gs. (n, gs) \<in> set cats \<Longrightarrow> g \<in> set gs \<Longrightarrow> b \<Longrightarrow> \<exists>h \<in> set gs. m h = Some True"
  shows "g \<notin> set (snd (compact_all cats single m)) \<and> ((\<exists>h \<in> set table. m h = Some True \<and> prefix h g) \<or> b) \<longleftrightarrow> m g = Some True"
proof
  assume r: "g \<notin> set (snd (compact_all cats single m)) \<and> ((\<exists>h \<in> set table. m h = Some True \<and> prefix h g) \<or> b)"
  show "m g = Some True"
  proof (rule ccontr)
    assume no: "m g \<noteq> Some True"
    with r have "g \<noteq> single" by (auto simp: discard_members)
    then obtain n gs where c: "(n, gs) \<in> set cats" "g \<in> set gs" using covers [OF g] by auto
    then have "\<exists>h \<in> set gs. m h = Some True" using r b category_prefix by blast
    moreover have "\<not> has_all gs m" using no c(2) by (auto simp: has_all_def list_all_iff)
    ultimately have "g \<in> set (snd (compact_all cats single m))"
      using c no by (subst discard_members) (rule disjI2, rule bexI [of _ "(n, gs)"], auto)
    with r show False by blast
  qed
qed (use g granted_not_discarded in auto)

end

lemma category_closed: "list_all (\<lambda>(n, gs). list_all (\<lambda>g. prefix n g \<longrightarrow> g \<in> set gs) GetGrantType) categories"
  by code_simp

lemma category_names: "list_all (\<lambda>(n, gs). n \<notin> set GetGrantType \<and> list_all (\<lambda>g. prefix n g \<and> g \<in> set GetGrantType) gs) categories"
  by code_simp

lemma category_short: "list_all (\<lambda>(n, gs). list_all (\<lambda>h. \<not> prefix h n) GetGrantType \<and> GrantShow \<notin> set gs) categories"
  by code_simp

lemma category_distinct: "list_all (\<lambda>(n, gs). list_all (\<lambda>(n', gs'). prefix n n' \<longrightarrow> gs = gs') categories) categories"
  by code_simp

lemma category_covers: "list_all (\<lambda>g. g = GrantShow \<or> list_ex (\<lambda>(n, gs). g \<in> set gs) categories) GetGrantType"
  by code_simp

lemma table_plain:
  "list_all (\<lambda>g. g \<noteq> [] \<and> CHR '' '' \<notin> set g \<and> CHR '','' \<notin> set g \<and> CHR '':'' \<notin> set g) (GetGrantType @ map fst categories)"
  by code_simp

interpretation gt: grant_table GetGrantType categories GrantShow
proof
  show "GrantShow \<in> set GetGrantType" by (simp add: GetGrantType_def)
  show "g = GrantShow \<or> (\<exists>(n, gs) \<in> set categories. g \<in> set gs)" if "g \<in> set GetGrantType" for g
    using category_covers that by (simp add: list_all_iff list_ex_iff)
  show "a \<noteq> [] \<and> CHR '' '' \<notin> set a \<and> CHR '','' \<notin> set a \<and> CHR '':'' \<notin> set a" if "a \<in> set (GetGrantType @ map fst categories)" for a
    using table_plain that unfolding list_all_iff by blast
  fix n gs
  assume c: "(n, gs) \<in> set categories"
  show "g \<in> set gs" if "g \<in> set GetGrantType" "prefix n g" for g
    using bspec [OF category_closed [unfolded list_all_iff] c] that by simp
  show "n \<notin> set GetGrantType"
    using bspec [OF category_names [unfolded list_all_iff] c] by simp
  show "prefix n g \<and> g \<in> set GetGrantType" if "g \<in> set gs" for g
    using bspec [OF category_names [unfolded list_all_iff] c] that by simp
  show "\<not> prefix h n" if "h \<in> set GetGrantType" for h
    using bspec [OF category_short [unfolded list_all_iff] c] that by simp
  show "GrantShow \<notin> set gs"
    using bspec [OF category_short [unfolded list_all_iff] c] by simp
  show "gs = gs'" if c': "(n', gs') \<in> set categories" "prefix n n'" for n' gs'
    using bspec [OF category_distinct [unfolded list_all_iff] c] c' by auto
qed

section \<open>Grants after an assignment\<close>

lemma grants_assigned:
  "Grants (SetUserGrants c u s) g =
     (if g \<in> set (ClGrants c) \<and> (Grants u g = None \<or> matches s g) then Some (matches s g) else Grants u g)"
proof -
  have "fold (\<lambda>g m. if m g = None \<or> matches s g then m(g \<mapsto> matches s g) else m) gs m g =
     (if g \<in> set gs \<and> (m g = None \<or> matches s g) then Some (matches s g) else m g)" for gs and m :: "string \<rightharpoonup> bool"
    by (induction gs arbitrary: m) auto
  then show ?thesis by (simp add: SetUserGrants_def)
qed

lemma user_kept [simp]:
  "User (SetUserGrants c u s) = User u" "User (SetUserRoles c u s) = User u" "Grants (SetUserRoles c u s) = Grants u"
  "User (assign_acls c a u) = User u" "User (discard_acls a u) = User u" "Grants (visitor_role ord u) = Grants u"
  by (simp_all add: SetUserGrants_def SetUserRoles_def assign_acls_def discard_acls_def visitor_role_def split: option.split)

lemma grants_assign_acls:
  "Grants (assign_acls c a u) g =
     (case a (User u) of None \<Rightarrow> Grants u g
      | Some e \<Rightarrow> if g \<in> set (ClGrants c) \<and> (Grants u g = None \<or> matches (LACLs e) g) then Some (matches (LACLs e) g) else Grants u g)"
  by (simp add: assign_acls_def grants_assigned split: option.split)

lemma grants_discard_acls:
  "Grants (discard_acls a u) g =
     (case a (User u) of None \<Rightarrow> Grants u g
      | Some e \<Rightarrow> if g \<in> set (str_split CHR '' '' (LACLs e)) then Some False else Grants u g)"
proof -
  have "fold (\<lambda>g m. m(g \<mapsto> False)) gs m g = (if g \<in> set gs then Some False else m g)" for gs and m :: "string \<rightharpoonup> bool"
    by (induction gs arbitrary: m) auto
  then show ?thesis by (simp add: discard_acls_def split: option.split)
qed

text \<open>A joined list of plain names allows the grants that begin with one of them.\<close>

lemma matches_join:
  assumes "\<And>a. a \<in> set as \<Longrightarrow> a \<noteq> [] \<and> CHR '' '' \<notin> set a"
  shows "matches (str_join CHR '' '' as) g \<longleftrightarrow> (\<exists>a \<in> set as. prefix a g)"
proof (cases "as = []")
  case False
  then have "str_split CHR '' '' (str_join CHR '' '' as) = as" using assms by (intro str_split_join) auto
  with assms show ?thesis by (auto simp: matches_def list_ex_iff)
qed (simp add: matches_def)

lemma matches_compact:
  "g \<in> set GetGrantType \<Longrightarrow>
     matches (str_join CHR '' '' (fst (GetCompactGrants m))) g \<longleftrightarrow> (\<exists>h \<in> set GetGrantType. m h = Some True \<and> prefix h g)"
  unfolding GetCompactGrants_def
  using matches_join [of "fst (compact_all categories GrantShow m)" g] gt.compact_plain(1,2) [of _ m] gt.allow_expand [of g m] by blast

section \<open>Loading a user\<close>

text \<open>The grants a load gives to user \<open>u\<close>.\<close>

definition base_user :: "acl \<Rightarrow> string \<Rightarrow> api_user" where
  "base_user c u = discard_acls (GetClusterUserDiscardACLs c (APIUsersACLDiscard c))
     (assign_acls c (GetClusterUserAllowACLs c (APIUsersACLAllow c)) (new_user\<lparr>User := u\<rparr>))"

definition loaded_user :: "acl \<Rightarrow> string \<Rightarrow> api_user" where
  "loaded_user c u = discard_acls (GetClusterUserDiscardACLs c (APIUsersACLDiscardExternal c))
     (assign_acls c (GetClusterUserAllowACLs c (APIUsersACLAllowExternal c)) (base_user c u))"

lemma grants_cong:
  assumes "User u = User v" "Grants u = Grants v"
  shows "Grants (assign_acls c a u) = Grants (assign_acls c a v)" "Grants (discard_acls a u) = Grants (discard_acls a v)"
  by (rule ext, auto simp: grants_assign_acls grants_discard_acls assms split: option.split)+

lemma load_user_grants:
  assumes "cred \<noteq> ''''" "users (fst (SplitPair cred)) = None"
  shows "\<exists>a. load_user ord decrypt c cred users = users(fst (SplitPair cred) \<mapsto> a) \<and> Grants a = Grants (loaded_user c (fst (SplitPair cred)))"
proof -
  let ?u = "fst (SplitPair cred)"
  have "Grants (visitor_role ord (discard_acls (GetClusterUserDiscardACLs c (APIUsersACLDiscardExternal c))
      (assign_acls c (GetClusterUserAllowACLs c (APIUsersACLAllowExternal c))
       (discard_acls (GetClusterUserDiscardACLs c (APIUsersACLDiscard c))
        (assign_acls c (GetClusterUserAllowACLs c (APIUsersACLAllow c)) (new_user\<lparr>User := ?u, Password := p\<rparr>)))))) =
      Grants (loaded_user c ?u)" for p
    unfolding user_kept(6) loaded_user_def base_user_def by (intro grants_cong) simp_all
  then show ?thesis using assms by (auto simp: load_user_def Let_def case_prod_beta)
qed

lemma load_user_skip: "cred = '''' \<or> users (fst (SplitPair cred)) \<noteq> None \<Longrightarrow> load_user ord decrypt c cred users = users"
  by (auto simp: load_user_def Let_def case_prod_beta)

text \<open>A load finds exactly the users with a credential, with the grants above.\<close>

lemma load_users:
  "(fold (load_user ord decrypt c) creds users u = None \<longleftrightarrow>
      users u = None \<and> (\<forall>cred \<in> set creds. cred \<noteq> '''' \<longrightarrow> fst (SplitPair cred) \<noteq> u)) \<and>
   (\<forall>a. fold (load_user ord decrypt c) creds users u = Some a \<longrightarrow> users u = Some a \<or> Grants a = Grants (loaded_user c u))"
proof (induction creds arbitrary: users)
  case (Cons cred creds)
  show ?case
  proof (cases "cred = '''' \<or> users (fst (SplitPair cred)) \<noteq> None")
    case True
    then show ?thesis using Cons.IH [of users] by (auto simp: load_user_skip)
  next
    case False
    then obtain a where a: "load_user ord decrypt c cred users = users(fst (SplitPair cred) \<mapsto> a)"
      "Grants a = Grants (loaded_user c (fst (SplitPair cred)))"
      using load_user_grants [of cred users ord decrypt c] by blast
    define users1 where "users1 = load_user ord decrypt c cred users"
    have "users1 u = (if u = fst (SplitPair cred) then Some a else users u)" by (simp add: users1_def a)
    moreover have "fold (load_user ord decrypt c) (cred # creds) users = fold (load_user ord decrypt c) creds users1"
      by (simp add: users1_def)
    ultimately show ?thesis
      using False Cons.IH [of users1] a(2) by (cases "u = fst (SplitPair cred)") auto
  qed
qed simp

definition has_credential :: "acl \<Rightarrow> string \<Rightarrow> bool" where
  "has_credential c u = list_ex (\<lambda>cred. cred \<noteq> '''' \<and> fst (SplitPair cred) = u) (credentials c)"

lemma loaded_grants:
  "user_grants (LoadAPIUsers ord decrypt c) u = (if has_credential c u then Grants (loaded_user c u) else Map.empty)"
  using load_users [of ord decrypt c "credentials c" Map.empty u]
  by (auto simp: user_grants_def LoadAPIUsers_def has_credential_def list_ex_iff split: option.split)

section \<open>Reading back what was saved\<close>

lemma set_str_join: "set (str_join sep xs) \<subseteq> insert sep (\<Union>x \<in> set xs. set x)"
  by (induction sep xs rule: str_join.induct) auto

lemma user_plain:
  assumes "cred \<in> set (credentials c)"
  shows "CHR '','' \<notin> set (fst (SplitPair cred))" "CHR '':'' \<notin> set (fst (SplitPair cred))"
proof -
  have p: "fst (SplitPair s) \<in> set (str_split CHR '':'' s)" for s
    by (auto simp: SplitPair_def split: list.split)
  show "CHR '':'' \<notin> set (fst (SplitPair cred))" using p str_split_parts_no_sep by blast
  have "set (fst (SplitPair s)) \<subseteq> set s" for s
  proof -
    have "set t \<subseteq> set s" if "t \<in> set (str_split sep s)" for t sep
      using that by (induction s arbitrary: t) (fastforce split: if_splits list.splits)+
    then show ?thesis using p by blast
  qed
  moreover have "CHR '','' \<notin> set cred" using assms str_split_parts_no_sep unfolding credentials_def by blast
  ultimately show "CHR '','' \<notin> set (fst (SplitPair cred))" by blast
qed

text \<open>The users a save writes, each once.\<close>

definition saved_users :: "acl \<Rightarrow> string list" where
  "saved_users c = fold (\<lambda>cred us. let u = fst (SplitPair cred) in if APIUsers c u = None \<or> u \<in> set us then us else us @ [u])
     (credentials c) []"

definition saved_entry :: "key_order \<Rightarrow> acl \<Rightarrow> string \<Rightarrow> string" where
  "saved_entry ord c u = acl_entry c u (fst (SaveUserAcls c u)) (SaveUserRoles ord c u)"

definition discarded :: "acl \<Rightarrow> string \<Rightarrow> string" where
  "discarded c u = snd (SaveUserAcls c u)"

lemma save_users:
  "fold (save_user ord c) (credentials c) ([], [], []) =
     (saved_users c, map (saved_entry ord c) (saved_users c),
      map (\<lambda>u. u @ '':'' @ discarded c u) (filter (\<lambda>u. discarded c u \<noteq> '''') (saved_users c)))"
proof -
  let ?f = "\<lambda>cred us. let u = fst (SplitPair cred) in if APIUsers c u = None \<or> u \<in> set us then us else us @ [u]"
  let ?s = "\<lambda>us. (us, map (saved_entry ord c) us, map (\<lambda>u. u @ '':'' @ discarded c u) (filter (\<lambda>u. discarded c u \<noteq> '''') us))"
  have step: "save_user ord c cred (?s us) = ?s (?f cred us)" for cred us
    by (auto simp: save_user_def saved_entry_def discarded_def Let_def case_prod_beta)
  have "fold (save_user ord c) creds (?s us) = ?s (fold ?f creds us)" for creds us
  proof (induction creds arbitrary: us)
    case (Cons cred creds)
    show ?case unfolding fold_simps(2) step by (rule Cons.IH)
  qed simp
  from this [of "credentials c" "[]"] show ?thesis by (simp add: saved_users_def)
qed

lemma in_saved_users:
  "u \<in> set (saved_users c) \<longleftrightarrow> APIUsers c u \<noteq> None \<and> (\<exists>cred \<in> set (credentials c). fst (SplitPair cred) = u)"
proof -
  let ?f = "\<lambda>cred us. let u = fst (SplitPair cred) in if APIUsers c u = None \<or> u \<in> set us then us else us @ [u]"
  have "u \<in> set (fold ?f creds us) \<longleftrightarrow> u \<in> set us \<or> APIUsers c u \<noteq> None \<and> (\<exists>cred \<in> set creds. fst (SplitPair cred) = u)" for creds us
    by (induction creds arbitrary: us) (auto simp: Let_def)
  then show ?thesis by (simp add: saved_users_def)
qed

lemma SplitAcls_entry:
  assumes "CHR '':'' \<notin> set u" "CHR '':'' \<notin> set g" "CHR '':'' \<notin> set (Name c)"
  shows "SplitAcls (acl_entry c u g r) = (u, g, Name c, r)"
proof (cases "r = ''''")
  case True
  have "str_split CHR '':'' (u @ CHR '':'' # g @ CHR '':'' # Name c) = [u, g, Name c]"
    using assms by (simp add: str_split_append_sep str_split_no_sep)
  with True show ?thesis by (simp add: SplitAcls_def acl_entry_def)
next
  case False
  have "str_split CHR '':'' (u @ CHR '':'' # g @ CHR '':'' # Name c @ CHR '':'' # r) = u # g # Name c # str_split CHR '':'' r"
    using assms by (simp add: str_split_append_sep)
  moreover obtain x xs where "str_split CHR '':'' r = x # xs" using str_split_nonempty neq_Nil_conv by metis
  moreover have "str_join CHR '':'' (str_split CHR '':'' r) = r" by (rule str_join_split)
  ultimately show ?thesis using False by (cases xs) (simp_all add: SplitAcls_def acl_entry_def)
qed

lemma SplitAcls_pair:
  assumes "CHR '':'' \<notin> set u" "CHR '':'' \<notin> set d"
  shows "SplitAcls (u @ '':'' @ d) = (u, d, '''', '''')"
  using assms by (simp add: SplitAcls_def str_split_append_sep str_split_no_sep)

lemma fold_lookup:
  assumes "\<And>x m. x \<in> set xs \<Longrightarrow> f x m = m(k x \<mapsto> v (k x))"
  shows "fold f xs m u = (if u \<in> k ` set xs then Some (v u) else m u)"
  using assms by (induction xs arbitrary: m) auto

lemma split_joined_entries:
  assumes "\<And>e. e \<in> set es \<Longrightarrow> CHR '','' \<notin> set e"
  shows "str_split CHR '','' (str_join CHR '','' es) = (if es = [] then [''''] else es)"
  using assms str_split_join [of es "CHR '',''"] by simp

text \<open>A name that is safe inside the configuration strings.\<close>

definition plain_name :: "string \<Rightarrow> bool" where
  "plain_name s = (CHR '','' \<notin> set s \<and> CHR '':'' \<notin> set s \<and> CHR '' '' \<notin> set s)"

lemma saved_plain:
  "CHR '','' \<notin> set (fst (SaveUserAcls c u))" "CHR '':'' \<notin> set (fst (SaveUserAcls c u))"
  "CHR '','' \<notin> set (discarded c u)" "CHR '':'' \<notin> set (discarded c u)"
proof -
  let ?g = "GetCompactGrants (user_grants c u)"
  have "set (str_join CHR '' '' xs) \<subseteq> insert (CHR '' '') (\<Union>x \<in> set xs. set x)" for xs by (rule set_str_join)
  moreover have "CHR '','' \<notin> set a" "CHR '':'' \<notin> set a" if "a \<in> set (fst ?g) \<union> set (snd ?g)" for a
    using gt.compact_plain(3,4) [of a "user_grants c u"] that by (auto simp: GetCompactGrants_def)
  ultimately show "CHR '','' \<notin> set (fst (SaveUserAcls c u))" "CHR '':'' \<notin> set (fst (SaveUserAcls c u))"
    "CHR '','' \<notin> set (discarded c u)" "CHR '':'' \<notin> set (discarded c u)"
    unfolding discarded_def SaveUserAcls_def case_prod_beta Let_def fst_conv snd_conv by fastforce+
qed

lemma saved_allow:
  assumes "plain_name (Name c)" "\<And>v. CHR '','' \<notin> set (SaveUserRoles ord c v)" "u \<in> set (saved_users c)"
  shows "\<exists>r. GetClusterUserAllowACLs c (APIUsersACLAllowExternal (SaveAcls ord c)) u = Some r \<and> LACLs r = fst (SaveUserAcls c u)"
proof -
  let ?es = "map (saved_entry ord c) (saved_users c)"
  define v where "v = (\<lambda>x. \<lparr>LUser = x, LACLs = fst (SaveUserAcls c x), LRoles =
     (let r = SaveUserRoles ord c x in if r \<noteq> '''' then r else if Name c \<in> set (str_split CHR '' '' r) \<and> Name c \<noteq> '''' then Name c else '''')\<rparr>)"
  have p: "CHR '','' \<notin> set x" "CHR '':'' \<notin> set x" if "x \<in> set (saved_users c)" for x
    using that user_plain [of _ c] by (auto simp: in_saved_users)
  have s: "SplitAcls (saved_entry ord c x) = (x, fst (SaveUserAcls c x), Name c, SaveUserRoles ord c x)" if "x \<in> set (saved_users c)" for x
    unfolding saved_entry_def using p(2) [OF that] saved_plain(2) assms(1) by (intro SplitAcls_entry) (auto simp: plain_name_def)
  have comma: "CHR '','' \<notin> set e" if "e \<in> set ?es" for e
    using that p(1) saved_plain(1) assms(1,2) by (auto simp: saved_entry_def acl_entry_def plain_name_def Let_def)
  have n: "Name c \<in> set (str_split CHR '' '' (Name c))" using assms(1) by (simp add: plain_name_def str_split_no_sep)
  have step: "allow_entry c (saved_entry ord c x) m = m(x \<mapsto> v x)" if "x \<in> set (saved_users c)" for x m
    using n by (simp add: allow_entry_def s [OF that] v_def Let_def) (simp add: saved_entry_def acl_entry_def Let_def)
  have "saved_users c \<noteq> []" using assms(3) by auto
  then have "str_split CHR '','' (APIUsersACLAllowExternal (SaveAcls ord c)) = ?es"
    using split_joined_entries [of ?es, OF comma] by (simp add: SaveAcls_def save_users)
  then have "GetClusterUserAllowACLs c (APIUsersACLAllowExternal (SaveAcls ord c)) =
      fold (\<lambda>x. allow_entry c (saved_entry ord c x)) (saved_users c) Map.empty"
    by (simp add: GetClusterUserAllowACLs_def fold_map comp_def)
  moreover have "fold (\<lambda>x. allow_entry c (saved_entry ord c x)) (saved_users c) Map.empty u = Some (v u)"
    using fold_lookup [of "saved_users c" "\<lambda>x. allow_entry c (saved_entry ord c x)" "\<lambda>x. x" v Map.empty u] step assms(3) by simp
  ultimately show ?thesis by (simp add: v_def)
qed

lemma saved_discard:
  assumes "u \<in> set (saved_users c)"
  shows "case GetClusterUserDiscardACLs c (APIUsersACLDiscardExternal (SaveAcls ord c)) u of
      None \<Rightarrow> discarded c u = '''' | Some r \<Rightarrow> LACLs r = discarded c u"
proof -
  let ?us = "filter (\<lambda>u. discarded c u \<noteq> '''') (saved_users c)"
  let ?es = "map (\<lambda>u. u @ '':'' @ discarded c u) ?us"
  define v where "v = (\<lambda>x. \<lparr>LUser = x, LACLs = discarded c x, LRoles = ''''\<rparr>)"
  have p: "CHR '','' \<notin> set x" "CHR '':'' \<notin> set x" if "x \<in> set (saved_users c)" for x
    using that user_plain [of _ c] by (auto simp: in_saved_users)
  have comma: "CHR '','' \<notin> set e" if "e \<in> set ?es" for e
    using that p(1) saved_plain(3) by auto
  have step: "discard_entry c (x @ '':'' @ discarded c x) m = m(x \<mapsto> v x)" if "x \<in> set ?us" for x m
    using SplitAcls_pair [OF p(2) saved_plain(4), of x c x] that by (simp add: discard_entry_def v_def)
  have e: "str_split CHR '','' (APIUsersACLDiscardExternal (SaveAcls ord c)) = (if ?es = [] then [''''] else ?es)"
    using split_joined_entries [of ?es, OF comma] by (simp only: SaveAcls_def save_users Let_def case_prod_conv) simp
  have "GetClusterUserDiscardACLs c (APIUsersACLDiscardExternal (SaveAcls ord c)) =
      fold (\<lambda>x. discard_entry c (x @ '':'' @ discarded c x)) ?us Map.empty"
    unfolding GetClusterUserDiscardACLs_def e by (cases "?es = []") (simp_all add: fold_map comp_def discard_entry_def)
  moreover have "fold (\<lambda>x. discard_entry c (x @ '':'' @ discarded c x)) ?us Map.empty u = (if u \<in> set ?us then Some (v u) else None)"
    using fold_lookup [of ?us "\<lambda>x. discard_entry c (x @ '':'' @ discarded c x)" "\<lambda>x. x" v Map.empty u] step by simp
  ultimately show ?thesis using assms by (simp add: v_def)
qed

section \<open>Properties\<close>

lemma save_keeps [simp]:
  "Name (SaveAcls ord c) = Name c" "ClGrants (SaveAcls ord c) = ClGrants c" "ClRoles (SaveAcls ord c) = ClRoles c"
  "credentials (SaveAcls ord c) = credentials c" "APIUsers (SaveAcls ord c) = APIUsers c"
  "APIUsersACLAllow (SaveAcls ord c) = APIUsersACLAllow c" "APIUsersACLDiscard (SaveAcls ord c) = APIUsersACLDiscard c"
  "has_credential (SaveAcls ord c) u = has_credential c u"
  by (simp_all add: SaveAcls_def case_prod_beta credentials_def has_credential_def)

lemma lookup_cong:
  assumes "Name c = Name d"
  shows "GetClusterUserAllowACLs c s = GetClusterUserAllowACLs d s" "GetClusterUserDiscardACLs c s = GetClusterUserDiscardACLs d s"
proof -
  have "allow_entry c = allow_entry d" "discard_entry c = discard_entry d"
    using assms by (simp_all add: allow_entry_def discard_entry_def fun_eq_iff)
  then show "GetClusterUserAllowACLs c s = GetClusterUserAllowACLs d s" "GetClusterUserDiscardACLs c s = GetClusterUserDiscardACLs d s"
    by (simp_all add: GetClusterUserAllowACLs_def GetClusterUserDiscardACLs_def)
qed

lemma base_user_cong:
  assumes "Name c = Name d" "ClGrants c = ClGrants d" "APIUsersACLAllow c = APIUsersACLAllow d" "APIUsersACLDiscard c = APIUsersACLDiscard d"
  shows "Grants (base_user c u) = Grants (base_user d u)"
  unfolding base_user_def lookup_cong [OF assms(1)] assms(3,4)
  by (intro grants_cong(2) ext) (simp_all add: grants_assign_acls assms(2) split: option.split)

lemma base_user_name [simp]: "User (base_user c u) = u"
  by (simp add: base_user_def)

text \<open>The grants a reload gives, from the lists that were saved.\<close>

lemma reloaded_grants:
  assumes "plain_name (Name c)" "\<And>v. CHR '','' \<notin> set (SaveUserRoles ord c v)" "u \<in> set (saved_users c)"
    "ClGrants c = GetGrantType" "g \<in> set GetGrantType"
  shows "Grants (loaded_user (SaveAcls ord c) u) g = Some True \<longleftrightarrow>
    g \<notin> set (snd (GetCompactGrants (user_grants c u))) \<and>
    ((\<exists>h \<in> set GetGrantType. user_grants c u h = Some True \<and> prefix h g) \<or> Grants (base_user c u) g = Some True)"
proof -
  let ?m = "user_grants c u" and ?s = "SaveAcls ord c"
  have cong: "GetClusterUserAllowACLs ?s = GetClusterUserAllowACLs c" "GetClusterUserDiscardACLs ?s = GetClusterUserDiscardACLs c"
    "Grants (base_user ?s u) = Grants (base_user c u)"
    using lookup_cong [of ?s c] base_user_cong [of ?s c u] by (simp_all add: fun_eq_iff)
  obtain r where r: "GetClusterUserAllowACLs c (APIUsersACLAllowExternal ?s) u = Some r" "LACLs r = fst (SaveUserAcls c u)"
    using saved_allow [OF assms(1-3)] by blast
  have a: "matches (fst (SaveUserAcls c u)) g \<longleftrightarrow> (\<exists>h \<in> set GetGrantType. ?m h = Some True \<and> prefix h g)"
    using matches_compact [OF assms(5), of ?m] by (simp add: SaveUserAcls_def case_prod_beta)
  have d: "g \<in> set (str_split CHR '' '' (discarded c u)) \<longleftrightarrow> g \<in> set (snd (GetCompactGrants ?m))"
  proof (cases "snd (GetCompactGrants ?m) = []")
    case True
    then show ?thesis using gt.plain [of g] assms(5) by (auto simp: discarded_def SaveUserAcls_def case_prod_beta)
  next
    case False
    then show ?thesis
      using str_split_join [OF False] gt.compact_plain(2) [of _ ?m]
      by (simp add: discarded_def SaveUserAcls_def case_prod_beta GetCompactGrants_def)
  qed
  have e: "discarded c u = '''' \<Longrightarrow> g \<notin> set (snd (GetCompactGrants ?m))"
    using d gt.plain [of g] assms(5) by auto
  show ?thesis
    using saved_discard [OF assms(3), of ord] assms(4,5) a d e r
    by (auto simp: loaded_user_def grants_discard_acls grants_assign_acls cong split: option.splits if_splits)
qed


definition acl_rules :: "string \<Rightarrow> (string \<times> string list) list" where
  "acl_rules name = (GrantGlobalSettings, settings_urls) # databases_rules @ proxies_rules @ cluster_rules name"

text \<open>
  C22: a URL is opened only to a known user who gave the right password or came through OpenID, and only when the URL is
  public or the user holds a grant that a rule of the access tables links to a part of the URL.
\<close>

theorem access_needs_grant:
  assumes "IsValidACL decrypt c u pass URL method"
  shows "\<exists>a. APIUsers c u = Some a \<and> (Password a = decrypt pass \<or> method = ''oidc'') \<and>
    (URL \<in> set (public_urls (Name c)) \<or>
     (\<exists>(g, parts) \<in> set (acl_rules (Name c)). Grants a g = Some True \<and> (\<exists>p \<in> set parts. sublist p URL)))"
proof -
  obtain a where a: "APIUsers c u = Some a" "Password a = decrypt pass \<or> method = ''oidc''" "IsURLPassACL c u URL"
    using assms by (auto simp: IsValidACL_def split: option.splits if_splits)
  have g: "granted c u g \<longleftrightarrow> Grants a g = Some True" for g by (simp add: granted_def user_grants_def a(1))
  have r: "\<exists>(g, parts) \<in> set (acl_rules (Name c)). Grants a g = Some True \<and> (\<exists>p \<in> set parts. sublist p URL)"
    if "rules_pass (granted c u) rules URL" "set rules \<subseteq> set (acl_rules (Name c))" for rules
    using that g by (fastforce simp: rules_pass_def list_ex_iff str_contains_iff)
  have s: "\<exists>(g, parts) \<in> set (acl_rules (Name c)). Grants a g = Some True \<and> (\<exists>p \<in> set parts. sublist p URL)"
    if "list_ex (str_contains URL) settings_urls" "granted c u GrantGlobalSettings"
    using that g by (auto simp: acl_rules_def list_ex_iff str_contains_iff)
  have "URL \<in> set (public_urls (Name c)) \<or>
      (\<exists>(g, parts) \<in> set (acl_rules (Name c)). Grants a g = Some True \<and> (\<exists>p \<in> set parts. sublist p URL))"
    using a(3) r [of databases_rules] r [of proxies_rules] r [of "cluster_rules (Name c)"] s
    unfolding IsURLPassACL_def IsURLPassDatabasesACL_def IsURLPassProxiesACL_def
    by (simp add: acl_rules_def split: if_splits) blast+
  with a show ?thesis by blast
qed

section \<open>Administration\<close>

lemma str_split_append: "str_split sep (s @ sep # t) = str_split sep s @ str_split sep t"
  by (induction s) (auto split: list.splits)

text \<open>The last entry of a list decides.\<close>

lemma allow_last:
  assumes "plain_name (Name c)" "plain_name u" "CHR '','' \<notin> set r" "CHR '','' \<notin> set g" "CHR '':'' \<notin> set g"
    and "s = acl_entry c u g r \<or> s = old @ '','' @ acl_entry c u g r"
  shows "\<exists>a. GetClusterUserAllowACLs c s u = Some a \<and> LACLs a = g"
proof -
  let ?e = "acl_entry c u g r"
  have e: "CHR '','' \<notin> set ?e" using assms(1-4) by (auto simp: acl_entry_def plain_name_def Let_def)
  obtain es where es: "str_split CHR '','' s = es @ [?e]"
  proof (cases "s = ?e")
    case True
    with that [of "[]"] e show thesis by (simp add: str_split_no_sep)
  next
    case False
    with that [of "str_split CHR '','' old"] e assms(6) show thesis by (simp add: str_split_append str_split_no_sep)
  qed
  have sp: "SplitAcls ?e = (u, g, Name c, r)" using assms(1,2,5) by (intro SplitAcls_entry) (auto simp: plain_name_def)
  have n: "Name c \<in> set (str_split CHR '' '' (Name c))" using assms(1) by (simp add: plain_name_def str_split_no_sep)
  have "?e \<noteq> ''''" by (simp add: acl_entry_def Let_def)
  then show ?thesis using n sp by (simp add: GetClusterUserAllowACLs_def es allow_entry_def Let_def)
qed

lemma filter_grants_plain: "CHR '','' \<notin> set (FilterGrants c s d)" "CHR '':'' \<notin> set (FilterGrants c s d)"
proof -
  define m where "m = (\<lambda>g. if Grants d g = Some False then Some False else Grants (SetUserGrants c new_user s) g)"
  have "set (FilterGrants c s d) \<subseteq> insert (CHR '' '') (\<Union>x \<in> set (fst (compact_all categories GrantShow m)). set x)"
    unfolding FilterGrants_def Let_def GetCompactGrants_def m_def by (rule set_str_join)
  moreover have "CHR '','' \<notin> set a" "CHR '':'' \<notin> set a" if "a \<in> set (fst (compact_all categories GrantShow m))" for a
    using gt.compact_plain(3,4) [of a m] that by auto
  ultimately show "CHR '','' \<notin> set (FilterGrants c s d)" "CHR '':'' \<notin> set (FilterGrants c s d)" by fastforce+
qed

text \<open>What a filtered request allows: what was asked for and not refused to the delegator, and what begins with such a name.\<close>

lemma filter_grants_expand:
  assumes "ClGrants c = GetGrantType" "g \<in> set GetGrantType"
  shows "matches (FilterGrants c s d) g \<longleftrightarrow> (\<exists>h \<in> set GetGrantType. matches s h \<and> Grants d h \<noteq> Some False \<and> prefix h g)"
proof -
  define m where "m = (\<lambda>g. if Grants d g = Some False then Some False else Grants (SetUserGrants c new_user s) g)"
  have "m h = Some True \<longleftrightarrow> matches s h \<and> Grants d h \<noteq> Some False" if "h \<in> set GetGrantType" for h
    using that assms(1) by (simp add: m_def grants_assigned new_user_def)
  then show ?thesis
    using matches_compact [OF assms(2), of m] by (auto simp: FilterGrants_def Let_def m_def)
qed

lemma added_user:
  assumes "AddUser ord decrypt pass form delegator True c = (None, c')" "delegator \<noteq> ''admin''" "APIUsers c delegator = Some d"
  obtains c1 where "granted c' v g = granted (LoadAPIUsers ord decrypt c1) v g" "Name c1 = Name c" "ClGrants c1 = ClGrants c"
    "APIUsersACLAllow c1 = APIUsersACLAllow c" "APIUsersACLDiscard c1 = APIUsersACLDiscard c"
    "APIUsersACLDiscardExternal c1 = APIUsersACLDiscardExternal c"
    "APIUsersACLAllowExternal c1 = acl_entry c1 (Username form) (FilterGrants c (FGrants form) d) (FRoles form) \<or>
     APIUsersACLAllowExternal c1 = APIUsersACLAllowExternal c @ '','' @ acl_entry c1 (Username form) (FilterGrants c (FGrants form) d) (FRoles form)"
    "ApiCredentialsExternal c1 = Username form @ '':'' @ pass \<or>
     ApiCredentialsExternal c1 = ApiCredentialsExternal c @ '','' @ Username form @ '':'' @ pass"
proof -
  let ?u = "Username form"
  define ext where "ext = (if ApiCredentialsExternal c = '''' then ?u @ '':'' @ pass else ApiCredentialsExternal c @ '','' @ ?u @ '':'' @ pass)"
  define e where "e = acl_entry c ?u (FilterGrants c (FGrants form) d) (FRoles form)"
  define allow where "allow = (if APIUsersACLAllowExternal c = '''' then e else APIUsersACLAllowExternal c @ '','' @ e)"
  define c1 where "c1 = c\<lparr>APIUsersExternal := ext, ApiCredentialsExternal := ext, APIUsersACLAllowExternal := allow\<rparr>"
  have "c' = reload ord decrypt True c1"
    using assms by (auto simp: AddUser_def delegated_def c1_def ext_def allow_def e_def Let_def split: if_splits)
  then have "granted c' v g = granted (LoadAPIUsers ord decrypt c1) v g"
    by (simp add: reload_def granted_def user_grants_def)
  then show thesis
    by (rule that [of c1]) (simp_all add: c1_def ext_def allow_def e_def acl_entry_def)
qed

lemma added_grants:
  assumes "AddUser ord decrypt pass form delegator True c = (None, c')" "delegator \<noteq> ''admin''" "APIUsers c delegator = Some d"
    and "ClGrants c = GetGrantType" "plain_name (Name c)" "plain_name (Username form)" "CHR '','' \<notin> set (FRoles form)"
    and "GetClusterUserAllowACLs c (APIUsersACLAllow c) (Username form) = None"
  shows "granted c' (Username form) g \<Longrightarrow>
      \<exists>h \<in> set GetGrantType. prefix h g \<and> matches (FGrants form) h \<and> Grants d h \<noteq> Some False"
    and "g \<in> set GetGrantType \<Longrightarrow> CHR '','' \<notin> set pass \<Longrightarrow>
      GetClusterUserDiscardACLs c (APIUsersACLDiscardExternal c) (Username form) = None \<Longrightarrow>
      \<exists>h \<in> set GetGrantType. prefix h g \<and> matches (FGrants form) h \<and> Grants d h \<noteq> Some False \<Longrightarrow>
      granted c' (Username form) g"
proof -
  let ?u = "Username form"
  obtain c1 where c1: "granted c' ?u g = granted (LoadAPIUsers ord decrypt c1) ?u g" "Name c1 = Name c" "ClGrants c1 = ClGrants c"
    "APIUsersACLAllow c1 = APIUsersACLAllow c" "APIUsersACLDiscard c1 = APIUsersACLDiscard c"
    "APIUsersACLDiscardExternal c1 = APIUsersACLDiscardExternal c"
    "APIUsersACLAllowExternal c1 = acl_entry c1 ?u (FilterGrants c (FGrants form) d) (FRoles form) \<or>
     APIUsersACLAllowExternal c1 = APIUsersACLAllowExternal c @ '','' @ acl_entry c1 ?u (FilterGrants c (FGrants form) d) (FRoles form)"
    "ApiCredentialsExternal c1 = ?u @ '':'' @ pass \<or> ApiCredentialsExternal c1 = ApiCredentialsExternal c @ '','' @ ?u @ '':'' @ pass"
    using added_user [OF assms(1-3), of ?u g] by blast
  obtain a where a: "GetClusterUserAllowACLs c1 (APIUsersACLAllowExternal c1) ?u = Some a" "LACLs a = FilterGrants c (FGrants form) d"
    using allow_last [of c1 ?u "FRoles form" "FilterGrants c (FGrants form) d"] c1(2,7) assms(5-7) filter_grants_plain by metis
  have b: "Grants (base_user c1 ?u) g \<noteq> Some True"
    using assms(8) c1(4) lookup_cong(1) [OF c1(2)]
    by (auto simp: base_user_def grants_discard_acls grants_assign_acls new_user_def split: option.splits if_splits)
  show "\<exists>h \<in> set GetGrantType. prefix h g \<and> matches (FGrants form) h \<and> Grants d h \<noteq> Some False" if g: "granted c' ?u g"
  proof -
    have "Grants (loaded_user c1 ?u) g = Some True"
      using g c1(1) by (simp add: granted_def loaded_grants split: if_splits)
    then have "g \<in> set GetGrantType \<and> matches (FilterGrants c (FGrants form) d) g"
      using a b c1(3) assms(4)
      by (auto simp: loaded_user_def grants_discard_acls grants_assign_acls split: option.splits if_splits)
    then show ?thesis using filter_grants_expand [OF assms(4)] by blast
  qed
  show "granted c' ?u g" if "g \<in> set GetGrantType" "CHR '','' \<notin> set pass"
    "GetClusterUserDiscardACLs c (APIUsersACLDiscardExternal c) ?u = None"
    "\<exists>h \<in> set GetGrantType. prefix h g \<and> matches (FGrants form) h \<and> Grants d h \<noteq> Some False"
  proof -
    have "?u @ '':'' @ pass \<in> set (credentials c1)"
      using c1(8) that(2) assms(6) by (auto simp: credentials_def str_split_append str_split_no_sep plain_name_def)
    moreover have "fst (SplitPair (?u @ '':'' @ pass)) = ?u"
      using assms(6) by (auto simp: SplitPair_def str_split_append_sep plain_name_def split: list.split)
    ultimately have "has_credential c1 ?u" by (force simp: has_credential_def list_ex_iff)
    moreover have "matches (FilterGrants c (FGrants form) d) g" using filter_grants_expand [OF assms(4)] that(1,4) by blast
    ultimately have "granted (LoadAPIUsers ord decrypt c1) ?u g"
      using a c1(3,6) assms(4) that(1,3) lookup_cong(2) [OF c1(2)]
      by (simp add: granted_def loaded_grants loaded_user_def grants_discard_acls grants_assign_acls)
    then show ?thesis by (simp only: c1(1))
  qed
qed

section \<open>Properties of the administration\<close>

text \<open>
  A user created by another user than the administrator gets only grants whose names begin with one that was asked
  for and that is not refused to the creator.
\<close>

theorem delegation_bounded:
  assumes "AddUser ord decrypt pass form delegator True c = (None, c')" "delegator \<noteq> ''admin''" "APIUsers c delegator = Some d"
    and "ClGrants c = GetGrantType" "plain_name (Name c)" "plain_name (Username form)" "CHR '','' \<notin> set (FRoles form)"
    and "GetClusterUserAllowACLs c (APIUsersACLAllow c) (Username form) = None" "granted c' (Username form) g"
  shows "\<exists>h \<in> set GetGrantType. prefix h g \<and> matches (FGrants form) h \<and> Grants d h \<noteq> Some False"
  by (rule added_grants(1) [OF assms])

text \<open>
  A creator who may create clusters but not monitors hands on both: the saved name of the first grant is a prefix of
  the second, and the list of refused grants is not saved for the new user.
\<close>

theorem delegation_escalates:
  assumes "AddUser ord decrypt pass form delegator True c = (None, c')" "delegator \<noteq> ''admin''" "APIUsers c delegator = Some d"
    and "ClGrants c = GetGrantType" "plain_name (Name c)" "plain_name (Username form)" "CHR '','' \<notin> set (FRoles form)" "CHR '','' \<notin> set pass"
    and "GetClusterUserAllowACLs c (APIUsersACLAllow c) (Username form) = None"
    and "GetClusterUserDiscardACLs c (APIUsersACLDiscardExternal c) (Username form) = None"
    and "Grants d GrantClusterCreate = Some True" "Grants d GrantClusterCreateMonitor = Some False" "FGrants form = GrantClusterCreate"
  shows "granted c' (Username form) GrantClusterCreateMonitor"
proof (rule added_grants(2) [OF assms(1-7,9)])
  show "GrantClusterCreateMonitor \<in> set GetGrantType" by (simp add: GetGrantType_def)
  have "GrantClusterCreate \<in> set GetGrantType" by (simp add: GetGrantType_def)
  moreover have "prefix GrantClusterCreate GrantClusterCreateMonitor" by simp
  moreover have "matches GrantClusterCreate GrantClusterCreate" by (simp add: matches_def)
  ultimately show "\<exists>h \<in> set GetGrantType. prefix h GrantClusterCreateMonitor \<and> matches (FGrants form) h \<and> Grants d h \<noteq> Some False"
    using assms(11,13) by (metis option.inject)
qed (use assms in auto)

text \<open>
  An update of a user cannot give back a grant that the saved lists refuse to the user: the refused grants are
  applied last and an update does not change them.
\<close>

theorem update_cannot_restore:
  assumes "UpdateUser ord decrypt form delegator True c = (None, c')"
    and "GetClusterUserDiscardACLs c (APIUsersACLDiscardExternal c) (Username form) = Some a" "g \<in> set (str_split CHR '' '' (LACLs a))"
  shows "\<not> granted c' (Username form) g"
proof -
  obtain s where "c' = reload ord decrypt True (c\<lparr>APIUsersACLAllowExternal := s\<rparr>)"
    using assms(1) by (auto simp: UpdateUser_def Let_def split: sum.splits if_splits)
  then have "granted c' (Username form) g = granted (LoadAPIUsers ord decrypt (c\<lparr>APIUsersACLAllowExternal := s\<rparr>)) (Username form) g"
    by (simp add: reload_def granted_def user_grants_def)
  then show ?thesis
    using assms(2,3) lookup_cong(2) [of "c\<lparr>APIUsersACLAllowExternal := s\<rparr>" c]
    by (simp add: granted_def loaded_grants loaded_user_def grants_discard_acls)
qed

text \<open>A dropped user comes back with the next load: the secret its credential is read from is not changed.\<close>

theorem dropped_user_returns:
  assumes "DropUser ord form b c = (None, c')" "has_credential c (Username form)"
  shows "APIUsers c' (Username form) = None \<and> APIUsers (LoadAPIUsers ord decrypt c') (Username form) \<noteq> None"
proof -
  let ?u = "Username form"
  have c': "credentials c' = credentials c" "APIUsers c' ?u = None"
    using assms(1) by (auto simp: DropUser_def Let_def credentials_def SaveAcls_def case_prod_beta split: if_splits)
  then show ?thesis
    using load_users [of ord decrypt c' "credentials c'" Map.empty ?u] assms(2)
    by (auto simp: LoadAPIUsers_def has_credential_def list_ex_iff)
qed

text \<open>Grants of the configuration file that were all revoked from a category come back with the next load.\<close>

theorem revoked_category_returns:
  assumes "ClGrants c = GetGrantType" "plain_name (Name c)" "\<And>v. CHR '','' \<notin> set (SaveUserRoles ord c v)"
    and "APIUsers c u \<noteq> None" "has_credential c u" "(n, gs) \<in> set categories" "g \<in> set gs"
    and "\<forall>h \<in> set gs. \<not> granted c u h" "Grants (base_user c u) g = Some True"
  shows "granted (LoadAPIUsers ord' decrypt (SaveAcls ord c)) u g"
proof -
  let ?m = "user_grants c u"
  have u: "u \<in> set (saved_users c)" using assms(4,5) by (auto simp: in_saved_users has_credential_def list_ex_iff)
  have g: "g \<in> set GetGrantType" using gt.named [OF assms(6,7)] by blast
  have "g \<notin> set (snd (GetCompactGrants ?m))"
  proof
    assume "g \<in> set (snd (GetCompactGrants ?m))"
    then obtain p where p: "p \<in> set categories" "g \<in> set (snd p)" "\<exists>h \<in> set (snd p). ?m h = Some True"
      using gt.single(2) [OF assms(6)] assms(7) g gt.name_free
      by (fastforce simp: GetCompactGrants_def gt.discard_members split: if_splits)
    have "snd p = gs" using gt.same_category [OF assms(6,7)] p(1,2) by (metis prod.collapse)
    with p(3) assms(8) show False by (auto simp: granted_def)
  qed
  then show ?thesis
    using reloaded_grants [OF assms(2,3) u assms(1) g] assms(5,9) by (simp add: granted_def loaded_grants)
qed

text \<open>Every grant a loaded user holds is in the grant table of the cluster; the grant that deletes clusters is not.\<close>

theorem loaded_grants_known:
  assumes "granted (LoadAPIUsers ord decrypt c) u g"
  shows "g \<in> set (ClGrants c)"
  using assms
  by (auto simp: granted_def loaded_grants loaded_user_def base_user_def grants_discard_acls grants_assign_acls new_user_def
      split: if_splits option.splits)

corollary delete_never_granted:
  "ClGrants c = GetGrantType \<Longrightarrow> \<not> granted (LoadAPIUsers ord decrypt c) u GrantClusterDelete"
proof
  have "GrantClusterDelete \<notin> set GetGrantType" by code_simp
  moreover assume "ClGrants c = GetGrantType" "granted (LoadAPIUsers ord decrypt c) u GrantClusterDelete"
  ultimately show False using loaded_grants_known [of ord decrypt c u GrantClusterDelete] by simp
qed

section \<open>Witnesses\<close>

definition table_order :: key_order where
  "table_order m = filter (\<lambda>r. m r \<noteq> None) GetRoleType"

text \<open>A cluster with a user who may create clusters and no monitors.\<close>

definition sample_user :: api_user where
  "sample_user = new_user\<lparr>User := ''bob'', Password := ''pw'', Grants := (\<lambda>g. Some (g = GrantClusterCreate))\<rparr>"

definition sample_acl :: acl where
  "sample_acl = \<lparr>Name = ''c1'', ClGrants = GetGrantType, ClRoles = GetRoleType, APIUsers = [''bob'' \<mapsto> sample_user],
     ApiCredentials = ''bob:pw'', ApiCredentialsExternal = '''', APIUsersExternal = '''', APIUsersACLAllow = '''',
     APIUsersACLDiscard = '''', APIUsersACLAllowExternal = ''bob:cluster-create:c1'',
     APIUsersACLDiscardExternal = ''bob:cluster-drop cluster-create-monitor'', Saves = 0\<rparr>"

definition sample_form :: user_form where
  "sample_form = \<lparr>Username = ''eve'', FPassword = '''', FRoles = '''', FGrants = GrantClusterCreate\<rparr>"

lemma sample_acl_facts:
  "has_credential sample_acl ''bob''" "plain_name (Name sample_acl)" "plain_name (Username sample_form)"
  "GetClusterUserAllowACLs sample_acl (APIUsersACLAllow sample_acl) ''bob'' = None"
  "GetClusterUserAllowACLs sample_acl (APIUsersACLAllow sample_acl) ''eve'' = None"
  "GetClusterUserDiscardACLs sample_acl (APIUsersACLDiscardExternal sample_acl) ''eve'' = None"
  "map_option LACLs (GetClusterUserDiscardACLs sample_acl (APIUsersACLDiscardExternal sample_acl) ''bob'') =
     Some ''cluster-drop cluster-create-monitor''"
  by code_simp+

lemma sample_roles: "CHR '','' \<notin> set (SaveUserRoles table_order sample_acl v)"
  by (simp add: SaveUserRoles_def sample_acl_def sample_user_def new_user_def table_order_def Let_def)

lemma sample_delegated: "\<exists>c'. AddUser table_order (\<lambda>p. p) ''x'' sample_form ''bob'' True sample_acl = (None, c')"
  by (simp add: AddUser_def delegated_def sample_acl_def sample_form_def Let_def)


theorem access_needs_grant_witness:
  "\<exists>a. APIUsers sample_acl ''bob'' = Some a \<and> (Password a = ''pw'' \<or> ''password'' = ''oidc'')"
proof -
  have "IsValidACL (\<lambda>p. p) sample_acl ''bob'' ''pw'' ''/api/clusters/actions/add/c2'' ''password''" by code_simp
  from access_needs_grant [OF this] show ?thesis by blast
qed

theorem delegation_escalates_witness:
  "\<exists>c'. AddUser table_order (\<lambda>p. p) ''x'' sample_form ''bob'' True sample_acl = (None, c') \<and> granted c' ''eve'' GrantClusterCreateMonitor"
proof -
  obtain c' where c': "AddUser table_order (\<lambda>p. p) ''x'' sample_form ''bob'' True sample_acl = (None, c')"
    using sample_delegated by blast
  have "granted c' (Username sample_form) GrantClusterCreateMonitor"
    by (rule delegation_escalates [OF c', of sample_user])
      (use sample_acl_facts in \<open>simp_all add: sample_acl_def sample_user_def sample_form_def new_user_def\<close>)
  with c' show ?thesis by (simp add: sample_form_def)
qed

theorem delegation_bounded_witness:
  "\<exists>c'. AddUser table_order (\<lambda>p. p) ''x'' sample_form ''bob'' True sample_acl = (None, c') \<and>
     (\<exists>h \<in> set GetGrantType. prefix h GrantClusterCreate \<and> matches GrantClusterCreate h \<and> Grants sample_user h \<noteq> Some False)"
proof -
  obtain c' where c': "AddUser table_order (\<lambda>p. p) ''x'' sample_form ''bob'' True sample_acl = (None, c')"
    using sample_delegated by blast
  have h: "APIUsers sample_acl ''bob'' = Some sample_user" "''bob'' \<noteq> ''admin''" "ClGrants sample_acl = GetGrantType"
    "CHR '','' \<notin> set (FRoles sample_form)" "GetClusterUserAllowACLs sample_acl (APIUsersACLAllow sample_acl) (Username sample_form) = None"
    using sample_acl_facts(5) by (simp_all add: sample_acl_def sample_form_def)
  have "granted c' (Username sample_form) GrantClusterCreate"
    by (rule added_grants(2) [OF c' h(2,1,3) sample_acl_facts(2,3) h(4,5)])
      (use sample_acl_facts(6) in \<open>auto simp: sample_form_def GetGrantType_def matches_def sample_user_def intro!: bexI [of _ GrantClusterCreate]\<close>)
  from delegation_bounded [OF c' h(2,1,3) sample_acl_facts(2,3) h(4,5) this] c' show ?thesis by (simp add: sample_form_def)
qed

theorem update_cannot_restore_witness:
  "\<exists>c'. UpdateUser table_order (\<lambda>p. p) (sample_form\<lparr>Username := ''bob'', FGrants := ''cluster-drop''\<rparr>) ''admin'' True sample_acl = (None, c') \<and>
     \<not> granted c' ''bob'' GrantClusterDrop"
proof -
  let ?f = "sample_form\<lparr>Username := ''bob'', FGrants := ''cluster-drop''\<rparr>"
  obtain c' where c': "UpdateUser table_order (\<lambda>p. p) ?f ''admin'' True sample_acl = (None, c')"
    by (simp add: UpdateUser_def delegated_def sample_acl_def Let_def)
  obtain a where a: "GetClusterUserDiscardACLs sample_acl (APIUsersACLDiscardExternal sample_acl) (Username ?f) = Some a"
    "LACLs a = ''cluster-drop cluster-create-monitor''"
    using sample_acl_facts(7) by auto
  have "\<not> granted c' (Username ?f) GrantClusterDrop"
    by (rule update_cannot_restore [OF c' a(1)]) (simp add: a(2))
  with c' show ?thesis by auto
qed

end
