(* ===== verification/ProxySQL.thy ===== *)
theory ProxySQL
  imports Topology
begin

text \<open>
  The ProxySQL backend of a cluster: the statements sent to its admin interface
  (\<open>src/router/proxysql/proxysql.go\<close>) and the operations of \<open>src/cluster/prx_proxysql.go\<close> built from them: the
  bootstrap, the switch of the writer at a failover, the refresh of every monitoring round and the maintenance flag.

  ProxySQL is an external service. Its admin table \<open>mysql_servers\<close> is a list of rows with the key (hostgroup, host,
  port), and the statements the code sends have their SQL meaning on it. Everything else is an answer of the
  environment: whether a connection opens, whether a statement is refused, the column defaults, the contents of the
  connection pool statistics, the users, rules and variables. \<open>None\<close> of an operation is a run-time panic.
\<close>

section \<open>The admin table and its statements\<close>

record mysql_server =
  r_hostgroup_id :: int
  r_hostname :: string
  r_port :: string
  r_gtid_port :: string
  r_status :: string
  r_weight :: string
  r_compression :: string
  r_max_connections :: string
  r_max_replication_lag :: string
  r_use_ssl :: string
  r_max_latency_ms :: string

definition row_key :: "mysql_server \<Rightarrow> int \<times> string \<times> string" where
  "row_key r = (r_hostgroup_id r, r_hostname r, r_port r)"

definition set_column :: "string \<times> string \<Rightarrow> mysql_server \<Rightarrow> mysql_server" where
  "set_column cv r =
     (let c = fst cv; v = snd cv
      in if c = ''weight'' then r\<lparr>r_weight := v\<rparr>
         else if c = ''max_replication_lag'' then r\<lparr>r_max_replication_lag := v\<rparr>
         else if c = ''max_connections'' then r\<lparr>r_max_connections := v\<rparr>
         else if c = ''compression'' then r\<lparr>r_compression := v\<rparr>
         else if c = ''use_ssl'' then r\<lparr>r_use_ssl := v\<rparr>
         else r)"

text \<open>
  The statements, by their shape: an update of status and hostgroup of the rows of one backend in some hostgroups, a
  deletion, a replacement with explicit columns, the copy of a backend from one hostgroup to another, and the statements that do not touch the table, with their literal text and arguments.
\<close>

datatype sql =
    Update "string option" "int option" string string "int list"
  | Delete int "(string \<times> string) option"
  | Replace int string string "(string \<times> string) list"
  | CopyGroup int int string string
  | ReplaceUser string string int
  | ReplaceHostgroups int int string
  | Admin string "int list"

definition hit :: "string \<Rightarrow> string \<Rightarrow> int list \<Rightarrow> mysql_server \<Rightarrow> bool" where
  "hit h p hgs r \<longleftrightarrow> r_hostname r = h \<and> r_port r = p \<and> r_hostgroup_id r \<in> set hgs"

definition assign :: "string option \<Rightarrow> int option \<Rightarrow> mysql_server \<Rightarrow> mysql_server" where
  "assign st hg r =
     r\<lparr>r_status := (case st of None \<Rightarrow> r_status r | Some s \<Rightarrow> s),
       r_hostgroup_id := (case hg of None \<Rightarrow> r_hostgroup_id r | Some g \<Rightarrow> g)\<rparr>"

definition new_row :: "mysql_server \<Rightarrow> int \<Rightarrow> string \<Rightarrow> string \<Rightarrow> (string \<times> string) list \<Rightarrow> mysql_server" where
  "new_row dflt hg h p cols = fold set_column cols (dflt\<lparr>r_hostgroup_id := hg, r_hostname := h, r_port := p\<rparr>)"

definition put_row :: "mysql_server list \<Rightarrow> mysql_server \<Rightarrow> mysql_server list" where
  "put_row t r = filter (\<lambda>q. row_key q \<noteq> row_key r) t @ [r]"

text \<open>\<open>None\<close>: the statement would break the key of the table, and is refused as a whole.\<close>

fun effect :: "mysql_server \<Rightarrow> sql \<Rightarrow> mysql_server list \<Rightarrow> mysql_server list option" where
  "effect dflt (Update st hg h p hgs) t =
     (let t' = map (\<lambda>r. if hit h p hgs r then assign st hg r else r) t
      in if distinct (map row_key t') then Some t' else None)"
| "effect dflt (Delete hg hp) t =
     Some (filter (\<lambda>r. \<not> (r_hostgroup_id r = hg \<and>
       (case hp of None \<Rightarrow> True | Some (h, p) \<Rightarrow> r_hostname r = h \<and> r_port r = p))) t)"
| "effect dflt (Replace hg h p cols) t = Some (put_row t (new_row dflt hg h p cols))"
| "effect dflt (CopyGroup to from h p) t =
     Some (fold (\<lambda>r t'. put_row t' (r\<lparr>r_hostgroup_id := to\<rparr>)) (filter (hit h p [from]) t) t)"
| "effect dflt (ReplaceUser u w g) t = Some t"
| "effect dflt (ReplaceHostgroups w r c) t = Some t"
| "effect dflt (Admin txt args) t = Some t"

section \<open>The admin interface\<close>

text \<open>The admin database: the table, the copy handed over by the last \<open>LOAD MYSQL SERVERS TO RUNTIME\<close>, and every
  statement received.\<close>

record admin_db =
  servers :: "mysql_server list"
  loaded :: "mysql_server list"
  received :: "sql list"

record pool_row =
  p_hostgroup :: string
  p_status :: string
  p_conn_used :: int
  p_byte_out :: int
  p_byte_in :: int
  p_latency :: int

record admin_env =
  AdminConnect :: "string option"
    \<comment> \<open>the error of the connection; \<open>None\<close>: it opens\<close>
  Refused :: "admin_db \<Rightarrow> sql \<Rightarrow> string option"
    \<comment> \<open>the error with which a statement fails before it is run\<close>
  KeyError :: string
    \<comment> \<open>the error of a statement that would break the key\<close>
  DefaultRow :: mysql_server
    \<comment> \<open>the column defaults of \<open>mysql_servers\<close>\<close>
  SelectFails :: "admin_db \<Rightarrow> bool"
  Pool :: "admin_db \<Rightarrow> int \<Rightarrow> string \<Rightarrow> string \<Rightarrow> pool_row \<times> string option"
    \<comment> \<open>a row of \<open>stats_mysql_connection_pool\<close>, and the error when it cannot be read or there is none\<close>
  VersionAnswer :: "admin_db \<Rightarrow> string"
  RulesAnswer :: "admin_db \<Rightarrow> string list \<times> string option"
  VariablesAnswer :: "admin_db \<Rightarrow> (string \<Rightarrow> string) \<times> string option"
  ProxyUsers :: "admin_db \<Rightarrow> string list \<times> string option"
    \<comment> \<open>the keys \<open>user:password\<close> of \<open>mysql_users\<close>, and the error\<close>
  Grants :: "sid \<Rightarrow> (string \<times> string) list"
    \<comment> \<open>user and password of the accounts of a database, in the order of the map iteration\<close>
  MapOrder :: "(string \<times> string \<times> string) list \<Rightarrow> (string \<times> string \<times> string) list"
    \<comment> \<open>the order in which the map of unique users is iterated\<close>
  DbUserName :: string

definition is_load :: "sql \<Rightarrow> bool" where
  "is_load q \<longleftrightarrow> (case q of Admin txt _ \<Rightarrow> txt = ''LOAD MYSQL SERVERS TO RUNTIME'' | _ \<Rightarrow> False)"

definition exec :: "admin_env \<Rightarrow> sql \<Rightarrow> admin_db \<Rightarrow> string option \<times> admin_db" where
  "exec E q d =
     (let d1 = d\<lparr>received := received d @ [q]\<rparr>
      in case Refused E d q of
           Some e \<Rightarrow> (Some e, d1)
         | None \<Rightarrow>
             (case effect (DefaultRow E) q (servers d) of
                None \<Rightarrow> (Some (KeyError E), d1)
              | Some t \<Rightarrow> (None, d1\<lparr>servers := t, loaded := (if is_load q then t else loaded d)\<rparr>)))"

section \<open>The proxy and its settings\<close>

record backend =
  BHost :: string
  BPort :: string
  BStatus :: string
  PrxName :: string
  PrxStatus :: string
  PrxConnections :: string
  PrxHostgroup :: string
  PrxByteOut :: string
  PrxByteIn :: string
  PrxLatency :: string

record proxysql_proxy =
  PName :: string
  PHost :: string
  PPort :: string
  PWeight :: string
  PVersion :: string
  WriterHostgroup :: int
  ReaderHostgroup :: int
  BackendsWrite :: "backend list"
  BackendsRead :: "backend list"
  QueryRules :: "string list"
  PVariables :: "string \<Rightarrow> string"
  ProxysqlHostgroup :: "sid \<Rightarrow> string"
    \<comment> \<open>the field of the same name of each server; only this proxy writes it\<close>

record proxysql_conf =
  ProxysqlOn :: bool
  ProxysqlBootstrap :: bool
  ProxysqlBootstrapHG :: bool
  ProxysqlBootstrapVariables :: bool
  ProxysqlSaveToDisk :: bool
  ProxysqlMultiplexing :: bool
  ProxysqlCopyGrants :: bool
  MonitorWriteHeartbeatCredential :: string
  PRXServersBackendMaxReplicationLag :: int
  PRXServersBackendMaxConnections :: int
  PRXServersBackendCompression :: bool
  PRXServersReadOnMaster :: bool
  PRXServersReadOnMasterNoSlave :: bool
  ProvProxTags :: string
  DBTags :: "string list"

abbreviation "HG_OFFLINE \<equiv> (666 :: int)"

definition ProxyTags :: "proxysql_conf \<Rightarrow> string list" where
  "ProxyTags C = str_split (CHR '','') (ProvProxTags C)"

definition IsFilterInProxyTags :: "proxysql_conf \<Rightarrow> string \<Rightarrow> bool" where
  "IsFilterInProxyTags C filt = list_ex (\<lambda>tag. suffix tag filt) (ProxyTags C)"

definition HasProxyReadLeader :: "proxysql_conf \<Rightarrow> bool" where
  "HasProxyReadLeader C \<longleftrightarrow>
     (if IsFilterInProxyTags C ''readonmaster'' then True else PRXServersReadOnMaster C)"

definition HasProxyReadLeaderNoSlave :: "proxysql_conf \<Rightarrow> bool" where
  "HasProxyReadLeaderNoSlave C \<longleftrightarrow>
     (if IsFilterInProxyTags C ''readonmasternoslave'' then True else PRXServersReadOnMasterNoSlave C)"

definition UseSSL :: "proxysql_conf \<Rightarrow> string" where
  "UseSSL C = (if ''ssl'' \<in> set (DBTags C) then ''1'' else ''0'')"

definition GetURL :: "proxysql_proxy \<Rightarrow> string" where
  "GetURL P = PHost P @ '':'' @ PPort P"

section \<open>Statements of the router\<close>

text \<open>The operations of \<open>proxysql.go\<close>, for the hostgroups of a proxy.\<close>

type_synonym psql_op = "admin_db \<Rightarrow> string option \<times> admin_db"

definition AddHostgroups :: "admin_env \<Rightarrow> proxysql_proxy \<Rightarrow> string \<Rightarrow> psql_op" where
  "AddHostgroups E P name = exec E (ReplaceHostgroups (WriterHostgroup P) (ReaderHostgroup P) name)"

definition AddServerAsReader ::
  "admin_env \<Rightarrow> proxysql_proxy \<Rightarrow> string \<Rightarrow> string \<Rightarrow> string \<Rightarrow> string \<Rightarrow> string \<Rightarrow> string \<Rightarrow> string \<Rightarrow> psql_op" where
  "AddServerAsReader E P h p weight lag conns compression ssl =
     exec E (Replace (ReaderHostgroup P) h p
       [(''weight'', weight), (''max_replication_lag'', lag), (''max_connections'', conns),
        (''compression'', compression), (''use_ssl'', ssl)])"

definition AddServerAsWriter :: "admin_env \<Rightarrow> proxysql_proxy \<Rightarrow> string \<Rightarrow> string \<Rightarrow> string \<Rightarrow> psql_op" where
  "AddServerAsWriter E P h p ssl =
     exec E (Replace (WriterHostgroup P) h p [(''use_ssl'', ssl), (''weight'', PWeight P)])"

definition AddOfflineServer :: "admin_env \<Rightarrow> proxysql_proxy \<Rightarrow> string \<Rightarrow> string \<Rightarrow> string \<Rightarrow> psql_op" where
  "AddOfflineServer E P h p ssl = exec E (Replace HG_OFFLINE h p [(''use_ssl'', ssl)])"

definition SetOffline :: "admin_env \<Rightarrow> proxysql_proxy \<Rightarrow> string \<Rightarrow> string \<Rightarrow> psql_op" where
  "SetOffline E P h p = exec E (Update None (Some HG_OFFLINE) h p [WriterHostgroup P])"

definition ExistAsWriterOrOffline :: "admin_env \<Rightarrow> proxysql_proxy \<Rightarrow> string \<Rightarrow> string \<Rightarrow> admin_db \<Rightarrow> bool" where
  "ExistAsWriterOrOffline E P h p d \<longleftrightarrow>
     \<not> SelectFails E d \<and> list_ex (hit h p [HG_OFFLINE, WriterHostgroup P]) (servers d)"

definition SetOnline :: "admin_env \<Rightarrow> proxysql_proxy \<Rightarrow> string \<Rightarrow> string \<Rightarrow> psql_op" where
  "SetOnline E P h p = exec E (Update None (Some (WriterHostgroup P)) h p [HG_OFFLINE])"

definition SetOfflineSoft :: "admin_env \<Rightarrow> proxysql_proxy \<Rightarrow> string \<Rightarrow> string \<Rightarrow> psql_op" where
  "SetOfflineSoft E P h p =
     exec E (Update (Some ''OFFLINE_SOFT'') None h p [ReaderHostgroup P, WriterHostgroup P])"

definition SetOnlineSoft :: "admin_env \<Rightarrow> proxysql_proxy \<Rightarrow> string \<Rightarrow> string \<Rightarrow> psql_op" where
  "SetOnlineSoft E P h p =
     exec E (Update (Some ''ONLINE'') None h p [ReaderHostgroup P, WriterHostgroup P])"

definition SetWriter :: "admin_env \<Rightarrow> proxysql_proxy \<Rightarrow> string \<Rightarrow> string \<Rightarrow> psql_op" where
  "SetWriter E P h p =
     exec E (Update (Some ''ONLINE'') (Some (WriterHostgroup P)) h p [ReaderHostgroup P, WriterHostgroup P])"

definition DeleteAllWriters :: "admin_env \<Rightarrow> proxysql_proxy \<Rightarrow> psql_op" where
  "DeleteAllWriters E P = exec E (Delete (WriterHostgroup P) None)"

definition SetReader :: "admin_env \<Rightarrow> proxysql_proxy \<Rightarrow> string \<Rightarrow> string \<Rightarrow> psql_op" where
  "SetReader E P h p =
     exec E (Update (Some ''ONLINE'') (Some (ReaderHostgroup P)) h p [ReaderHostgroup P, WriterHostgroup P])"

definition DropReader :: "admin_env \<Rightarrow> proxysql_proxy \<Rightarrow> string \<Rightarrow> string \<Rightarrow> psql_op" where
  "DropReader E P h p = exec E (Delete (ReaderHostgroup P) (Some (h, p)))"

definition DropWriter :: "admin_env \<Rightarrow> proxysql_proxy \<Rightarrow> string \<Rightarrow> string \<Rightarrow> psql_op" where
  "DropWriter E P h p = exec E (Delete (WriterHostgroup P) (Some (h, p)))"

definition CopyReaderToWriter :: "admin_env \<Rightarrow> proxysql_proxy \<Rightarrow> string \<Rightarrow> string \<Rightarrow> psql_op" where
  "CopyReaderToWriter E P h p = exec E (CopyGroup (WriterHostgroup P) (ReaderHostgroup P) h p)"

definition psql_then :: "psql_op \<Rightarrow> psql_op \<Rightarrow> psql_op" where
  "psql_then f g d = (case f d of (Some e, d1) \<Rightarrow> (Some e, d1) | (None, d1) \<Rightarrow> g d1)"

definition ReplaceWriter ::
  "admin_env \<Rightarrow> proxysql_proxy \<Rightarrow> string \<Rightarrow> string \<Rightarrow> string \<Rightarrow> string \<Rightarrow> bool \<Rightarrow> psql_op" where
  "ReplaceWriter E P h p oldh oldp masterasreader =
     (if masterasreader then psql_then (DeleteAllWriters E P) (CopyReaderToWriter E P h p)
      else psql_then (SetReader E P oldh oldp) (SetWriter E P h p))"

definition GetStatsForHostRead :: "admin_env \<Rightarrow> proxysql_proxy \<Rightarrow> string \<Rightarrow> string \<Rightarrow> admin_db \<Rightarrow> pool_row \<times> string option" where
  "GetStatsForHostRead E P h p d = Pool E d (ReaderHostgroup P) h p"

definition GetStatsForHostWrite :: "admin_env \<Rightarrow> proxysql_proxy \<Rightarrow> string \<Rightarrow> string \<Rightarrow> admin_db \<Rightarrow> pool_row \<times> string option" where
  "GetStatsForHostWrite E P h p d = Pool E d (WriterHostgroup P) h p"

definition PSQL_AddUser :: "admin_env \<Rightarrow> proxysql_proxy \<Rightarrow> string \<Rightarrow> string \<Rightarrow> psql_op" where
  "PSQL_AddUser E P user pass =
     psql_then (exec E (ReplaceUser user pass (WriterHostgroup P))) (exec E (Admin ''LOAD MYSQL USERS TO RUNTIME'' []))"

definition LoadServersToRuntime :: "admin_env \<Rightarrow> psql_op" where
  "LoadServersToRuntime E = exec E (Admin ''LOAD MYSQL SERVERS TO RUNTIME'' [])"

definition SaveServersToDisk :: "admin_env \<Rightarrow> psql_op" where
  "SaveServersToDisk E = exec E (Admin ''SAVE MYSQL SERVERS TO DISK'' [])"

definition SaveMySQLUsersToDisk :: "admin_env \<Rightarrow> psql_op" where
  "SaveMySQLUsersToDisk E = exec E (Admin ''SAVE MYSQL USERS TO DISK'' [])"

definition LoadMySQLVariablesToRuntime :: "admin_env \<Rightarrow> psql_op" where
  "LoadMySQLVariablesToRuntime E = exec E (Admin ''LOAD MYSQL VARIABLES TO RUNTIME'' [])"

definition SaveMySQLVariablesToDisk :: "admin_env \<Rightarrow> psql_op" where
  "SaveMySQLVariablesToDisk E = exec E (Admin ''SAVE MYSQL VARIABLES TO DISK'' [])"

definition quoted :: "string \<Rightarrow> string" where
  "quoted s = [CHR 0x27] @ s @ [CHR 0x27]"

definition SetMySQLVariable :: "admin_env \<Rightarrow> string \<Rightarrow> string \<Rightarrow> psql_op" where
  "SetMySQLVariable E var val =
     exec E (Admin (''UPDATE  global_variables SET Variable_value='' @ quoted val @ ''  WHERE Variable_name='' @ quoted var @ '' '') [])"

text \<open>The statement is sent as it is written, with the verb in it and the value as an argument.\<close>

definition SetMonitorIsAlsoWriter :: "admin_env \<Rightarrow> bool \<Rightarrow> psql_op" where
  "SetMonitorIsAlsoWriter E v = exec E (Admin ''SET mysql-monitor_writer_is_also_reader = %d'' [if v then 1 else 0])"

section \<open>Servers as backends\<close>

definition IsLeader :: "cluster \<Rightarrow> sid \<Rightarrow> bool" where
  "IsLeader cs i \<longleftrightarrow>
     (if State (srv cs i) = stateMaster then True
      else vmaster cs \<noteq> None \<and> State (srv cs i) = stateWsrep \<and> vmaster cs = Some i)"

definition IsSlaveOrSync :: "cluster \<Rightarrow> sid \<Rightarrow> bool" where
  "IsSlaveOrSync cs i \<longleftrightarrow>
     (if State (srv cs i) = stateWsrep then \<not> IsLeader cs i else IsSlave (srv cs i))"

definition HasNoValidSlave :: "cluster \<Rightarrow> bool" where
  "HasNoValidSlave cs \<longleftrightarrow>
     (if Topology cs = TopoActivePassive then True
      else if IsInState ''ERR00010'' (StateMachine cs) then True
      else IsInState ''ERR00085'' (StateMachine cs))"

definition stats_backend :: "server \<Rightarrow> pool_row \<Rightarrow> backend" where
  "stats_backend s r =
     \<lparr>BHost = Host s, BPort = Port s, BStatus = State s, PrxName = URL s, PrxStatus = p_status r,
      PrxConnections = dec_int (p_conn_used r), PrxHostgroup = p_hostgroup r, PrxByteOut = dec_int (p_byte_in r),
      PrxByteIn = dec_int (p_byte_out r), PrxLatency = dec_int (p_latency r)\<rparr>"

definition HasAvailableReader :: "proxysql_proxy \<Rightarrow> bool" where
  "HasAvailableReader P \<longleftrightarrow> list_ex (\<lambda>b. PrxStatus b = ''ONLINE'') (BackendsRead P)"

definition CountAvailableReaders :: "proxysql_proxy \<Rightarrow> nat" where
  "CountAvailableReaders P = length (filter (\<lambda>b. PrxStatus b = ''ONLINE'') (BackendsRead P))"

text \<open>The comparison dereferences the master, for every backend.\<close>

definition HasLeaderInReader :: "cluster \<Rightarrow> proxysql_proxy \<Rightarrow> bool option" where
  "HasLeaderInReader cs P =
     (case master cs of
        None \<Rightarrow> if BackendsRead P = [] then Some False else None
      | Some m \<Rightarrow> Some (list_ex (\<lambda>b. BHost b = Host (srv cs m) \<and> BPort b = Port (srv cs m) \<and> PrxStatus b = ''ONLINE'')
                          (BackendsRead P)))"

section \<open>State of a run\<close>

record psx =
  PC :: cluster
  PP :: proxysql_proxy
  PD :: admin_db

definition on_pc :: "(cluster \<Rightarrow> cluster) \<Rightarrow> psx \<Rightarrow> psx" where
  "on_pc f X = X\<lparr>PC := f (PC X)\<rparr>"

text \<open>One call to the router, and what the code does with its error.\<close>

definition psql_do :: "psql_op \<Rightarrow> (string \<Rightarrow> cluster \<Rightarrow> cluster) \<Rightarrow> psx \<Rightarrow> psx" where
  "psql_do f report X =
     (case f (PD X) of
        (None, d) \<Rightarrow> X\<lparr>PD := d\<rparr>
      | (Some e, d) \<Rightarrow> X\<lparr>PD := d, PC := report e (PC X)\<rparr>)"

abbreviation logged :: "string \<Rightarrow> cluster \<Rightarrow> cluster" where
  "logged \<equiv> \<lambda>_ c. c"

definition prx_state :: "string \<Rightarrow> fmt_arg list \<Rightarrow> psx \<Rightarrow> cluster \<Rightarrow> cluster" where
  "prx_state key args X = set_state key ''WARNING'' args ''PRX'' (PName (PP X))"

definition mon_state :: "string \<Rightarrow> fmt_arg list \<Rightarrow> psx \<Rightarrow> cluster \<Rightarrow> cluster" where
  "mon_state key args X = set_state key ''WARNING'' args ''MON'' (PName (PP X))"

definition connection_state :: "string \<Rightarrow> cluster \<Rightarrow> cluster" where
  "connection_state e = set_state ''ERR00051'' ''ERROR'' [FS e] ''MON'' ''''"

definition host_of :: "sid \<Rightarrow> psx \<Rightarrow> string" where
  "host_of i X = Unbracket (Host (srv (PC X) i))"

definition port_of :: "sid \<Rightarrow> psx \<Rightarrow> string" where
  "port_of i X = Port (srv (PC X) i)"

definition add_reader :: "admin_env \<Rightarrow> proxysql_conf \<Rightarrow> sid \<Rightarrow> psx \<Rightarrow> psx" where
  "add_reader E C i X =
     psql_do (AddServerAsReader E (PP X) (host_of i X) (port_of i X) ''1'' (dec_int (PRXServersBackendMaxReplicationLag C))
       (dec_int (PRXServersBackendMaxConnections C)) (dec_int (if PRXServersBackendCompression C then 1 else 0)) (UseSSL C))
       logged X"

definition add_writer :: "admin_env \<Rightarrow> proxysql_conf \<Rightarrow> (string \<Rightarrow> cluster \<Rightarrow> cluster) \<Rightarrow> sid \<Rightarrow> psx \<Rightarrow> psx" where
  "add_writer E C report i X = psql_do (AddServerAsWriter E (PP X) (host_of i X) (port_of i X) (UseSSL C)) report X"

section \<open>Bootstrap\<close>

definition init_server :: "admin_env \<Rightarrow> proxysql_conf \<Rightarrow> sid \<Rightarrow> psx \<Rightarrow> psx" where
  "init_server E C i X =
     (let s = srv (PC X) i
      in if State s = stateUnconn \<or> IsIgnored s then
           psql_do (AddOfflineServer E (PP X) (host_of i X) (port_of i X) (UseSSL C)) logged X
         else if IsLeader (PC X) i then
           (let X1 = add_writer E C logged i X
            in if HasProxyReadLeader C then add_reader E C i X1 else X1)
         else if State s = stateSlave then add_reader E C i X
         else X)"

definition save_if_set :: "admin_env \<Rightarrow> proxysql_conf \<Rightarrow> psx \<Rightarrow> psx" where
  "save_if_set E C X = (if ProxysqlSaveToDisk C then psql_do (SaveServersToDisk E) logged X else X)"

definition Proxysql_Init :: "admin_env \<Rightarrow> proxysql_conf \<Rightarrow> psx \<Rightarrow> psx" where
  "Proxysql_Init E C X =
     (if \<not> ProxysqlBootstrap C \<or> \<not> ProxysqlOn C then X
      else case AdminConnect E of
          Some e \<Rightarrow> on_pc (connection_state e) X
        | None \<Rightarrow>
            (let X1 = (if ProxysqlBootstrapHG C then psql_do (AddHostgroups E (PP X) (CName (PC X))) logged X else X);
                 X2 = fold (init_server E C) (Servers (PC X1)) X1
             in save_if_set E C (psql_do (LoadServersToRuntime E) logged X2)))"

section \<open>Failover\<close>

definition failover_offline :: "admin_env \<Rightarrow> sid \<Rightarrow> psx \<Rightarrow> psx" where
  "failover_offline E i X =
     (if State (srv (PC X) i) = stateUnconn \<or> IsIgnored (srv (PC X) i)
      then psql_do (SetOffline E (PP X) (host_of i X) (port_of i X)) logged X else X)"

definition failover_writer :: "admin_env \<Rightarrow> proxysql_conf \<Rightarrow> sid \<Rightarrow> psx \<Rightarrow> psx" where
  "failover_writer E C i X =
     (case oldMaster (PC X) of
        None \<Rightarrow> X
      | Some o1 \<Rightarrow>
          if IsMaster (PC X) (srv (PC X) i) \<and> \<not> IsRelay (srv (PC X) i)
          then psql_do (ReplaceWriter E (PP X) (host_of i X) (port_of i X) (host_of o1 X) (port_of o1 X)
                 (HasProxyReadLeader C)) logged X
          else X)"

definition Proxysql_Failover :: "admin_env \<Rightarrow> proxysql_conf \<Rightarrow> psx \<Rightarrow> psx" where
  "Proxysql_Failover E C X =
     (case AdminConnect E of
        Some e \<Rightarrow> on_pc (connection_state e) X
      | None \<Rightarrow>
          (let X1 = fold (\<lambda>i Y. failover_writer E C i (failover_offline E i Y)) (Servers (PC X)) X
           in save_if_set E C (psql_do (LoadServersToRuntime E) logged X1)))"

section \<open>Maintenance\<close>

definition Proxysql_SetMaintenance :: "admin_env \<Rightarrow> proxysql_conf \<Rightarrow> sid \<Rightarrow> psx \<Rightarrow> psx" where
  "Proxysql_SetMaintenance E C i X =
     (if \<not> ProxysqlOn C then X
      else case AdminConnect E of
          Some e \<Rightarrow> on_pc (connection_state e) X
        | None \<Rightarrow>
            psql_do (LoadServersToRuntime E) logged
              (psql_do ((if IsMaintenance (srv (PC X) i) then SetOfflineSoft else SetOnlineSoft)
                 E (PP X) (host_of i X) (port_of i X)) logged X))"

section \<open>Refresh\<close>

text \<open>
  What one round decides for a server, the branches of the chain in their order. The decision reads the two pool rows of
  the server, its state in the cluster, and the backends of the last round. \<open>None\<close> is the panic of
  \<open>HasLeaderInReader\<close>.
\<close>

datatype repair =
    RejoinReader
  | MaintenanceSoft
  | WriterOffline
  | ReaderOffline
  | LeaderOnline
  | AddLeaderReader
  | DropLeaderReader
  | ReturnReader
  | AddSlaveReader
  | DropSlaveWriter
  | Nothing

text \<open>The state of the two pool rows: status and presence as writer, status and presence as reader.\<close>

record pool_view =
  wr_status :: string
  is_writer :: bool
  rd_status :: string
  is_reader :: bool

definition leader_should_read :: "proxysql_conf \<Rightarrow> cluster \<Rightarrow> proxysql_proxy \<Rightarrow> bool" where
  "leader_should_read C cs P \<longleftrightarrow>
     HasProxyReadLeader C \<or> HasProxyReadLeaderNoSlave C \<and> (HasNoValidSlave cs \<or> \<not> HasAvailableReader P)"

definition leader_may_stop_reading :: "proxysql_conf \<Rightarrow> cluster \<Rightarrow> proxysql_proxy \<Rightarrow> bool option" where
  "leader_may_stop_reading C cs P =
     (if \<not> HasProxyReadLeaderNoSlave C then Some True
      else if 1 < CountAvailableReaders P then HasLeaderInReader cs P
      else Some False)"

definition came_back :: "server \<Rightarrow> bool" where
  "came_back s \<longleftrightarrow> PrevState s = stateUnconn \<or> PrevState s = stateFailed"

definition decide :: "proxysql_conf \<Rightarrow> cluster \<Rightarrow> proxysql_proxy \<Rightarrow> sid \<Rightarrow> pool_view \<Rightarrow> repair option" where
  "decide C cs P i v =
     (let s = srv cs i
      in if wr_status v = ''OFFLINE_HARD'' \<and> State s = stateSlave \<and> \<not> IsIgnored s then Some RejoinReader
         else if IsSlaveOrSync cs i \<and> IsMaintenance s \<and> is_reader v \<and> rd_status v = ''ONLINE'' then Some MaintenanceSoft
         else if State s = stateUnconn \<and> wr_status v = ''ONLINE'' then Some WriterOffline
         else if State s = stateUnconn \<and> rd_status v = ''ONLINE'' \<and> is_reader v then Some ReaderOffline
         else if IsLeader cs i \<and> (came_back s \<or> BackendsWrite P = [] \<or> \<not> is_writer v) then Some LeaderOnline
         else if IsLeader cs i \<and> \<not> is_reader v \<and> leader_should_read C cs P then Some AddLeaderReader
         else if IsLeader cs i \<and> is_reader v \<and> \<not> HasProxyReadLeader C then
           map_option (\<lambda>drop. if drop then DropLeaderReader else Nothing) (leader_may_stop_reading C cs P)
         else if IsSlaveOrSync cs i \<and> State s = stateSlave \<and> \<not> IsIgnored s \<and> came_back s then Some ReturnReader
         else if IsSlaveOrSync cs i \<and> \<not> is_reader v \<and> \<not> IsIgnored s then Some AddSlaveReader
         else if IsSlaveOrSync cs i \<and> Some i \<noteq> GetMaster cs \<and> is_writer v then Some DropSlaveWriter
         else Some Nothing)"

definition also_writer :: "admin_env \<Rightarrow> proxysql_conf \<Rightarrow> bool \<Rightarrow> psx \<Rightarrow> psx" where
  "also_writer E C b X =
     (if ProxysqlBootstrapVariables C then psql_do (SetMonitorIsAlsoWriter E b) logged X else X)"

fun perform :: "admin_env \<Rightarrow> proxysql_conf \<Rightarrow> sid \<Rightarrow> pool_view \<Rightarrow> repair \<Rightarrow> psx \<Rightarrow> psx" where
  "perform E C i v RejoinReader X =
     (let X1 = psql_do (SetReader E (PP X) (host_of i X) (port_of i X))
                 (\<lambda>e. prx_state ''ERR00069'' [FS (URL (srv (PC X) i)), FS e] X) X
      in if is_reader v then psql_do (DropWriter E (PP X1) (host_of i X1) (port_of i X1)) logged X1 else X1)"
| "perform E C i v MaintenanceSoft X =
     psql_do (SetOfflineSoft E (PP X) (host_of i X) (port_of i X))
       (\<lambda>e. prx_state ''ERR00094'' [FS (GetURL (PP X)), FS (URL (srv (PC X) i)), FS e] X) X"
| "perform E C i v WriterOffline X =
     psql_do (SetOffline E (PP X) (host_of i X) (port_of i X))
       (\<lambda>e. prx_state ''ERR00070'' [FS e, FS (URL (srv (PC X) i))] X) X"
| "perform E C i v ReaderOffline X =
     psql_do (SetOfflineSoft E (PP X) (host_of i X) (port_of i X))
       (\<lambda>e. prx_state ''ERR00070'' [FS e, FS (URL (srv (PC X) i))] X) X"
| "perform E C i v LeaderOnline X =
     (if ExistAsWriterOrOffline E (PP X) (host_of i X) (port_of i X) (PD X)
      then psql_do (SetOnline E (PP X) (host_of i X) (port_of i X)) logged X
      else add_writer E C (\<lambda>_. prx_state ''ERR00071'' [FS (PName (PP X)), FS (URL (srv (PC X) i))] X) i X)"
| "perform E C i v AddLeaderReader X = also_writer E C True (add_reader E C i X)"
| "perform E C i v DropLeaderReader X =
     also_writer E C False (psql_do (DropReader E (PP X) (host_of i X) (port_of i X)) logged X)"
| "perform E C i v ReturnReader X =
     psql_do (SetReader E (PP X) (host_of i X) (port_of i X))
       (\<lambda>e. prx_state ''ERR00072'' [FS (PName (PP X)), FS (URL (srv (PC X) i)), FS e] X) X"
| "perform E C i v AddSlaveReader X = add_reader E C i X"
| "perform E C i v DropSlaveWriter X = psql_do (DropWriter E (PP X) (host_of i X) (port_of i X)) logged X"
| "perform E C i v Nothing X = X"

definition resolve :: "admin_env \<Rightarrow> proxysql_conf \<Rightarrow> sid \<Rightarrow> pool_view \<Rightarrow> psx \<Rightarrow> (bool \<times> psx) option" where
  "resolve E C i v X =
     (if ProxysqlBootstrap C \<and> IsDiscovered (PC X) then
        map_option (\<lambda>a. (a \<noteq> Nothing, perform E C i v a X)) (decide C (PC X) (PP X) i v)
      else Some (False, X))"

definition warn_backend :: "proxysql_conf \<Rightarrow> sid \<Rightarrow> pool_view \<Rightarrow> psx \<Rightarrow> psx" where
  "warn_backend C i v X =
     (let X1 = (if (wr_status v = ''OFFLINE_SOFT'' \<or> rd_status v = ''OFFLINE_SOFT'') \<and> \<not> IsMaintenance (srv (PC X) i)
                then on_pc (prx_state ''ERR00091'' [FS (PName (PP X)), FS (URL (srv (PC X) i))] X) X else X)
      in if \<not> ProxysqlBootstrap C \<and> IsLeader (PC X1) i \<and> \<not> is_reader v \<and> leader_should_read C (PC X1) (PP X1)
         then on_pc (prx_state ''ERR00093'' [FS (PName (PP X1))] X1) X1 else X1)"

text \<open>The accounts to copy: one per user and password. The key joins them with a colon.\<close>

definition account_key :: "string \<Rightarrow> string \<Rightarrow> string" where
  "account_key u w = u @ '':'' @ w"

definition note_user ::
  "admin_env \<Rightarrow> proxysql_conf \<Rightarrow> string \<times> string \<Rightarrow> (string \<times> string \<times> string) list \<times> psx \<Rightarrow>
   (string \<times> string \<times> string) list \<times> psx" where
  "note_user E C uw acc =
     (let u = fst uw; w = snd uw; uni = fst acc; X = snd acc
      in case map_of uni (account_key u w) of
           Some uw' \<Rightarrow> (uni, on_pc (mon_state ''ERR00057'' [FS (fst uw')] X) X)
         | None \<Rightarrow>
             if w \<noteq> '''' \<and> w \<noteq> ''invalid'' \<and> (u \<noteq> DbUserName E \<or> MonitorWriteHeartbeatCredential C = '''')
             then (uni @ [(account_key u w, u, w)], X) else (uni, X))"

definition add_user ::
  "admin_env \<Rightarrow> string list \<Rightarrow> string \<times> string \<times> string \<Rightarrow> bool \<times> psx \<Rightarrow> bool \<times> psx" where
  "add_user E known kuw acc =
     (let u = fst (snd kuw); w = snd (snd kuw); X = snd acc
      in if account_key u w \<in> set known then acc
         else let Y = psql_do (PSQL_AddUser E (PP X) u w) (\<lambda>e. mon_state ''ERR00054'' [FS e] X) X
              in (fst acc \<or> fst (PSQL_AddUser E (PP X) u w (PD X)) = None, Y))"

definition load_grants :: "admin_env \<Rightarrow> proxysql_conf \<Rightarrow> sid \<Rightarrow> psx \<Rightarrow> psx" where
  "load_grants E C i X =
     (if IsMaster (PC X) (srv (PC X) i) \<and> ProxysqlCopyGrants C then
        let (known, err) = ProxyUsers E (PD X);
            X1 = (case err of None \<Rightarrow> X | Some e \<Rightarrow> on_pc (mon_state ''ERR00053'' [FS e] X) X);
            (uni, X2) = fold (note_user E C) (Grants E i) ([], X1);
            (changed, X3) = fold (add_user E known) (MapOrder E uni) (False, X2)
        in if changed then psql_do (SaveMySQLUsersToDisk E) logged X3 else X3
      else X)"

text \<open>The loop over the servers, with the writers and readers found so far.\<close>

record round =
  updated :: bool
  bkWriters :: "backend list"
  bkReaders :: "backend list"

definition pool_view_of :: "pool_row \<times> string option \<Rightarrow> pool_row \<times> string option \<Rightarrow> pool_view" where
  "pool_view_of w r =
     \<lparr>wr_status = p_status (fst w), is_writer = (snd w = None), rd_status = p_status (fst r), is_reader = (snd r = None)\<rparr>"

definition note_server :: "sid \<Rightarrow> pool_row \<Rightarrow> psx \<Rightarrow> psx" where
  "note_server i r X =
     X\<lparr>PC := upd_srv i (\<lambda>s. s\<lparr>MxsServerName := URL s, MxsServerStatus := p_status r\<rparr>) (PC X),
       PP := (PP X)\<lparr>ProxysqlHostgroup := (ProxysqlHostgroup (PP X))(i := p_hostgroup r)\<rparr>\<rparr>"

definition refresh_server :: "admin_env \<Rightarrow> proxysql_conf \<Rightarrow> sid \<Rightarrow> round \<times> psx \<Rightarrow> (round \<times> psx) option" where
  "refresh_server E C i a =
     (let R = fst a; X = snd a;
          s = srv (PC X) i;
          w = GetStatsForHostWrite E (PP X) (host_of i X) (port_of i X) (PD X);
          r = GetStatsForHostRead E (PP X) (host_of i X) (port_of i X) (PD X);
          v = pool_view_of w r;
          X1 = note_server i (fst w) X
      in case resolve E C i v X1 of
           None \<Rightarrow> None
         | Some (u, X2) \<Rightarrow>
             Some (\<lparr>updated = updated R \<or> u,
                    bkWriters = bkWriters R @ (if is_writer v then [stats_backend s (fst w)] else []),
                    bkReaders = bkReaders R @ (if is_reader v then [stats_backend s (fst r)] else [])\<rparr>,
                   load_grants E C i (warn_backend C i v X2)))"

primrec refresh_servers :: "admin_env \<Rightarrow> proxysql_conf \<Rightarrow> sid list \<Rightarrow> round \<times> psx \<Rightarrow> (round \<times> psx) option" where
  "refresh_servers E C [] a = Some a"
| "refresh_servers E C (i # is) a = Option.bind (refresh_server E C i a) (refresh_servers E C is)"

definition load_updated :: "admin_env \<Rightarrow> bool \<Rightarrow> psx \<Rightarrow> psx" where
  "load_updated E u X =
     (if \<not> u then X
      else case LoadServersToRuntime E (PD X) of
          (Some e, d) \<Rightarrow> X\<lparr>PD := d, PC := prx_state ''ERR00095'' [FS (GetURL (PP X)), FS e] X (PC X)\<rparr>
        | (None, d) \<Rightarrow>
            psql_do (SaveServersToDisk E) (\<lambda>e. prx_state ''ERR00096'' [FS (GetURL (PP X)), FS e] X) (X\<lparr>PD := d\<rparr>))"

definition read_rules :: "admin_env \<Rightarrow> psx \<Rightarrow> psx" where
  "read_rules E X =
     (let (rules, err) = RulesAnswer E (PD X); X1 = X\<lparr>PP := (PP X)\<lparr>QueryRules := rules\<rparr>\<rparr>
      in case err of None \<Rightarrow> X1 | Some e \<Rightarrow> on_pc (mon_state ''WARN0092'' [FS e] X1) X1)"

definition read_variables :: "admin_env \<Rightarrow> psx \<Rightarrow> psx" where
  "read_variables E X =
     (let (vars, err) = VariablesAnswer E (PD X); X1 = X\<lparr>PP := (PP X)\<lparr>PVariables := vars\<rparr>\<rparr>
      in case err of None \<Rightarrow> X1 | Some e \<Rightarrow> on_pc (mon_state ''WARN0098'' [FS e] X1) X1)"

definition set_multiplexing :: "admin_env \<Rightarrow> proxysql_conf \<Rightarrow> string \<Rightarrow> psx \<Rightarrow> psx" where
  "set_multiplexing E C val X =
     (let X1 = psql_do (LoadMySQLVariablesToRuntime E) logged
                 (psql_do (SetMySQLVariable E ''MYSQL-MULTIPLEXING'' val) logged X)
      in if ProxysqlSaveToDisk C then psql_do (SaveMySQLVariablesToDisk E) logged X1 else X1)"

definition multiplexing :: "admin_env \<Rightarrow> proxysql_conf \<Rightarrow> psx \<Rightarrow> psx" where
  "multiplexing E C X =
     (if \<not> ProxysqlBootstrapVariables C then X
      else let X1 = (if PVariables (PP X) ''MYSQL-MULTIPLEXING'' = ''TRUE'' \<and> \<not> ProxysqlMultiplexing C
                     then set_multiplexing E C ''FALSE'' X else X)
           in if PVariables (PP X1) ''MYSQL-MULTIPLEXING'' = ''FALSE'' \<and> ProxysqlMultiplexing C
              then set_multiplexing E C ''TRUE'' X1 else X1)"

definition finish_refresh :: "admin_env \<Rightarrow> proxysql_conf \<Rightarrow> round \<times> psx \<Rightarrow> psx" where
  "finish_refresh E C a =
     (let R = fst a; X = snd a;
          X1 = X\<lparr>PP := (PP X)\<lparr>BackendsWrite := bkWriters R, BackendsRead := bkReaders R\<rparr>\<rparr>
      in multiplexing E C (read_variables E (read_rules E (load_updated E (updated R) X1))))"

text \<open>The error of a refresh, and the state after it.\<close>

definition Proxysql_Refresh :: "admin_env \<Rightarrow> proxysql_conf \<Rightarrow> psx \<Rightarrow> (string option \<times> psx) option" where
  "Proxysql_Refresh E C X =
     (if \<not> ProxysqlOn C then Some (None, X)
      else case AdminConnect E of
          Some e \<Rightarrow>
            Some (Some e, on_pc (\<lambda>c. let c1 = connection_state e c
              in c1\<lparr>StateMachine := CopyOldStateFromUnknowServer (PName (PP X)) (StateMachine c1)\<rparr>) X)
        | None \<Rightarrow>
            map_option (\<lambda>a. (None, finish_refresh E C a))
              (refresh_servers E C (Servers (PC X)) (\<lparr>updated = False, bkWriters = [], bkReaders = []\<rparr>,
                 X\<lparr>PP := (PP X)\<lparr>PVersion := VersionAnswer E (PD X)\<rparr>\<rparr>)))"

section \<open>What a statement leaves alone\<close>

definition keyed :: "mysql_server list \<Rightarrow> bool" where
  "keyed t \<longleftrightarrow> distinct (map row_key t)"

definition in_group :: "mysql_server list \<Rightarrow> int \<Rightarrow> string \<Rightarrow> string \<Rightarrow> bool" where
  "in_group t g h p \<longleftrightarrow> (g, h, p) \<in> set (map row_key t)"

text \<open>A row is foreign to a set of hostgroups and of backends when it is in none of the former or is none of the latter.\<close>

definition foreign :: "int set \<Rightarrow> (string \<times> string) set \<Rightarrow> mysql_server \<Rightarrow> bool" where
  "foreign H A r \<longleftrightarrow> r_hostgroup_id r \<notin> H \<or> (r_hostname r, r_port r) \<notin> A"

text \<open>The rows a statement can address or produce.\<close>

fun confined :: "int set \<Rightarrow> (string \<times> string) set \<Rightarrow> sql \<Rightarrow> bool" where
  "confined H A (Update st hg h p hgs) \<longleftrightarrow> set hgs \<subseteq> H \<and> set_option hg \<subseteq> H \<and> (h, p) \<in> A"
| "confined H A (Delete g hp) \<longleftrightarrow> g \<in> H \<and> (case hp of None \<Rightarrow> A = UNIV | Some b \<Rightarrow> b \<in> A)"
| "confined H A (Replace g h p cols) \<longleftrightarrow> g \<in> H \<and> (h, p) \<in> A"
| "confined H A (CopyGroup to from h p) \<longleftrightarrow> to \<in> H \<and> (h, p) \<in> A"
| "confined H A (ReplaceUser u w g) \<longleftrightarrow> True"
| "confined H A (ReplaceHostgroups w r c) \<longleftrightarrow> True"
| "confined H A (Admin txt args) \<longleftrightarrow> True"

lemma assign_simps [simp]:
  "r_hostname (assign st hg r) = r_hostname r" "r_port (assign st hg r) = r_port r"
  "r_hostgroup_id (assign st hg r) = (case hg of None \<Rightarrow> r_hostgroup_id r | Some g \<Rightarrow> g)"
  "r_status (assign st hg r) = (case st of None \<Rightarrow> r_status r | Some s \<Rightarrow> s)"
  by (simp_all add: assign_def)

lemma set_column_key [simp]: "row_key (set_column cv r) = row_key r"
  by (simp add: set_column_def row_key_def Let_def)

lemma set_columns_key: "row_key (fold set_column cols r) = row_key r"
  by (induction cols arbitrary: r) simp_all

lemma new_row_key [simp]: "row_key (new_row dflt hg h p cols) = (hg, h, p)"
  by (simp add: new_row_def set_columns_key) (simp add: row_key_def)

lemma foreign_key: "foreign H A r \<longleftrightarrow> fst (row_key r) \<notin> H \<or> snd (row_key r) \<notin> A"
  by (simp add: foreign_def row_key_def)

lemma filter_map_local:
  assumes "\<And>r. r \<in> set t \<Longrightarrow> f r = r \<or> \<not> P r \<and> \<not> P (f r)"
  shows "filter P (map f t) = filter P t"
  using assms
proof (induction t)
  case (Cons a t)
  have "filter P (map f t) = filter P t" by (rule Cons.IH) (use Cons.prems in auto)
  moreover have "f a = a \<or> \<not> P a \<and> \<not> P (f a)" by (rule Cons.prems) simp
  ultimately show ?case by auto
qed simp

lemma filter_absorb: "(\<And>r. r \<in> set t \<Longrightarrow> P r \<Longrightarrow> Q r) \<Longrightarrow> filter P (filter Q t) = filter P t"
  by (induction t) auto

lemma put_row_foreign: "\<not> foreign H A r \<Longrightarrow> filter (foreign H A) (put_row t r) = filter (foreign H A) t"
  by (simp add: put_row_def del: filter_filter) (rule filter_absorb, metis foreign_key)

lemma put_row_keyed: "keyed t \<Longrightarrow> keyed (put_row t r)"
  by (auto simp: keyed_def put_row_def distinct_map_filter)

lemma put_row_in_group: "in_group (put_row t r) g h p \<longleftrightarrow> in_group t g h p \<or> row_key r = (g, h, p)"
  by (auto simp: in_group_def put_row_def)

lemma copy_fold_foreign:
  assumes "\<And>r. r \<in> set rs \<Longrightarrow> \<not> foreign H A (f r)"
  shows "filter (foreign H A) (fold (\<lambda>r t. put_row t (f r)) rs t) = filter (foreign H A) t"
  using assms by (induction rs arbitrary: t) (simp_all add: put_row_foreign)

lemma copy_fold_keyed: "keyed t \<Longrightarrow> keyed (fold (\<lambda>r t. put_row t (f r)) rs t)"
  by (induction rs arbitrary: t) (simp_all add: put_row_keyed)

lemma effect_foreign:
  assumes "effect dflt q t = Some t'" "confined H A q"
  shows "filter (foreign H A) t' = filter (foreign H A) t"
proof (cases q)
  case (Update st hg h p hgs)
  then have "t' = map (\<lambda>r. if hit h p hgs r then assign st hg r else r) t"
    using assms(1) by (simp add: Let_def split: if_splits)
  then show ?thesis
    using assms(2) Update
    by (auto simp: hit_def foreign_def subset_eq split: if_splits option.splits intro!: filter_map_local)
next
  case (Delete g hp)
  then show ?thesis
    using assms by (auto simp: foreign_def simp del: filter_filter split: option.splits intro!: filter_absorb)
next
  case (Replace g h p cols)
  then show ?thesis
    using assms by (auto simp: foreign_key intro!: put_row_foreign)
next
  case (CopyGroup g1 g2 h p)
  then show ?thesis
    using assms by (auto simp: foreign_def hit_def intro!: copy_fold_foreign)
qed (use assms in simp_all)

lemma effect_keyed:
  assumes "effect dflt q t = Some t'" "keyed t"
  shows "keyed t'"
  using assms
  by (cases q) (auto simp: Let_def keyed_def [of "map _ _"] put_row_keyed copy_fold_keyed distinct_map_filter
      keyed_def [of "filter _ _"] keyed_def [of t] keyed_def [of "_ @ _"] split: if_splits)

definition stays :: "int set \<Rightarrow> (string \<times> string) set \<Rightarrow> admin_db \<Rightarrow> admin_db \<Rightarrow> bool" where
  "stays H A d d' \<longleftrightarrow>
     filter (foreign H A) (servers d') = filter (foreign H A) (servers d) \<and> (keyed (servers d) \<longrightarrow> keyed (servers d'))"

lemma stays_refl [simp]: "stays H A d d"
  by (simp add: stays_def)

lemma stays_trans [trans]: "stays H A d e \<Longrightarrow> stays H A e f \<Longrightarrow> stays H A d f"
  by (auto simp: stays_def)

lemma foreign_mono: "A \<subseteq> B \<Longrightarrow> foreign H B r \<Longrightarrow> foreign H A r"
  by (auto simp: foreign_def)

lemma stays_mono: "stays H A d d' \<Longrightarrow> A \<subseteq> B \<Longrightarrow> stays H B d d'"
proof -
  assume w: "stays H A d d'" and sub: "A \<subseteq> B"
  have *: "filter (foreign H B) t = filter (foreign H B) (filter (foreign H A) t)" for t
    by (rule filter_absorb [symmetric], rule foreign_mono [OF sub])
  show "stays H B d d'"
    using w * [of "servers d"] * [of "servers d'"] by (simp add: stays_def)
qed

lemma exec_stays: "confined H A q \<Longrightarrow> stays H A d (snd (exec E q d))"
  by (auto simp: exec_def Let_def stays_def dest: effect_foreign effect_keyed split: option.splits)

section \<open>What an operation leaves alone\<close>

text \<open>The hostgroups of a proxy, and the group that parks the servers that are off line.\<close>

definition own_groups :: "proxysql_proxy \<Rightarrow> int set" where
  "own_groups P = {WriterHostgroup P, ReaderHostgroup P, HG_OFFLINE}"

text \<open>
  The contract of a router operation on one backend: it changes rows of that backend in the groups of the proxy, and
  the table keeps its key. The clients rely on nothing else for the rest of the table.
\<close>

locale backend_op =
  fixes op :: "admin_env \<Rightarrow> proxysql_proxy \<Rightarrow> string \<Rightarrow> string \<Rightarrow> psql_op"
  assumes op_stays: "stays (own_groups P) {(h, p)} d (snd (op E P h p d))"
begin

lemma psql_do_db: "(h, p) \<in> A \<Longrightarrow> stays (own_groups P) A (PD X) (PD (psql_do (op E P h p) report X))"
  using op_stays [where P = P and h = h and p = p and E = E and d = "PD X"]
  by (auto simp: psql_do_def split: prod.splits option.splits intro: stays_mono)

end

lemmas router_defs =
  AddServerAsReader_def AddServerAsWriter_def AddOfflineServer_def SetOffline_def SetOnline_def SetOfflineSoft_def
  SetOnlineSoft_def SetWriter_def SetReader_def DropReader_def DropWriter_def CopyReaderToWriter_def own_groups_def

interpretation set_offline: backend_op SetOffline
  by unfold_locales (simp add: router_defs exec_stays)

interpretation set_online: backend_op SetOnline
  by unfold_locales (simp add: router_defs exec_stays)

interpretation set_offline_soft: backend_op SetOfflineSoft
  by unfold_locales (simp add: router_defs exec_stays)

interpretation set_online_soft: backend_op SetOnlineSoft
  by unfold_locales (simp add: router_defs exec_stays)

interpretation set_writer: backend_op SetWriter
  by unfold_locales (simp add: router_defs exec_stays)

interpretation set_reader: backend_op SetReader
  by unfold_locales (simp add: router_defs exec_stays)

interpretation drop_reader: backend_op DropReader
  by unfold_locales (simp add: router_defs exec_stays)

interpretation drop_writer: backend_op DropWriter
  by unfold_locales (simp add: router_defs exec_stays)

interpretation copy_reader: backend_op CopyReaderToWriter
  by unfold_locales (simp add: router_defs exec_stays)

interpretation add_as_writer: backend_op "\<lambda>E P h p. AddServerAsWriter E P h p ssl" for ssl
  by unfold_locales (simp add: router_defs exec_stays)

interpretation add_offline: backend_op "\<lambda>E P h p. AddOfflineServer E P h p ssl" for ssl
  by unfold_locales (simp add: router_defs exec_stays)

interpretation add_as_reader: backend_op "\<lambda>E P h p. AddServerAsReader E P h p weight lag conns compr ssl"
  for weight lag conns compr ssl
  by unfold_locales (simp add: router_defs exec_stays)

lemmas op_stays_db =
  set_offline.psql_do_db set_online.psql_do_db set_offline_soft.psql_do_db set_online_soft.psql_do_db
  set_writer.psql_do_db set_reader.psql_do_db drop_reader.psql_do_db drop_writer.psql_do_db
  add_as_writer.psql_do_db add_offline.psql_do_db add_as_reader.psql_do_db

text \<open>What of the cluster no operation of the proxy changes: everything but the raised states and the two proxy fields of
  each server.\<close>

definition core :: "cluster \<Rightarrow> cluster \<times> bool" where
  "core c = (c\<lparr>StateMachine := zero_sm, srv := (\<lambda>i. (srv c i)\<lparr>MxsServerName := [], MxsServerStatus := []\<rparr>)\<rparr>,
     IsDiscovered c)"

lemma core_SetState [simp]: "core (Cluster_SetState k s c) = core c" "core (set_state k t args f u c) = core c"
  by (simp_all add: core_def Cluster_SetState_def set_state_def IsDiscovered_def SM_IsDiscovered_def AddState_def Let_def)

lemma core_states [simp]:
  "core (prx_state k args X c) = core c" "core (mon_state k args X c) = core c" "core (connection_state e c) = core c"
  by (simp_all add: prx_state_def mon_state_def connection_state_def)

lemma coreD:
  assumes "core c' = core c"
  shows "Servers c' = Servers c" "master c' = master c" "vmaster c' = vmaster c" "oldMaster c' = oldMaster c"
    "Conf c' = Conf c" "Topology c' = Topology c" "IsDiscovered c' = IsDiscovered c"
proof -
  have eq: "fst (core c') = fst (core c)" "snd (core c') = snd (core c)" using assms by simp_all
  show "Servers c' = Servers c" "master c' = master c" "vmaster c' = vmaster c" "oldMaster c' = oldMaster c"
    "Conf c' = Conf c" "Topology c' = Topology c"
    using arg_cong [OF eq(1), of Servers] arg_cong [OF eq(1), of master] arg_cong [OF eq(1), of vmaster]
      arg_cong [OF eq(1), of oldMaster] arg_cong [OF eq(1), of Conf] arg_cong [OF eq(1), of Topology]
    by (simp_all add: core_def)
  show "IsDiscovered c' = IsDiscovered c" using eq(2) by (simp add: core_def)
qed

lemma core_srvD:
  assumes "core c' = core c"
  shows "Host (srv c' i) = Host (srv c i)" "Port (srv c' i) = Port (srv c i)" "State (srv c' i) = State (srv c i)"
    "PrevState (srv c' i) = PrevState (srv c i)" "Id (srv c' i) = Id (srv c i)" "IsRelay (srv c' i) = IsRelay (srv c i)"
    "Ignored (srv c' i) = Ignored (srv c i)" "IsSlave (srv c' i) = IsSlave (srv c i)"
    "IsMaintenance (srv c' i) = IsMaintenance (srv c i)" "URL (srv c' i) = URL (srv c i)"
proof -
  have "fst (core c') = fst (core c)" using assms by simp
  from arg_cong [OF this, of "\<lambda>c. srv c i"]
  have eq: "(srv c' i)\<lparr>MxsServerName := [], MxsServerStatus := []\<rparr> = (srv c i)\<lparr>MxsServerName := [], MxsServerStatus := []\<rparr>"
    by (simp add: core_def)
  show "Host (srv c' i) = Host (srv c i)" "Port (srv c' i) = Port (srv c i)" "State (srv c' i) = State (srv c i)"
    "PrevState (srv c' i) = PrevState (srv c i)" "Id (srv c' i) = Id (srv c i)" "IsRelay (srv c' i) = IsRelay (srv c i)"
    "Ignored (srv c' i) = Ignored (srv c i)" "IsSlave (srv c' i) = IsSlave (srv c i)"
    "IsMaintenance (srv c' i) = IsMaintenance (srv c i)" "URL (srv c' i) = URL (srv c i)"
    using arg_cong [OF eq, of Host] arg_cong [OF eq, of Port] arg_cong [OF eq, of State] arg_cong [OF eq, of PrevState]
      arg_cong [OF eq, of Id] arg_cong [OF eq, of IsRelay] arg_cong [OF eq, of Ignored] arg_cong [OF eq, of IsSlave]
      arg_cong [OF eq, of IsMaintenance] arg_cong [OF eq, of URL]
    by simp_all
qed

lemma core_predD:
  assumes "core c' = core c"
  shows "IsLeader c' i = IsLeader c i" "IsSlaveOrSync c' i = IsSlaveOrSync c i" "GetMaster c' = GetMaster c"
    "IsMaster c' (srv c' i) = IsMaster c (srv c i)" "IsIgnored (srv c' i) = IsIgnored (srv c i)"
    "came_back (srv c' i) = came_back (srv c i)"
  using coreD [OF assms] core_srvD [OF assms]
  by (simp_all add: IsLeader_def IsSlaveOrSync_def GetMaster_def IsMaster_def IsIgnored_def came_back_def
      cong: option.case_cong)

text \<open>What a part of an operation keeps: the cluster but its states, the settings of the proxy, and the foreign rows.\<close>

definition kept :: "(string \<times> string) set \<Rightarrow> psx \<Rightarrow> psx \<Rightarrow> bool" where
  "kept A X Y \<longleftrightarrow>
     core (PC Y) = core (PC X) \<and> WriterHostgroup (PP Y) = WriterHostgroup (PP X) \<and>
     ReaderHostgroup (PP Y) = ReaderHostgroup (PP X) \<and> stays (own_groups (PP X)) A (PD X) (PD Y)"

lemma kept_refl [simp]: "kept A X X"
  by (simp add: kept_def)

lemma kept_trans [trans]: "kept A X Y \<Longrightarrow> kept A Y Z \<Longrightarrow> kept A X Z"
  by (auto simp: kept_def own_groups_def intro: stays_trans)

lemma kept_mono: "kept A X Y \<Longrightarrow> A \<subseteq> B \<Longrightarrow> kept B X Y"
  by (auto simp: kept_def intro: stays_mono)

lemma kept_core: "kept A X Y \<Longrightarrow> core (PC Y) = core (PC X)"
  by (simp add: kept_def)

lemma kept_hosts:
  assumes "kept A X Y"
  shows "host_of i Y = host_of i X" "port_of i Y = port_of i X"
  using core_srvD [OF kept_core [OF assms], of i] by (simp_all add: host_of_def port_of_def)

lemma kept_groups: "kept A X Y \<Longrightarrow> own_groups (PP Y) = own_groups (PP X)"
  by (simp add: kept_def own_groups_def)

definition backend_of :: "psx \<Rightarrow> sid \<Rightarrow> string \<times> string" where
  "backend_of X i = (host_of i X, port_of i X)"

lemma psql_do_PP [simp]: "PP (psql_do f report X) = PP X"
  by (simp add: psql_do_def split: prod.split option.split)

lemma kept_psql_do:
  assumes "stays (own_groups (PP X)) A (PD X) (PD (psql_do f report X))" "\<And>e c. core (report e c) = core c"
  shows "kept A X (psql_do f report X)"
  using assms by (auto simp: kept_def psql_do_def split: prod.split option.split)

lemma kept_exec:
  assumes "confined (own_groups (PP X)) A q" "\<And>e c. core (report e c) = core c"
  shows "kept A X (psql_do (exec E q) report X)"
proof (rule kept_psql_do [OF _ assms(2)])
  show "stays (own_groups (PP X)) A (PD X) (PD (psql_do (exec E q) report X))"
    using exec_stays [OF assms(1), of "PD X" E] by (auto simp: psql_do_def split: prod.splits option.splits)
qed

lemma kept_on_pc: "(\<And>c. core (f c) = core c) \<Longrightarrow> kept A X (on_pc f X)"
  by (simp add: kept_def on_pc_def)

lemma kept_fold:
  assumes "\<And>i Y. i \<in> set is \<Longrightarrow> kept A X Y \<Longrightarrow> kept A Y (f i Y)"
  shows "kept A X (fold f is X)"
proof -
  have "kept A X Y \<Longrightarrow> kept A X (fold f js Y)" if "set js \<subseteq> set is" for js Y
    using that
  proof (induction js arbitrary: Y)
    case (Cons i js)
    then show ?case using assms [of i Y] kept_trans [of A X Y "f i Y"] by simp
  qed simp
  then show ?thesis by simp
qed

lemma kept_load: "kept A X (psql_do (LoadServersToRuntime E) logged X)"
  by (simp add: LoadServersToRuntime_def kept_exec)

lemma kept_save: "kept A X (save_if_set E C X)"
  by (simp add: save_if_set_def SaveServersToDisk_def kept_exec)

lemma backend_of_mem: "backend_of X i \<in> A \<Longrightarrow> (host_of i X, port_of i X) \<in> A"
  by (simp add: backend_of_def)

lemma kept_add_reader: "backend_of X i \<in> A \<Longrightarrow> kept A X (add_reader E C i X)"
  unfolding add_reader_def by (rule kept_psql_do) (auto intro!: op_stays_db simp: backend_of_def)

lemma kept_add_writer:
  "backend_of X i \<in> A \<Longrightarrow> (\<And>e c. core (report e c) = core c) \<Longrightarrow> kept A X (add_writer E C report i X)"
  unfolding add_writer_def by (rule kept_psql_do) (auto intro!: op_stays_db simp: backend_of_def)

lemma kept_also_writer: "kept A X (also_writer E C b X)"
  by (simp add: also_writer_def SetMonitorIsAlsoWriter_def kept_exec)

lemma kept_perform:
  assumes "backend_of X i \<in> A"
  shows "kept A X (perform E C i v a X)"
proof (cases a)
  case RejoinReader
  let ?Y = "psql_do (SetReader E (PP X) (host_of i X) (port_of i X))
              (\<lambda>e. prx_state ''ERR00069'' [FS (URL (srv (PC X) i)), FS e] X) X"
  have Y: "kept A X ?Y" using assms by (auto intro!: kept_psql_do op_stays_db simp: backend_of_def)
  moreover have "kept A ?Y (psql_do (DropWriter E (PP ?Y) (host_of i ?Y) (port_of i ?Y)) logged ?Y)"
    by (rule kept_psql_do) (use assms in \<open>auto intro!: op_stays_db simp: backend_of_def kept_hosts [OF Y]\<close>)
  ultimately show ?thesis using RejoinReader by (simp add: Let_def kept_trans)
next
  case AddLeaderReader
  then show ?thesis
    using kept_trans [OF kept_add_reader [OF assms] kept_also_writer] by simp
next
  case DropLeaderReader
  then show ?thesis
    using assms by (auto intro!: kept_trans [OF kept_psql_do kept_also_writer] op_stays_db simp: backend_of_def)
next
  case AddSlaveReader
  then show ?thesis by (simp add: kept_add_reader assms)
next
  case LeaderOnline
  then show ?thesis
    using assms by (auto intro!: kept_psql_do kept_add_writer op_stays_db simp: backend_of_def)
qed (use assms in \<open>auto intro!: kept_psql_do op_stays_db simp: backend_of_def\<close>)

lemma kept_resolve: "resolve E C i v X = Some (u, Y) \<Longrightarrow> backend_of X i \<in> A \<Longrightarrow> kept A X Y"
  by (auto simp: resolve_def kept_perform split: if_splits)

lemma kept_warn: "kept A X (warn_backend C i v X)"
  unfolding warn_backend_def Let_def
  by (auto intro!: kept_on_pc intro: kept_trans [OF kept_on_pc kept_on_pc])

lemma kept_note_server: "kept A X (note_server i r X)"
proof -
  have "(\<lambda>j. (((srv (PC X))(i := (srv (PC X) i)\<lparr>MxsServerName := n, MxsServerStatus := t\<rparr>)) j)
      \<lparr>MxsServerName := [], MxsServerStatus := []\<rparr>) = (\<lambda>j. (srv (PC X) j)\<lparr>MxsServerName := [], MxsServerStatus := []\<rparr>)" for n t
    by (rule ext) simp
  then show ?thesis
    by (simp add: kept_def note_server_def core_def upd_srv_def IsDiscovered_def own_groups_def)
qed

lemma note_user_kept: "kept A X (snd acc) \<Longrightarrow> kept A X (snd (note_user E C uw acc))"
  by (auto simp: note_user_def Let_def split: option.split intro: kept_trans [OF _ kept_on_pc])

lemma psql_then_stays:
  "stays H A d (snd (f d)) \<Longrightarrow> (\<And>d. stays H A d (snd (g d))) \<Longrightarrow> stays H A d (snd (psql_then f g d))"
  by (auto simp: psql_then_def split: prod.splits option.splits intro: stays_trans)

lemma snd_psql_do: "PD (psql_do f report X) = snd (f (PD X))"
  by (simp add: psql_do_def split: prod.split option.split)

lemma add_user_kept: "kept A X (snd acc) \<Longrightarrow> kept A X (snd (add_user E known kuw acc))"
  by (auto simp: add_user_def Let_def PSQL_AddUser_def snd_psql_do intro!: kept_trans [OF _ kept_psql_do] psql_then_stays
      exec_stays)

lemma kept_load_grants: "kept A X (load_grants E C i X)"
proof (cases "IsMaster (PC X) (srv (PC X) i) \<and> ProxysqlCopyGrants C")
  case True
  obtain known err where pu: "ProxyUsers E (PD X) = (known, err)" by fastforce
  let ?X1 = "case err of None \<Rightarrow> X | Some e \<Rightarrow> on_pc (mon_state ''ERR00053'' [FS e] X) X"
  obtain uni X2 where n: "fold (note_user E C) (Grants E i) ([], ?X1) = (uni, X2)" by fastforce
  obtain ch X3 where a: "fold (add_user E known) (MapOrder E uni) (False, X2) = (ch, X3)" by fastforce
  have "kept A X ?X1" by (auto intro: kept_on_pc split: option.split)
  then have "kept A X (snd (fold (note_user E C) (Grants E i) ([], ?X1)))"
    by (intro fold_keeps [where I = "\<lambda>p. kept A X (snd p)"]) (auto intro: note_user_kept)
  then have "kept A X (snd (fold (add_user E known) (MapOrder E uni) (False, X2)))"
    by (intro fold_keeps [where I = "\<lambda>p. kept A X (snd p)"]) (auto simp: n intro: add_user_kept)
  then show ?thesis
    using True pu n a
    by (auto simp: load_grants_def Let_def SaveMySQLUsersToDisk_def intro: kept_trans [OF _ kept_exec])
qed (auto simp: load_grants_def)

lemma kept_refresh_server:
  assumes "refresh_server E C i (R, X) = Some (R', Y)" "backend_of X i \<in> A"
  shows "kept A X Y"
proof -
  let ?w = "GetStatsForHostWrite E (PP X) (host_of i X) (port_of i X) (PD X)"
  let ?r = "GetStatsForHostRead E (PP X) (host_of i X) (port_of i X) (PD X)"
  let ?X1 = "note_server i (fst ?w) X"
  let ?v = "pool_view_of ?w ?r"
  obtain u X2 where r: "resolve E C i ?v ?X1 = Some (u, X2)" and Y: "Y = load_grants E C i (warn_backend C i ?v X2)"
    using assms(1) by (auto simp: refresh_server_def Let_def split: option.splits prod.splits)
  have n: "kept A X ?X1" by (rule kept_note_server)
  have "backend_of ?X1 i \<in> A"
    using assms(2) by (simp add: backend_of_def kept_hosts [OF kept_note_server [where A = A and i = i and r = "fst ?w" and X = X]])
  from kept_trans [OF n kept_resolve [OF r this]] have "kept A X X2" .
  also have "kept A X2 (warn_backend C i ?v X2)" by (rule kept_warn)
  also have "kept A (warn_backend C i ?v X2) Y" unfolding Y by (rule kept_load_grants)
  finally show ?thesis .
qed

lemma kept_refresh_servers:
  assumes "refresh_servers E C is (R, X) = Some (R', Y)" "backend_of X ` set is \<subseteq> A"
  shows "kept A X Y"
  using assms
proof (induction "is" arbitrary: R X)
  case (Cons i "is")
  then obtain R1 X1 where s: "refresh_server E C i (R, X) = Some (R1, X1)"
    and rest: "refresh_servers E C is (R1, X1) = Some (R', Y)"
    by (auto simp: bind_eq_Some_conv)
  have k: "kept A X X1" by (rule kept_refresh_server [OF s]) (use Cons.prems in auto)
  have "backend_of X1 ` set is \<subseteq> A"
    using Cons.prems(2) by (auto simp: backend_of_def kept_hosts [OF k])
  from kept_trans [OF k Cons.IH [OF rest this]] show ?case .
qed simp

lemma kept_proxy: "WriterHostgroup P = WriterHostgroup (PP X) \<Longrightarrow> ReaderHostgroup P = ReaderHostgroup (PP X) \<Longrightarrow>
  kept A X (X\<lparr>PP := P\<rparr>)"
  by (simp add: kept_def)

lemma kept_finish: "kept A X (finish_refresh E C (R, X))"
proof -
  let ?X1 = "X\<lparr>PP := (PP X)\<lparr>BackendsWrite := bkWriters R, BackendsRead := bkReaders R\<rparr>\<rparr>"
  have load: "kept A Y (load_updated E u Y)" for u Y
  proof -
    have "stays (own_groups (PP Y)) A (PD Y) (snd (LoadServersToRuntime E (PD Y)))"
      by (simp add: LoadServersToRuntime_def exec_stays)
    moreover have "stays (own_groups (PP Y)) A d (snd (SaveServersToDisk E d))" for d
      by (simp add: SaveServersToDisk_def exec_stays)
    ultimately show ?thesis
      by (auto simp: load_updated_def kept_def psql_do_def split: prod.splits option.splits)
        (metis snd_conv stays_trans)+
  qed
  have rules: "kept A Y (read_rules E Y)" for Y
    by (auto simp: read_rules_def Let_def split: prod.split option.split intro: kept_proxy kept_trans [OF kept_proxy kept_on_pc])
  have vars: "kept A Y (read_variables E Y)" for Y
    by (auto simp: read_variables_def Let_def split: prod.split option.split intro: kept_proxy kept_trans [OF kept_proxy kept_on_pc])
  have setm: "kept A Y (set_multiplexing E C x Y)" for x Y
    by (auto simp: set_multiplexing_def Let_def LoadMySQLVariablesToRuntime_def SetMySQLVariable_def
        SaveMySQLVariablesToDisk_def intro!: kept_trans [OF _ kept_exec] kept_exec)
  have mult: "kept A Y (multiplexing E C Y)" for Y
    by (auto simp: multiplexing_def Let_def intro: setm kept_trans [OF setm setm])
  have "kept A X ?X1" by (simp add: kept_proxy)
  from kept_trans [OF kept_trans [OF kept_trans [OF kept_trans [OF this load] rules] vars] mult]
  show ?thesis by (simp add: finish_refresh_def Let_def)
qed

lemma kept_Refresh:
  assumes "Proxysql_Refresh E C X = Some (e, Y)"
  shows "kept (backend_of X ` set (Servers (PC X))) X Y"
proof -
  let ?A = "backend_of X ` set (Servers (PC X))"
  let ?X1 = "X\<lparr>PP := (PP X)\<lparr>PVersion := VersionAnswer E (PD X)\<rparr>\<rparr>"
  have old: "Discovered (CopyOldStateFromUnknowServer u SM) = Discovered SM" for u SM
    unfolding CopyOldStateFromUnknowServer_def
    by (rule fold_keeps [where I = "\<lambda>S. Discovered S = Discovered SM"]) (auto simp: AddState_def Let_def split: if_splits)
  consider "\<not> ProxysqlOn C" | err where "ProxysqlOn C" "AdminConnect E = Some err" | "ProxysqlOn C" "AdminConnect E = None"
    by (cases "AdminConnect E") auto
  then show ?thesis
  proof cases
    case 1 then show ?thesis using assms by (simp add: Proxysql_Refresh_def)
  next
    case 2
    have "core (let c1 = connection_state err c
        in c1\<lparr>StateMachine := CopyOldStateFromUnknowServer (PName (PP X)) (StateMachine c1)\<rparr>) = core c" for c
      using core_states(3) [of err c] by (simp add: Let_def core_def old IsDiscovered_def SM_IsDiscovered_def)
    then show ?thesis using assms 2 by (auto simp: Proxysql_Refresh_def intro!: kept_on_pc)
  next
    case 3
    then obtain R Z where r: "refresh_servers E C (Servers (PC X)) (\<lparr>updated = False, bkWriters = [], bkReaders = []\<rparr>, ?X1)
        = Some (R, Z)" and Y: "Y = finish_refresh E C (R, Z)"
      using assms by (auto simp: Proxysql_Refresh_def)
    have "kept ?A X ?X1" by (simp add: kept_proxy)
    also have "kept ?A ?X1 Z" by (rule kept_refresh_servers [OF r]) (simp add: backend_of_def host_of_def port_of_def image_def)
    also have "kept ?A Z Y" unfolding Y by (rule kept_finish)
    finally show ?thesis .
  qed
qed

lemma kept_Init: "kept (backend_of X ` set (Servers (PC X))) X (Proxysql_Init E C X)"
proof -
  let ?A = "backend_of X ` set (Servers (PC X))"
  let ?X1 = "if ProxysqlBootstrapHG C then psql_do (AddHostgroups E (PP X) (CName (PC X))) logged X else X"
  have server: "kept ?A Y (init_server E C i Y)" if "i \<in> set (Servers (PC X))" "kept ?A X Y" for i Y
  proof -
    have b: "backend_of Y i \<in> ?A" using that by (simp add: backend_of_def kept_hosts [OF that(2)])
    have "kept ?A Y (add_writer E C logged i Y)" using b by (rule kept_add_writer) simp
    moreover from this b have "backend_of (add_writer E C logged i Y) i \<in> ?A" by (simp add: backend_of_def kept_hosts)
    ultimately show ?thesis
      using b by (auto simp: init_server_def Let_def backend_of_def
          intro!: kept_add_reader kept_psql_do op_stays_db intro: kept_trans)
  qed
  have X1: "kept ?A X ?X1" by (simp add: AddHostgroups_def kept_exec)
  have "kept ?A ?X1 (fold (init_server E C) (Servers (PC ?X1)) ?X1)"
    by (rule kept_fold) (use server coreD(1) [OF kept_core [OF X1]] kept_trans [OF X1] in auto)
  from kept_trans [OF kept_trans [OF kept_trans [OF X1 this] kept_load] kept_save]
  show ?thesis by (auto simp: Proxysql_Init_def Let_def intro!: kept_on_pc split: option.split)
qed

lemma kept_Maintenance: "kept {backend_of X i} X (Proxysql_SetMaintenance E C i X)"
proof -
  have "kept {backend_of X i} X (psql_do ((if b then SetOfflineSoft else SetOnlineSoft) E (PP X) (host_of i X) (port_of i X)) logged X)" for b
    by (cases b) (auto intro!: kept_psql_do op_stays_db simp: backend_of_def)
  from kept_trans [OF this [of "IsMaintenance (srv (PC X) i)"] kept_load] show ?thesis
    unfolding Proxysql_SetMaintenance_def by (auto intro!: kept_on_pc split: option.split)
qed

lemma kept_failover_offline: "backend_of X i \<in> A \<Longrightarrow> kept A X (failover_offline E i X)"
  by (auto simp: failover_offline_def backend_of_def intro!: kept_psql_do op_stays_db)

lemma kept_failover_writer: "kept UNIV X (failover_writer E C i X)"
  by (auto simp: failover_writer_def ReplaceWriter_def DeleteAllWriters_def snd_psql_do router_defs exec_stays
      intro!: kept_psql_do psql_then_stays split: option.split)

lemma kept_Failover: "kept UNIV X (Proxysql_Failover E C X)"
proof -
  have "kept UNIV X (fold (\<lambda>i Y. failover_writer E C i (failover_offline E i Y)) (Servers (PC X)) X)"
    by (rule kept_fold) (rule kept_trans [OF kept_failover_offline kept_failover_writer], simp)
  from kept_trans [OF kept_trans [OF this kept_load] kept_save] show ?thesis
    by (auto simp: Proxysql_Failover_def Let_def intro!: kept_on_pc split: option.split)
qed

end
