(* ===== verification/ProxySQLProps.thy ===== *)
theory ProxySQLProps
  imports ProxySQL
begin

text \<open>
  What the operations of \<open>ProxySQL\<close> guarantee: the isolation of the clusters that share a ProxySQL, the writer group after a
  failover in both reading modes of the leader, the convergence of the replicas, and where the code falls short.
\<close>

section \<open>Isolation\<close>

text \<open>A proxy in use: its operations, in any order and with any settings and answers, and in between any change of the
  cluster.\<close>

inductive proxy_step :: "psx \<Rightarrow> psx \<Rightarrow> bool" where
  init: "proxy_step X (Proxysql_Init E C X)"
| failover: "proxy_step X (Proxysql_Failover E C X)"
| maintenance: "proxy_step X (Proxysql_SetMaintenance E C i X)"
| refresh: "Proxysql_Refresh E C X = Some (e, Y) \<Longrightarrow> proxy_step X Y"
| monitor: "proxy_step X (X\<lparr>PC := c\<rparr>)"

lemma proxy_step_stays:
  "proxy_step X Y \<Longrightarrow> own_groups (PP Y) = own_groups (PP X) \<and> stays (own_groups (PP X)) UNIV (PD X) (PD Y)"
proof (induction rule: proxy_step.induct)
  case (init X E C)
  then show ?case using kept_mono [OF kept_Init subset_UNIV] by (simp add: kept_def own_groups_def)
next
  case (failover X E C)
  then show ?case using kept_Failover by (simp add: kept_def own_groups_def)
next
  case (maintenance X E C i)
  then show ?case using kept_mono [OF kept_Maintenance subset_UNIV] by (simp add: kept_def own_groups_def)
next
  case (refresh E C X e Y)
  then show ?case using kept_mono [OF kept_Refresh [OF refresh] subset_UNIV] by (simp add: kept_def own_groups_def)
qed simp

text \<open>
  C23: One ProxySQL can serve several clusters. Whatever a proxy of this cluster does, in any number of bootstraps, failovers,
  maintenance changes and refreshes, with any errors, the rows of hostgroups other than its writer group, its reader
  group and the off-line group 666 stay as they were, and the table keeps its key.
\<close>

theorem other_hostgroups_untouched:
  assumes "proxy_step\<^sup>*\<^sup>* X Y" "keyed (servers (PD X))"
  shows "filter (\<lambda>r. r_hostgroup_id r \<notin> {WriterHostgroup (PP X), ReaderHostgroup (PP X), HG_OFFLINE}) (servers (PD Y)) =
         filter (\<lambda>r. r_hostgroup_id r \<notin> {WriterHostgroup (PP X), ReaderHostgroup (PP X), HG_OFFLINE}) (servers (PD X)) \<and>
         keyed (servers (PD Y))"
proof -
  have "own_groups (PP Y) = own_groups (PP X) \<and> stays (own_groups (PP X)) UNIV (PD X) (PD Y)"
    using assms(1) by (induction rule: rtranclp_induct) (auto dest!: proxy_step_stays intro: stays_trans)
  then show ?thesis using assms(2) by (simp add: stays_def foreign_def [abs_def] own_groups_def)
qed

text \<open>
  A refresh never touches a backend it does not know: the rows of hosts that are not servers of the cluster stay as they
  were, in every hostgroup, and of the cluster only the raised states and the proxy status of the servers change.
\<close>

theorem refresh_touches_known_backends:
  assumes "Proxysql_Refresh E C X = Some (e, Y)"
  shows "filter (\<lambda>r. (r_hostname r, r_port r) \<notin> (\<lambda>i. (Unbracket (Host (srv (PC X) i)), Port (srv (PC X) i))) ` set (Servers (PC X)))
           (servers (PD Y)) =
         filter (\<lambda>r. (r_hostname r, r_port r) \<notin> (\<lambda>i. (Unbracket (Host (srv (PC X) i)), Port (srv (PC X) i))) ` set (Servers (PC X)))
           (servers (PD X)) \<and> core (PC Y) = core (PC X)"
proof -
  let ?A = "(\<lambda>i. (Unbracket (Host (srv (PC X) i)), Port (srv (PC X) i))) ` set (Servers (PC X))"
  have A: "backend_of X ` set (Servers (PC X)) = ?A"
    by (simp add: backend_of_def host_of_def port_of_def image_def)
  have k: "kept ?A X Y" using kept_Refresh [OF assms] unfolding A .
  have *: "filter (\<lambda>r. (r_hostname r, r_port r) \<notin> ?A) t =
      filter (\<lambda>r. (r_hostname r, r_port r) \<notin> ?A) (filter (foreign H ?A) t)" for t H
    by (rule filter_absorb [symmetric]) (simp add: foreign_def)
  show ?thesis
    using k * [of "servers (PD X)" "own_groups (PP X)"] * [of "servers (PD Y)" "own_groups (PP X)"]
    by (simp add: kept_def stays_def)
qed

section \<open>The writer after a failover\<close>

text \<open>An admin interface that accepts every statement; only the key of the table can still refuse one.\<close>

definition accepting :: "admin_env \<Rightarrow> bool" where
  "accepting E \<longleftrightarrow> AdminConnect E = None \<and> Refused E = (\<lambda>_ _. None)"

lemma exec_servers:
  "servers (snd (exec E q d)) =
     (if Refused E d q = None then (case effect (DefaultRow E) q (servers d) of None \<Rightarrow> servers d | Some t \<Rightarrow> t) else servers d)"
  by (auto simp: exec_def Let_def split: option.split)

lemma exec_ok: "accepting E \<Longrightarrow> fst (exec E q d) = None \<longleftrightarrow> effect (DefaultRow E) q (servers d) \<noteq> None"
  by (auto simp: exec_def Let_def accepting_def split: option.split)

lemma in_group_stays: "stays H UNIV d d' \<Longrightarrow> g \<notin> H \<Longrightarrow> in_group (servers d') g h p = in_group (servers d) g h p"
proof -
  assume st: "stays H UNIV d d'" and g: "g \<notin> H"
  have *: "in_group t g h p \<longleftrightarrow> in_group (filter (foreign H UNIV) t) g h p" for t
    using g by (force simp: in_group_def foreign_def row_key_def)
  show ?thesis using st * [of "servers d"] * [of "servers d'"] by (simp add: stays_def)
qed

lemma copy_fold_in_group:
  "in_group (fold (\<lambda>r t. put_row t (f r)) rs t) g h p \<longleftrightarrow> in_group t g h p \<or> (\<exists>r\<in>set rs. row_key (f r) = (g, h, p))"
  by (induction rs arbitrary: t) (auto simp: put_row_in_group)

lemma update_no_hit:
  assumes "keyed t" "\<And>g. g \<in> set hgs \<Longrightarrow> \<not> in_group t g h p"
  shows "effect dflt (Update st hg h p hgs) t = Some t"
proof -
  have "\<not> hit h p hgs r" if "r \<in> set t" for r
    using assms(2) [of "r_hostgroup_id r"] that by (force simp: in_group_def hit_def row_key_def)
  then have "map (\<lambda>r. if hit h p hgs r then assign st hg r else r) t = t"
    by (simp add: map_idI)
  then show ?thesis using assms(1) by (simp add: keyed_def)
qed

text \<open>The exchange of the writer when the leader also reads: the writers are deleted, then the reader row is copied.\<close>

lemma replace_writer_reads:
  assumes "accepting E" "WriterHostgroup P \<noteq> ReaderHostgroup P"
  shows "in_group (servers (snd (ReplaceWriter E P h p oh op1 True d))) (WriterHostgroup P) h' p' \<longleftrightarrow>
           (h', p') = (h, p) \<and> in_group (servers d) (ReaderHostgroup P) h p"
    and "stays {WriterHostgroup P} UNIV d (snd (ReplaceWriter E P h p oh op1 True d))"
proof -
  let ?W = "WriterHostgroup P" and ?R = "ReaderHostgroup P"
  let ?d1 = "snd (DeleteAllWriters E P d)"
  have none: "fst (DeleteAllWriters E P d) = None"
    using exec_ok [OF assms(1)] by (simp add: DeleteAllWriters_def)
  then have eq: "ReplaceWriter E P h p oh op1 True d = CopyReaderToWriter E P h p ?d1"
    by (auto simp: ReplaceWriter_def psql_then_def split: prod.split)
  have d1: "servers ?d1 = filter (\<lambda>r. r_hostgroup_id r \<noteq> ?W) (servers d)"
    using assms(1) by (simp add: DeleteAllWriters_def exec_servers accepting_def)
  have "in_group (servers (snd (CopyReaderToWriter E P h p ?d1))) ?W h' p' \<longleftrightarrow>
      in_group (servers ?d1) ?W h' p' \<or> (\<exists>r\<in>set (filter (hit h p [?R]) (servers ?d1)). row_key (r\<lparr>r_hostgroup_id := ?W\<rparr>) = (?W, h', p'))"
    using assms(1) by (simp add: CopyReaderToWriter_def exec_servers accepting_def copy_fold_in_group)
  also have "\<dots> \<longleftrightarrow> (h', p') = (h, p) \<and> in_group (servers d) ?R h p"
    using assms(2) unfolding d1 by (force simp: in_group_def row_key_def hit_def)
  finally show "in_group (servers (snd (ReplaceWriter E P h p oh op1 True d))) ?W h' p' \<longleftrightarrow>
      (h', p') = (h, p) \<and> in_group (servers d) ?R h p" unfolding eq .
  have "stays {?W} UNIV d ?d1" by (simp add: DeleteAllWriters_def exec_stays)
  then show "stays {?W} UNIV d (snd (ReplaceWriter E P h p oh op1 True d))"
    unfolding eq by (rule stays_trans) (simp add: CopyReaderToWriter_def exec_stays)
qed

definition promoted :: "psx \<Rightarrow> sid \<Rightarrow> bool" where
  "promoted X i \<longleftrightarrow> IsMaster (PC X) (srv (PC X) i) \<and> \<not> IsRelay (srv (PC X) i)"

lemma kept_promoted: "kept A X Y \<Longrightarrow> promoted Y i = promoted X i"
  using core_srvD(6) [OF kept_core, of A X Y i] core_predD(4) [OF kept_core, of A X Y i] by (simp add: promoted_def)

lemma servers_load: "servers (PD (psql_do (LoadServersToRuntime E) f X)) = servers (PD X)"
  "servers (PD (save_if_set E C X)) = servers (PD X)"
  by (simp_all add: snd_psql_do LoadServersToRuntime_def save_if_set_def SaveServersToDisk_def exec_servers)

lemma loaded_load: "accepting E \<Longrightarrow> loaded (PD (psql_do (LoadServersToRuntime E) f X)) = servers (PD X)"
  "loaded (PD (save_if_set E C X)) = loaded (PD X)"
  by (simp_all add: snd_psql_do LoadServersToRuntime_def save_if_set_def SaveServersToDisk_def exec_def accepting_def is_load_def
      Let_def split: option.split)

lemma failover_unpromoted: "\<not> promoted X i \<Longrightarrow> failover_writer E C i X = X"
  by (auto simp: failover_writer_def promoted_def split: option.split)

text \<open>One server of the failover loop; \<open>same\<close> is what every iteration keeps, \<open>won\<close> what holds once the master was met.\<close>

definition same :: "psx \<Rightarrow> psx \<Rightarrow> bool" where
  "same X Y \<longleftrightarrow> kept UNIV X Y \<and>
     (\<forall>h p. in_group (servers (PD Y)) (ReaderHostgroup (PP X)) h p = in_group (servers (PD X)) (ReaderHostgroup (PP X)) h p)"

definition won :: "sid \<Rightarrow> psx \<Rightarrow> psx \<Rightarrow> bool" where
  "won m X Y \<longleftrightarrow> same X Y \<and>
     (\<forall>h p. in_group (servers (PD Y)) (WriterHostgroup (PP X)) h p \<longleftrightarrow>
        (h, p) = backend_of X m \<and> in_group (servers (PD X)) (ReaderHostgroup (PP X)) h p)"

lemma same_stays:
  assumes "same X Y" "kept UNIV Y Z" "stays {WriterHostgroup (PP X), HG_OFFLINE} UNIV (PD Y) (PD Z)"
    and "WriterHostgroup (PP X) \<noteq> ReaderHostgroup (PP X)" "ReaderHostgroup (PP X) \<noteq> HG_OFFLINE"
  shows "same X Z"
  using assms kept_trans [of UNIV X Y Z] in_group_stays [OF assms(3), of "ReaderHostgroup (PP X)"]
  by (simp add: same_def)

lemma same_offline:
  assumes "same X Y" "WriterHostgroup (PP X) \<noteq> ReaderHostgroup (PP X)" "ReaderHostgroup (PP X) \<noteq> HG_OFFLINE"
  shows "same X (failover_offline E i Y)"
proof (rule same_stays [OF assms(1) _ _ assms(2, 3)])
  show "kept UNIV Y (failover_offline E i Y)" by (rule kept_failover_offline) simp
  have "WriterHostgroup (PP Y) = WriterHostgroup (PP X)" using assms(1) by (simp add: same_def kept_def)
  then show "stays {WriterHostgroup (PP X), HG_OFFLINE} UNIV (PD Y) (PD (failover_offline E i Y))"
    by (simp add: failover_offline_def snd_psql_do SetOffline_def exec_stays)
qed

lemma won_offline:
  assumes "won m X Y" "backend_of X i \<noteq> backend_of X m" "keyed (servers (PD X))"
    and groups: "WriterHostgroup (PP X) \<noteq> ReaderHostgroup (PP X)" "ReaderHostgroup (PP X) \<noteq> HG_OFFLINE"
  shows "won m X (failover_offline E i Y)"
proof -
  have k: "kept UNIV X Y" and s: "same X Y" using assms(1) by (simp_all add: won_def same_def)
  have "\<not> in_group (servers (PD Y)) (WriterHostgroup (PP Y)) (host_of i Y) (port_of i Y)"
    using assms(1, 2) kept_hosts [OF k, of i] k by (auto simp: won_def backend_of_def kept_def)
  moreover have "keyed (servers (PD Y))" using k assms(3) by (simp add: kept_def stays_def)
  ultimately have "effect (DefaultRow E) (Update None (Some HG_OFFLINE) (host_of i Y) (port_of i Y) [WriterHostgroup (PP Y)])
      (servers (PD Y)) = Some (servers (PD Y))"
    by (intro update_no_hit) auto
  then have "servers (PD (failover_offline E i Y)) = servers (PD Y)"
    by (simp add: failover_offline_def snd_psql_do SetOffline_def exec_servers del: effect.simps)
  then show ?thesis using assms(1) same_offline [OF s groups] by (simp add: won_def)
qed

lemma won_writer:
  assumes "same X Y" "accepting E" "HasProxyReadLeader C" "promoted X m" "oldMaster (PC X) \<noteq> None"
    and groups: "WriterHostgroup (PP X) \<noteq> ReaderHostgroup (PP X)" "ReaderHostgroup (PP X) \<noteq> HG_OFFLINE"
  shows "won m X (failover_writer E C m Y)"
proof -
  have k: "kept UNIV X Y" using assms(1) by (simp add: same_def)
  obtain o1 where o1: "oldMaster (PC Y) = Some o1" using coreD(4) [OF kept_core [OF k]] assms(5) by auto
  have "promoted Y m" using kept_promoted [OF k] assms(4) by simp
  then have d: "PD (failover_writer E C m Y) =
      snd (ReplaceWriter E (PP Y) (host_of m Y) (port_of m Y) (host_of o1 Y) (port_of o1 Y) True (PD Y))"
    using o1 assms(3) by (simp add: failover_writer_def promoted_def snd_psql_do)
  have hg: "WriterHostgroup (PP Y) = WriterHostgroup (PP X)" "ReaderHostgroup (PP Y) = ReaderHostgroup (PP X)"
    using k by (simp_all add: kept_def)
  note rw = replace_writer_reads [OF assms(2), of "PP Y", unfolded hg, OF groups(1)]
  have "stays {WriterHostgroup (PP X), HG_OFFLINE} UNIV (PD Y) (PD (failover_writer E C m Y))"
    unfolding d
    by (auto simp: ReplaceWriter_def DeleteAllWriters_def CopyReaderToWriter_def hg intro!: psql_then_stays exec_stays)
  from same_stays [OF assms(1) kept_failover_writer this groups] have "same X (failover_writer E C m Y)" .
  then show ?thesis
    using rw(1) assms(1) by (auto simp: won_def d same_def backend_of_def kept_hosts [OF k])
qed

lemma failover_result:
  assumes "accepting E"
  shows "servers (PD (Proxysql_Failover E C X)) =
           servers (PD (fold (\<lambda>i Y. failover_writer E C i (failover_offline E i Y)) (Servers (PC X)) X))"
    "loaded (PD (Proxysql_Failover E C X)) = servers (PD (Proxysql_Failover E C X))"
proof -
  have "AdminConnect E = None" using assms by (simp add: accepting_def)
  then show "servers (PD (Proxysql_Failover E C X)) =
           servers (PD (fold (\<lambda>i Y. failover_writer E C i (failover_offline E i Y)) (Servers (PC X)) X))"
    "loaded (PD (Proxysql_Failover E C X)) = servers (PD (Proxysql_Failover E C X))"
    by (simp_all add: Proxysql_Failover_def Let_def servers_load loaded_load assms)
qed

abbreviation failover_server :: "admin_env \<Rightarrow> proxysql_conf \<Rightarrow> sid \<Rightarrow> psx \<Rightarrow> psx" where
  "failover_server E C i Y \<equiv> failover_writer E C i (failover_offline E i Y)"

text \<open>
  C24: After a failover in the mode where the leader also reads, the writer group holds the new master and nothing else if the
  master was a reader before, and nothing at all if it was not: the writers are deleted first, and the new writer is a copy
  of a reader row. The table is then loaded.
\<close>

theorem failover_writer_group:
  assumes ok: "accepting E" and reads: "HasProxyReadLeader C" and tab: "keyed (servers (PD X))"
    and groups: "WriterHostgroup (PP X) \<noteq> ReaderHostgroup (PP X)" "ReaderHostgroup (PP X) \<noteq> HG_OFFLINE"
    and m: "m \<in> set (Servers (PC X))" "promoted X m" "oldMaster (PC X) \<noteq> None"
    and others: "\<forall>i\<in>set (Servers (PC X)). i \<noteq> m \<longrightarrow> \<not> promoted X i \<and> backend_of X i \<noteq> backend_of X m"
  shows "(in_group (servers (PD (Proxysql_Failover E C X))) (WriterHostgroup (PP X)) h p \<longleftrightarrow>
            (h, p) = backend_of X m \<and> in_group (servers (PD X)) (ReaderHostgroup (PP X)) h p) \<and>
         loaded (PD (Proxysql_Failover E C X)) = servers (PD (Proxysql_Failover E C X))"
proof -
  have same: "same X (failover_server E C i Y)" if "same X Y" "i \<in> set (Servers (PC X))" "i \<noteq> m" for i Y
  proof -
    have s: "same X (failover_offline E i Y)" by (rule same_offline [OF that(1) groups])
    then have "\<not> promoted (failover_offline E i Y) i"
      using others that kept_promoted [of UNIV X "failover_offline E i Y" i] by (simp add: same_def)
    then show ?thesis using s by (simp add: failover_unpromoted)
  qed
  have win: "won m X (failover_server E C m Y)" if "same X Y" for Y
    by (rule won_writer [OF same_offline [OF that groups] ok reads m(2, 3) groups])
  have stay: "won m X (failover_server E C i Y)" if "won m X Y" "i \<in> set (Servers (PC X))" for i Y
  proof (cases "i = m")
    case True then show ?thesis using win that by (simp add: won_def)
  next
    case False
    have w: "won m X (failover_offline E i Y)" by (rule won_offline [OF that(1) _ tab groups]) (use others that False in auto)
    then have "\<not> promoted (failover_offline E i Y) i"
      using others that False kept_promoted [of UNIV X "failover_offline E i Y" i] by (simp add: won_def same_def)
    then show ?thesis using w by (simp add: failover_unpromoted)
  qed
  obtain pre post where sp: "Servers (PC X) = pre @ m # post" "m \<notin> set pre" using split_list_first [OF m(1)] by blast
  have "same X (fold (failover_server E C) js X)" if "set js \<subseteq> set pre" for js
    using that by (induction js rule: rev_induct) (use same sp in \<open>auto simp: same_def [of X X]\<close>)
  then have "won m X (failover_server E C m (fold (failover_server E C) pre X))" by (simp add: win)
  then have "won m X (fold (failover_server E C) js (failover_server E C m (fold (failover_server E C) pre X)))"
    if "set js \<subseteq> set post" for js
    using that by (induction js rule: rev_induct) (use stay sp in auto)
  from this [of post] have "won m X (fold (failover_server E C) (Servers (PC X)) X)" by (simp add: sp)
  then show ?thesis
    by (simp add: failover_result [OF ok] won_def)
qed

subsection \<open>Failover when the leader does not read\<close>

lemma update_clash:
  assumes "in_group t g1 h p" "in_group t g2 h p" "g1 \<noteq> g2" "g1 \<in> set hgs" "g2 \<in> set hgs"
  shows "effect dflt (Update st (Some g) h p hgs) t = None"
proof -
  let ?f = "\<lambda>r. if hit h p hgs r then assign st (Some g) r else r"
  obtain r1 r2 where r: "r1 \<in> set t" "row_key r1 = (g1, h, p)" "r2 \<in> set t" "row_key r2 = (g2, h, p)"
    using assms(1, 2) by (auto simp: in_group_def)
  then have ne: "r1 \<noteq> r2" and eq: "(row_key \<circ> ?f) r1 = (row_key \<circ> ?f) r2"
    using assms by (auto simp: row_key_def hit_def)
  have "\<not> inj_on (row_key \<circ> ?f) (set t)"
    using inj_onD [OF _ eq r(1, 3)] ne by blast
  then have "\<not> distinct (map (row_key \<circ> ?f) t)" unfolding distinct_map by blast
  then show ?thesis by (simp only: effect.simps Let_def map_map if_False simp_thms)
qed

text \<open>An update that moves the one row a backend has in some groups to one of them.\<close>

lemma update_move:
  assumes "keyed t" "g \<in> set hgs" "\<And>g1 g2. g1 \<in> set hgs \<Longrightarrow> g2 \<in> set hgs \<Longrightarrow> in_group t g1 h p \<Longrightarrow> in_group t g2 h p \<Longrightarrow> g1 = g2"
  obtains t' where "effect dflt (Update st (Some g) h p hgs) t = Some t'" "keyed t'"
    "\<And>g' h' p'. in_group t' g' h' p' \<longleftrightarrow>
       (if (h', p') = (h, p) \<and> g' \<in> set hgs then g' = g \<and> (\<exists>k\<in>set hgs. in_group t k h p) else in_group t g' h' p')"
proof -
  let ?f = "\<lambda>r. if hit h p hgs r then assign st (Some g) r else r"
  have key: "row_key (?f r) = (if hit h p hgs r then (g, h, p) else row_key r)" for r
    by (simp add: row_key_def hit_def)
  have one: "row_key r = row_key s" if "r \<in> set t" "s \<in> set t" "hit h p hgs r" "hit h p hgs s" for r s
    using assms(3) [of "r_hostgroup_id r" "r_hostgroup_id s"] that
    by (force simp: in_group_def hit_def row_key_def)
  have "inj_on (row_key \<circ> ?f) (set t)"
  proof (rule inj_onI)
    fix r s assume rs: "r \<in> set t" "s \<in> set t" "(row_key \<circ> ?f) r = (row_key \<circ> ?f) s"
    then have "row_key r = row_key s"
      using key [of r] key [of s] one [OF rs(1, 2)] assms(2) by (auto simp: hit_def row_key_def split: if_splits)
    then show "r = s" using assms(1) rs by (auto simp: keyed_def distinct_map inj_on_def)
  qed
  then have d: "distinct (map row_key (map ?f t))"
    using assms(1) by (auto simp: keyed_def distinct_map)
  have "in_group (map ?f t) g' h' p' \<longleftrightarrow>
      (if (h', p') = (h, p) \<and> g' \<in> set hgs then g' = g \<and> (\<exists>k\<in>set hgs. in_group t k h p) else in_group t g' h' p')" for g' h' p'
  proof -
    have "in_group (map ?f t) g' h' p' \<longleftrightarrow> (\<exists>r\<in>set t. row_key (?f r) = (g', h', p'))"
      by (force simp: in_group_def)
    also have "\<dots> \<longleftrightarrow> (\<exists>r\<in>set t. hit h p hgs r \<and> (g', h', p') = (g, h, p)) \<or> (\<exists>r\<in>set t. \<not> hit h p hgs r \<and> row_key r = (g', h', p'))"
      unfolding key by (auto split: if_splits)
    also have "\<dots> \<longleftrightarrow> (if (h', p') = (h, p) \<and> g' \<in> set hgs then g' = g \<and> (\<exists>k\<in>set hgs. in_group t k h p) else in_group t g' h' p')"
      using assms(2) by (force simp: in_group_def hit_def row_key_def)
    finally show ?thesis .
  qed
  with that [of "map ?f t"] d show thesis by (simp add: Let_def keyed_def)
qed

text \<open>
  In the mode where the leader reads only as long as no replica does, a failed leader can be a writer and a reader at once.
  A failover then gives ProxySQL no new writer: moving the old master to the readers breaks the key of the table, the
  error ends the exchange before the new writer is set, and the table stays as it was, with the old master as writer.
\<close>

theorem reading_leader_blocks_failover:
  assumes "\<not> HasProxyReadLeader C" "WriterHostgroup (PP X) \<noteq> ReaderHostgroup (PP X)"
    and old: "oldMaster (PC X) = Some o1" "in_group (servers (PD X)) (WriterHostgroup (PP X)) (host_of o1 X) (port_of o1 X)"
      "in_group (servers (PD X)) (ReaderHostgroup (PP X)) (host_of o1 X) (port_of o1 X)"
    and attached: "\<forall>i\<in>set (Servers (PC X)). State (srv (PC X) i) \<noteq> stateUnconn \<and> \<not> Ignored (srv (PC X) i)"
  shows "servers (PD (Proxysql_Failover E C X)) = servers (PD X)"
proof -
  let ?I = "\<lambda>Y. kept UNIV X Y \<and> servers (PD Y) = servers (PD X)"
  have step: "?I (failover_server E C i Y)" if I: "?I Y" "i \<in> set (Servers (PC X))" for i Y
  proof -
    have off: "failover_offline E i Y = Y"
      using attached that core_srvD [OF kept_core, of UNIV X Y i] by (simp add: failover_offline_def IsIgnored_def)
    have hg: "WriterHostgroup (PP Y) = WriterHostgroup (PP X)" "ReaderHostgroup (PP Y) = ReaderHostgroup (PP X)"
      using I by (simp_all add: kept_def)
    have k: "kept UNIV X Y" using I by simp
    have o1: "oldMaster (PC Y) = Some o1" using coreD(4) [OF kept_core [OF k]] old by simp
    have "effect (DefaultRow E) (Update (Some ''ONLINE'') (Some (ReaderHostgroup (PP Y))) (host_of o1 Y) (port_of o1 Y)
        [ReaderHostgroup (PP Y), WriterHostgroup (PP Y)]) (servers (PD Y)) = None"
      by (rule update_clash [of _ "WriterHostgroup (PP X)" _ _ "ReaderHostgroup (PP X)"])
        (use I old assms(2) in \<open>simp_all add: hg kept_hosts [OF k]\<close>)
    then have "fst (SetReader E (PP Y) (host_of o1 Y) (port_of o1 Y) (PD Y)) \<noteq> None"
      "servers (snd (SetReader E (PP Y) (host_of o1 Y) (port_of o1 Y) (PD Y))) = servers (PD Y)"
      by (auto simp: SetReader_def exec_def Let_def split: option.split simp del: effect.simps)
    then have "servers (PD (failover_writer E C i Y)) = servers (PD Y)"
      using o1 assms(1)
      by (auto simp: failover_writer_def snd_psql_do ReplaceWriter_def psql_then_def split: prod.splits option.splits)
    then show ?thesis
      using I kept_trans [OF k kept_failover_writer [of Y E C i]] by (simp add: off)
  qed
  have "?I (fold (failover_server E C) js X)" if "set js \<subseteq> set (Servers (PC X))" for js
    using that by (induction js rule: rev_induct) (simp_all add: step)
  then show ?thesis
    by (auto simp: Proxysql_Failover_def Let_def servers_load on_pc_def split: option.split)
qed

text \<open>
  In the same mode, with an old master and a new one that are each in one of the two groups, a failover exchanges them: the
  new master is a writer exactly if it was a backend, the old one is no writer, and every other writer stays one.
\<close>

theorem failover_swaps_writer:
  assumes ok: "accepting E" and mode: "\<not> HasProxyReadLeader C" and tab: "keyed (servers (PD X))"
    and groups: "WriterHostgroup (PP X) \<noteq> ReaderHostgroup (PP X)"
    and m: "m \<in> set (Servers (PC X))" "distinct (Servers (PC X))" "promoted X m" "oldMaster (PC X) = Some o1"
      "backend_of X m \<noteq> backend_of X o1"
    and single: "\<forall>i\<in>{m, o1}. \<not> (in_group (servers (PD X)) (WriterHostgroup (PP X)) (host_of i X) (port_of i X) \<and>
        in_group (servers (PD X)) (ReaderHostgroup (PP X)) (host_of i X) (port_of i X))"
    and others: "\<forall>i\<in>set (Servers (PC X)). State (srv (PC X) i) \<noteq> stateUnconn \<and> \<not> Ignored (srv (PC X) i) \<and> (i \<noteq> m \<longrightarrow> \<not> promoted X i)"
  shows "in_group (servers (PD (Proxysql_Failover E C X))) (WriterHostgroup (PP X)) h p \<longleftrightarrow>
           (if (h, p) = backend_of X m
            then in_group (servers (PD X)) (WriterHostgroup (PP X)) h p \<or> in_group (servers (PD X)) (ReaderHostgroup (PP X)) h p
            else (h, p) \<noteq> backend_of X o1 \<and> in_group (servers (PD X)) (WriterHostgroup (PP X)) h p)"
proof -
  let ?W = "WriterHostgroup (PP X)" and ?R = "ReaderHostgroup (PP X)" and ?t = "servers (PD X)"
  let ?s = "snd (ReplaceWriter E (PP X) (host_of m X) (port_of m X) (host_of o1 X) (port_of o1 X) False (PD X))"
  have off: "failover_offline E i Y = Y" if "kept UNIV X Y" "i \<in> set (Servers (PC X))" for i Y
    using others that core_srvD [OF kept_core, of UNIV X Y i] by (simp add: failover_offline_def IsIgnored_def)
  have idle: "fold (failover_server E C) js Y = Y" if "kept UNIV X Y" "set js \<subseteq> set (Servers (PC X)) - {m}" for js Y
    using that(2)
    by (induction js rule: rev_induct)
      (use that(1) off failover_unpromoted kept_promoted [OF that(1)] others in auto)
  obtain pre post where sp: "Servers (PC X) = pre @ m # post" using split_list [OF m(1)] by blast
  then have "fold (failover_server E C) (Servers (PC X)) X = failover_writer E C m X"
    using idle [of X pre] idle [OF kept_failover_writer, of post] m(1, 2) off [of X m] by auto
  then have res: "servers (PD (Proxysql_Failover E C X)) = servers ?s"
    using m(3, 4) mode by (simp add: failover_result [OF ok] failover_writer_def promoted_def snd_psql_do)
  obtain t1 where t1: "effect (DefaultRow E) (Update (Some ''ONLINE'') (Some ?R) (host_of o1 X) (port_of o1 X) [?R, ?W]) ?t = Some t1"
    and k1: "keyed t1" and g1: "\<And>g h p. in_group t1 g h p \<longleftrightarrow> (if (h, p) = backend_of X o1 \<and> g \<in> set [?R, ?W]
        then g = ?R \<and> (\<exists>k\<in>set [?R, ?W]. in_group ?t k (host_of o1 X) (port_of o1 X)) else in_group ?t g h p)"
    by (rule update_move [OF tab, of ?R "[?R, ?W]" "host_of o1 X" "port_of o1 X"])
      (use single in \<open>auto simp: backend_of_def\<close>)
  obtain t2 where t2: "effect (DefaultRow E) (Update (Some ''ONLINE'') (Some ?W) (host_of m X) (port_of m X) [?R, ?W]) t1 = Some t2"
    and g2: "\<And>g h p. in_group t2 g h p \<longleftrightarrow> (if (h, p) = backend_of X m \<and> g \<in> set [?R, ?W]
        then g = ?W \<and> (\<exists>k\<in>set [?R, ?W]. in_group t1 k (host_of m X) (port_of m X)) else in_group t1 g h p)"
    by (rule update_move [OF k1, of ?W "[?R, ?W]" "host_of m X" "port_of m X"])
      (use single m(5) in \<open>auto simp: backend_of_def g1\<close>)
  have "servers ?s = t2"
    using ok t1 t2
    by (simp add: ReplaceWriter_def psql_then_def SetReader_def SetWriter_def exec_def accepting_def Let_def is_load_def
        del: effect.simps)
  then show ?thesis using m(5) groups by (auto simp: res g2 g1 backend_of_def)
qed

section \<open>Refresh\<close>

subsection \<open>What a server of the loop changes\<close>

lemma exec_loaded: "\<not> is_load q \<Longrightarrow> loaded (snd (exec E q d)) = loaded d"
  by (auto simp: exec_def Let_def split: option.split)

lemma is_load_simps [simp]:
  "\<not> is_load (Update st hg h p hgs)" "\<not> is_load (Delete g hp)" "\<not> is_load (Replace g h p cols)" "\<not> is_load (ReplaceUser u w g)"
  "is_load (Admin txt args) \<longleftrightarrow> txt = ''LOAD MYSQL SERVERS TO RUNTIME''"
  by (simp_all add: is_load_def)

lemma perform_PP [simp]: "PP (perform E C i v a X) = PP X"
  by (cases a) (simp_all add: Let_def also_writer_def add_reader_def add_writer_def)

lemma perform_loaded [simp]: "loaded (PD (perform E C i v a X)) = loaded (PD X)"
  by (cases a) (simp_all add: Let_def also_writer_def add_reader_def add_writer_def snd_psql_do router_defs
      SetMonitorIsAlsoWriter_def exec_loaded)

lemma warn_backend_frame [simp]: "PP (warn_backend C i v X) = PP X" "PD (warn_backend C i v X) = PD X"
  by (simp_all add: warn_backend_def Let_def on_pc_def)

lemma psql_then_keeps:
  "(\<And>d. I (snd (f d)) = I d) \<Longrightarrow> (\<And>d. I (snd (g d)) = I d) \<Longrightarrow> I (snd (psql_then f g d)) = I d"
  by (auto simp: psql_then_def split: prod.splits option.splits) (metis snd_conv)+

lemma add_user_table:
  "servers (snd (PSQL_AddUser E P u w d)) = servers d" "loaded (snd (PSQL_AddUser E P u w d)) = loaded d"
  by (simp_all add: PSQL_AddUser_def psql_then_keeps [of servers] psql_then_keeps [of loaded] exec_servers exec_loaded)

text \<open>Copying the accounts leaves the proxy and the table of servers alone.\<close>

definition table_of :: "psx \<Rightarrow> proxysql_proxy \<times> mysql_server list \<times> mysql_server list" where
  "table_of X = (PP X, servers (PD X), loaded (PD X))"

lemma load_grants_frame: "table_of (load_grants E C i X) = table_of X"
proof (cases "IsMaster (PC X) (srv (PC X) i) \<and> ProxysqlCopyGrants C")
  case True
  obtain known err where pu: "ProxyUsers E (PD X) = (known, err)" by fastforce
  let ?X1 = "case err of None \<Rightarrow> X | Some e \<Rightarrow> on_pc (mon_state ''ERR00053'' [FS e] X) X"
  let ?I = "\<lambda>p. table_of (snd p) = table_of X"
  obtain uni X2 where n: "fold (note_user E C) (Grants E i) ([], ?X1) = (uni, X2)" by fastforce
  obtain ch X3 where a: "fold (add_user E known) (MapOrder E uni) (False, X2) = (ch, X3)" by fastforce
  have "?I (fold (note_user E C) (Grants E i) ([], ?X1))"
    by (rule fold_keeps [where I = ?I])
      (auto simp: table_of_def note_user_def on_pc_def Let_def split: option.split)
  then have "?I (fold (add_user E known) (MapOrder E uni) (False, X2))"
    by (intro fold_keeps [where I = ?I]) (auto simp: n table_of_def add_user_def Let_def snd_psql_do add_user_table)
  then show ?thesis
    using True pu n a
    by (auto simp: load_grants_def Let_def table_of_def SaveMySQLUsersToDisk_def snd_psql_do exec_servers exec_loaded)
qed (auto simp: load_grants_def)

lemmas load_grants_simps =
  load_grants_frame [unfolded table_of_def, THEN arg_cong [of _ _ fst], simplified]
  load_grants_frame [unfolded table_of_def, THEN arg_cong [of _ _ "fst \<circ> snd"], simplified]
  load_grants_frame [unfolded table_of_def, THEN arg_cong [of _ _ "snd \<circ> snd"], simplified]

declare load_grants_simps [simp]

text \<open>The view of the pool a server is judged by.\<close>

definition view_of :: "admin_env \<Rightarrow> psx \<Rightarrow> sid \<Rightarrow> pool_view" where
  "view_of E X i =
     pool_view_of (GetStatsForHostWrite E (PP X) (host_of i X) (port_of i X) (PD X))
       (GetStatsForHostRead E (PP X) (host_of i X) (port_of i X) (PD X))"

lemma refresh_server_cases:
  assumes "refresh_server E C i (R, X) = Some (R', Y)"
  obtains (idle) "servers (PD Y) = servers (PD X)" "updated R' = updated R" "\<not> (ProxysqlBootstrap C \<and> IsDiscovered (PC X))"
  | (repair) a X1 where "ProxysqlBootstrap C" "IsDiscovered (PC X)" "kept {} X X1" "PD X1 = PD X"
      "BackendsRead (PP X1) = BackendsRead (PP X)" "BackendsWrite (PP X1) = BackendsWrite (PP X)"
      "decide C (PC X1) (PP X1) i (view_of E X i) = Some a" "servers (PD Y) = servers (PD (perform E C i (view_of E X i) a X1))"
      "updated R' \<longleftrightarrow> updated R \<or> a \<noteq> Nothing"
proof -
  let ?w = "GetStatsForHostWrite E (PP X) (host_of i X) (port_of i X) (PD X)"
  let ?X1 = "note_server i (fst ?w) X"
  obtain u X2 where r: "resolve E C i (view_of E X i) ?X1 = Some (u, X2)" and Y: "Y = load_grants E C i (warn_backend C i (view_of E X i) X2)"
    and R: "updated R' \<longleftrightarrow> updated R \<or> u"
    using assms by (auto simp: refresh_server_def view_of_def Let_def split: option.splits prod.splits)
  have disc: "IsDiscovered (PC ?X1) = IsDiscovered (PC X)"
    by (rule coreD(7) [OF kept_core [OF kept_note_server]])
  show thesis
  proof (cases "ProxysqlBootstrap C \<and> IsDiscovered (PC X)")
    case False
    then show thesis using r Y R disc idle by (auto simp: resolve_def note_server_def)
  next
    case True
    then obtain a where "decide C (PC ?X1) (PP ?X1) i (view_of E X i) = Some a" "u \<longleftrightarrow> a \<noteq> Nothing"
      "X2 = perform E C i (view_of E X i) a ?X1"
      using r disc by (auto simp: resolve_def)
    then show thesis
      using True Y R repair [OF _ _ kept_note_server [of "{}" X i "fst ?w"]] by (auto simp: note_server_def)
  qed
qed

lemma refresh_server_frame:
  assumes "refresh_server E C i (R, X) = Some (R', Y)"
  shows "loaded (PD Y) = loaded (PD X)" "BackendsRead (PP Y) = BackendsRead (PP X)" "BackendsWrite (PP Y) = BackendsWrite (PP X)"
    "\<not> updated R' \<Longrightarrow> \<not> updated R \<and> servers (PD Y) = servers (PD X)"
proof -
  show "\<not> updated R' \<Longrightarrow> \<not> updated R \<and> servers (PD Y) = servers (PD X)"
    by (rule refresh_server_cases [OF assms]) auto
  show "loaded (PD Y) = loaded (PD X)" "BackendsRead (PP Y) = BackendsRead (PP X)" "BackendsWrite (PP Y) = BackendsWrite (PP X)"
    using assms by (auto simp: refresh_server_def Let_def resolve_def note_server_def split: option.splits prod.splits if_splits)
qed

lemma refresh_servers_frame:
  assumes "refresh_servers E C is (R, X) = Some (R', Y)"
  shows "loaded (PD Y) = loaded (PD X)" "BackendsRead (PP Y) = BackendsRead (PP X)" "BackendsWrite (PP Y) = BackendsWrite (PP X)"
    "\<not> updated R' \<Longrightarrow> \<not> updated R \<and> servers (PD Y) = servers (PD X)"
  using assms
  by (induction "is" arbitrary: R X) (auto simp: bind_eq_Some_conv dest: refresh_server_frame)

lemma refresh_servers_append:
  "refresh_servers E C (is @ js) a = Option.bind (refresh_servers E C is a) (refresh_servers E C js)"
proof (induction "is" arbitrary: a)
  case (Cons i "is")
  then show ?case by (cases "refresh_server E C i a") simp_all
qed simp

lemma in_group_kept:
  assumes "kept A X Y" "(h, p) \<notin> A"
  shows "in_group (servers (PD Y)) g h p = in_group (servers (PD X)) g h p"
proof -
  have *: "in_group t g h p \<longleftrightarrow> in_group (filter (foreign H A) t) g h p" for t H
    using assms(2) by (force simp: in_group_def foreign_def row_key_def)
  show ?thesis
    using assms(1) * [of "servers (PD X)" "own_groups (PP X)"] * [of "servers (PD Y)" "own_groups (PP X)"]
    by (simp add: kept_def stays_def)
qed

subsection \<open>A refresh returns\<close>

lemma decide_returns: "master cs \<noteq> None \<Longrightarrow> \<exists>a. decide C cs P i v = Some a"
proof -
  assume "master cs \<noteq> None"
  then have "leader_may_stop_reading C cs P \<noteq> None"
    by (auto simp: leader_may_stop_reading_def HasLeaderInReader_def)
  then obtain b where b: "leader_may_stop_reading C cs P = Some b" by blast
  have "decide C cs P i v \<noteq> None" unfolding decide_def Let_def b by (simp split: if_split)
  then show ?thesis by blast
qed

lemma refresh_servers_returns:
  assumes "master (PC (snd a)) \<noteq> None"
  shows "\<exists>b. refresh_servers E C is a = Some b"
  using assms
proof (induction "is" arbitrary: a)
  case (Cons i "is")
  obtain R X where a: "a = (R, X)" by fastforce
  let ?w = "GetStatsForHostWrite E (PP X) (host_of i X) (port_of i X) (PD X)"
  have "master (PC (note_server i (fst ?w) X)) \<noteq> None"
    using Cons.prems a coreD(2) [OF kept_core [OF kept_note_server]] by simp
  from decide_returns [OF this] obtain r where
    "decide C (PC (note_server i (fst ?w) X)) (PP (note_server i (fst ?w) X)) i (view_of E X i) = Some r" by blast
  then obtain b where b: "refresh_server E C i a = Some b"
    by (cases "ProxysqlBootstrap C \<and> IsDiscovered (PC (note_server i (fst ?w) X))")
      (auto simp: refresh_server_def Let_def a resolve_def view_of_def [symmetric])
  obtain R' Y where Y: "b = (R', Y)" by fastforce
  have "kept UNIV X Y" using kept_refresh_server b a Y by blast
  then have "master (PC Y) = master (PC X)" by (intro coreD(2) kept_core)
  then show ?case using Cons.IH [of b] Cons.prems a Y b by simp
qed simp

lemma refresh_returns:
  assumes "accepting E" "ProxysqlOn C" "master (PC X) \<noteq> None"
  obtains R Z where
    "refresh_servers E C (Servers (PC X)) (\<lparr>updated = False, bkWriters = [], bkReaders = []\<rparr>,
       X\<lparr>PP := (PP X)\<lparr>PVersion := VersionAnswer E (PD X)\<rparr>\<rparr>) = Some (R, Z)"
    "Proxysql_Refresh E C X = Some (None, finish_refresh E C (R, Z))"
  using refresh_servers_returns [of "(\<lparr>updated = False, bkWriters = [], bkReaders = []\<rparr>,
       X\<lparr>PP := (PP X)\<lparr>PVersion := VersionAnswer E (PD X)\<rparr>\<rparr>)" E C "Servers (PC X)"] assms that
  by (fastforce simp: Proxysql_Refresh_def accepting_def)

text \<open>
  In a Galera cluster the leader is the virtual master and the cluster has no master. If the leader is allowed to read
  while no replica does, and more than one reader is on line, the refresh asks whether the leader is among the readers and
  dereferences the missing master: the monitor panics, whatever the other servers are and whatever ProxySQL answers for them.
\<close>

theorem galera_leader_panics:
  assumes conf: "ProxysqlOn C" "ProxysqlBootstrap C" "\<not> HasProxyReadLeader C" "HasProxyReadLeaderNoSlave C"
    and env: "AdminConnect E = None" "IsDiscovered (PC X)"
    and leader: "master (PC X) = None" "vmaster (PC X) = Some i" "i \<in> set (Servers (PC X))"
      "State (srv (PC X) i) = stateWsrep" "PrevState (srv (PC X) i) = stateWsrep"
    and pool: "\<forall>d. snd (Pool E d (WriterHostgroup (PP X)) (host_of i X) (port_of i X)) = None \<and>
                  snd (Pool E d (ReaderHostgroup (PP X)) (host_of i X) (port_of i X)) = None"
    and last_round: "1 < CountAvailableReaders (PP X)" "BackendsWrite (PP X) \<noteq> []"
  shows "Proxysql_Refresh E C X = None"
proof -
  obtain pre post where sp: "Servers (PC X) = pre @ i # post" using split_list [OF leader(3)] by blast
  let ?X0 = "X\<lparr>PP := (PP X)\<lparr>PVersion := VersionAnswer E (PD X)\<rparr>\<rparr>"
  have "refresh_server E C i (R, Y) = None" if "refresh_servers E C pre (R0, ?X0) = Some (R, Y)" for R0 R Y
  proof -
    have k0: "kept UNIV ?X0 Y" by (rule kept_refresh_servers [OF that]) simp
    let ?w = "GetStatsForHostWrite E (PP Y) (host_of i Y) (port_of i Y) (PD Y)"
    let ?X1 = "note_server i (fst ?w) Y"
    have "kept UNIV X ?X1"
      using kept_trans [OF kept_trans [OF _ k0] kept_note_server] by (simp add: kept_proxy)
    note c = kept_core [OF this]
    have hg: "WriterHostgroup (PP Y) = WriterHostgroup (PP X)" "ReaderHostgroup (PP Y) = ReaderHostgroup (PP X)"
      "host_of i Y = host_of i X" "port_of i Y = port_of i X"
      using k0 kept_hosts [OF k0, of i] by (simp_all add: kept_def host_of_def port_of_def)
    have bk: "BackendsRead (PP ?X1) = BackendsRead (PP X)" "BackendsWrite (PP ?X1) = BackendsWrite (PP X)"
      using refresh_servers_frame(2, 3) [OF that] by (simp_all add: note_server_def)
    have v: "is_writer (view_of E Y i)" "is_reader (view_of E Y i)"
      using pool by (simp_all add: view_of_def pool_view_of_def GetStatsForHostWrite_def GetStatsForHostRead_def hg)
    have "HasLeaderInReader (PC ?X1) (PP ?X1) = None"
      using last_round(1) coreD(2) [OF c] leader(1) bk by (auto simp: HasLeaderInReader_def CountAvailableReaders_def)
    then have "decide C (PC ?X1) (PP ?X1) i (view_of E Y i) = None"
      using conf(3, 4) v last_round bk leader core_srvD(3, 4) [OF c, of i] coreD(3) [OF c]
      by (simp add: decide_def Let_def IsLeader_def IsSlaveOrSync_def came_back_def leader_may_stop_reading_def
          CountAvailableReaders_def)
    then show ?thesis
      using conf(2) coreD(7) [OF c] env(2)
      by (simp add: refresh_server_def Let_def view_of_def [symmetric] resolve_def)
  qed
  then show ?thesis
    using conf(1) env(1)
    by (auto simp: Proxysql_Refresh_def sp refresh_servers_append bind_eq_None_conv)
qed

subsection \<open>Replicas\<close>

text \<open>A replica that is one since the last round and is offered to the application.\<close>

definition steady_replica :: "psx \<Rightarrow> sid \<Rightarrow> bool" where
  "steady_replica X i \<longleftrightarrow>
     i \<in> set (Servers (PC X)) \<and> State (srv (PC X) i) = stateSlave \<and> PrevState (srv (PC X) i) = stateSlave \<and>
     IsSlave (srv (PC X) i) \<and> \<not> Ignored (srv (PC X) i) \<and> \<not> IsMaintenance (srv (PC X) i) \<and> GetMaster (PC X) \<noteq> Some i"

text \<open>A pool that lists exactly the loaded rows, none of them as removed.\<close>

definition pool_follows :: "admin_env \<Rightarrow> bool" where
  "pool_follows E \<longleftrightarrow> (\<forall>d g h p. (snd (Pool E d g h p) = None \<longleftrightarrow> in_group (loaded d) g h p) \<and>
     p_status (fst (Pool E d g h p)) \<noteq> ''OFFLINE_HARD'')"

lemma kept_steady:
  assumes "kept A X Y"
  shows "steady_replica Y i = steady_replica X i"
  using coreD(1) [OF kept_core [OF assms]] core_srvD [OF kept_core [OF assms], of i] core_predD(3) [OF kept_core [OF assms]]
  by (simp add: steady_replica_def)

lemma decide_replica:
  assumes "steady_replica X i" "wr_status v \<noteq> ''OFFLINE_HARD''"
  shows "decide C (PC X) P i v = Some (if \<not> is_reader v then AddSlaveReader else if is_writer v then DropSlaveWriter else Nothing)"
  using assms
  by (auto simp: steady_replica_def decide_def Let_def IsLeader_def IsSlaveOrSync_def IsIgnored_def came_back_def)

lemma replica_server:
  assumes s: "refresh_server E C i (R, X) = Some (R', Y)" "steady_replica X i"
    and env: "accepting E" "pool_follows E" "ProxysqlBootstrap C" "IsDiscovered (PC X)"
    and groups: "WriterHostgroup (PP X) \<noteq> ReaderHostgroup (PP X)"
    and view: "\<And>g. in_group (loaded (PD X)) g (host_of i X) (port_of i X) = in_group (servers (PD X)) g (host_of i X) (port_of i X)"
  shows "in_group (servers (PD Y)) (ReaderHostgroup (PP X)) (host_of i X) (port_of i X)"
    and "in_group (servers (PD X)) (ReaderHostgroup (PP X)) (host_of i X) (port_of i X) \<Longrightarrow>
      \<not> in_group (servers (PD Y)) (WriterHostgroup (PP X)) (host_of i X) (port_of i X)"
proof -
  let ?v = "view_of E X i" and ?h = "host_of i X" and ?p = "port_of i X"
  have v: "wr_status ?v \<noteq> ''OFFLINE_HARD''" "is_writer ?v = in_group (servers (PD X)) (WriterHostgroup (PP X)) ?h ?p"
    "is_reader ?v = in_group (servers (PD X)) (ReaderHostgroup (PP X)) ?h ?p"
    using env(2) view
    by (simp_all add: view_of_def pool_view_of_def GetStatsForHostWrite_def GetStatsForHostRead_def pool_follows_def)
  from s(1) have "in_group (servers (PD Y)) (ReaderHostgroup (PP X)) ?h ?p \<and>
      (is_reader ?v \<longrightarrow> \<not> in_group (servers (PD Y)) (WriterHostgroup (PP X)) ?h ?p)"
  proof (cases rule: refresh_server_cases)
    case idle
    then show ?thesis using env by simp
  next
    case (repair a X1)
    have a: "a = (if \<not> is_reader ?v then AddSlaveReader else if is_writer ?v then DropSlaveWriter else Nothing)"
      using repair decide_replica [of X1 i ?v C "PP X1"] v(1) s(2) kept_steady [OF repair(3)] by simp
    have X1: "host_of i X1 = ?h" "port_of i X1 = ?p" "WriterHostgroup (PP X1) = WriterHostgroup (PP X)"
      "ReaderHostgroup (PP X1) = ReaderHostgroup (PP X)"
      using kept_hosts [OF repair(3)] repair(3) by (simp_all add: kept_def)
    have eff: "Refused E = (\<lambda>_ _. None)" using env(1) by (simp add: accepting_def)
    show ?thesis
    proof (cases "is_reader ?v")
      case False
      then have "servers (PD Y) = put_row (servers (PD X)) (new_row (DefaultRow E) (ReaderHostgroup (PP X)) ?h ?p
        [(''weight'', ''1''), (''max_replication_lag'', dec_int (PRXServersBackendMaxReplicationLag C)),
         (''max_connections'', dec_int (PRXServersBackendMaxConnections C)),
         (''compression'', dec_int (if PRXServersBackendCompression C then 1 else 0)), (''use_ssl'', UseSSL C)])"
        using repair a by (simp add: add_reader_def snd_psql_do AddServerAsReader_def exec_servers eff X1)
      then show ?thesis using False by (simp add: put_row_in_group)
    next
      case True
      then show ?thesis
        using repair a v groups
        by (auto simp: snd_psql_do DropWriter_def exec_servers eff X1 in_group_def row_key_def split: if_splits)
    qed
  qed
  then show "in_group (servers (PD Y)) (ReaderHostgroup (PP X)) ?h ?p"
    "in_group (servers (PD X)) (ReaderHostgroup (PP X)) ?h ?p \<Longrightarrow>
      \<not> in_group (servers (PD Y)) (WriterHostgroup (PP X)) ?h ?p"
    using v by simp_all
qed

lemma set_multiplexing_table:
  "servers (PD (set_multiplexing E C val X)) = servers (PD X)" "loaded (PD (set_multiplexing E C val X)) = loaded (PD X)"
proof -
  have "servers (snd (SetMySQLVariable E var val d)) = servers d" "loaded (snd (SetMySQLVariable E var val d)) = loaded d"
    "servers (snd (LoadMySQLVariablesToRuntime E d)) = servers d" "loaded (snd (LoadMySQLVariablesToRuntime E d)) = loaded d"
    "servers (snd (SaveMySQLVariablesToDisk E d)) = servers d" "loaded (snd (SaveMySQLVariablesToDisk E d)) = loaded d" for var d
    by (simp_all add: SetMySQLVariable_def LoadMySQLVariablesToRuntime_def SaveMySQLVariablesToDisk_def exec_servers exec_loaded)
  then show "servers (PD (set_multiplexing E C val X)) = servers (PD X)" "loaded (PD (set_multiplexing E C val X)) = loaded (PD X)"
    by (simp_all add: set_multiplexing_def Let_def snd_psql_do)
qed

lemma finish_table:
  assumes "accepting E"
  shows "servers (PD (finish_refresh E C (R, X))) = servers (PD X)"
    and "loaded (PD (finish_refresh E C (R, X))) = (if updated R then servers (PD X) else loaded (PD X))"
proof -
  have m: "servers (PD (multiplexing E C Y)) = servers (PD Y)" "loaded (PD (multiplexing E C Y)) = loaded (PD Y)" for Y
    by (simp_all add: multiplexing_def Let_def set_multiplexing_table)
  have r: "PD (read_rules E Y) = PD Y" "PD (read_variables E Y) = PD Y" for Y
    by (simp_all add: read_rules_def read_variables_def on_pc_def Let_def split: prod.split option.split)
  have l: "servers (PD (load_updated E u Y)) = servers (PD Y)"
    "loaded (PD (load_updated E u Y)) = (if u then servers (PD Y) else loaded (PD Y))" for u Y
    using assms
    by (auto simp: load_updated_def accepting_def LoadServersToRuntime_def SaveServersToDisk_def exec_def Let_def
        snd_psql_do split: prod.splits)
  show "servers (PD (finish_refresh E C (R, X))) = servers (PD X)"
    "loaded (PD (finish_refresh E C (R, X))) = (if updated R then servers (PD X) else loaded (PD X))"
    by (simp_all add: finish_refresh_def Let_def m r l)
qed

text \<open>The loop as one server sees it: the rows of its own backend change in its own iteration only.\<close>

lemma loop_at:
  assumes loop: "refresh_servers E C (Servers (PC X)) (R0, X0) = Some (R, Z)" and k0: "kept {} X X0"
    and addr: "distinct (Servers (PC X))" "inj_on (backend_of X) (set (Servers (PC X)))" and i: "i \<in> set (Servers (PC X))"
  obtains R1 Y1 R2 Y2 where "refresh_server E C i (R1, Y1) = Some (R2, Y2)" "kept (- {backend_of X i}) X Y1"
    "loaded (PD Y1) = loaded (PD X0)" "kept (- {backend_of X i}) Y2 Z" "kept UNIV X Z"
proof -
  let ?b = "backend_of X i"
  obtain pre post where sp: "Servers (PC X) = pre @ i # post" using split_list [OF i] by blast
  obtain R1 Y1 R2 Y2 where l1: "refresh_servers E C pre (R0, X0) = Some (R1, Y1)"
    and l2: "refresh_server E C i (R1, Y1) = Some (R2, Y2)" and l3: "refresh_servers E C post (R2, Y2) = Some (R, Z)"
    using loop unfolding sp by (auto simp: refresh_servers_append bind_eq_Some_conv)
  have out: "backend_of X ` set pre \<subseteq> - {?b}" "backend_of X ` set post \<subseteq> - {?b}"
    using addr unfolding sp by (auto simp: inj_on_def)
  have "kept (- {?b}) X0 Y1"
    by (rule kept_refresh_servers [OF l1]) (use out kept_hosts [OF k0] in \<open>auto simp: backend_of_def\<close>)
  from kept_trans [OF kept_mono [OF k0] this] have k1: "kept (- {?b}) X Y1" by simp
  have k2: "kept {?b} Y1 Y2"
    by (rule kept_refresh_server [OF l2]) (simp add: backend_of_def kept_hosts [OF k1])
  have k3: "kept (- {?b}) Y2 Z"
    by (rule kept_refresh_servers [OF l3])
      (use out in \<open>auto simp: backend_of_def kept_hosts [OF k2] kept_hosts [OF k1]\<close>)
  have "kept UNIV X Z"
    using kept_trans [OF kept_trans [OF kept_mono [OF k1] kept_mono [OF k2]] kept_mono [OF k3]] by simp
  with that [OF l2 k1 _ k3] refresh_servers_frame(1) [OF l1] show thesis by simp
qed

text \<open>One round, for one replica.\<close>

lemma replica_round:
  assumes env: "accepting E" "pool_follows E" and conf: "ProxysqlOn C" "ProxysqlBootstrap C"
    and groups: "WriterHostgroup (PP X) \<noteq> ReaderHostgroup (PP X)"
    and cluster: "IsDiscovered (PC X)" "master (PC X) \<noteq> None" "distinct (Servers (PC X))"
      "inj_on (backend_of X) (set (Servers (PC X)))" "steady_replica X i"
    and sync: "loaded (PD X) = servers (PD X)"
  obtains Y where "Proxysql_Refresh E C X = Some (None, Y)" "kept UNIV X Y" "loaded (PD Y) = servers (PD Y)"
    "in_group (servers (PD Y)) (ReaderHostgroup (PP X)) (host_of i X) (port_of i X)"
    "in_group (servers (PD X)) (ReaderHostgroup (PP X)) (host_of i X) (port_of i X) \<Longrightarrow>
      \<not> in_group (servers (PD Y)) (WriterHostgroup (PP X)) (host_of i X) (port_of i X)"
proof -
  let ?X0 = "X\<lparr>PP := (PP X)\<lparr>PVersion := VersionAnswer E (PD X)\<rparr>\<rparr>" and ?b = "backend_of X i"
  let ?R0 = "\<lparr>updated = False, bkWriters = [], bkReaders = []\<rparr>"
  let ?h = "host_of i X" and ?p = "port_of i X" and ?rd = "ReaderHostgroup (PP X)" and ?wr = "WriterHostgroup (PP X)"
  obtain R Z where loop: "refresh_servers E C (Servers (PC X)) (?R0, ?X0) = Some (R, Z)"
    and ret: "Proxysql_Refresh E C X = Some (None, finish_refresh E C (R, Z))"
    using refresh_returns [OF env(1) conf(1) cluster(2)] .
  have iS: "i \<in> set (Servers (PC X))" using cluster(5) by (simp add: steady_replica_def)
  have k0: "kept {} X ?X0" by (simp add: kept_proxy)
  obtain R1 Y1 R2 Y2 where l2: "refresh_server E C i (R1, Y1) = Some (R2, Y2)"
    and k1: "kept (- {?b}) X Y1" and ld: "loaded (PD Y1) = loaded (PD X)" and k3: "kept (- {?b}) Y2 Z" and kZ: "kept UNIV X Z"
    by (rule loop_at [OF loop k0 cluster(3, 4) iS]) (rule that, assumption+, simp, assumption+)
  have g1: "in_group (servers (PD Y1)) g ?h ?p = in_group (servers (PD X)) g ?h ?p" for g
    by (rule in_group_kept [OF k1]) (simp add: backend_of_def)
  have g3: "in_group (servers (PD Z)) g ?h ?p = in_group (servers (PD Y2)) g ?h ?p" for g
    by (rule in_group_kept [OF k3]) (simp add: backend_of_def)
  have hg: "WriterHostgroup (PP Y1) = ?wr" "ReaderHostgroup (PP Y1) = ?rd" "host_of i Y1 = ?h" "port_of i Y1 = ?p"
    using k1 kept_hosts [OF k1] by (simp_all add: kept_def)
  have st: "steady_replica Y1 i" "IsDiscovered (PC Y1)"
    using kept_steady [OF k1] coreD(7) [OF kept_core [OF k1]] cluster by simp_all
  note rep = replica_server [OF l2 st(1) env conf(2) st(2), unfolded hg, OF groups]
  have view: "in_group (loaded (PD Y1)) g ?h ?p = in_group (servers (PD Y1)) g ?h ?p" for g
    by (simp add: ld g1 sync)
  show thesis
  proof (rule that [OF ret])
    show "kept UNIV X (finish_refresh E C (R, Z))" by (rule kept_trans [OF kZ kept_finish])
    show "loaded (PD (finish_refresh E C (R, Z))) = servers (PD (finish_refresh E C (R, Z)))"
      using refresh_servers_frame(1, 4) [OF loop] sync by (simp add: finish_table [OF env(1)])
    show "in_group (servers (PD (finish_refresh E C (R, Z)))) ?rd ?h ?p"
      using rep(1) [OF view] by (simp add: finish_table [OF env(1)] g3)
    show "in_group (servers (PD X)) ?rd ?h ?p \<Longrightarrow> \<not> in_group (servers (PD (finish_refresh E C (R, Z)))) ?wr ?h ?p"
      using rep(2) [OF view] by (simp add: finish_table [OF env(1)] g3 g1)
  qed
qed


subsection \<open>A parked server that comes back\<close>

lemma set_reader_no_row:
  assumes "keyed (servers d)" "\<not> in_group (servers d) (WriterHostgroup P) h p" "\<not> in_group (servers d) (ReaderHostgroup P) h p"
  shows "servers (snd (SetReader E P h p d)) = servers d"
proof -
  have "effect (DefaultRow E) (Update (Some ''ONLINE'') (Some (ReaderHostgroup P)) h p [ReaderHostgroup P, WriterHostgroup P])
      (servers d) = Some (servers d)"
    by (rule update_no_hit) (use assms in auto)
  then show ?thesis by (simp add: SetReader_def exec_servers del: effect.simps)
qed

lemma rejoin_table:
  "PD (perform E C i v RejoinReader X) =
     (let d = snd (SetReader E (PP X) (host_of i X) (port_of i X) (PD X))
      in if is_reader v then snd (DropWriter E (PP X) (host_of i X) (port_of i X) d) else d)"
proof -
  let ?Y = "psql_do (SetReader E (PP X) (host_of i X) (port_of i X))
              (\<lambda>e. prx_state ''ERR00069'' [FS (URL (srv (PC X) i)), FS e] X) X"
  have "kept UNIV X ?Y" by (auto intro!: kept_psql_do op_stays_db)
  from kept_hosts [OF this, of i] show ?thesis by (simp add: Let_def snd_psql_do)
qed

lemma drop_writer_in_group: "in_group (servers (snd (DropWriter E P h p d))) g h' p' \<Longrightarrow> in_group (servers d) g h' p'"
  by (auto simp: DropWriter_def exec_servers in_group_def split: if_splits)

text \<open>
  A failed writer is parked in the off-line group 666. When it comes back as a replica while the pool still shows its removed
  writer row as \<open>OFFLINE_HARD\<close>, the refresh takes the branch meant for it and sets it as a reader, but only where it is a
  reader or a writer already: the parked row is not addressed, and the server stays out of both groups for this round.
\<close>

theorem parked_server_not_rejoined:
  assumes ret: "Proxysql_Refresh E C X = Some (e, Y)"
    and tab: "keyed (servers (PD X))" "\<forall>g\<in>{WriterHostgroup (PP X), ReaderHostgroup (PP X)}. \<not> in_group (servers (PD X)) g (host_of i X) (port_of i X)"
    and i: "i \<in> set (Servers (PC X))" "State (srv (PC X) i) = stateSlave" "\<not> Ignored (srv (PC X) i)"
    and addr: "distinct (Servers (PC X))" "inj_on (backend_of X) (set (Servers (PC X)))"
    and pool: "\<forall>d. p_status (fst (Pool E d (WriterHostgroup (PP X)) (host_of i X) (port_of i X))) = ''OFFLINE_HARD''"
    and env: "accepting E" "ProxysqlOn C"
  shows "\<not> in_group (servers (PD Y)) (ReaderHostgroup (PP X)) (host_of i X) (port_of i X) \<and>
         \<not> in_group (servers (PD Y)) (WriterHostgroup (PP X)) (host_of i X) (port_of i X)"
proof -
  let ?X0 = "X\<lparr>PP := (PP X)\<lparr>PVersion := VersionAnswer E (PD X)\<rparr>\<rparr>" and ?b = "backend_of X i"
  let ?h = "host_of i X" and ?p = "port_of i X" and ?rd = "ReaderHostgroup (PP X)" and ?wr = "WriterHostgroup (PP X)"
  obtain R Z where loop: "refresh_servers E C (Servers (PC X)) (\<lparr>updated = False, bkWriters = [], bkReaders = []\<rparr>, ?X0) = Some (R, Z)"
    and Y: "Y = finish_refresh E C (R, Z)"
    using ret env by (auto simp: Proxysql_Refresh_def accepting_def)
  have k0: "kept {} X ?X0" by (simp add: kept_proxy)
  obtain R1 Y1 R2 Y2 where l2: "refresh_server E C i (R1, Y1) = Some (R2, Y2)"
    and k1: "kept (- {?b}) X Y1" and k3: "kept (- {?b}) Y2 Z"
    by (rule loop_at [OF loop k0 addr i(1)]) (rule that)
  have g1: "in_group (servers (PD Y1)) g ?h ?p = in_group (servers (PD X)) g ?h ?p" for g
    by (rule in_group_kept [OF k1]) (simp add: backend_of_def)
  have g3: "in_group (servers (PD Z)) g ?h ?p = in_group (servers (PD Y2)) g ?h ?p" for g
    by (rule in_group_kept [OF k3]) (simp add: backend_of_def)
  have none: "\<not> in_group (servers (PD Y2)) g ?h ?p" if "g \<in> {?wr, ?rd}" for g
    using l2
  proof (cases rule: refresh_server_cases)
    case idle
    then show ?thesis using tab(2) that by (auto simp: g1)
  next
    case (repair a X1)
    have k: "kept UNIV X X1" using kept_trans [OF kept_mono [OF k1] kept_mono [OF repair(3)]] by simp
    have X1: "host_of i X1 = ?h" "port_of i X1 = ?p" "WriterHostgroup (PP X1) = ?wr" "ReaderHostgroup (PP X1) = ?rd"
      using kept_hosts [OF k] k by (simp_all add: kept_def)
    have Y1: "host_of i Y1 = ?h" "port_of i Y1 = ?p" "WriterHostgroup (PP Y1) = ?wr"
      using kept_hosts [OF k1] k1 by (simp_all add: kept_def)
    have "wr_status (view_of E Y1 i) = ''OFFLINE_HARD''"
      using pool by (simp add: view_of_def pool_view_of_def GetStatsForHostWrite_def Y1)
    then have "a = RejoinReader"
      using repair(7) i core_srvD [OF kept_core [OF k], of i] by (simp add: decide_def Let_def IsIgnored_def)
    moreover have "servers (snd (SetReader E (PP X1) ?h ?p (PD Y1))) = servers (PD Y1)"
      by (rule set_reader_no_row) (use k1 tab in \<open>auto simp: X1 g1 kept_def stays_def\<close>)
    ultimately have "servers (PD Y2) = servers (PD Y1) \<or>
        servers (PD Y2) = servers (snd (DropWriter E (PP X1) ?h ?p (snd (SetReader E (PP X1) ?h ?p (PD Y1)))))"
      using repair(4, 8) by (simp add: rejoin_table Let_def X1 del: perform.simps)
    then show ?thesis
      using tab(2) that drop_writer_in_group [of E "PP X1" ?h ?p "snd (SetReader E (PP X1) ?h ?p (PD Y1))" g ?h ?p]
        \<open>servers (snd (SetReader E (PP X1) ?h ?p (PD Y1))) = servers (PD Y1)\<close> by (auto simp: g1)
  qed
  then show ?thesis by (simp add: Y finish_table [OF env(1)] g3)
qed

subsection \<open>Empty tags\<close>

lemma str_split_last_empty: "[] \<in> set (tl (str_split c (s @ [c])))"
  by (induction s) (auto split: list.split dest: list.set_sel(2) [rotated])

text \<open>
  A filter matches a tag that is a suffix of it, and the empty tag is a suffix of every filter. With no tags configured,
  or with a trailing comma, both reading modes of the leader are on whatever their settings say.
\<close>

theorem empty_tag_enables_leader_reads:
  assumes "ProvProxTags C = '''' \<or> (\<exists>ts. ProvProxTags C = ts @ '','')"
  shows "HasProxyReadLeader C \<and> HasProxyReadLeaderNoSlave C"
proof -
  have "[] \<in> set (ProxyTags C)" using assms list.set_sel(2) [OF str_split_nonempty str_split_last_empty] by (auto simp: ProxyTags_def)
  then have "IsFilterInProxyTags C f" for f by (auto simp: IsFilterInProxyTags_def list_ex_iff intro: bexI [of _ "[]"])
  then show ?thesis by (simp add: HasProxyReadLeader_def HasProxyReadLeaderNoSlave_def)
qed

section \<open>A sample proxy\<close>

definition sample_row :: "int \<Rightarrow> string \<Rightarrow> mysql_server" where
  "sample_row g h = \<lparr>r_hostgroup_id = g, r_hostname = h, r_port = ''3306'', r_gtid_port = ''0'', r_status = ''ONLINE'',
     r_weight = ''1'', r_compression = ''0'', r_max_connections = ''1000'', r_max_replication_lag = ''0'', r_use_ssl = ''0'',
     r_max_latency_ms = ''0''\<rparr>"

definition pool_row_of :: "string \<Rightarrow> pool_row" where
  "pool_row_of st = \<lparr>p_hostgroup = '''', p_status = st, p_conn_used = 0, p_byte_out = 0, p_byte_in = 0, p_latency = 0\<rparr>"

text \<open>An admin interface that accepts everything and whose pool lists the loaded rows.\<close>

definition calm_admin :: admin_env where
  "calm_admin = \<lparr>AdminConnect = None, Refused = (\<lambda>_ _. None), KeyError = ''UNIQUE constraint failed'',
     DefaultRow = sample_row 0 '''', SelectFails = (\<lambda>_. False),
     Pool = (\<lambda>d g h p. if in_group (loaded d) g h p then (pool_row_of ''ONLINE'', None) else (pool_row_of '''', Some ''no rows'')),
     VersionAnswer = (\<lambda>_. ''''), RulesAnswer = (\<lambda>_. ([], None)), VariablesAnswer = (\<lambda>_. (\<lambda>_. '''', None)),
     ProxyUsers = (\<lambda>_. ([], None)), Grants = (\<lambda>_. []), MapOrder = (\<lambda>us. us), DbUserName = ''root''\<rparr>"

definition sample_proxy :: proxysql_proxy where
  "sample_proxy = \<lparr>PName = ''px'', PHost = ''px'', PPort = ''6032'', PWeight = ''100'', PVersion = '''', WriterHostgroup = 0,
     ReaderHostgroup = 1, BackendsWrite = [], BackendsRead = [], QueryRules = [], PVariables = (\<lambda>_. ''''),
     ProxysqlHostgroup = (\<lambda>_. '''')\<rparr>"

definition sample_pconf :: "bool \<Rightarrow> bool \<Rightarrow> proxysql_conf" where
  "sample_pconf leader noslave = \<lparr>ProxysqlOn = True, ProxysqlBootstrap = True, ProxysqlBootstrapHG = False,
     ProxysqlBootstrapVariables = False, ProxysqlSaveToDisk = False, ProxysqlMultiplexing = False, ProxysqlCopyGrants = False,
     MonitorWriteHeartbeatCredential = '''', PRXServersBackendMaxReplicationLag = 30, PRXServersBackendMaxConnections = 1000,
     PRXServersBackendCompression = False, PRXServersReadOnMaster = leader, PRXServersReadOnMasterNoSlave = noslave,
     ProvProxTags = ''docker'', DBTags = []\<rparr>"

text \<open>The sample cluster after a failover from server 0 to server 2, with a table of rows.\<close>

definition sample_psx :: "mysql_server list \<Rightarrow> psx" where
  "sample_psx t = \<lparr>PC = sample_cluster\<lparr>master := Some 2, oldMaster := Some 0, StateMachine := zero_sm\<lparr>Discovered := True\<rparr>,
     srv := (srv sample_cluster)(1 := (srv sample_cluster 1)\<lparr>IsSlave := True\<rparr>,
                                 2 := (srv sample_cluster 2)\<lparr>State := stateMaster\<rparr>)\<rparr>,
     PP = sample_proxy, PD = \<lparr>servers = t, loaded = t, received = []\<rparr>\<rparr>"

lemma calm_admin_ok: "accepting calm_admin" "pool_follows calm_admin"
  by (simp_all add: accepting_def pool_follows_def calm_admin_def pool_row_of_def)

theorem other_hostgroups_untouched_witness:
  "servers (PD (Proxysql_Failover calm_admin (sample_pconf True False)
      (sample_psx [sample_row 0 ''db0'', sample_row 1 ''db2'', sample_row 7 ''db2'']))) \<noteq> [] \<and>
   filter (\<lambda>r. r_hostgroup_id r \<notin> {0, 1, 666}) (servers (PD (Proxysql_Failover calm_admin (sample_pconf True False)
      (sample_psx [sample_row 0 ''db0'', sample_row 1 ''db2'', sample_row 7 ''db2''])))) = [sample_row 7 ''db2'']"
proof -
  let ?X = "sample_psx [sample_row 0 ''db0'', sample_row 1 ''db2'', sample_row 7 ''db2'']"
  let ?Y = "Proxysql_Failover calm_admin (sample_pconf True False) ?X"
  have k: "keyed (servers (PD ?X))" by code_simp
  have g: "WriterHostgroup (PP ?X) = 0" "ReaderHostgroup (PP ?X) = 1" by code_simp+
  have f: "filter (\<lambda>r. r_hostgroup_id r \<notin> {0, 1, 666}) (servers (PD ?X)) = [sample_row 7 ''db2'']" by code_simp
  have "filter (\<lambda>r. r_hostgroup_id r \<notin> {0, 1, 666}) (servers (PD ?Y)) = [sample_row 7 ''db2'']"
    using other_hostgroups_untouched [OF r_into_rtranclp [where r = proxy_step, OF proxy_step.failover] k,
        of calm_admin "sample_pconf True False"] unfolding g f by blast
  then show ?thesis by (metis filter.simps(1) list.distinct(1))
qed

theorem refresh_touches_known_backends_witness:
  "\<exists>Y. Proxysql_Refresh calm_admin ((sample_pconf True False)\<lparr>ProxysqlOn := False\<rparr>) (sample_psx []) = Some (None, Y) \<and>
     core (PC Y) = core (PC (sample_psx []))"
  using refresh_touches_known_backends [of calm_admin "(sample_pconf True False)\<lparr>ProxysqlOn := False\<rparr>" "sample_psx []" None]
  by (simp add: Proxysql_Refresh_def)

theorem failover_writer_group_witness:
  "in_group (servers (PD (Proxysql_Failover calm_admin (sample_pconf True False)
      (sample_psx [sample_row 0 ''db0'', sample_row 1 ''db0'', sample_row 1 ''db2''])))) 0 ''db2'' ''3306'' \<and>
   \<not> in_group (servers (PD (Proxysql_Failover calm_admin (sample_pconf True False)
      (sample_psx [sample_row 0 ''db0'', sample_row 1 ''db0'', sample_row 1 ''db2''])))) 0 ''db0'' ''3306''"
proof -
  let ?X = "sample_psx [sample_row 0 ''db0'', sample_row 1 ''db0'', sample_row 1 ''db2'']" and ?C = "sample_pconf True False"
  have c: "HasProxyReadLeader ?C" "keyed (servers (PD ?X))" "WriterHostgroup (PP ?X) \<noteq> ReaderHostgroup (PP ?X)"
    "ReaderHostgroup (PP ?X) \<noteq> HG_OFFLINE" "2 \<in> set (Servers (PC ?X))" "promoted ?X 2"
    "\<forall>i\<in>set (Servers (PC ?X)). i \<noteq> 2 \<longrightarrow> \<not> promoted ?X i \<and> backend_of ?X i \<noteq> backend_of ?X 2"
    by code_simp+
  have o: "oldMaster (PC ?X) \<noteq> None" by (simp add: sample_psx_def)
  have v: "WriterHostgroup (PP ?X) = 0" "backend_of ?X 2 = (''db2'', ''3306'')"
    "in_group (servers (PD ?X)) (ReaderHostgroup (PP ?X)) ''db2'' ''3306''" by code_simp+
  show ?thesis
    using failover_writer_group [OF calm_admin_ok(1) c(1-6) o c(7), of "''db2''" "''3306''"]
      failover_writer_group [OF calm_admin_ok(1) c(1-6) o c(7), of "''db0''" "''3306''"] v by simp
qed

theorem failover_swaps_writer_witness:
  "in_group (servers (PD (Proxysql_Failover calm_admin (sample_pconf False False)
      (sample_psx [sample_row 0 ''db0'', sample_row 1 ''db2''])))) 0 ''db2'' ''3306'' \<and>
   \<not> in_group (servers (PD (Proxysql_Failover calm_admin (sample_pconf False False)
      (sample_psx [sample_row 0 ''db0'', sample_row 1 ''db2''])))) 0 ''db0'' ''3306''"
proof -
  let ?X = "sample_psx [sample_row 0 ''db0'', sample_row 1 ''db2'']" and ?C = "sample_pconf False False"
  have c: "\<not> HasProxyReadLeader ?C" "keyed (servers (PD ?X))" "WriterHostgroup (PP ?X) \<noteq> ReaderHostgroup (PP ?X)"
    "2 \<in> set (Servers (PC ?X))" "distinct (Servers (PC ?X))" "promoted ?X 2" "backend_of ?X 2 \<noteq> backend_of ?X 0"
    "\<forall>i\<in>{2, 0}. \<not> (in_group (servers (PD ?X)) (WriterHostgroup (PP ?X)) (host_of i ?X) (port_of i ?X) \<and>
        in_group (servers (PD ?X)) (ReaderHostgroup (PP ?X)) (host_of i ?X) (port_of i ?X))"
    "\<forall>i\<in>set (Servers (PC ?X)). State (srv (PC ?X) i) \<noteq> stateUnconn \<and> \<not> Ignored (srv (PC ?X) i) \<and> (i \<noteq> 2 \<longrightarrow> \<not> promoted ?X i)"
    by code_simp+
  have o: "oldMaster (PC ?X) = Some 0" by (simp add: sample_psx_def)
  have v: "WriterHostgroup (PP ?X) = 0" "backend_of ?X 2 = (''db2'', ''3306'')" "backend_of ?X 0 = (''db0'', ''3306'')"
    "in_group (servers (PD ?X)) (ReaderHostgroup (PP ?X)) ''db2'' ''3306''" by code_simp+
  show ?thesis
    using failover_swaps_writer [OF calm_admin_ok(1) c(1-6) o c(7-9), of "''db2''" "''3306''"]
      failover_swaps_writer [OF calm_admin_ok(1) c(1-6) o c(7-9), of "''db0''" "''3306''"] v by simp
qed

theorem reading_leader_blocks_failover_witness:
  "servers (PD (Proxysql_Failover calm_admin (sample_pconf False True)
      (sample_psx [sample_row 0 ''db0'', sample_row 1 ''db0'', sample_row 1 ''db2'']))) =
   [sample_row 0 ''db0'', sample_row 1 ''db0'', sample_row 1 ''db2'']"
proof -
  let ?X = "sample_psx [sample_row 0 ''db0'', sample_row 1 ''db0'', sample_row 1 ''db2'']" and ?C = "sample_pconf False True"
  have c: "\<not> HasProxyReadLeader ?C" "WriterHostgroup (PP ?X) \<noteq> ReaderHostgroup (PP ?X)"
    "in_group (servers (PD ?X)) (WriterHostgroup (PP ?X)) (host_of 0 ?X) (port_of 0 ?X)"
    "in_group (servers (PD ?X)) (ReaderHostgroup (PP ?X)) (host_of 0 ?X) (port_of 0 ?X)"
    "\<forall>i\<in>set (Servers (PC ?X)). State (srv (PC ?X) i) \<noteq> stateUnconn \<and> \<not> Ignored (srv (PC ?X) i)"
    by code_simp+
  have o: "oldMaster (PC ?X) = Some 0" by (simp add: sample_psx_def)
  show ?thesis using reading_leader_blocks_failover [OF c(1, 2) o c(3-5), of calm_admin] by (simp add: sample_psx_def)
qed

text \<open>A Galera cluster: no master, the first server is the virtual one, and two readers were on line in the last round.\<close>

definition galera_psx :: psx where
  "galera_psx = (sample_psx [])
     \<lparr>PC := (PC (sample_psx []))\<lparr>master := None, vmaster := Some 0,
        srv := (srv sample_cluster)(0 := (srv sample_cluster 0)\<lparr>State := stateWsrep, PrevState := stateWsrep\<rparr>)\<rparr>,
      PP := sample_proxy\<lparr>BackendsWrite := [stats_backend zero_server (pool_row_of ''ONLINE'')],
        BackendsRead := [stats_backend zero_server (pool_row_of ''ONLINE''), stats_backend zero_server (pool_row_of ''ONLINE'')]\<rparr>\<rparr>"

theorem galera_leader_panics_witness:
  "Proxysql_Refresh (calm_admin\<lparr>Pool := \<lambda>_ _ _ _. (pool_row_of ''ONLINE'', None)\<rparr>) (sample_pconf False True) galera_psx = None"
proof (rule galera_leader_panics [where i = 0])
  show "HasProxyReadLeaderNoSlave (sample_pconf False True)" "\<not> HasProxyReadLeader (sample_pconf False True)"
    "ProxysqlOn (sample_pconf False True)" "ProxysqlBootstrap (sample_pconf False True)"
    "IsDiscovered (PC galera_psx)" "0 \<in> set (Servers (PC galera_psx))" "State (srv (PC galera_psx) 0) = stateWsrep"
    "PrevState (srv (PC galera_psx) 0) = stateWsrep" "1 < CountAvailableReaders (PP galera_psx)"
    by code_simp+
qed (simp_all add: galera_psx_def sample_psx_def calm_admin_def)


end
