(* ===== verification/Rolling.thy ===== *)
theory Rolling
  imports Topology
begin

text \<open>
  Rolling restarts and reprovisionings (\<open>src/cluster/cluster_roll.go\<close>) with the waits they and the bootstrap rely on
  (\<open>cluster_wait.go\<close>, \<open>srv_wait.go\<close>, \<open>cluster_tst.go\<close>, \<open>srv_tgl.go\<close>).

  The monitor runs beside a rolling restart and the services of the servers are stopped and started by an orchestrator.
  So every action is an event of a trace, after which the environment gives the cluster any value and says whether the
  action succeeded; nothing is assumed about it but what a theorem states. \<open>None\<close> is a run-time panic or a wait that never
  ends.
\<close>

section \<open>Actions\<close>

datatype revent =
    RTick
  | RProbe sid
  | RMaintenance sid
  | RRequestSwitchover
  | RCloseRing sid
  | RRejoinLoop sid
  | RBackupWait sid
  | RStop sid
  | RStart sid
  | RUnprovision sid
  | RProvision sid
  | RSync sid sid
  | ROptimize sid

record roll =
  RC :: cluster
  InRollingRestart :: bool
  rtrace :: "revent list"

record roll_env =
  Effect :: "revent list \<Rightarrow> cluster \<Rightarrow> cluster"
    \<comment> \<open>the cluster after the last event of a trace\<close>
  Succeeds :: "revent list \<Rightarrow> bool"
    \<comment> \<open>the last event of a trace returned no error\<close>
  ErrorText :: "revent list \<Rightarrow> string"
  Signalled :: "revent list \<Rightarrow> bool"
    \<comment> \<open>the condition of a rejoin or of a switchover was received\<close>
  BackingUp :: "revent list \<Rightarrow> sid \<Rightarrow> bool"
    \<comment> \<open>\<open>IsBackingUpBinaryLog\<close>\<close>
  VirtualMaster :: "revent list \<Rightarrow> sid \<Rightarrow> bool"
    \<comment> \<open>\<open>IsVirtualMaster\<close>\<close>
  DSN :: "sid \<Rightarrow> string"
  MonitorWaitRetry :: int

definition act :: "roll_env \<Rightarrow> revent \<Rightarrow> roll \<Rightarrow> roll" where
  "act E e R = R\<lparr>rtrace := rtrace R @ [e], RC := Effect E (rtrace R @ [e]) (RC R)\<rparr>"

definition attempt :: "roll_env \<Rightarrow> revent \<Rightarrow> roll \<Rightarrow> bool \<times> roll" where
  "attempt E e R = (Succeeds E (rtrace R @ [e]), act E e R)"

section \<open>Waits\<close>

text \<open>The counter of every wait is set to 9999999 when the awaited state is there.\<close>

abbreviation "wait_found \<equiv> (9999999 :: int)"

partial_function (option) wait_loop ::
  "roll_env \<Rightarrow> (roll \<Rightarrow> bool \<times> roll) \<Rightarrow> int \<Rightarrow> roll \<Rightarrow> (int \<times> roll) option" where
  "wait_loop E body x R =
     (if x < MonitorWaitRetry E
      then wait_loop E body (if fst (body R) then wait_found else x + 1) (snd (body R))
      else Some (x, R))"

declare wait_loop.simps [code]

definition tick_until :: "roll_env \<Rightarrow> (cluster \<Rightarrow> bool) \<Rightarrow> roll \<Rightarrow> bool \<times> roll" where
  "tick_until E cond R = (let R1 = act E RTick R in (cond (RC R1), R1))"

definition wait_for :: "roll_env \<Rightarrow> (roll \<Rightarrow> bool \<times> roll) \<Rightarrow> roll \<Rightarrow> (bool \<times> roll) option" where
  "wait_for E body R = map_option (\<lambda>(x, R1). (x = wait_found, R1)) (wait_loop E body 0 R)"

definition WaitDatabaseFailed :: "roll_env \<Rightarrow> sid \<Rightarrow> roll \<Rightarrow> (bool \<times> roll) option" where
  "WaitDatabaseFailed E i = wait_for E (tick_until E (\<lambda>c. State (srv c i) = stateFailed))"

definition HasAllDbDown :: "cluster \<Rightarrow> bool" where
  "HasAllDbDown c \<longleftrightarrow> list_all (\<lambda>i. State (srv c i) = stateFailed) (Servers c)"

definition WaitClusterStop :: "roll_env \<Rightarrow> roll \<Rightarrow> (bool \<times> roll) option" where
  "WaitClusterStop E = wait_for E (tick_until E (\<lambda>c. IsInState ''ERR00021'' (StateMachine c) \<or> HasAllDbDown c))"

definition WaitBootstrapDiscovery :: "roll_env \<Rightarrow> roll \<Rightarrow> (bool \<times> roll) option" where
  "WaitBootstrapDiscovery E = wait_for E (tick_until E IsDiscovered)"

definition waitMasterDiscovery :: "roll_env \<Rightarrow> roll \<Rightarrow> (bool \<times> roll) option" where
  "waitMasterDiscovery E = wait_for E (tick_until E (\<lambda>c. GetMaster c \<noteq> None))"

definition AllDatabaseCanConn :: "cluster \<Rightarrow> bool" where
  "AllDatabaseCanConn c \<longleftrightarrow> list_all (\<lambda>i. \<not> IsDown (srv c i)) (Servers c)"

definition WaitDatabaseCanConn :: "roll_env \<Rightarrow> roll \<Rightarrow> (bool \<times> roll) option" where
  "WaitDatabaseCanConn E = wait_for E (tick_until E (\<lambda>c. AllDatabaseCanConn c \<and> HasAllDbUp c))"

definition IsConnected :: "cluster \<Rightarrow> server \<Rightarrow> bool" where
  "IsConnected c s \<longleftrightarrow>
     (if State s = stateFailed then False
      else if State s = stateSuspect \<and> GetTopology c \<noteq> TopoUnknown then False
      else HasConn s)"

text \<open>One tick of \<open>WaitDatabaseStart\<close>: a ping and a refresh, whose error is a warning.\<close>

definition start_warning :: "string \<Rightarrow> sid \<Rightarrow> string \<Rightarrow> roll \<Rightarrow> roll" where
  "start_warning key i e R =
     R\<lparr>RC := set_state key ''WARNING'' [FS (URL (srv (RC R) i)), FS e] ''PROV'' (URL (srv (RC R) i)) (RC R)\<rparr>"

definition probe_start :: "roll_env \<Rightarrow> sid \<Rightarrow> roll \<Rightarrow> bool \<times> roll" where
  "probe_start E i R =
     (let (ok, R1) = attempt E (RProbe i) R;
          err = (if ok then None else Some (ErrorText E (rtrace R1)));
          R2 = (case err of None \<Rightarrow> R1 | Some e \<Rightarrow> start_warning ''WARN0128'' i e R1);
          err = (if GetTopology (RC R2) = TopoMultiMasterWsrep \<and> \<not> IsConnected (RC R2) (srv (RC R2) i)
                 then Some ''Not yet connected'' else err)
      in case err of None \<Rightarrow> (True, R2) | Some e \<Rightarrow> (False, start_warning ''WARN0129'' i e R2))"

definition WaitDatabaseStart :: "roll_env \<Rightarrow> sid \<Rightarrow> roll \<Rightarrow> (bool \<times> roll) option" where
  "WaitDatabaseStart E i = wait_for E (probe_start E i)"

text \<open>The waits for a condition variable; a time-out is only logged.\<close>

definition signal_or_tick :: "roll_env \<Rightarrow> roll \<Rightarrow> bool \<times> roll" where
  "signal_or_tick E R = (let R1 = act E RTick R in (Signalled E (rtrace R1), R1))"

definition WaitRejoin :: "roll_env \<Rightarrow> roll \<Rightarrow> roll option" where
  "WaitRejoin E R = map_option snd (wait_for E (signal_or_tick E) R)"

definition WaitSwitchover :: "roll_env \<Rightarrow> roll \<Rightarrow> roll option" where
  "WaitSwitchover E R = map_option snd (wait_for E (signal_or_tick E) R)"

text \<open>
  The code starts these waits in a goroutine before the action they belong to and joins them after it; as a tick only
  gives the monitor a turn, and the environment decides what an action and a tick do, they stand after the action here.
\<close>

definition StartDatabaseWaitRejoin :: "roll_env \<Rightarrow> sid \<Rightarrow> roll \<Rightarrow> (bool \<times> roll) option" where
  "StartDatabaseWaitRejoin E i R = (let (ok, R1) = attempt E (RStart i) R in map_option (Pair ok) (WaitRejoin E R1))"

definition SwitchoverWaitTest :: "roll_env \<Rightarrow> roll \<Rightarrow> roll option" where
  "SwitchoverWaitTest E R = WaitSwitchover E (act E RRequestSwitchover R)"

text \<open>The wait for the end of a backup has no bound.\<close>

partial_function (option) wait_backup :: "roll_env \<Rightarrow> sid \<Rightarrow> roll \<Rightarrow> roll option" where
  "wait_backup E i R = (if BackingUp E (rtrace R) i then wait_backup E i (act E (RBackupWait i) R) else Some R)"

declare wait_backup.simps [code]

section \<open>Maintenance\<close>

definition SwitchMaintenance :: "roll_env \<Rightarrow> sid \<Rightarrow> roll \<Rightarrow> roll" where
  "SwitchMaintenance E i R =
     (let R1 = (if (GetTopology (RC R) = TopoMultiMasterWsrep \<or> GetTopology (RC R) = TopoMultiMasterRing) \<and>
                   VirtualMaster E (rtrace R) i \<and> \<not> IsMaintenance (srv (RC R) i)
                then act E RRequestSwitchover R else R);
          R2 = (if GetTopology (RC R1) = TopoMultiMasterRing
                then act E (if IsMaintenance (srv (RC R1) i) then RCloseRing i else RRejoinLoop i) R1 else R1);
          R3 = R2\<lparr>RC := upd_srv i (\<lambda>s. s\<lparr>IsMaintenance := \<not> IsMaintenance s\<rparr>) (RC R2)\<rparr>
      in act E (RMaintenance i) R3)"

definition enter_maintenance :: "roll_env \<Rightarrow> sid \<Rightarrow> roll \<Rightarrow> roll" where
  "enter_maintenance E i R = (if \<not> IsMaintenance (srv (RC R) i) then SwitchMaintenance E i R else R)"

text \<open>\<open>WaitSyncToMaster(cluster.master)\<close> reads the position of the master, and the server leaves maintenance.\<close>

definition sync_and_leave :: "roll_env \<Rightarrow> sid \<Rightarrow> roll \<Rightarrow> roll option" where
  "sync_and_leave E i R =
     (case master (RC R) of None \<Rightarrow> None | Some m \<Rightarrow> Some (SwitchMaintenance E i (act E (RSync i m) R)))"

section \<open>Rolling restart\<close>

definition GetServerFromName :: "cluster \<Rightarrow> string \<Rightarrow> sid option" where
  "GetServerFromName c name = find (\<lambda>i. Id (srv c i) = name) (Servers c)"

definition restart_service :: "roll_env \<Rightarrow> (roll \<Rightarrow> roll) \<Rightarrow> sid \<Rightarrow> roll \<Rightarrow> (bool \<times> roll) option" where
  "restart_service E cancel i R =
     Option.bind (wait_backup E i (enter_maintenance E i R)) (\<lambda>R2.
       let (ok, R3) = attempt E (RStop i) R2
       in if \<not> ok then Some (False, cancel R3)
          else Option.bind (WaitDatabaseFailed E i R3) (\<lambda>(ok, R4).
            if \<not> ok then Some (False, cancel R4) else StartDatabaseWaitRejoin E i R4))"

definition restart_slave :: "roll_env \<Rightarrow> sid \<Rightarrow> roll \<Rightarrow> (bool \<times> roll) option" where
  "restart_slave E i R =
     Option.bind (if \<not> IsDown (srv (RC R) i) then restart_service E (SwitchMaintenance E i) i R else Some (True, R))
       (\<lambda>(ok, R1). if \<not> ok then Some (False, R1) else map_option (Pair True) (sync_and_leave E i R1))"

primrec each_slave :: "(sid \<Rightarrow> roll \<Rightarrow> (bool \<times> roll) option) \<Rightarrow> sid list \<Rightarrow> roll \<Rightarrow> (bool \<times> roll) option" where
  "each_slave f [] R = Some (True, R)"
| "each_slave f (i # is) R = Option.bind (f i R) (\<lambda>(ok, R1). if \<not> ok then Some (False, R1) else each_slave f is R1)"

definition restart_master :: "roll_env \<Rightarrow> string \<Rightarrow> roll \<Rightarrow> (bool \<times> roll) option" where
  "restart_master E masterID R =
     (case (master (RC R), GetServerFromName (RC R) masterID) of
        (Some m, Some i) \<Rightarrow>
          if DSN E m = DSN E i then Some (True, R)
          else if IsDown (srv (RC R) i) then Some (False, R)
          else Option.bind (restart_service E (\<lambda>R. R) i R) (\<lambda>(ok, R1).
            if \<not> ok then Some (False, R1)
            else map_option (\<lambda>R2. (True, act E RRequestSwitchover R2)) (sync_and_leave E i R1))
      | _ \<Rightarrow> None)"

definition set_fail_sync :: "bool \<Rightarrow> roll \<Rightarrow> roll" where
  "set_fail_sync b R = R\<lparr>RC := (RC R)\<lparr>Conf := (Conf (RC R))\<lparr>FailSync := b\<rparr>\<rparr>\<rparr>"

definition RollingRestart :: "roll_env \<Rightarrow> roll \<Rightarrow> (bool \<times> roll) option" where
  "RollingRestart E R =
     (let R0 = R\<lparr>InRollingRestart := True\<rparr>
      in case GetMaster (RC R0) of
           None \<Rightarrow> None
         | Some m \<Rightarrow>
             (let save = FailSync (Conf (RC R0)); R1 = set_fail_sync False R0
              in map_option (\<lambda>(ok, R2). (ok, (set_fail_sync save R2)\<lparr>InRollingRestart := False\<rparr>))
                   (Option.bind (each_slave (restart_slave E) (slaves (RC R1)) R1) (\<lambda>(ok, R2).
                      if \<not> ok then Some (False, R2)
                      else Option.bind (SwitchoverWaitTest E R2) (restart_master E (Id (srv (RC R0) m)))))))"

section \<open>Rolling reprovisioning\<close>

definition reprov_service ::
  "roll_env \<Rightarrow> (sid \<Rightarrow> roll \<Rightarrow> (bool \<times> roll) option) \<Rightarrow> sid \<Rightarrow> roll \<Rightarrow> (bool \<times> roll) option" where
  "reprov_service E start i R =
     (let (ok, R1) = attempt E (RUnprovision i) (enter_maintenance E i R)
      in if \<not> ok then Some (False, R1)
         else Option.bind (WaitDatabaseFailed E i R1) (\<lambda>(ok, R2).
           if \<not> ok then Some (False, R2)
           else let (ok, R3) = attempt E (RProvision i) R2
                in if \<not> ok then Some (False, R3)
                   else Option.bind (start i R3) (\<lambda>(ok, R4).
                     if \<not> ok then Some (False, R4) else map_option (Pair True) (sync_and_leave E i R4))))"

definition reprov_slave :: "roll_env \<Rightarrow> sid \<Rightarrow> roll \<Rightarrow> (bool \<times> roll) option" where
  "reprov_slave E i R =
     (if \<not> IsDown (srv (RC R) i) then reprov_service E (StartDatabaseWaitRejoin E) i R else Some (True, R))"

definition reprov_master :: "roll_env \<Rightarrow> string \<Rightarrow> roll \<Rightarrow> (bool \<times> roll) option" where
  "reprov_master E masterID R =
     (case (master (RC R), GetServerFromName (RC R) masterID) of
        (Some m, Some i) \<Rightarrow>
          if DSN E m = DSN E i then Some (True, R)
          else if IsDown (srv (RC R) i) then Some (True, R)
          else Option.bind (reprov_service E (WaitDatabaseStart E) i R) (\<lambda>(ok, R1).
            Some (if \<not> ok then (False, R1) else (True, act E RRequestSwitchover R1)))
      | _ \<Rightarrow> None)"

definition RollingReprov :: "roll_env \<Rightarrow> roll \<Rightarrow> (bool \<times> roll) option" where
  "RollingReprov E R =
     (case GetMaster (RC R) of
        None \<Rightarrow> None
      | Some m \<Rightarrow>
          Option.bind (each_slave (reprov_slave E) (slaves (RC R)) R) (\<lambda>(ok, R1).
            if \<not> ok then Some (False, R1)
            else Option.bind (SwitchoverWaitTest E R1) (reprov_master E (Id (srv (RC R) m)))))"

definition RollingOptimize :: "roll_env \<Rightarrow> roll \<Rightarrow> roll" where
  "RollingOptimize E R = fold (\<lambda>i R. if IsDown (srv (RC R) i) then R else act E (ROptimize i) R) (slaves (RC R)) R"

section \<open>What a wait does\<close>

text \<open>The reference of a wait: its body, repeated.\<close>

definition repeated :: "(roll \<Rightarrow> bool \<times> roll) \<Rightarrow> nat \<Rightarrow> roll \<Rightarrow> roll" where
  "repeated body k = ((\<lambda>R. snd (body R)) ^^ k)"

lemma repeated_simps [simp]: "repeated body 0 R = R" "repeated body (Suc k) R = repeated body k (snd (body R))"
  by (simp_all add: repeated_def funpow_Suc_right del: funpow.simps(2))

lemma wait_loop_found: "MonitorWaitRetry E \<le> wait_found \<Longrightarrow> wait_loop E body wait_found R = Some (wait_found, R)"
  by (simp add: wait_loop.simps)

lemma wait_loop_spec:
  assumes "MonitorWaitRetry E \<le> wait_found"
  shows "(\<exists>k < nat (MonitorWaitRetry E - x). fst (body (repeated body k R)) \<and> (\<forall>j<k. \<not> fst (body (repeated body j R))) \<and>
            wait_loop E body x R = Some (wait_found, repeated body (Suc k) R)) \<or>
         (\<forall>k < nat (MonitorWaitRetry E - x). \<not> fst (body (repeated body k R))) \<and>
            wait_loop E body x R =
              Some (x + int (nat (MonitorWaitRetry E - x)), repeated body (nat (MonitorWaitRetry E - x)) R)"
proof (induction "nat (MonitorWaitRetry E - x)" arbitrary: x R)
  case 0
  then show ?case by (subst (1 2) wait_loop.simps) auto
next
  case (Suc n)
  then have x: "x < MonitorWaitRetry E" "nat (MonitorWaitRetry E - (x + 1)) = n" "nat (MonitorWaitRetry E - x) = Suc n" by simp_all
  show ?case
  proof (cases "fst (body R)")
    case True
    then have "wait_loop E body x R = Some (wait_found, repeated body (Suc 0) R)"
      using x wait_loop_found [OF assms] by (subst wait_loop.simps) simp
    then show ?thesis using True x by (auto intro!: exI [of _ 0])
  next
    case False
    then have eq: "wait_loop E body x R = wait_loop E body (x + 1) (snd (body R))"
      using x by (subst wait_loop.simps) simp
    from Suc.hyps(1) [of "x + 1" "snd (body R)"] x(2)
    consider k where "k < n" "fst (body (repeated body k (snd (body R))))" "\<forall>j<k. \<not> fst (body (repeated body j (snd (body R))))"
        "wait_loop E body (x + 1) (snd (body R)) = Some (wait_found, repeated body (Suc k) (snd (body R)))"
      | "\<forall>k<n. \<not> fst (body (repeated body k (snd (body R))))"
        "wait_loop E body (x + 1) (snd (body R)) = Some (x + 1 + int n, repeated body n (snd (body R)))"
      by auto
    then show ?thesis
    proof cases
      case 1
      have "\<forall>j < Suc k. \<not> fst (body (repeated body j R))"
        using 1(3) False by (simp add: All_less_Suc2)
      then show ?thesis using 1 x eq by (intro disjI1 exI [of _ "Suc k"]) auto
    next
      case 2
      have "\<forall>j < Suc n. \<not> fst (body (repeated body j R))"
        using 2(1) False by (simp add: All_less_Suc2)
      then show ?thesis using 2 x eq by (intro disjI2) auto
    qed
  qed
qed

lemma wait_for_spec:
  assumes "MonitorWaitRetry E < wait_found"
  shows "\<exists>ok R'. wait_for E body R = Some (ok, R') \<and>
           (ok \<longleftrightarrow> (\<exists>k < nat (MonitorWaitRetry E). fst (body (repeated body k R)))) \<and>
           (\<exists>n \<le> nat (MonitorWaitRetry E). R' = repeated body n R)"
  using wait_loop_spec [of E 0 body R] assms
  by (auto simp: wait_for_def simp del: repeated_simps intro: Suc_leI)

lemma wait_for_returns: "MonitorWaitRetry E \<le> wait_found \<Longrightarrow> \<exists>ok R'. wait_for E body R = Some (ok, R')"
  using wait_loop_spec [of E 0 body R] by (auto simp: wait_for_def)

definition ticks :: "roll_env \<Rightarrow> nat \<Rightarrow> roll \<Rightarrow> roll" where
  "ticks E k = (act E RTick ^^ k)"

lemma repeated_tick: "repeated (tick_until E cond) k R = ticks E k R"
  by (simp add: repeated_def ticks_def tick_until_def Let_def)

text \<open>
  The wait for a server to fail returns after at most the configured number of ticks, and without an error exactly if the
  server was failed after one of them. The counter that marks success is safe as long as the number of tries is below
  9999999.
\<close>

theorem wait_database_failed_exact:
  assumes "MonitorWaitRetry E < wait_found"
  shows "\<exists>ok n. n \<le> nat (MonitorWaitRetry E) \<and> WaitDatabaseFailed E i R = Some (ok, ticks E n R) \<and>
           (ok \<longleftrightarrow> (\<exists>k. 1 \<le> k \<and> k \<le> nat (MonitorWaitRetry E) \<and> State (srv (RC (ticks E k R)) i) = stateFailed))"
proof -
  let ?c = "\<lambda>c. State (srv c i) = stateFailed"
  have hit: "fst (tick_until E ?c (ticks E k R)) \<longleftrightarrow> ?c (RC (ticks E (Suc k) R))" for k
    by (simp add: tick_until_def ticks_def Let_def)
  have shift: "(\<exists>k < N. ?c (RC (ticks E (Suc k) R))) \<longleftrightarrow> (\<exists>k. 1 \<le> k \<and> k \<le> N \<and> ?c (RC (ticks E k R)))" for N
    by (metis One_nat_def Suc_leI Suc_le_lessD Suc_pred le_numeral_extra(4) less_Suc_eq_le not_less_eq_eq zero_less_Suc)
  show ?thesis
    using wait_for_spec [OF assms, of "tick_until E ?c" R]
    unfolding WaitDatabaseFailed_def repeated_tick hit shift by blast
qed

section \<open>One server at a time\<close>

text \<open>Which server a trace leaves down; \<open>None\<close> as result when it takes a second one down, or starts another than the one
  that is down.\<close>

fun run_trace :: "sid option \<Rightarrow> revent list \<Rightarrow> sid option option" where
  "run_trace q [] = Some q"
| "run_trace q (RStop i # w) = (if q = None then run_trace (Some i) w else None)"
| "run_trace q (RUnprovision i # w) = (if q = None then run_trace (Some i) w else None)"
| "run_trace q (RStart i # w) = (if q = None \<or> q = Some i then run_trace None w else None)"
| "run_trace q (RProvision i # w) = (if q = None \<or> q = Some i then run_trace None w else None)"
| "run_trace q (_ # w) = run_trace q w"

definition taken_down :: "revent list \<Rightarrow> sid set" where
  "taken_down w = {i. RStop i \<in> set w \<or> RUnprovision i \<in> set w}"

fun harmless :: "revent \<Rightarrow> bool" where
  "harmless (RStop i) = False" | "harmless (RStart i) = False" | "harmless (RUnprovision i) = False" | "harmless (RProvision i) = False"
| "harmless _ = True"

lemma run_trace_append: "run_trace q (v @ w) = Option.bind (run_trace q v) (\<lambda>q'. run_trace q' w)"
  by (induction q v rule: run_trace.induct) auto

lemma run_trace_harmless: "list_all harmless w \<Longrightarrow> run_trace q w = Some q"
  by (induction q w rule: run_trace.induct) auto

lemma taken_down_harmless: "list_all harmless w \<Longrightarrow> taken_down w = {}"
  by (auto simp: taken_down_def list_all_iff)

lemma taken_down_append [simp]: "taken_down (v @ w) = taken_down v \<union> taken_down w"
  by (auto simp: taken_down_def)

text \<open>The events between two states, in a set of allowed ones.\<close>

definition grows :: "(revent \<Rightarrow> bool) \<Rightarrow> roll \<Rightarrow> roll \<Rightarrow> bool" where
  "grows P R R' \<longleftrightarrow> (\<exists>w. rtrace R' = rtrace R @ w \<and> list_all P w)"

lemma grows_refl [simp]: "grows P R R"
  by (simp add: grows_def)

lemma grows_trans [trans]: "grows P R S \<Longrightarrow> grows P S T \<Longrightarrow> grows P R T"
  by (auto simp: grows_def)

lemma grows_act: "P e \<Longrightarrow> grows P R (act E e R)"
  by (simp add: grows_def act_def)

lemma grows_same: "rtrace R' = rtrace R \<Longrightarrow> grows P R R'"
  by (simp add: grows_def)

text \<open>A wait keeps everything that its body keeps.\<close>

lemmas wait_loop_induct = wait_loop.raw_induct [where xa = "(((E, body), x), R)" for E body x R, unfolded prod.case]

lemma wait_loop_keeps:
  assumes "wait_loop E body x R = Some y" "\<And>R. Q R \<Longrightarrow> Q (snd (body R))" "Q R"
  shows "Q (snd y)"
proof -
  have "(\<forall>R. Q R \<longrightarrow> Q (snd (body R))) \<longrightarrow> Q R \<longrightarrow> Q (snd y)"
    by (rule wait_loop_induct [where P = "\<lambda>E body x R y. (\<forall>R. Q R \<longrightarrow> Q (snd (body R))) \<longrightarrow> Q R \<longrightarrow> Q (snd y)", OF _ assms(1)])
      (auto split: if_splits)
  then show ?thesis using assms by blast
qed

lemma wait_for_keeps:
  assumes "wait_for E body R = Some (ok, R')" "\<And>R. Q R \<Longrightarrow> Q (snd (body R))" "Q R"
  shows "Q R'"
  using assms wait_loop_keeps [of E body 0 R _ Q] by (auto simp: wait_for_def)

lemma wait_backup_keeps:
  assumes "wait_backup E i R = Some y" "\<And>R. Q R \<Longrightarrow> Q (act E (RBackupWait i) R)" "Q R"
  shows "Q y"
proof -
  have "(\<forall>R. Q R \<longrightarrow> Q (act E (RBackupWait i) R)) \<longrightarrow> Q R \<longrightarrow> Q y"
    by (rule wait_backup.raw_induct [where P = "\<lambda>E i R y. (\<forall>R. Q R \<longrightarrow> Q (act E (RBackupWait i) R)) \<longrightarrow> Q R \<longrightarrow> Q y", OF _ assms(1)])
      (auto split: if_splits)
  then show ?thesis using assms by blast
qed

lemma grows_body:
  "grows harmless R (snd (tick_until E cond R))" "grows harmless R (snd (signal_or_tick E R))" "grows harmless R (snd (probe_start E i R))"
proof -
  show "grows harmless R (snd (tick_until E cond R))" "grows harmless R (snd (signal_or_tick E R))"
    by (simp_all add: tick_until_def signal_or_tick_def Let_def grows_act)
  show "grows harmless R (snd (probe_start E i R))"
    by (simp add: probe_start_def start_warning_def attempt_def act_def grows_def Let_def split: option.split)
qed

lemma grows_waits:
  "WaitDatabaseFailed E i R = Some (ok, R') \<Longrightarrow> grows harmless R R'"
  "WaitDatabaseStart E i R = Some (ok, R') \<Longrightarrow> grows harmless R R'"
  "WaitRejoin E R = Some R' \<Longrightarrow> grows harmless R R'"
  "WaitSwitchover E R = Some R' \<Longrightarrow> grows harmless R R'"
  "wait_backup E i R = Some R' \<Longrightarrow> grows harmless R R'"
  by (auto simp: WaitDatabaseFailed_def WaitDatabaseStart_def WaitRejoin_def WaitSwitchover_def
      elim!: wait_for_keeps [where Q = "grows harmless R"] wait_backup_keeps [where Q = "grows harmless R"]
      intro: grows_trans [OF _ grows_body(1)] grows_trans [OF _ grows_body(2)] grows_trans [OF _ grows_body(3)]
        grows_trans [OF _ grows_act])

lemma grows_SwitchMaintenance: "grows harmless R (SwitchMaintenance E i R)"
  by (simp add: SwitchMaintenance_def act_def grows_def Let_def)

lemma grows_enter: "grows harmless R (enter_maintenance E i R)"
  by (simp add: enter_maintenance_def grows_SwitchMaintenance)

lemma grows_sync: "sync_and_leave E i R = Some R' \<Longrightarrow> grows harmless R R'"
  using grows_trans [OF grows_act grows_SwitchMaintenance] by (auto simp: sync_and_leave_def split: option.splits)

text \<open>A part of a rolling operation: it takes down servers of a set, one after the other, and leaves none down when it
  succeeds.\<close>

definition rolls :: "sid set \<Rightarrow> bool \<Rightarrow> roll \<Rightarrow> roll \<Rightarrow> bool" where
  "rolls I ok R R' \<longleftrightarrow>
     (\<exists>w q. rtrace R' = rtrace R @ w \<and> run_trace None w = Some q \<and> (ok \<longrightarrow> q = None) \<and> taken_down w \<subseteq> I)"

lemma rolls_harmless: "grows harmless R R' \<Longrightarrow> rolls I ok R R'"
  by (auto simp: grows_def rolls_def run_trace_harmless taken_down_harmless)

lemma rolls_trans: "rolls I True R S \<Longrightarrow> rolls I ok S T \<Longrightarrow> rolls I ok R T"
  unfolding rolls_def by (fastforce simp: run_trace_append)

lemma rolls_failed: "rolls I ok R S \<Longrightarrow> rolls I False R S"
  by (auto simp: rolls_def)

lemma rolls_end: "rolls I ok R S \<Longrightarrow> grows harmless S T \<Longrightarrow> rolls I ok R T"
  unfolding rolls_def grows_def by (fastforce simp: run_trace_append run_trace_harmless taken_down_harmless)

lemma rolls_stopped:
  assumes "grows harmless R S" "e = RStop i \<or> e = RUnprovision i" "grows harmless (act E e S) T" "i \<in> I"
  shows "rolls I False R T"
    and "f = RStart i \<or> f = RProvision i \<Longrightarrow> grows harmless (act E f T) U \<Longrightarrow> rolls I ok R U"
proof -
  obtain u v where u: "rtrace S = rtrace R @ u" "list_all harmless u" and v: "rtrace T = rtrace S @ e # v" "list_all harmless v"
    using assms(1, 3) by (auto simp: grows_def act_def)
  have "run_trace None (u @ e # v) = Some (Some i)" "taken_down (u @ e # v) \<subseteq> I"
    using assms(2, 4) u v by (auto simp: run_trace_append run_trace_harmless taken_down_harmless) (auto simp: taken_down_def list_all_iff)
  then show "rolls I False R T" using u v by (auto simp: rolls_def intro!: exI [of _ "u @ e # v"])
  assume f: "f = RStart i \<or> f = RProvision i" "grows harmless (act E f T) U"
  then obtain w where w: "rtrace U = rtrace T @ f # w" "list_all harmless w" by (auto simp: grows_def act_def)
  have "run_trace None ((u @ e # v) @ f # w) = Some None"
    using \<open>run_trace None (u @ e # v) = Some (Some i)\<close> f(1) w(2)
    by (subst run_trace_append) (auto simp: run_trace_harmless simp del: append_assoc)
  moreover have "taken_down (f # w) = {}" using f(1) w(2) by (auto simp: taken_down_def list_all_iff)
  ultimately show "rolls I ok R U"
    using u v w \<open>taken_down (u @ e # v) \<subseteq> I\<close> taken_down_append [of "u @ e # v" "f # w"]
    unfolding rolls_def by (intro exI [of _ "(u @ e # v) @ f # w"] exI [of _ None]) auto
qed

lemma restart_service_rolls:
  assumes "restart_service E cancel i R = Some (ok, R')" "\<And>R. grows harmless R (cancel R)" "i \<in> I"
  shows "rolls I ok R R'"
proof -
  obtain R2 where w: "wait_backup E i (enter_maintenance E i R) = Some R2"
    using assms(1) by (auto simp: restart_service_def bind_eq_Some_conv)
  let ?R3 = "act E (RStop i) R2"
  have g2: "grows harmless R R2" by (rule grows_trans [OF grows_enter grows_waits(5) [OF w]])
  note st = rolls_stopped [where e = "RStop i" and i = i and E = E and R = R and S = R2, OF g2 _ _ assms(3)]
  show ?thesis
  proof (cases "Succeeds E (rtrace R2 @ [RStop i])")
    case False
    then have "ok = False" "R' = cancel ?R3"
      using assms(1) w by (auto simp: restart_service_def attempt_def)
    then show ?thesis using st(1) [OF _ assms(2)] by simp
  next
    case True
    then obtain ok4 R4 where f: "WaitDatabaseFailed E i ?R3 = Some (ok4, R4)"
      using assms(1) w by (auto simp: restart_service_def attempt_def bind_eq_Some_conv)
    note g4 = grows_waits(1) [OF f]
    show ?thesis
    proof (cases ok4)
      case False
      then have "ok = False" "R' = cancel R4"
        using assms(1) w True f by (auto simp: restart_service_def attempt_def)
      then show ?thesis using st(1) [OF _ grows_trans [OF g4 assms(2)]] by simp
    next
      case ok4: True
      then obtain R5 where "WaitRejoin E (act E (RStart i) R4) = Some R5" "R' = R5"
        using assms(1) w True f by (auto simp: restart_service_def StartDatabaseWaitRejoin_def attempt_def)
      then show ?thesis using st(2) [OF _ g4 _ grows_waits(3)] by auto
    qed
  qed
qed

lemma restart_slave_rolls:
  assumes "restart_slave E i R = Some (ok, R')" "i \<in> I"
  shows "rolls I ok R R'"
proof -
  obtain ok1 R1 where r: "(if \<not> IsDown (srv (RC R) i) then restart_service E (SwitchMaintenance E i) i R else Some (True, R)) = Some (ok1, R1)"
    and rest: "(if \<not> ok1 then Some (False, R1) else map_option (Pair True) (sync_and_leave E i R1)) = Some (ok, R')"
    using assms(1) by (auto simp: restart_slave_def bind_eq_Some_conv)
  have "rolls I ok1 R R1"
    using r restart_service_rolls [OF _ grows_SwitchMaintenance assms(2)] by (auto intro: rolls_harmless split: if_splits)
  then show ?thesis using rest rolls_end [OF _ grows_sync] by (auto split: if_splits)
qed

lemma each_slave_rolls:
  assumes "each_slave f is R = Some (ok, R')" "\<And>i R ok R'. i \<in> set is \<Longrightarrow> f i R = Some (ok, R') \<Longrightarrow> rolls I ok R R'"
  shows "rolls I ok R R'"
  using assms
proof (induction "is" arbitrary: R)
  case (Cons i "is")
  then obtain ok1 R1 where f: "f i R = Some (ok1, R1)"
    and rest: "(if \<not> ok1 then Some (False, R1) else each_slave f is R1) = Some (ok, R')"
    by (auto simp: bind_eq_Some_conv)
  have r: "rolls I ok1 R R1" by (rule Cons.prems(2) [OF _ f]) simp
  show ?case
  proof (cases ok1)
    case False
    then show ?thesis using r rest by simp
  next
    case True
    have "rolls I ok R1 R'"
    proof (rule Cons.IH)
      show "each_slave f is R1 = Some (ok, R')" using rest True by simp
      show "rolls I ok R R'" if "j \<in> set is" "f j R = Some (ok, R')" for j R ok R'
        by (rule Cons.prems(2) [OF _ that(2)]) (use that in simp)
    qed
    then show ?thesis using rolls_trans [of I R R1 ok R'] r True by simp
  qed
qed (simp add: rolls_harmless)

lemma rolls_switch_back:
  "rolls I True R S \<Longrightarrow> sync_and_leave E i S = Some T \<Longrightarrow> rolls I True R (act E RRequestSwitchover T)"
  by (rule rolls_end [OF _ grows_trans [OF grows_sync grows_act]]) simp_all

lemma restart_master_rolls: "restart_master E name R = Some (ok, R') \<Longrightarrow> rolls UNIV ok R R'"
  by (auto dest!: restart_service_rolls [where I = UNIV and cancel = "\<lambda>R. R", OF _ grows_refl UNIV_I] simp: restart_master_def bind_eq_Some_conv split: option.splits if_splits
      intro: rolls_harmless [OF grows_refl] rolls_switch_back)

lemma reprov_service_rolls:
  assumes "reprov_service E start i R = Some (ok, R')" "i \<in> I"
    and start: "\<And>R ok R'. start i R = Some (ok, R') \<Longrightarrow> rolls I True R R'"
  shows "rolls I ok R R'"
proof -
  let ?R1 = "act E (RUnprovision i) (enter_maintenance E i R)"
  note st = rolls_stopped [where e = "RUnprovision i" and i = i and E = E and R = R and S = "enter_maintenance E i R",
      OF grows_enter _ _ assms(2)]
  show ?thesis
  proof (cases "Succeeds E (rtrace (enter_maintenance E i R) @ [RUnprovision i])")
    case False
    then show ?thesis using assms(1) st(1) [of ?R1] by (simp add: reprov_service_def attempt_def)
  next
    case True
    then obtain ok2 R2 where f: "WaitDatabaseFailed E i ?R1 = Some (ok2, R2)"
      using assms(1) by (auto simp: reprov_service_def attempt_def bind_eq_Some_conv)
    note g2 = grows_waits(1) [OF f]
    let ?R3 = "act E (RProvision i) R2"
    have r3: "rolls I k R ?R3" for k using st(2) [OF _ g2 _ grows_refl] by simp
    show ?thesis
    proof (cases "ok2 \<and> Succeeds E (rtrace R2 @ [RProvision i])")
      case False
      then show ?thesis
        using assms(1) True f st(1) [OF _ g2] r3 by (auto simp: reprov_service_def attempt_def split: if_splits)
    next
      case up: True
      then obtain ok4 R4 where s: "start i ?R3 = Some (ok4, R4)"
        and rest: "(if \<not> ok4 then Some (False, R4) else map_option (Pair True) (sync_and_leave E i R4)) = Some (ok, R')"
        using assms(1) True f by (auto simp: reprov_service_def attempt_def bind_eq_Some_conv)
      have "rolls I True R R4" by (rule rolls_trans [OF r3 start [OF s]])
      then show ?thesis using rest rolls_end [OF _ grows_sync] by (auto intro: rolls_failed split: if_splits)
    qed
  qed
qed

lemma start_rolls:
  "StartDatabaseWaitRejoin E i R = Some (ok, R') \<Longrightarrow> rolls I True R R'"
  "WaitDatabaseStart E i R = Some (ok, R') \<Longrightarrow> rolls I True R R'"
proof -
  assume "StartDatabaseWaitRejoin E i R = Some (ok, R')"
  then have "grows harmless (act E (RStart i) R) R'"
    by (auto simp: StartDatabaseWaitRejoin_def attempt_def intro: grows_waits(3))
  then obtain w where "rtrace R' = rtrace R @ RStart i # w" "list_all harmless w" by (auto simp: grows_def act_def)
  then show "rolls I True R R'"
    using run_trace_harmless [of w None] by (auto simp: rolls_def taken_down_def list_all_iff intro!: exI [of _ "RStart i # w"])
next
  assume "WaitDatabaseStart E i R = Some (ok, R')"
  then show "rolls I True R R'" by (rule rolls_harmless [OF grows_waits(2)])
qed

lemma reprov_slave_rolls: "reprov_slave E i R = Some (ok, R') \<Longrightarrow> i \<in> I \<Longrightarrow> rolls I ok R R'"
  by (auto simp: reprov_slave_def split: if_splits intro: rolls_harmless elim!: reprov_service_rolls start_rolls)

lemma reprov_master_rolls: "reprov_master E name R = Some (ok, R') \<Longrightarrow> rolls UNIV ok R R'"
  by (auto dest!: reprov_service_rolls [where I = UNIV and start = "WaitDatabaseStart E", OF _ UNIV_I start_rolls(2)] simp: reprov_master_def bind_eq_Some_conv split: option.splits if_splits
      intro: rolls_harmless [OF grows_refl] rolls_end [OF _ grows_act])

text \<open>The replicas first, then a switchover, then the rest.\<close>

definition rolled_in_order :: "sid list \<Rightarrow> bool \<Rightarrow> revent list \<Rightarrow> bool" where
  "rolled_in_order is ok t \<longleftrightarrow>
     (\<exists>w1 w2 q. t = w1 @ w2 \<and> taken_down w1 \<subseteq> set is \<and> run_trace None t = Some q \<and> (ok \<longrightarrow> q = None) \<and>
        (w2 = [] \<or> hd w2 = RRequestSwitchover \<and> run_trace None w1 = Some None))"

lemma rolled_in_order_cases:
  assumes start: "rtrace R = []" and reps: "each_slave f is R = Some (ok1, R1)"
    and f: "\<And>i R ok R'. i \<in> set is \<Longrightarrow> f i R = Some (ok, R') \<Longrightarrow> rolls (set is) ok R R'"
    and rest: "(if \<not> ok1 then Some (False, R1) else Option.bind (SwitchoverWaitTest E R1) (g name)) = Some (ok, R')"
    and g: "\<And>R ok R'. g name R = Some (ok, R') \<Longrightarrow> rolls UNIV ok R R'"
  shows "rolled_in_order is ok (rtrace R')"
proof -
  obtain q where r1: "run_trace None (rtrace R1) = Some q" "ok1 \<longrightarrow> q = None" "taken_down (rtrace R1) \<subseteq> set is"
    using each_slave_rolls [OF reps, of "set is"] f start by (auto simp: rolls_def)
  show ?thesis
  proof (cases ok1)
    case False
    then have "R' = R1" "\<not> ok" using rest by simp_all
    then show ?thesis
      unfolding rolled_in_order_def
      by (intro exI [of _ "rtrace R1"] exI [of _ "[]"] exI [of _ q]) (use r1 in simp)
  next
    case True
    then obtain R2 where s: "SwitchoverWaitTest E R1 = Some R2" and m: "g name R2 = Some (ok, R')"
      using rest by (auto simp: bind_eq_Some_conv)
    have "grows harmless (act E RRequestSwitchover R1) R2"
      using s grows_waits(4) by (auto simp: SwitchoverWaitTest_def)
    then obtain v where v: "rtrace R2 = rtrace R1 @ RRequestSwitchover # v" "list_all harmless v" by (auto simp: grows_def act_def)
    obtain w q2 where w: "rtrace R' = rtrace R2 @ w" "run_trace None w = Some q2" "ok \<longrightarrow> q2 = None"
      using g [OF m] by (auto simp: rolls_def)
    show ?thesis
      unfolding rolled_in_order_def
      by (rule exI [of _ "rtrace R1"], rule exI [of _ "RRequestSwitchover # v @ w"], rule exI [of _ q2])
        (use r1 True v w in \<open>simp add: run_trace_append run_trace_harmless\<close>)
  qed
qed


text \<open>The same holds of a rolling reprovisioning.\<close>

theorem rolling_reprov_one_at_a_time:
  assumes "RollingReprov E R = Some (ok, R')" "rtrace R = []"
  shows "rolled_in_order (slaves (RC R)) ok (rtrace R')"
proof -
  obtain m ok1 R2 where e: "each_slave (reprov_slave E) (slaves (RC R)) R = Some (ok1, R2)"
    and rest: "(if \<not> ok1 then Some (False, R2) else Option.bind (SwitchoverWaitTest E R2) (reprov_master E (Id (srv (RC R) m)))) = Some (ok, R')"
    using assms(1) by (auto simp: RollingReprov_def bind_eq_Some_conv split: option.splits)
  show ?thesis
    by (rule rolled_in_order_cases [where g = "reprov_master E", OF assms(2) e reprov_slave_rolls rest reprov_master_rolls])
qed

text \<open>
  However a rolling restart returns, the failover mode is what it was before and the flag that forbids jobs is cleared.
\<close>

theorem rolling_restart_restores:
  assumes "RollingRestart E R = Some (ok, R')"
  shows "\<not> InRollingRestart R' \<and> FailSync (Conf (RC R')) = FailSync (Conf (RC R))"
  using assms by (auto simp: RollingRestart_def Let_def set_fail_sync_def split: option.splits)

section \<open>A rolling restart returns\<close>

text \<open>A monitor that never loses the master and never renames a server, and backups that end.\<close>

definition keeps_names :: "roll_env \<Rightarrow> bool" where
  "keeps_names E \<longleftrightarrow> (\<forall>t c. (master c \<noteq> None \<longrightarrow> master (Effect E t c) \<noteq> None) \<and> Servers (Effect E t c) = Servers c \<and>
     (\<forall>i. Id (srv (Effect E t c) i) = Id (srv c i)))"

definition backups_end :: "roll_env \<Rightarrow> bool" where
  "backups_end E \<longleftrightarrow> (\<forall>t i. \<exists>n. \<not> BackingUp E (t @ replicate n (RBackupWait i)) i)"

definition same_names :: "cluster \<Rightarrow> roll \<Rightarrow> bool" where
  "same_names c R \<longleftrightarrow> master (RC R) \<noteq> None \<and> Servers (RC R) = Servers c \<and> (\<forall>i. Id (srv (RC R) i) = Id (srv c i))"

lemma wait_backup_returns:
  assumes "backups_end E"
  shows "\<exists>R'. wait_backup E i R = Some R'"
proof -
  obtain n where "\<not> BackingUp E (rtrace R @ replicate n (RBackupWait i)) i" using assms by (auto simp: backups_end_def)
  then show ?thesis
  proof (induction n arbitrary: R)
    case 0
    then show ?case by (subst wait_backup.simps) simp
  next
    case (Suc n)
    then have "\<exists>R'. wait_backup E i (act E (RBackupWait i) R) = Some R'" by (simp add: act_def)
    then show ?case by (subst wait_backup.simps) auto
  qed
qed

text \<open>The parts of a restart, for a monitor that keeps the names.\<close>

lemma same_names_act: "keeps_names E \<Longrightarrow> same_names c R \<Longrightarrow> same_names c (act E e R)"
  by (auto simp: keeps_names_def same_names_def act_def)

lemma same_names_SwitchMaintenance:
  assumes "keeps_names E" "same_names c R"
  shows "same_names c (SwitchMaintenance E i R)"
proof -
  have "same_names c (R\<lparr>RC := upd_srv i (\<lambda>s. s\<lparr>IsMaintenance := \<not> IsMaintenance s\<rparr>) (RC R)\<rparr>)" if "same_names c R" for R
    using that by (simp add: same_names_def upd_srv_def)
  then show ?thesis
    using assms by (auto simp: SwitchMaintenance_def Let_def intro!: same_names_act)
qed

lemma same_names_waits:
  assumes "keeps_names E" "same_names c R"
  shows "WaitDatabaseFailed E i R = Some (ok, R') \<Longrightarrow> same_names c R'" "WaitRejoin E R = Some R' \<Longrightarrow> same_names c R'"
    "WaitSwitchover E R = Some R' \<Longrightarrow> same_names c R'" "wait_backup E i R = Some R' \<Longrightarrow> same_names c R'"
  using assms
  by (auto simp: WaitDatabaseFailed_def WaitRejoin_def WaitSwitchover_def tick_until_def signal_or_tick_def Let_def
      elim!: wait_for_keeps [where Q = "same_names c"] wait_backup_keeps [where Q = "same_names c"] intro: same_names_act)

lemma wait_returns:
  assumes "MonitorWaitRetry E \<le> wait_found"
  shows "\<exists>ok R'. WaitDatabaseFailed E i R = Some (ok, R')" "\<exists>R'. WaitRejoin E R = Some R'" "\<exists>R'. WaitSwitchover E R = Some R'"
  using wait_for_returns [OF assms, of "tick_until E (\<lambda>c. State (srv c i) = stateFailed)" R]
    wait_for_returns [OF assms, of "signal_or_tick E" R]
  by (auto simp: WaitDatabaseFailed_def WaitRejoin_def WaitSwitchover_def)

lemma sync_returns: "keeps_names E \<Longrightarrow> same_names c R \<Longrightarrow> \<exists>R'. sync_and_leave E i R = Some R' \<and> same_names c R'"
  by (auto simp: sync_and_leave_def same_names_def [of c R] intro!: same_names_SwitchMaintenance same_names_act split: option.split)

lemma restart_service_returns:
  assumes "MonitorWaitRetry E \<le> wait_found" "backups_end E" "keeps_names E" "same_names c R"
    and cancel: "\<And>R. same_names c R \<Longrightarrow> same_names c (cancel R)"
  shows "\<exists>ok R'. restart_service E cancel i R = Some (ok, R') \<and> same_names c R'"
proof -
  note act = same_names_act [OF assms(3)] and wait = same_names_waits [OF assms(3)]
  have "same_names c (enter_maintenance E i R)"
    using assms(4) same_names_SwitchMaintenance [OF assms(3)] by (simp add: enter_maintenance_def)
  moreover obtain R2 where R2: "wait_backup E i (enter_maintenance E i R) = Some R2"
    using wait_backup_returns [OF assms(2)] by blast
  ultimately have n3: "same_names c (act E (RStop i) R2)" using wait(4) act by blast
  obtain ok4 R4 where R4: "WaitDatabaseFailed E i (act E (RStop i) R2) = Some (ok4, R4)"
    using wait_returns(1) [OF assms(1)] by blast
  have n4: "same_names c R4" by (rule wait(1) [OF n3 R4])
  obtain R5 where R5: "WaitRejoin E (act E (RStart i) R4) = Some R5" using wait_returns(2) [OF assms(1)] by blast
  have n5: "same_names c R5" by (rule wait(2) [OF act [OF n4] R5])
  show ?thesis
    using R2 R4 R5 n3 n4 n5 cancel
    by (auto simp: restart_service_def attempt_def StartDatabaseWaitRejoin_def)
qed

lemma restart_slave_returns:
  assumes "MonitorWaitRetry E \<le> wait_found" "backups_end E" "keeps_names E" "same_names c R"
  shows "\<exists>ok R'. restart_slave E i R = Some (ok, R') \<and> same_names c R'"
proof -
  obtain ok1 R1 where r: "(if \<not> IsDown (srv (RC R) i) then restart_service E (SwitchMaintenance E i) i R else Some (True, R)) = Some (ok1, R1)"
    "same_names c R1"
    using restart_service_returns [OF assms, of "SwitchMaintenance E i" i] same_names_SwitchMaintenance [OF assms(3)] assms(4)
    by (cases "IsDown (srv (RC R) i)") auto
  then show ?thesis using sync_returns [OF assms(3) r(2), of i] by (cases ok1) (auto simp: restart_slave_def)
qed

lemma each_slave_returns:
  assumes "\<And>i R. P R \<Longrightarrow> \<exists>ok R'. f i R = Some (ok, R') \<and> P R'" "P R"
  shows "\<exists>ok R'. each_slave f is R = Some (ok, R') \<and> P R'"
  using assms(2)
proof (induction "is" arbitrary: R)
  case (Cons i "is")
  obtain ok R1 where "f i R = Some (ok, R1)" "P R1" using assms(1) [OF Cons.prems] by blast
  then show ?case using Cons.IH [of R1] by (cases ok) auto
qed auto

lemma restart_master_returns:
  assumes "MonitorWaitRetry E \<le> wait_found" "backups_end E" "keeps_names E" "same_names c R" "m \<in> set (Servers c)"
  shows "\<exists>ok R'. restart_master E (Id (srv c m)) R = Some (ok, R')"
proof -
  obtain n where n: "master (RC R) = Some n" using assms(4) by (auto simp: same_names_def)
  have "GetServerFromName (RC R) (Id (srv c m)) \<noteq> None"
    using assms(4, 5) by (auto simp: GetServerFromName_def same_names_def find_None_iff)
  then obtain i where i: "GetServerFromName (RC R) (Id (srv c m)) = Some i" by blast
  obtain ok1 R1 where r: "restart_service E (\<lambda>R. R) i R = Some (ok1, R1)" "same_names c R1"
    using restart_service_returns [OF assms(1-4), of "\<lambda>R. R" i] by auto
  then show ?thesis using n i sync_returns [OF assms(3) r(2), of i] by (cases ok1) (auto simp: restart_master_def)
qed


section \<open>Where it falls short\<close>

lemma maintenance_toggled:
  assumes "\<forall>t c. IsMaintenance (srv (Effect E t c) i) = IsMaintenance (srv c i)"
  shows "IsMaintenance (srv (RC (SwitchMaintenance E i R)) i) \<longleftrightarrow> \<not> IsMaintenance (srv (RC R) i)"
  using assms by (simp add: SwitchMaintenance_def Let_def act_def upd_srv_def)

text \<open>
  C39: A replica that is down when its turn comes is not restarted, but its maintenance is switched nevertheless: a replica
  that was not in maintenance is put there and stays there, and one that was set in maintenance is taken out of it.
\<close>

theorem down_replica_maintenance_flips:
  assumes "IsDown (srv (RC R) i)" "master (RC R) = Some m" "\<forall>t c. IsMaintenance (srv (Effect E t c) i) = IsMaintenance (srv c i)"
  shows "\<exists>R'. restart_slave E i R = Some (True, R') \<and> taken_down (rtrace R') = taken_down (rtrace R) \<and>
           (IsMaintenance (srv (RC R') i) \<longleftrightarrow> \<not> IsMaintenance (srv (RC R) i))"
proof -
  let ?S = "act E (RSync i m) R"
  have r: "restart_slave E i R = Some (True, SwitchMaintenance E i ?S)"
    using assms(1, 2) by (simp add: restart_slave_def sync_and_leave_def)
  have "IsMaintenance (srv (RC ?S) i) = IsMaintenance (srv (RC R) i)" using assms(3) by (simp add: act_def)
  moreover have "grows harmless R (SwitchMaintenance E i ?S)"
    by (rule grows_trans [OF grows_act grows_SwitchMaintenance]) simp
  then have "taken_down (rtrace (SwitchMaintenance E i ?S)) = taken_down (rtrace R)"
    by (auto simp: grows_def taken_down_harmless)
  ultimately show ?thesis using r maintenance_toggled [OF assms(3)] by simp
qed

text \<open>
  The list of replicas is the one of the start. A replica that a failover has made the master meanwhile is stopped like
  the others, without a switchover.
\<close>

theorem promoted_replica_stopped:
  assumes "\<not> IsDown (srv (RC R) i)" "master (RC R) = Some i" "\<forall>t. \<not> BackingUp E t i" "restart_slave E i R = Some (ok, R')"
  shows "RStop i \<in> set (rtrace R')"
proof -
  let ?R2 = "enter_maintenance E i R"
  have b: "wait_backup E i ?R2 = Some ?R2" using assms(3) by (subst wait_backup.simps) simp
  obtain ok1 R1 where s: "restart_service E (SwitchMaintenance E i) i R = Some (ok1, R1)"
    and rest: "(if \<not> ok1 then Some (False, R1) else map_option (Pair True) (sync_and_leave E i R1)) = Some (ok, R')"
    using assms(1, 4) by (auto simp: restart_slave_def bind_eq_Some_conv)
  have "grows (\<lambda>_. True) (act E (RStop i) ?R2) R1"
  proof -
    have mono: "grows harmless S T \<Longrightarrow> grows (\<lambda>_. True) S T" for S T by (auto simp: grows_def list_all_iff)
    show ?thesis
      using s b
      by (auto simp: restart_service_def attempt_def StartDatabaseWaitRejoin_def bind_eq_Some_conv split: if_splits
          intro!: mono [OF grows_SwitchMaintenance]
          intro: grows_trans [OF mono [OF grows_waits(1)] mono [OF grows_SwitchMaintenance]]
            grows_trans [OF mono [OF grows_waits(1)] grows_trans [OF grows_act mono [OF grows_waits(3)]]])
  qed
  moreover have "grows harmless R1 R'" using rest grows_sync by (auto split: if_splits)
  ultimately show ?thesis by (auto simp: grows_def act_def)
qed

section \<open>A sample run\<close>

text \<open>
  Two servers, the second one a replica. The orchestrator obeys at once, a stopped server is failed at the next tick and
  a started one is a replica again, and a switchover makes the other server the master.
\<close>

definition set_srv_state :: "sid \<Rightarrow> string \<Rightarrow> cluster \<Rightarrow> cluster" where
  "set_srv_state i st = upd_srv i (\<lambda>s. s\<lparr>State := st\<rparr>)"

definition sample_effect :: "revent list \<Rightarrow> cluster \<Rightarrow> cluster" where
  "sample_effect t c =
     (case last t of
        RStop i \<Rightarrow> set_srv_state i stateFailed c
      | RStart i \<Rightarrow> set_srv_state i stateSlave c
      | RRequestSwitchover \<Rightarrow> c\<lparr>master := (if master c = Some 0 then Some 1 else Some 0)\<rparr>
      | _ \<Rightarrow> c)"

definition sample_roll_env :: roll_env where
  "sample_roll_env = \<lparr>Effect = sample_effect, Succeeds = (\<lambda>_. True), ErrorText = (\<lambda>_. ''''), Signalled = (\<lambda>_. True),
     BackingUp = (\<lambda>_ _. False), VirtualMaster = (\<lambda>_ _. False), DSN = dec, MonitorWaitRetry = 60\<rparr>"

definition sample_roll :: roll where
  "sample_roll = \<lparr>RC = zero_cluster\<lparr>srv := (\<lambda>i. if i = 0 then sample_server ''db0'' 1 stateMaster else sample_server ''db1'' 2 stateSlave),
       Servers := [0, 1], slaves := [1], master := Some 0\<rparr>, InRollingRestart = False, rtrace = []\<rparr>"

lemma sample_roll_ok: "backups_end sample_roll_env" "keeps_names sample_roll_env" "MonitorWaitRetry sample_roll_env = 60"
  by (auto simp: backups_end_def keeps_names_def sample_roll_env_def sample_effect_def set_srv_state_def upd_srv_def
      split: revent.split)

theorem wait_database_failed_exact_witness:
  "\<exists>ok n. n \<le> 60 \<and> WaitDatabaseFailed sample_roll_env 0 sample_roll = Some (ok, ticks sample_roll_env n sample_roll)"
  using wait_database_failed_exact [of sample_roll_env 0 sample_roll] by (auto simp: sample_roll_ok(3))


lemma sample_restart:
  "map_option (\<lambda>(ok, R'). (ok, rtrace R')) (RollingRestart sample_roll_env sample_roll) =
     Some (True, [RMaintenance 1, RStop 1, RTick, RStart 1, RTick, RSync 1 0, RMaintenance 1, RRequestSwitchover, RTick,
       RMaintenance 0, RStop 0, RTick, RStart 0, RTick, RSync 0 1, RMaintenance 0, RRequestSwitchover])"
  by code_simp


theorem rolling_restart_restores_witness:
  "\<exists>R'. RollingRestart sample_roll_env sample_roll = Some (True, R') \<and> \<not> InRollingRestart R'"
proof -
  obtain R' where R': "RollingRestart sample_roll_env sample_roll = Some (True, R')" using sample_restart by auto
  then show ?thesis using rolling_restart_restores [OF R'] by simp
qed

theorem down_replica_maintenance_flips_witness:
  "\<exists>R'. restart_slave sample_roll_env 1 (sample_roll\<lparr>RC := set_srv_state 1 stateFailed (RC sample_roll)\<rparr>) = Some (True, R') \<and>
     IsMaintenance (srv (RC R') 1)"
proof -
  let ?R = "sample_roll\<lparr>RC := set_srv_state 1 stateFailed (RC sample_roll)\<rparr>"
  have "IsDown (srv (RC ?R) 1)" "master (RC ?R) = Some 0" "\<not> IsMaintenance (srv (RC ?R) 1)"
    by (simp_all add: sample_roll_def set_srv_state_def upd_srv_def IsDown_def sample_server_def zero_server_def)
  moreover have "\<forall>t c. IsMaintenance (srv (Effect sample_roll_env t c) 1) = IsMaintenance (srv c 1)"
    by (auto simp: sample_roll_env_def sample_effect_def set_srv_state_def upd_srv_def split: revent.split)
  ultimately show ?thesis using down_replica_maintenance_flips [of ?R 1 0 sample_roll_env] by blast
qed

end
