(* ===== verification/Configurator.thy ===== *)
theory Configurator
  imports Cluster
begin

text \<open>
  The configurator (\<open>src/cluster/configurator\<close>) and the operations of the cluster on it: the tags and sizes from which the
  configuration of the database servers is generated, and their discovery from a running server.

  A run-time panic is \<open>None\<close>. The settings and plugins of a server are maps; the rule sets of the compliance module, the files
  generated from them and the servers of the cluster are arguments.
\<close>

section \<open>State\<close>

record prov_conf =
  ProvMem :: string
  ProvIops :: string
  ProvCores :: string
  ProvDisk :: string
  ProvMemSharedPct :: string
  ProvMemThreadedPct :: string
  ProvTags :: string
  ProvProxTags :: string
  ProvMaxConnections :: int
  ProvExpireLogDays :: int
  ProvProxCores :: string
  ProvProxMem :: string
  ProvProxDisk :: string
  PRXServersReadOnMaster :: bool
  ProvDBApplyDynamicConfig :: bool

record configurator =
  ClusterConfig :: prov_conf
  DBTags :: "string list"
  ProxyTagList :: "string list"

text \<open>What a change asks of the servers and proxies.\<close>

datatype prov_event =
    DBRestartCookies
  | DBReprovCookies
  | ProxiesRestartCookies
  | ProxiesReprovCookies
  | DynamicConfig sid string string
  | ServerRestartCookie sid

record prov =
  PConf :: prov_conf
  Cfg :: configurator
  prov_trace :: "prov_event list"

section \<open>Numbers\<close>

text \<open>\<open>strconv.ParseInt(s, 10, 64)\<close> and \<open>strconv.ParseUint(s, 10, 64)\<close>.\<close>

definition ParseInt :: "string \<Rightarrow> int option" where
  "ParseInt s = (if atoi_ok s then Some (atoi s) else None)"

definition ParseUint :: "string \<Rightarrow> u64 option" where
  "ParseUint s = (if uint_ok s then Some (of_nat (parse_uint 64 s)) else None)"

section \<open>Tags\<close>

definition SetConfig :: "prov_conf \<Rightarrow> configurator \<Rightarrow> configurator" where
  "SetConfig C c =
     c\<lparr>ClusterConfig := C, DBTags := str_split (CHR '','') (ProvTags C), ProxyTagList := str_split (CHR '','') (ProvProxTags C)\<rparr>"

definition Cfg_AddDBTag :: "string \<Rightarrow> configurator \<Rightarrow> configurator" where
  "Cfg_AddDBTag tag c = c\<lparr>DBTags := DBTags c @ [tag]\<rparr>"

definition Cfg_AddProxyTag :: "string \<Rightarrow> configurator \<Rightarrow> configurator" where
  "Cfg_AddProxyTag tag c = c\<lparr>ProxyTagList := ProxyTagList c @ [tag]\<rparr>"

definition Cfg_DropProxyTag :: "string \<Rightarrow> configurator \<Rightarrow> configurator" where
  "Cfg_DropProxyTag dtag c = c\<lparr>ProxyTagList := filter (\<lambda>tag. dtag \<noteq> tag) (ProxyTagList c)\<rparr>"

definition Cfg_DropDBTag :: "string \<Rightarrow> configurator \<Rightarrow> bool \<times> configurator" where
  "Cfg_DropDBTag dtag c =
     (let newtags = filter (\<lambda>tag. dtag \<noteq> tag) (DBTags c)
      in if length (DBTags c) \<noteq> length newtags then (True, c\<lparr>DBTags := newtags\<rparr>) else (False, c))"

definition HaveDBTag :: "configurator \<Rightarrow> string \<Rightarrow> bool" where
  "HaveDBTag c tag = list_ex (\<lambda>t. t = tag) (DBTags c)"

definition IsFilterInDBTags :: "configurator \<Rightarrow> string \<Rightarrow> bool" where
  "IsFilterInDBTags c filt = list_ex (\<lambda>tag. suffix tag filt) (DBTags c)"

definition proxy_filter :: "configurator \<Rightarrow> string \<Rightarrow> bool" where
  "proxy_filter c filt = list_ex (\<lambda>tag. suffix tag filt) (ProxyTagList c)"

definition GetConfigDBTags :: "configurator \<Rightarrow> string" where
  "GetConfigDBTags c = str_join (CHR '','') (DBTags c)"

definition GetConfigProxyTags :: "configurator \<Rightarrow> string" where
  "GetConfigProxyTags c = str_join (CHR '','') (ProxyTagList c)"

text \<open>\<open>Init\<close>, once the compliance modules are loaded.\<close>

definition Cfg_Init :: "prov_conf \<Rightarrow> configurator \<Rightarrow> configurator" where
  "Cfg_Init C c =
     (let c1 = SetConfig C c
      in if PRXServersReadOnMaster C \<and> \<not> proxy_filter c1 ''readonmaster''
         then Cfg_AddProxyTag ''readonmaster'' c1 else Cfg_DropProxyTag ''readonmaster'' c1)"

section \<open>Sizes\<close>

fun pct_loop :: "(string \<rightharpoonup> int) \<Rightarrow> string list \<Rightarrow> ((string \<rightharpoonup> int) \<times> bool) option" where
  "pct_loop engines [] = Some (engines, True)"
| "pct_loop engines (engine # es) =
     (case str_split (CHR '':'') engine of
        k # v # _ \<Rightarrow> if atoi_ok v then pct_loop (engines(k \<mapsto> atoi v)) es else Some (engines, False)
      | _ \<Rightarrow> None)"

definition GetMemoryPctShared :: "prov_conf \<Rightarrow> ((string \<rightharpoonup> int) \<times> bool) option" where
  "GetMemoryPctShared C = pct_loop Map.empty (str_split (CHR '','') (ProvMemSharedPct C))"

definition GetMemoryPctThreaded :: "prov_conf \<Rightarrow> ((string \<rightharpoonup> int) \<times> bool) option" where
  "GetMemoryPctThreaded C = pct_loop Map.empty (str_split (CHR '','') (ProvMemThreadedPct C))"

definition pct :: "(string \<rightharpoonup> int) \<Rightarrow> string \<Rightarrow> int" where
  "pct engines e = (case engines e of None \<Rightarrow> 0 | Some n \<Rightarrow> n)"

definition engine_size :: "string \<Rightarrow> prov_conf \<Rightarrow> string option" where
  "engine_size e C =
     (case ParseInt (ProvMem C) of
        None \<Rightarrow> Some ''128''
      | Some containermem \<Rightarrow>
          map_option (\<lambda>(engines, _). dec_int (go_div (s64 (containermem * pct engines e)) 100)) (GetMemoryPctShared C))"

definition GetConfigInnoDBBPSize :: "prov_conf \<Rightarrow> string option" where
  "GetConfigInnoDBBPSize = engine_size ''innodb''"

definition GetConfigMyISAMKeyBufferSize :: "prov_conf \<Rightarrow> string option" where
  "GetConfigMyISAMKeyBufferSize = engine_size ''myisam''"

definition GetConfigTokuDBBufferSize :: "prov_conf \<Rightarrow> string option" where
  "GetConfigTokuDBBufferSize = engine_size ''tokudb''"

definition GetConfigQueryCacheSize :: "prov_conf \<Rightarrow> string option" where
  "GetConfigQueryCacheSize = engine_size ''querycache''"

definition GetConfigAriaCacheSize :: "prov_conf \<Rightarrow> string option" where
  "GetConfigAriaCacheSize = engine_size ''aria''"

definition GetConfigS3CacheSize :: "prov_conf \<Rightarrow> string option" where
  "GetConfigS3CacheSize = engine_size ''s3''"

definition GetConfigRocksDBCacheSize :: "prov_conf \<Rightarrow> string option" where
  "GetConfigRocksDBCacheSize = engine_size ''rocksdb''"

definition segments :: "string \<Rightarrow> string" where
  "segments s = (case ParseInt s of None \<Rightarrow> ''1'' | Some v \<Rightarrow> dec_int (s64 (go_div v 8000 + 1)))"

definition GetConfigMyISAMKeyBufferSegements :: "prov_conf \<Rightarrow> string option" where
  "GetConfigMyISAMKeyBufferSegements C = map_option segments (GetConfigMyISAMKeyBufferSize C)"

definition GetConfigInnoDBBPInstances :: "prov_conf \<Rightarrow> string option" where
  "GetConfigInnoDBBPInstances C = map_option segments (GetConfigInnoDBBPSize C)"

definition GetConfigInnoDBIOCapacity :: "prov_conf \<Rightarrow> string" where
  "GetConfigInnoDBIOCapacity C = (case ParseInt (ProvIops C) of None \<Rightarrow> ''100'' | Some v \<Rightarrow> dec_int (go_div v 3))"

definition GetConfigInnoDBIOCapacityMax :: "prov_conf \<Rightarrow> string" where
  "GetConfigInnoDBIOCapacityMax C = (case ParseInt (ProvIops C) of None \<Rightarrow> ''200'' | Some v \<Rightarrow> dec_int v)"

definition GetConfigInnoDBLogFileSize :: "configurator \<Rightarrow> string option" where
  "GetConfigInnoDBLogFileSize c =
     map_option (\<lambda>s.
       case ParseInt s of
         None \<Rightarrow> ''1024''
       | Some value \<Rightarrow>
           let v1 = go_div value 2;
               v2 = (if v1 < 1024 then 1024 else v1);
               v3 = (if v2 > 20 * 1024 then 20 * 1024 else v2)
           in if HaveDBTag c ''smallredolog'' then ''128'' else dec_int v3)
       (GetConfigInnoDBBPSize (ClusterConfig c))"

section \<open>Settings of the servers\<close>

definition Cfg_SetDBMemory :: "string \<Rightarrow> configurator \<Rightarrow> configurator" where
  "Cfg_SetDBMemory v c = c\<lparr>ClusterConfig := (ClusterConfig c)\<lparr>ProvMem := v\<rparr>\<rparr>"

definition Cfg_SetDBCores :: "string \<Rightarrow> configurator \<Rightarrow> configurator" where
  "Cfg_SetDBCores v c = c\<lparr>ClusterConfig := (ClusterConfig c)\<lparr>ProvCores := v\<rparr>\<rparr>"

definition Cfg_SetDBDisk :: "string \<Rightarrow> configurator \<Rightarrow> configurator" where
  "Cfg_SetDBDisk v c = c\<lparr>ClusterConfig := (ClusterConfig c)\<lparr>ProvDisk := v\<rparr>\<rparr>"

definition Cfg_SetDBDiskIOPS :: "string \<Rightarrow> configurator \<Rightarrow> configurator" where
  "Cfg_SetDBDiskIOPS v c = c\<lparr>ClusterConfig := (ClusterConfig c)\<lparr>ProvIops := v\<rparr>\<rparr>"

definition Cfg_SetDBMaxConnections :: "string \<Rightarrow> configurator \<Rightarrow> configurator" where
  "Cfg_SetDBMaxConnections v c =
     c\<lparr>ClusterConfig := (ClusterConfig c)\<lparr>ProvMaxConnections := (if \<not> atoi_ok v then 1000 else atoi v)\<rparr>\<rparr>"

text \<open>The default of 5 days is set and overwritten by the value \<open>Atoi\<close> returned with its error.\<close>

definition Cfg_SetDBExpireLogDays :: "string \<Rightarrow> configurator \<Rightarrow> configurator" where
  "Cfg_SetDBExpireLogDays v c =
     (let c1 = (if \<not> atoi_ok v then c\<lparr>ClusterConfig := (ClusterConfig c)\<lparr>ProvExpireLogDays := 5\<rparr>\<rparr> else c)
      in c1\<lparr>ClusterConfig := (ClusterConfig c1)\<lparr>ProvExpireLogDays := atoi v\<rparr>\<rparr>)"

definition Cfg_SetProxyCores :: "string \<Rightarrow> configurator \<Rightarrow> configurator" where
  "Cfg_SetProxyCores v c = c\<lparr>ClusterConfig := (ClusterConfig c)\<lparr>ProvProxCores := v\<rparr>\<rparr>"

definition Cfg_SetProxyMemorySize :: "string \<Rightarrow> configurator \<Rightarrow> configurator" where
  "Cfg_SetProxyMemorySize v c = c\<lparr>ClusterConfig := (ClusterConfig c)\<lparr>ProvProxMem := v\<rparr>\<rparr>"

definition Cfg_SetProxyDiskSize :: "string \<Rightarrow> configurator \<Rightarrow> configurator" where
  "Cfg_SetProxyDiskSize v c = c\<lparr>ClusterConfig := (ClusterConfig c)\<lparr>ProvProxDisk := v\<rparr>\<rparr>"

section \<open>Discovery\<close>

definition vget :: "(string \<rightharpoonup> string) \<Rightarrow> string \<Rightarrow> string" where
  "vget V k = (case V k of None \<Rightarrow> [] | Some v \<Rightarrow> v)"

definition plugin_active :: "(string \<rightharpoonup> string) \<Rightarrow> string \<Rightarrow> bool" where
  "plugin_active Pl name = (case Pl name of None \<Rightarrow> False | Some st \<Rightarrow> st = ''ACTIVE'')"

definition HasWsrep :: "(string \<rightharpoonup> string) \<Rightarrow> bool" where
  "HasWsrep V \<longleftrightarrow> vget V ''WSREP_ON'' = ''ON''"

text \<open>The tags of the settings, in the order of the code: each is added if its condition holds.\<close>

definition settings_rules :: "(string \<rightharpoonup> string) \<Rightarrow> (string \<rightharpoonup> string) \<Rightarrow> (bool \<times> string) list" where
  "settings_rules V Pl =
     [(vget V ''INNODB_DOUBLEWRITE'' = ''OFF'', ''nodoublewrite''),
      (vget V ''INNODB_FLUSH_LOG_AT_TRX_COMMIT'' \<noteq> ''1'' \<and> vget V ''SYNC_BINLOG'' \<noteq> ''1'', ''nodurable''),
      (vget V ''INNODB_FLUSH_METHOD'' \<noteq> ''O_DIRECT'', ''noodirect''),
      (vget V ''LOG_BIN_COMPRESS'' = ''ON'', ''compressbinlog''),
      (vget V ''INNODB_DEFRAGMENT'' = ''ON'', ''autodefrag''),
      (vget V ''INNODB_COMPRESSION_DEFAULT'' = ''ON'', ''compresstable''),
      (plugin_active Pl ''BLACKHOLE'', ''blackhole''),
      (plugin_active Pl ''QUERY_RESPONSE_TIME'', ''userstats''),
      (plugin_active Pl ''SQL_ERROR_LOG'', ''sqlerror''),
      (plugin_active Pl ''METADATA_LOCK_INFO'', ''metadatalocks''),
      (plugin_active Pl ''SERVER_AUDIT'', ''audit''),
      (vget V ''SLOW_QUERY_LOG'' = ''ON'', ''slow''),
      (vget V ''GENERAL_LOG'' = ''ON'', ''general''),
      (vget V ''PERFORMANCE_SCHEMA'' = ''ON'', ''pfs''),
      (vget V ''LOG_OUTPUT'' = ''TABLE'', ''logtotable''),
      (plugin_active Pl ''CONNECT'', ''connect''),
      (plugin_active Pl ''SPIDER'', ''spider''),
      (plugin_active Pl ''SPHINX'', ''sphinx''),
      (plugin_active Pl ''MROONGA'', ''mroonga''),
      (HasWsrep V, ''wsrep'')]"

definition plugin_rules :: "(string \<rightharpoonup> string) \<Rightarrow> (string \<rightharpoonup> string) \<Rightarrow> (bool \<times> string) list" where
  "plugin_rules V Pl =
     [(plugin_active Pl ''ARCHIVE'', ''archive''),
      (plugin_active Pl ''CRACKLIB_PASSWORD_CHECK'', ''pwdcheckcracklib''),
      (plugin_active Pl ''SIMPLE_PASSWORD_CHECK'', ''pwdchecksimple''),
      (vget V ''LOCAL_INFILE'' = ''ON'', ''localinfile''),
      (vget V ''SKIP_NAME_RESOLVE'' = ''OFF'', ''resolvdns''),
      (vget V ''READ_ONLY'' = ''ON'', ''readonly''),
      (vget V ''HAVE_SSL'' = ''YES'', ''ssl''),
      (vget V ''BINLOG_FORMAT'' = ''STATEMENT'', ''statement''),
      (vget V ''BINLOG_FORMAT'' = ''ROW'', ''row''),
      (vget V ''LOG_BIN'' = ''OFF'', ''nobinlog''),
      (vget V ''LOG_BIN'' = ''OFF'', ''nobinlog''),
      (vget V ''LOG_SLAVE_UPDATES'' = ''OFF'', ''nologslaveupdates''),
      (vget V ''RPL_SEMI_SYNC_MASTER_ENABLED'' = ''ON'', ''semisync''),
      (vget V ''GTID_STRICT_MODE'' = ''ON'', ''gtidstrict''),
      (str_contains (vget V ''SLAVE_TYPE_COVERSIONS'') ''ALL_NON_LOSSY'' \<or> str_contains (vget V ''SLAVE_TYPE_COVERSIONS'') ''ALL_LOSSY'', ''lossyconv''),
      (vget V ''SLAVE_EXEC_MODE'' = ''IDEMPOTENT'', ''idempotent'')]"

definition optimizer_rules :: "(string \<rightharpoonup> string) \<Rightarrow> (string \<rightharpoonup> string) \<Rightarrow> (bool \<times> string) list" where
  "optimizer_rules V Pl =
     [(str_contains (vget V ''OPTIMIZER_SWITCH'') ''SUBQUERY_CACHE=ON'', ''subquerycache''),
      (str_contains (vget V ''OPTIMIZER_SWITCH'') ''SEMIJOIN_WITH_CACHE=ON'', ''semijoincache''),
      (str_contains (vget V ''OPTIMIZER_SWITCH'') ''FIRSTMATCH=ON'', ''firstmatch''),
      (str_contains (vget V ''OPTIMIZER_SWITCH'') ''EXTENDED_KEYS=ON'', ''extendedkeys''),
      (str_contains (vget V ''OPTIMIZER_SWITCH'') ''LOOSESCAN=ON'', ''loosescan''),
      (str_contains (vget V ''OPTIMIZER_SWITCH'') ''INDEX_CONDITION_PUSHDOWN=OFF'', ''noicp''),
      (str_contains (vget V ''OPTIMIZER_SWITCH'') ''IN_TO_EXISTS=OFF'', ''nointoexists''),
      (str_contains (vget V ''OPTIMIZER_SWITCH'') ''DERIVED_MERGE=OFF'', ''noderivedmerge''),
      (str_contains (vget V ''OPTIMIZER_SWITCH'') ''DERIVED_WITH_KEYS=OFF'', ''noderivedwithkeys''),
      (str_contains (vget V ''OPTIMIZER_SWITCH'') ''MRR=OFF'', ''nomrr''),
      (str_contains (vget V ''OPTIMIZER_SWITCH'') ''OUTER_JOIN_WITH_CACHE=OFF'', ''noouterjoincache''),
      (str_contains (vget V ''OPTIMIZER_SWITCH'') ''SEMI_JOIN_WITH_CACHE=OFF'', ''nosemijoincache''),
      (str_contains (vget V ''OPTIMIZER_SWITCH'') ''TABLE_ELIMINATION=OFF'', ''notableelimination''),
      (str_contains (vget V ''SQL_MODE'') ''ORACLE'', ''sqlmodeoracle''),
      (vget V ''SQL_MODE'' = '''', ''sqlmodeunstrict'')]"

definition session_rules :: "(string \<rightharpoonup> string) \<Rightarrow> (string \<rightharpoonup> string) \<Rightarrow> (bool \<times> string) list" where
  "session_rules V Pl =
     [(vget V ''TX_ISOLATION'' = ''READ-COMMITTED'', ''readcommitted''),
      (vget V ''TX_ISOLATION'' = ''READ-UNCOMMITTED'', ''readuncommitted''),
      (vget V ''TX_ISOLATION'' = ''REPEATABLE-READ'', ''reapeatableread''),
      (vget V ''TX_ISOLATION'' = ''SERIALIZED'', ''serialized''),
      (vget V ''JOIN_CACHE_LEVEL'' = ''8'', ''hashjoin''),
      (vget V ''JOIN_CACHE_LEVEL'' = ''6'', ''mrrjoin''),
      (vget V ''JOIN_CACHE_LEVEL'' = ''2'', ''nestedjoin''),
      (vget V ''LOWER_CASE_TABLE_NAMES'' = ''1'', ''lowercasetable''),
      (vget V ''USER_STAT_TABLES'' = ''PREFERABLY_FOR_QUERIES'', ''eits''),
      (vget V ''CHARACTER_SET_SERVER'' = ''UTF8MB4'' \<and> str_contains (vget V ''COLLATION_SERVER'') ''_ci'', ''bm4ci''),
      (vget V ''CHARACTER_SET_SERVER'' = ''UTF8MB4'' \<and> \<not> str_contains (vget V ''COLLATION_SERVER'') ''_ci'', ''bm4cs''),
      (vget V ''CHARACTER_SET_SERVER'' = ''UTF8'' \<and> str_contains (vget V ''COLLATION_SERVER'') ''_ci'', ''utf8ci''),
      (vget V ''CHARACTER_SET_SERVER'' = ''UTF8'' \<and> \<not> str_contains (vget V ''COLLATION_SERVER'') ''_ci'', ''utf8cs'')]"

definition discovered_tags :: "(string \<rightharpoonup> string) \<Rightarrow> (string \<rightharpoonup> string) \<Rightarrow> string list" where
  "discovered_tags V Pl =
     map snd (filter fst (settings_rules V Pl @ plugin_rules V Pl @ optimizer_rules V Pl @ session_rules V Pl))"

text \<open>A cache that a server may not have: its size, 0 when it is missing, \<open>None\<close> when it is not a number.\<close>

definition optional_cache :: "(string \<rightharpoonup> string) \<Rightarrow> string \<Rightarrow> u64 option" where
  "optional_cache V k = (if V k = None then Some 0 else ParseUint (vget V k))"

definition tag_if :: "bool \<Rightarrow> string \<Rightarrow> configurator \<Rightarrow> configurator" where
  "tag_if b tag c = (if b then Cfg_AddDBTag tag c else c)"

definition finish_config_discovery ::
  "(string \<rightharpoonup> string) \<Rightarrow> (string \<rightharpoonup> string) \<Rightarrow> u64 \<Rightarrow> configurator \<Rightarrow> (bool \<times> configurator) option" where
  "finish_config_discovery V Pl totalmem c =
     map_option (\<lambda>(engines, _).
       let total = totalmem + totalmem * word_of_int (pct engines ''threads'') div 100;
           c1 = Cfg_SetDBMemory (dec (unat (total div 1024 div 1024))) c;
           c2 = Cfg_SetDBCores (vget V ''THREAD_POOL_SIZE'') c1
       in (True, fold Cfg_AddDBTag (discovered_tags V Pl) c2))
       (GetMemoryPctShared (ClusterConfig c))"

text \<open>
  The sizes of the S3 and RocksDB caches are read into the variable of the TokuDB cache, after it was added to the total;
  what is added to the total for them is 0.
\<close>

definition engine_discovery ::
  "(string \<rightharpoonup> string) \<Rightarrow> (string \<rightharpoonup> string) \<Rightarrow> u64 \<Rightarrow> configurator \<Rightarrow> (bool \<times> configurator) option" where
  "engine_discovery V Pl totalmem c =
     (let c1 = tag_if (V ''TOKUDB_CACHE_SIZE'' \<noteq> None) ''tokudb'' c
      in case optional_cache V ''TOKUDB_CACHE_SIZE'' of
           None \<Rightarrow> Some (False, c1)
         | Some tokumem \<Rightarrow>
             let c2 = tag_if (V ''S3_PAGECACHE_BUFFER_SIZE'' \<noteq> None) ''s3'' c1
             in case optional_cache V ''S3_PAGECACHE_BUFFER_SIZE'' of
                  None \<Rightarrow> Some (False, c2)
                | Some _ \<Rightarrow>
                    let c3 = tag_if (V ''ROCKSDB_BLOCK_CACHE_SIZE'' \<noteq> None) ''myrocks'' c2
                    in case optional_cache V ''ROCKSDB_BLOCK_CACHE_SIZE'' of
                         None \<Rightarrow> Some (False, c3)
                       | Some _ \<Rightarrow> finish_config_discovery V Pl (totalmem + tokumem + 0 + 0) c3)"

definition ConfigDiscovery ::
  "(string \<rightharpoonup> string) \<Rightarrow> (string \<rightharpoonup> string) \<Rightarrow> configurator \<Rightarrow> (bool \<times> configurator) option" where
  "ConfigDiscovery V Pl c =
     (case ParseUint (vget V ''INNODB_BUFFER_POOL_SIZE'') of
        None \<Rightarrow> Some (False, c)
      | Some innodbmem \<Rightarrow>
          (case ParseUint (vget V ''KEY_BUFFER_SIZE'') of
             None \<Rightarrow> Some (False, c)
           | Some myisammem \<Rightarrow>
               (case ParseUint (vget V ''QUERY_CACHE_SIZE'') of
                  None \<Rightarrow> Some (False, c)
                | Some qcmem \<Rightarrow>
                    let c1 = tag_if (qcmem = 0) ''noquerycache'' c
                    in case optional_cache V ''ARIA_PAGECACHE_BUFFER_SIZE'' of
                         None \<Rightarrow> Some (False, c1)
                       | Some ariamem \<Rightarrow> engine_discovery V Pl (innodbmem + myisammem + qcmem + ariamem) c1)))"

section \<open>Operations of the cluster\<close>

text \<open>
  \<open>SetClusterCredentialsFromConfig\<close> gives the configuration to the configurator again; what it does to the credentials
  does not concern the configurator.
\<close>

definition reload_conf :: "prov \<Rightarrow> prov" where
  "reload_conf P = P\<lparr>Cfg := SetConfig (PConf P) (Cfg P)\<rparr>"

definition ask :: "prov_event \<Rightarrow> prov \<Rightarrow> prov" where
  "ask e P = P\<lparr>prov_trace := prov_trace P @ [e]\<rparr>"

definition AddDBTagConfig :: "string \<Rightarrow> prov \<Rightarrow> prov" where
  "AddDBTagConfig tag P =
     (if \<not> HaveDBTag (Cfg P) tag
      then let c = Cfg_AddDBTag tag (Cfg P)
           in reload_conf (P\<lparr>Cfg := c, PConf := (PConf P)\<lparr>ProvTags := GetConfigDBTags c\<rparr>\<rparr>)
      else P)"

record prov_env =
  prov_servers :: "sid list"
  is_mariadb :: "sid \<Rightarrow> bool"
  needs_restart :: "sid \<Rightarrow> string \<Rightarrow> string \<Rightarrow> bool"
    \<comment> \<open>\<open>ExecScriptSQL\<close> of the dynamic configuration of a tag asks for a restart\<close>

definition dynamic_config :: "prov_env \<Rightarrow> string \<Rightarrow> string \<Rightarrow> sid \<Rightarrow> prov \<Rightarrow> prov" where
  "dynamic_config E tag kind i P =
     (let cmd = (if is_mariadb E i then ''mariadb_'' @ kind else ''mysql_'' @ kind);
          P1 = ask (DynamicConfig i tag cmd) P
      in if needs_restart E i tag cmd then ask (ServerRestartCookie i) P1 else P1)"

definition AddDBTag :: "prov_env \<Rightarrow> string \<Rightarrow> prov \<Rightarrow> prov" where
  "AddDBTag E tag P =
     (if \<not> HaveDBTag (Cfg P) tag
      then let P1 = AddDBTagConfig tag P
           in if ProvDBApplyDynamicConfig (PConf P1) then fold (dynamic_config E tag ''command'') (prov_servers E) P1
              else ask DBRestartCookies P1
      else P)"

definition DropDBTagConfig :: "string \<Rightarrow> prov \<Rightarrow> bool \<times> prov" where
  "DropDBTagConfig dtag P =
     (let (changed, c) = Cfg_DropDBTag dtag (Cfg P)
      in (changed, reload_conf (P\<lparr>Cfg := c, PConf := (PConf P)\<lparr>ProvTags := str_join (CHR '','') (DBTags c)\<rparr>\<rparr>)))"

definition DropDBTag :: "prov_env \<Rightarrow> string \<Rightarrow> prov \<Rightarrow> prov" where
  "DropDBTag E dtag P =
     (let P1 = (if ProvDBApplyDynamicConfig (PConf P) then fold (dynamic_config E dtag ''default'') (prov_servers E) P else P);
          (changed, P2) = DropDBTagConfig dtag P1
      in if changed \<and> \<not> ProvDBApplyDynamicConfig (PConf P2) then ask DBRestartCookies P2 else P2)"

definition AddProxyTag :: "string \<Rightarrow> prov \<Rightarrow> prov" where
  "AddProxyTag tag P =
     (let c = Cfg_AddProxyTag tag (Cfg P)
      in ask ProxiesRestartCookies (reload_conf (P\<lparr>Cfg := c, PConf := (PConf P)\<lparr>ProvProxTags := GetConfigProxyTags c\<rparr>\<rparr>)))"

definition DropProxyTag :: "string \<Rightarrow> prov \<Rightarrow> prov" where
  "DropProxyTag dtag P =
     (let c = Cfg_DropProxyTag dtag (Cfg P)
      in ask ProxiesRestartCookies
           (reload_conf (P\<lparr>Cfg := c, PConf := (PConf P)\<lparr>ProvProxTags := str_join (CHR '','') (ProxyTagList c)\<rparr>\<rparr>)))"

definition SwitchProxyServersReadOnMaster :: "prov \<Rightarrow> prov" where
  "SwitchProxyServersReadOnMaster P =
     (let C = (PConf P)\<lparr>PRXServersReadOnMaster := \<not> PRXServersReadOnMaster (PConf P)\<rparr> in P\<lparr>PConf := C, Cfg := Cfg_Init C (Cfg P)\<rparr>)"

text \<open>A change of one setting: the configurator first, then the configuration of the cluster from it.\<close>

definition SetDBDiskSize :: "string \<Rightarrow> prov \<Rightarrow> prov" where
  "SetDBDiskSize v P = (let c = Cfg_SetDBDisk v (Cfg P)
     in ask DBReprovCookies (P\<lparr>Cfg := c, PConf := (PConf P)\<lparr>ProvDisk := ProvDisk (ClusterConfig c)\<rparr>\<rparr>))"

definition SetDBCores :: "string \<Rightarrow> prov \<Rightarrow> prov" where
  "SetDBCores v P = (let c = Cfg_SetDBCores v (Cfg P)
     in ask DBReprovCookies (P\<lparr>Cfg := c, PConf := (PConf P)\<lparr>ProvCores := ProvCores (ClusterConfig c)\<rparr>\<rparr>))"

definition SetDBMemorySize :: "string \<Rightarrow> prov \<Rightarrow> prov" where
  "SetDBMemorySize v P = (let c = Cfg_SetDBMemory v (Cfg P)
     in ask DBReprovCookies (P\<lparr>Cfg := c, PConf := (PConf P)\<lparr>ProvMem := ProvMem (ClusterConfig c)\<rparr>\<rparr>))"

definition SetDBDiskIOPS :: "string \<Rightarrow> prov \<Rightarrow> prov" where
  "SetDBDiskIOPS v P = (let c = Cfg_SetDBDiskIOPS v (Cfg P)
     in ask DBRestartCookies (P\<lparr>Cfg := c, PConf := (PConf P)\<lparr>ProvIops := ProvIops (ClusterConfig c)\<rparr>\<rparr>))"

definition SetDBMaxConnections :: "string \<Rightarrow> prov \<Rightarrow> prov" where
  "SetDBMaxConnections v P = (let c = Cfg_SetDBMaxConnections v (Cfg P)
     in ask DBRestartCookies (P\<lparr>Cfg := c, PConf := (PConf P)\<lparr>ProvMaxConnections := ProvMaxConnections (ClusterConfig c)\<rparr>\<rparr>))"

definition SetDBExpireLogDays :: "string \<Rightarrow> prov \<Rightarrow> prov" where
  "SetDBExpireLogDays v P = (let c = Cfg_SetDBExpireLogDays v (Cfg P)
     in ask DBRestartCookies (P\<lparr>Cfg := c, PConf := (PConf P)\<lparr>ProvExpireLogDays := ProvExpireLogDays (ClusterConfig c)\<rparr>\<rparr>))"

definition SetProxyCores :: "string \<Rightarrow> prov \<Rightarrow> prov" where
  "SetProxyCores v P = (let c = Cfg_SetProxyCores v (Cfg P)
     in ask ProxiesRestartCookies (P\<lparr>Cfg := c, PConf := (PConf P)\<lparr>ProvProxCores := ProvProxCores (ClusterConfig c)\<rparr>\<rparr>))"

definition SetProxyMemorySize :: "string \<Rightarrow> prov \<Rightarrow> prov" where
  "SetProxyMemorySize v P = (let c = Cfg_SetProxyMemorySize v (Cfg P)
     in ask ProxiesRestartCookies (P\<lparr>Cfg := c, PConf := (PConf P)\<lparr>ProvProxMem := ProvProxMem (ClusterConfig c)\<rparr>\<rparr>))"

definition SetProxyDiskSize :: "string \<Rightarrow> prov \<Rightarrow> prov" where
  "SetProxyDiskSize v P = (let c = Cfg_SetProxyDiskSize v (Cfg P)
     in ask ProxiesReprovCookies (P\<lparr>Cfg := c, PConf := (PConf P)\<lparr>ProvProxDisk := ProvProxDisk (ClusterConfig c)\<rparr>\<rparr>))"

text \<open>The discovery of the cluster asks its master, if it has one, and drops the error of the configurator.\<close>

definition settings_from_configurator :: "prov \<Rightarrow> prov" where
  "settings_from_configurator P =
     (let C = ClusterConfig (Cfg P);
          P1 = ask DBRestartCookies (P\<lparr>PConf := (PConf P)\<lparr>ProvCores := ProvCores C\<rparr>\<rparr>);
          P2 = ask DBRestartCookies (P1\<lparr>PConf := (PConf P1)\<lparr>ProvMem := ProvMem C\<rparr>\<rparr>);
          P3 = ask DBRestartCookies (P2\<lparr>PConf := (PConf P2)\<lparr>ProvIops := ProvIops C\<rparr>\<rparr>)
      in P3\<lparr>PConf := (PConf P3)\<lparr>ProvTags := GetConfigDBTags (Cfg P3), ProvProxTags := GetConfigProxyTags (Cfg P3)\<rparr>\<rparr>)"

definition Cluster_ConfigDiscovery ::
  "((string \<rightharpoonup> string) \<times> (string \<rightharpoonup> string)) option \<Rightarrow> prov \<Rightarrow> (bool \<times> prov) option" where
  "Cluster_ConfigDiscovery leader P =
     (case leader of
        None \<Rightarrow> Some (False, P)
      | Some (V, Pl) \<Rightarrow>
          map_option (\<lambda>(_, c). (True, settings_from_configurator (P\<lparr>Cfg := c\<rparr>))) (ConfigDiscovery V Pl (Cfg P)))"

section \<open>Generated configuration\<close>

record ruleset =
  rule_name :: string
  rule_filter :: string
  rule_links :: "string list"
    \<comment> \<open>the targets of its variables of class symlink, decoded\<close>

definition wanted :: "configurator \<Rightarrow> string \<Rightarrow> ruleset \<Rightarrow> bool" where
  "wanted c filt r \<longleftrightarrow>
     str_contains (rule_name r) ''mariadb.svc.mrm.db.cnf.generic'' \<and>
     (IsFilterInDBTags c (rule_filter r) \<or> rule_name r = ''mariadb.svc.mrm.db.cnf.generic'') \<and>
     (filt = [] \<or> str_contains (rule_filter r) filt)"

definition wanted_files :: "configurator \<Rightarrow> string \<Rightarrow> ruleset list \<Rightarrow> string list" where
  "wanted_files c filt rs = concat (map rule_links (filter (wanted c filt) rs))"

text \<open>The lines of the files, in order; \<open>Inl\<close> is the error, with what was read before it. The command is one of four literals,
  so its regular expression matches the lines that contain it.\<close>

fun dynamic_lines :: "string \<Rightarrow> string \<Rightarrow> string list \<Rightarrow> string + string" where
  "dynamic_lines cmd acc [] = Inr acc"
| "dynamic_lines cmd acc (l # ls) =
     (if str_contains l cmd
      then case str_split (CHR '':'') l of _ # v # _ \<Rightarrow> dynamic_lines cmd (acc @ v) ls | _ \<Rightarrow> Inl acc
      else dynamic_lines cmd acc ls)"

fun dynamic_files :: "(string \<Rightarrow> string list option) \<Rightarrow> string \<Rightarrow> string \<Rightarrow> string list \<Rightarrow> string + string" where
  "dynamic_files fs cmd acc [] = Inr acc"
| "dynamic_files fs cmd acc (f # rest) =
     (case fs f of
        None \<Rightarrow> Inl acc
      | Some ls \<Rightarrow> (case dynamic_lines cmd acc ls of Inl e \<Rightarrow> Inl e | Inr acc1 \<Rightarrow> dynamic_files fs cmd acc1 rest))"

definition GetDatabaseDynamicConfig ::
  "(string \<Rightarrow> string list option) \<Rightarrow> ruleset list \<Rightarrow> configurator \<Rightarrow> string \<Rightarrow> string \<Rightarrow> string + string" where
  "GetDatabaseDynamicConfig fs rs c filt cmd = dynamic_files fs cmd [] (wanted_files c filt rs)"

text \<open>\<open>GetDatabaseConfig\<close> takes the part after the first colon of every line; a line without one is a panic.\<close>

fun config_lines :: "string \<Rightarrow> string list \<Rightarrow> string option" where
  "config_lines acc [] = Some acc"
| "config_lines acc (l # ls) =
     (case str_split (CHR '':'') l of _ # v # _ \<Rightarrow> config_lines (acc @ v) ls | _ \<Rightarrow> None)"

fun config_files :: "(string \<Rightarrow> string list option) \<Rightarrow> string \<Rightarrow> string list \<Rightarrow> (string + string) option" where
  "config_files fs acc [] = Some (Inr acc)"
| "config_files fs acc (f # rest) =
     (case fs f of
        None \<Rightarrow> Some (Inl acc)
      | Some ls \<Rightarrow> Option.bind (config_lines acc ls) (\<lambda>acc1. config_files fs acc1 rest))"

definition GetDatabaseConfig ::
  "(string \<Rightarrow> string list option) \<Rightarrow> ruleset list \<Rightarrow> configurator \<Rightarrow> string \<Rightarrow> (string + string) option" where
  "GetDatabaseConfig fs rs c filt = config_files fs [] (wanted_files c filt rs)"

section \<open>Numbers as text\<close>

lemma ParseInt_dec_int:
  assumes "in_s64 i"
  shows "ParseInt (dec_int i) = Some i"
proof (cases "i < 0")
  case True
  let ?n = "nat (- i)"
  have n: "?n \<le> 2 ^ 63" "?n < 2 ^ 64" using assms True by (auto simp: in_s64_def)
  have "list_all is_digit (dec ?n)" using dec_digits by (auto simp: list_all_iff)
  then show ?thesis
    using True n parse_uint_dec [of ?n 64] by (simp add: ParseInt_def dec_int_def atoi_ok_def atoi_def atoi_mag_def)
next
  case False
  then show ?thesis using assms atoi_dec_ok [of "nat i"] by (simp add: ParseInt_def dec_int_def in_s64_def)
qed

section \<open>Sizes fit\<close>

text \<open>The caches whose size is a share of the memory.\<close>

definition cache_sizes :: "(prov_conf \<Rightarrow> string option) list" where
  "cache_sizes = [GetConfigInnoDBBPSize, GetConfigMyISAMKeyBufferSize, GetConfigTokuDBBufferSize, GetConfigQueryCacheSize,
     GetConfigAriaCacheSize, GetConfigS3CacheSize, GetConfigRocksDBCacheSize]"

definition cache_engines :: "string list" where
  "cache_engines = [''innodb'', ''myisam'', ''tokudb'', ''querycache'', ''aria'', ''s3'', ''rocksdb'']"

lemma cache_sizes_engines: "map (\<lambda>f. f C) cache_sizes = map (\<lambda>e. engine_size e C) cache_engines"
  by (simp add: cache_sizes_def cache_engines_def GetConfigInnoDBBPSize_def GetConfigMyISAMKeyBufferSize_def
      GetConfigTokuDBBufferSize_def GetConfigQueryCacheSize_def GetConfigAriaCacheSize_def GetConfigS3CacheSize_def
      GetConfigRocksDBCacheSize_def)

lemma go_div_nonneg: "0 \<le> a \<Longrightarrow> 0 < b \<Longrightarrow> go_div a b = a div b"
  by (cases "a = 0") (simp_all add: go_div_def)

lemma go_div_in_s64: "in_s64 x \<Longrightarrow> in_s64 (go_div x 100)"
proof -
  assume x: "in_s64 x"
  have "0 \<le> \<bar>x\<bar> div 100 \<and> \<bar>x\<bar> div 100 \<le> \<bar>x\<bar>" using zdiv_mono2 [of "\<bar>x\<bar>" 1 100] by (simp add: pos_imp_zdiv_nonneg_iff)
  then show ?thesis using x by (auto simp: go_div_def in_s64_def sgn_if)
qed

lemma engine_size_exact:
  assumes "ParseInt (ProvMem C) = Some m" "0 \<le> m" "m * 100 < 2 ^ 63" "GetMemoryPctShared C = Some (en, b)"
    and "0 \<le> pct en e" "pct en e \<le> 100"
  shows "engine_size e C = Some (dec_int (m * pct en e div 100))"
proof -
  have "m * pct en e \<le> m * 100" "0 \<le> m * pct en e" using assms by (simp_all add: mult_left_mono)
  then have "s64 (m * pct en e) = m * pct en e" using assms(3) by (intro s64_id) (simp add: in_s64_def)
  then show ?thesis using assms \<open>0 \<le> m * pct en e\<close> by (simp add: engine_size_def go_div_nonneg)
qed

lemma share_nonneg: "0 \<le> (m :: int) \<Longrightarrow> 0 \<le> p \<Longrightarrow> 0 \<le> m * p div 100"
  by (simp add: pos_imp_zdiv_nonneg_iff)

lemma sum_of_shares:
  assumes "0 \<le> (m :: int)" "\<forall>e \<in> set es. 0 \<le> p e"
  shows "sum_list (map (\<lambda>e. m * p e div 100) es) * 100 \<le> m * sum_list (map p es)"
  using assms(2)
proof (induction es)
  case (Cons e es)
  have "m * p e div 100 * 100 \<le> m * p e" by simp
  then show ?case using Cons by (simp add: distrib_left distrib_right)
qed simp

lemma share_le_sum: "\<forall>e \<in> set es. 0 \<le> p e \<Longrightarrow> e \<in> set es \<Longrightarrow> (p e :: int) \<le> sum_list (map p es)"
  by (metis (no_types, lifting) imageE list.set_map member_le_sum_list list.set_map image_eqI)

text \<open>
  C28: When the shares of the seven caches are not negative and add up to at most 100 per cent, the sizes written into the
  configuration of a server are not negative and fit together into the memory of the server, as long as a hundred times this
  memory is a 64-bit number.
\<close>

theorem cache_sizes_fit:
  assumes "ParseInt (ProvMem C) = Some m" "0 \<le> m" "m * 100 < 2 ^ 63" "GetMemoryPctShared C = Some (en, b)"
    and "\<forall>e \<in> set cache_engines. 0 \<le> pct en e" "sum_list (map (pct en) cache_engines) \<le> 100"
  shows "\<exists>sizes. map (\<lambda>f. f C) cache_sizes = map (\<lambda>s. Some (dec_int s)) sizes \<and> (\<forall>s \<in> set sizes. 0 \<le> s) \<and> sum_list sizes \<le> m"
proof -
  let ?s = "map (\<lambda>e. m * pct en e div 100) cache_engines"
  have "engine_size e C = Some (dec_int (m * pct en e div 100))" if "e \<in> set cache_engines" for e
    using share_le_sum [OF assms(5) that] assms(5, 6) that by (intro engine_size_exact [OF assms(1-4)]) auto
  then have "map (\<lambda>f. f C) cache_sizes = map (\<lambda>s. Some (dec_int s)) ?s"
    unfolding cache_sizes_engines by simp
  moreover have "\<forall>s \<in> set ?s. 0 \<le> s" using assms(2, 5) share_nonneg by (simp del: div_pos_pos_trivial)
  moreover have "sum_list ?s \<le> m"
    using sum_of_shares [OF assms(2, 5)] mult_left_mono [OF assms(6, 2)] by linarith
  ultimately show ?thesis by blast
qed

text \<open>
  The size of the redo log is always the 128 MB of the tag smallredolog, or between 1024 MB and 20480 MB, whatever the memory
  and its shares are, negative ones and those that overflow included; it is missing only if the list of shares has
  an entry without a colon.
\<close>

theorem redo_log_bounds:
  "case GetConfigInnoDBLogFileSize c of
     None \<Rightarrow> GetMemoryPctShared (ClusterConfig c) = None
   | Some s \<Rightarrow> if HaveDBTag c ''smallredolog'' then s = ''128''
               else (\<exists>v. 1024 \<le> v \<and> v \<le> 20480 \<and> s = dec_int v)"
proof (cases "GetConfigInnoDBBPSize (ClusterConfig c)")
  case None
  then show ?thesis
    by (auto simp: GetConfigInnoDBLogFileSize_def GetConfigInnoDBBPSize_def engine_size_def split: option.splits)
next
  case (Some s)
  have "\<exists>v. ParseInt s = Some v"
  proof (cases "ParseInt (ProvMem (ClusterConfig c))")
    case None
    then have "s = ''128''" using Some by (simp add: GetConfigInnoDBBPSize_def engine_size_def)
    then show ?thesis by (simp add: ParseInt_def atoi_ok_def is_digit_def dec_value_def digit_val_def)
  next
    case (Some m)
    obtain en b where s: "s = dec_int (go_div (s64 (m * pct en ''innodb'')) 100)"
      using Some \<open>GetConfigInnoDBBPSize (ClusterConfig c) = Some s\<close> by (auto simp: GetConfigInnoDBBPSize_def engine_size_def)
    then show ?thesis using ParseInt_dec_int [OF go_div_in_s64 [OF in_s64_s64]] by blast
  qed
  then obtain v where v: "ParseInt s = Some v" by blast
  let ?w = "max 1024 (min 20480 (go_div v 2))"
  have "GetConfigInnoDBLogFileSize c = Some (if HaveDBTag c ''smallredolog'' then ''128'' else dec_int ?w)"
    using Some v by (simp add: GetConfigInnoDBLogFileSize_def Let_def max_def min_def)
  moreover have "1024 \<le> ?w" "?w \<le> 20480" by simp_all
  ultimately show ?thesis by (auto intro!: exI [of _ ?w])
qed

section \<open>Discovery\<close>

lemma fold_AddDBTag: "fold Cfg_AddDBTag ts c = c\<lparr>DBTags := DBTags c @ ts\<rparr>"
  by (induction ts arbitrary: c) (simp_all add: Cfg_AddDBTag_def)

text \<open>The tags that the caches of a server give.\<close>

definition cache_tags :: "(string \<rightharpoonup> string) \<Rightarrow> string list" where
  "cache_tags V =
     (if ParseUint (vget V ''QUERY_CACHE_SIZE'') = Some 0 then [''noquerycache''] else []) @
     (if V ''TOKUDB_CACHE_SIZE'' \<noteq> None then [''tokudb''] else []) @
     (if V ''S3_PAGECACHE_BUFFER_SIZE'' \<noteq> None then [''s3''] else []) @
     (if V ''ROCKSDB_BLOCK_CACHE_SIZE'' \<noteq> None then [''myrocks''] else [])"

text \<open>The memory a discovery counts: the caches of InnoDB, MyISAM, the query cache, Aria and TokuDB.\<close>

definition counted_memory :: "(string \<rightharpoonup> string) \<Rightarrow> u64" where
  "counted_memory V =
     (let n = (\<lambda>k. of_nat (parse_uint 64 (vget V k)))
      in n ''INNODB_BUFFER_POOL_SIZE'' + n ''KEY_BUFFER_SIZE'' + n ''QUERY_CACHE_SIZE'' + n ''ARIA_PAGECACHE_BUFFER_SIZE'' +
         n ''TOKUDB_CACHE_SIZE'')"

lemma ParseUint_value: "ParseUint s = Some w \<Longrightarrow> w = of_nat (parse_uint 64 s)"
  by (simp add: ParseUint_def split: if_splits)

lemma optional_cache_value: "optional_cache V k = Some w \<Longrightarrow> w = of_nat (parse_uint 64 (vget V k))"
  by (auto simp: optional_cache_def vget_def parse_uint_def ParseUint_def split: if_splits)

text \<open>
  A discovery that succeeds sets the memory of the configurator from five caches of the server and the share of the
  threads, its cores from the thread pool, and adds to the tags those of the caches and settings of the server, in a fixed order and without
  removing any.
\<close>

theorem discovery_result:
  assumes "ConfigDiscovery V Pl c = Some (True, c')"
  shows "\<exists>en b. GetMemoryPctShared (ClusterConfig c) = Some (en, b) \<and>
    c' = c\<lparr>DBTags := DBTags c @ cache_tags V @ discovered_tags V Pl,
           ClusterConfig := (ClusterConfig c)\<lparr>
             ProvMem := dec (unat ((counted_memory V + counted_memory V * word_of_int (pct en ''threads'') div 100) div 1024 div 1024)),
             ProvCores := vget V ''THREAD_POOL_SIZE''\<rparr>\<rparr>"
proof -
  obtain i m q a t s r where n: "ParseUint (vget V ''INNODB_BUFFER_POOL_SIZE'') = Some i" "ParseUint (vget V ''KEY_BUFFER_SIZE'') = Some m"
      "ParseUint (vget V ''QUERY_CACHE_SIZE'') = Some q" "optional_cache V ''ARIA_PAGECACHE_BUFFER_SIZE'' = Some a"
      "optional_cache V ''TOKUDB_CACHE_SIZE'' = Some t" "optional_cache V ''S3_PAGECACHE_BUFFER_SIZE'' = Some s"
      "optional_cache V ''ROCKSDB_BLOCK_CACHE_SIZE'' = Some r"
    using assms by (auto simp: ConfigDiscovery_def engine_discovery_def Let_def split: option.splits)
  have mem: "i + m + q + a + t = counted_memory V"
    using n(1-3) [THEN ParseUint_value] n(4-5) [THEN optional_cache_value] by (simp add: counted_memory_def)
  show ?thesis
    using assms
    by (auto simp: ConfigDiscovery_def engine_discovery_def finish_config_discovery_def n mem fold_AddDBTag cache_tags_def tag_if_def
        Cfg_AddDBTag_def Cfg_SetDBMemory_def Cfg_SetDBCores_def Let_def)
qed

text \<open>
  The memory of a RocksDB or S3 server is not discovered: two servers that differ only in these caches get the same
  memory.
\<close>

theorem rocksdb_memory_ignored:
  assumes "ConfigDiscovery V Pl c = Some (True, c1)" "ConfigDiscovery V' Pl c = Some (True, c2)"
    and "V' = V(''ROCKSDB_BLOCK_CACHE_SIZE'' \<mapsto> x, ''S3_PAGECACHE_BUFFER_SIZE'' \<mapsto> y)"
  shows "ProvMem (ClusterConfig c1) = ProvMem (ClusterConfig c2)"
proof -
  have "counted_memory V' = counted_memory V" by (simp add: assms(3) counted_memory_def vget_def)
  then show ?thesis using discovery_result [OF assms(1)] discovery_result [OF assms(2)] by auto
qed

section \<open>The configuration and the configurator agree\<close>

text \<open>
  The configurator works on a copy of the configuration. They agree when the copy differs at most in the two lists of
  tags, and these, split, are the tags the configurator works with.
\<close>

definition in_sync :: "prov \<Rightarrow> bool" where
  "in_sync P \<longleftrightarrow>
     (ClusterConfig (Cfg P))\<lparr>ProvTags := ProvTags (PConf P), ProvProxTags := ProvProxTags (PConf P)\<rparr> = PConf P \<and>
     DBTags (Cfg P) = str_split (CHR '','') (ProvTags (PConf P)) \<and>
     ProxyTagList (Cfg P) = str_split (CHR '','') (ProvProxTags (PConf P))"

inductive prov_step :: "prov_env \<Rightarrow> prov \<Rightarrow> prov \<Rightarrow> bool" for E where
  "prov_step E P (AddDBTag E tag P)"
| "prov_step E P (DropDBTag E tag P)"
| "prov_step E P (AddProxyTag tag P)"
| "prov_step E P (DropProxyTag tag P)"
| "prov_step E P (SetDBDiskSize v P)"
| "prov_step E P (SetDBCores v P)"
| "prov_step E P (SetDBMemorySize v P)"
| "prov_step E P (SetDBDiskIOPS v P)"
| "prov_step E P (SetDBMaxConnections v P)"
| "prov_step E P (SetDBExpireLogDays v P)"
| "prov_step E P (SetProxyCores v P)"
| "prov_step E P (SetProxyMemorySize v P)"
| "prov_step E P (SetProxyDiskSize v P)"
| "Cluster_ConfigDiscovery leader P = Some (ok, P') \<Longrightarrow> prov_step E P P'"

lemma in_sync_reload: "in_sync (reload_conf P)"
  by (simp add: in_sync_def reload_conf_def SetConfig_def)

lemma in_sync_ask [simp]: "in_sync (ask e P) = in_sync P"
  by (simp add: in_sync_def ask_def)

lemma dynamic_config_state: "PConf (dynamic_config E tag k i P) = PConf P" "Cfg (dynamic_config E tag k i P) = Cfg P"
  by (simp_all add: dynamic_config_def ask_def Let_def)

lemma dynamic_configs_state:
  "PConf (fold (dynamic_config E tag k) is P) = PConf P \<and> Cfg (fold (dynamic_config E tag k) is P) = Cfg P"
  by (induction "is" arbitrary: P) (simp_all add: dynamic_config_state)

lemma in_sync_cong: "PConf P' = PConf P \<Longrightarrow> Cfg P' = Cfg P \<Longrightarrow> in_sync P' = in_sync P"
  by (simp add: in_sync_def)

lemma in_sync_tags:
  assumes "in_sync P"
  shows "in_sync (AddDBTag E tag P)" "in_sync (DropDBTag E tag P)" "in_sync (AddProxyTag tag P)" "in_sync (DropProxyTag tag P)"
proof -
  have add: "in_sync (AddDBTagConfig tag P)" using assms by (simp add: AddDBTagConfig_def Let_def in_sync_reload)
  then show "in_sync (AddDBTag E tag P)"
    using assms by (simp add: AddDBTag_def Let_def in_sync_cong [of "fold _ _ _" "AddDBTagConfig tag P"] dynamic_configs_state)
  show "in_sync (DropDBTag E tag P)"
    by (simp add: DropDBTag_def DropDBTagConfig_def Let_def case_prod_unfold in_sync_reload)
  show "in_sync (AddProxyTag tag P)" "in_sync (DropProxyTag tag P)"
    by (simp_all add: AddProxyTag_def DropProxyTag_def Let_def in_sync_reload)
qed

lemma in_sync_settings:
  assumes "in_sync P"
  shows "in_sync (SetDBDiskSize v P)" "in_sync (SetDBCores v P)" "in_sync (SetDBMemorySize v P)" "in_sync (SetDBDiskIOPS v P)"
    "in_sync (SetDBMaxConnections v P)" "in_sync (SetDBExpireLogDays v P)" "in_sync (SetProxyCores v P)"
    "in_sync (SetProxyMemorySize v P)" "in_sync (SetProxyDiskSize v P)"
  using assms
  by (cases "PConf P"; cases "ClusterConfig (Cfg P)"; simp add: in_sync_def ask_def Let_def
      SetDBDiskSize_def Cfg_SetDBDisk_def SetDBCores_def Cfg_SetDBCores_def SetDBMemorySize_def Cfg_SetDBMemory_def
      SetDBDiskIOPS_def Cfg_SetDBDiskIOPS_def SetDBMaxConnections_def Cfg_SetDBMaxConnections_def SetDBExpireLogDays_def
      Cfg_SetDBExpireLogDays_def SetProxyCores_def Cfg_SetProxyCores_def SetProxyMemorySize_def Cfg_SetProxyMemorySize_def
      SetProxyDiskSize_def Cfg_SetProxyDiskSize_def)+

lemma split_join_append:
  assumes "xs = str_split sep s" "\<forall>t \<in> set ts. sep \<notin> set t"
  shows "str_split sep (str_join sep (xs @ ts)) = xs @ ts"
  using assms str_split_parts_no_sep [of _ sep s] by (intro str_split_join) auto

lemma no_comma_in_rules:
  "\<forall>t \<in> set (map snd (settings_rules V Pl)). CHR '','' \<notin> set t" "\<forall>t \<in> set (map snd (plugin_rules V Pl)). CHR '','' \<notin> set t"
  "\<forall>t \<in> set (map snd (optimizer_rules V Pl)). CHR '','' \<notin> set t" "\<forall>t \<in> set (map snd (session_rules V Pl)). CHR '','' \<notin> set t"
  by (simp_all add: settings_rules_def plugin_rules_def optimizer_rules_def session_rules_def)

lemma no_comma_discovered: "\<forall>t \<in> set (discovered_tags V Pl). CHR '','' \<notin> set t"
  using no_comma_in_rules [of V Pl] by (auto simp: discovered_tags_def)

text \<open>What a discovery may do to the configurator, also when it fails.\<close>

definition discovers :: "configurator \<Rightarrow> configurator \<Rightarrow> bool" where
  "discovers c c' \<longleftrightarrow>
     (\<exists>ts. (\<forall>t \<in> set ts. CHR '','' \<notin> set t) \<and> DBTags c' = DBTags c @ ts) \<and> ProxyTagList c' = ProxyTagList c \<and>
     (\<exists>mem cores. ClusterConfig c' = (ClusterConfig c)\<lparr>ProvMem := mem, ProvCores := cores\<rparr>)"

lemma discoversI:
  "\<forall>t \<in> set ts. CHR '','' \<notin> set t \<Longrightarrow> DBTags c' = DBTags c @ ts \<Longrightarrow> ProxyTagList c' = ProxyTagList c \<Longrightarrow>
   ClusterConfig c' = (ClusterConfig c)\<lparr>ProvMem := mem, ProvCores := cores\<rparr> \<Longrightarrow> discovers c c'"
  by (auto simp: discovers_def)

lemma discovers_refl: "discovers c c"
  by (rule discoversI [where ts = "[]" and mem = "ProvMem (ClusterConfig c)" and cores = "ProvCores (ClusterConfig c)"]) simp_all

lemma discovers_trans: "discovers c c1 \<Longrightarrow> discovers c1 c2 \<Longrightarrow> discovers c c2"
  by (auto simp: discovers_def) (metis UnE append_assoc set_append)

lemma discovers_tag_if: "CHR '','' \<notin> set tag \<Longrightarrow> discovers c (tag_if b tag c)"
  by (auto simp: tag_if_def discovers_refl Cfg_AddDBTag_def
      intro!: discoversI [where ts = "[tag]" and mem = "ProvMem (ClusterConfig c)" and cores = "ProvCores (ClusterConfig c)"])

lemma discovers_finish: "finish_config_discovery V Pl m c = Some (ok, c') \<Longrightarrow> discovers c c'"
  by (rule discoversI [OF no_comma_discovered [of V Pl], where mem = "ProvMem (ClusterConfig c')" and cores = "ProvCores (ClusterConfig c')"])
    (auto simp: finish_config_discovery_def fold_AddDBTag Cfg_SetDBMemory_def Cfg_SetDBCores_def Let_def)

lemma discovers_engines:
  assumes "engine_discovery V Pl m c = Some (ok, c')"
  shows "discovers c c'"
proof -
  let ?c1 = "tag_if (V ''TOKUDB_CACHE_SIZE'' \<noteq> None) ''tokudb'' c"
  let ?c2 = "tag_if (V ''S3_PAGECACHE_BUFFER_SIZE'' \<noteq> None) ''s3'' ?c1"
  let ?c3 = "tag_if (V ''ROCKSDB_BLOCK_CACHE_SIZE'' \<noteq> None) ''myrocks'' ?c2"
  have 1: "discovers c ?c1" by (rule discovers_tag_if) simp
  have 2: "discovers c ?c2" by (rule discovers_trans [OF 1 discovers_tag_if]) simp
  have 3: "discovers c ?c3" by (rule discovers_trans [OF 2 discovers_tag_if]) simp
  show ?thesis
    using assms 1 2 3 discovers_trans [OF 3 discovers_finish]
    unfolding engine_discovery_def Let_def by (auto split: option.splits)
qed

lemma discovery_keeps:
  assumes "ConfigDiscovery V Pl c = Some (ok, c')"
  shows "discovers c c'"
proof -
  have t: "discovers c (tag_if b ''noquerycache'' c)" for b by (rule discovers_tag_if) simp
  show ?thesis
    using assms t discovers_refl discovers_trans [OF t discovers_engines]
    unfolding ConfigDiscovery_def Let_def by (auto split: option.splits)
qed

lemma in_sync_discovery:
  assumes "in_sync P" "Cluster_ConfigDiscovery leader P = Some (ok, P')"
  shows "in_sync P'"
proof (cases leader)
  case (Some VP)
  then obtain V Pl where VP: "leader = Some (V, Pl)" by (cases VP) auto
  then obtain ok' c where c: "ConfigDiscovery V Pl (Cfg P) = Some (ok', c)" and P': "P' = settings_from_configurator (P\<lparr>Cfg := c\<rparr>)"
    using assms(2) by (auto simp: Cluster_ConfigDiscovery_def)
  obtain ts mem cores where ts: "\<forall>t \<in> set ts. CHR '','' \<notin> set t" and c': "DBTags c = DBTags (Cfg P) @ ts"
      "ProxyTagList c = ProxyTagList (Cfg P)" "ClusterConfig c = (ClusterConfig (Cfg P))\<lparr>ProvMem := mem, ProvCores := cores\<rparr>"
    using discovery_keeps [OF c] by (auto simp: discovers_def)
  have s: "DBTags (Cfg P) = str_split (CHR '','') (ProvTags (PConf P))" "ProxyTagList (Cfg P) = str_split (CHR '','') (ProvProxTags (PConf P))"
    using assms(1) by (simp_all add: in_sync_def)
  show ?thesis
    using split_join_append [OF s(1) ts] s(2) assms(1)
    by (cases "PConf P"; cases "ClusterConfig (Cfg P)")
      (simp add: P' c' settings_from_configurator_def in_sync_def ask_def Let_def GetConfigDBTags_def GetConfigProxyTags_def str_join_split)
qed (use assms in \<open>simp add: Cluster_ConfigDiscovery_def\<close>)


section \<open>Where it falls short\<close>

text \<open>
  C40: Dropping the last tag of the databases turns every rule on: the saved list is empty, it is read back as one empty tag, and
  the empty tag matches every filter. Tags added later do not change this.
\<close>

theorem last_tag_matches_everything:
  assumes "\<forall>t \<in> set (DBTags (Cfg P)). t = dtag" "P' = DropDBTag E dtag P"
  shows "IsFilterInDBTags (Cfg P') filt \<and> IsFilterInDBTags (Cfg (AddDBTag E tag P')) filt"
proof -
  have "filter (\<lambda>tag. dtag \<noteq> tag) (DBTags (Cfg P)) = []" using assms(1) by (auto simp: filter_empty_conv)
  then have "DBTags (Cfg (snd (DropDBTagConfig dtag Q))) = [[]]" if "Cfg Q = Cfg P" for Q
    using that by (auto simp: DropDBTagConfig_def Cfg_DropDBTag_def Let_def reload_conf_def SetConfig_def)
  then have tags: "DBTags (Cfg P') = [[]]"
    by (simp add: assms(2) DropDBTag_def Let_def case_prod_unfold ask_def dynamic_configs_state)
  then have "[] \<in> set (DBTags (Cfg (AddDBTagConfig tag P')))"
    by (simp add: AddDBTagConfig_def HaveDBTag_def Let_def reload_conf_def SetConfig_def Cfg_AddDBTag_def GetConfigDBTags_def)
  then have "[] \<in> set (DBTags (Cfg (AddDBTag E tag P')))"
    using tags by (simp add: AddDBTag_def Let_def ask_def dynamic_configs_state)
  then show ?thesis using tags by (auto simp: IsFilterInDBTags_def list_ex_iff intro: bexI [of _ "[]"])
qed

text \<open>
  The settings are read in upper case, so a collation is never found to be case insensitive: a server with a UTF-8
  character set is always tagged as case sensitive.
\<close>

lemma char_upper_not_c: "char_upper x \<noteq> CHR ''c''"
proof
  assume c: "char_upper x = CHR ''c''"
  have "(of_char (CHR ''c'') :: nat) = 99" by simp
  with c have u: "of_char (char_upper x) = (99 :: nat)" by simp
  show False
  proof (cases "97 \<le> (of_char x :: nat) \<and> (of_char x :: nat) \<le> 122")
    case True
    then have "of_char x - 32 < (256 :: nat)" by linarith
    then have "of_char (char_upper x) = (of_char x - 32 :: nat)" using True by (simp add: char_upper_def)
    then show False using u True by linarith
  next
    case False
    then show False using u by (auto simp: char_upper_def)
  qed
qed

lemma upper_no_lower: "CHR ''c'' \<notin> set (str_upper s)"
  using char_upper_not_c by (fastforce simp: str_upper_def)

lemma rule_holds: "t \<in> set (map snd (filter fst rs)) \<longleftrightarrow> (True, t) \<in> set rs"
  by (induction rs) auto

lemma tag_of_rule:
  "t \<in> set (discovered_tags V Pl) \<longleftrightarrow>
     (True, t) \<in> set (settings_rules V Pl) \<union> set (plugin_rules V Pl) \<union> set (optimizer_rules V Pl) \<union> set (session_rules V Pl)"
  unfolding discovered_tags_def rule_holds by simp

theorem collation_always_case_sensitive:
  assumes "V ''CHARACTER_SET_SERVER'' = Some ''UTF8MB4''" "V ''COLLATION_SERVER'' = Some (str_upper s)"
  shows "''bm4cs'' \<in> set (discovered_tags V Pl) \<and> ''bm4ci'' \<notin> set (discovered_tags V Pl)"
proof -
  have "\<not> str_contains (str_upper s) ''_ci''"
  proof
    assume "str_contains (str_upper s) ''_ci''"
    then obtain a b where "str_upper s = a @ ''_ci'' @ b" by (auto simp only: str_contains_iff sublist_def)
    then show False using upper_no_lower [of s] by simp
  qed
  then have "(True, ''bm4cs'') \<in> set (session_rules V Pl)" "(True, ''bm4ci'') \<notin> set (session_rules V Pl)"
    using assms by (simp_all add: session_rules_def vget_def)
  moreover have "(True, ''bm4ci'') \<notin> set (settings_rules V Pl)" by (simp add: settings_rules_def)
  moreover have "(True, ''bm4ci'') \<notin> set (plugin_rules V Pl)" by (simp add: plugin_rules_def)
  moreover have "(True, ''bm4ci'') \<notin> set (optimizer_rules V Pl)" by (simp add: optimizer_rules_def)
  ultimately show ?thesis by (simp add: tag_of_rule)
qed

text \<open>A number of days that cannot be read gives 0 days, or a bound of the integers, and not the default of 5.\<close>

theorem expire_default_lost: "ProvExpireLogDays (PConf (SetDBExpireLogDays v P)) = atoi v"
  by (simp add: SetDBExpireLogDays_def Cfg_SetDBExpireLogDays_def ask_def Let_def)

text \<open>A discovery that is repeated adds its tags again.\<close>

theorem rediscovery_repeats_tags:
  assumes "ConfigDiscovery V Pl c = Some (True, c1)" "ConfigDiscovery V Pl c1 = Some (True, c2)"
  shows "DBTags c2 = DBTags c @ cache_tags V @ discovered_tags V Pl @ cache_tags V @ discovered_tags V Pl \<and>
    ProvMem (ClusterConfig c2) = ProvMem (ClusterConfig c1)"
proof -
  obtain en b where 1: "GetMemoryPctShared (ClusterConfig c) = Some (en, b)"
    "c1 = c\<lparr>DBTags := DBTags c @ cache_tags V @ discovered_tags V Pl, ClusterConfig := ClusterConfig c1\<rparr>"
    "ProvMemSharedPct (ClusterConfig c1) = ProvMemSharedPct (ClusterConfig c)"
    "ProvMem (ClusterConfig c1) = dec (unat ((counted_memory V + counted_memory V * word_of_int (pct en ''threads'') div 100) div 1024 div 1024))"
    using discovery_result [OF assms(1)] by auto
  have "GetMemoryPctShared (ClusterConfig c1) = Some (en, b)" using 1(1, 3) by (simp add: GetMemoryPctShared_def)
  moreover have "DBTags c1 = DBTags c @ cache_tags V @ discovered_tags V Pl" by (subst 1(2)) simp
  ultimately show ?thesis using discovery_result [OF assms(2)] 1(4) by auto
qed

text \<open>
  The tag that a switch to reading on the master gives the proxies is not in the saved configuration: the next change of a
  tag drops it.
\<close>

theorem leader_read_tag_lost:
  assumes "\<not> PRXServersReadOnMaster (PConf P)" "\<not> HaveDBTag (SetConfig (PConf P) (Cfg P)) tag"
    and "\<not> proxy_filter (SetConfig (PConf P) (Cfg P)) ''readonmaster''" "Q = SwitchProxyServersReadOnMaster P"
  shows "''readonmaster'' \<in> set (ProxyTagList (Cfg Q)) \<and> ''readonmaster'' \<notin> set (ProxyTagList (Cfg (AddDBTagConfig tag Q)))"
proof -
  have "''readonmaster'' \<notin> set (str_split (CHR '','') (ProvProxTags (PConf P)))"
    using assms(3) by (auto simp: proxy_filter_def SetConfig_def list_ex_iff)
  then show ?thesis
    using assms by (auto simp: SwitchProxyServersReadOnMaster_def Cfg_Init_def Cfg_AddProxyTag_def SetConfig_def proxy_filter_def
        AddDBTagConfig_def reload_conf_def HaveDBTag_def Cfg_AddDBTag_def Let_def)
qed

section \<open>The generated lines\<close>

lemma split_at_sep:
  assumes "sep \<in> set s"
  obtains a b rest where "str_split sep s = a # b # rest"
proof -
  have "\<exists>a b rest. str_split sep s = a # b # rest"
    using assms
  proof (induction s)
    case (Cons c s)
    obtain t ts where "str_split sep s = t # ts" using str_split_nonempty neq_Nil_conv by metis
    then show ?case using Cons by (cases "c = sep") auto
  qed simp
  then show ?thesis using that by blast
qed

lemma dynamic_lines_complete:
  assumes "\<forall>l \<in> set ls. str_contains l cmd \<longrightarrow> CHR '':'' \<in> set l"
  shows "dynamic_lines cmd acc ls = Inr (acc @ concat (map (\<lambda>l. str_split (CHR '':'') l ! 1) (filter (\<lambda>l. str_contains l cmd) ls)))"
  using assms
proof (induction ls arbitrary: acc)
  case (Cons l ls)
  show ?case
  proof (cases "str_contains l cmd")
    case True
    then obtain a b rest where "str_split (CHR '':'') l = a # b # rest" using Cons.prems by (auto elim: split_at_sep)
    then show ?thesis using True Cons by simp
  qed (use Cons in simp)
qed simp

text \<open>
  The dynamic configuration of a tag is what follows the first colon in the lines of the wanted files that hold the
  command, in order, as long as the files are there and these lines have a colon.
\<close>

theorem dynamic_config_complete:
  assumes "\<forall>f \<in> set (wanted_files c filt rs). \<exists>ls. fs f = Some ls \<and> (\<forall>l \<in> set ls. str_contains l cmd \<longrightarrow> CHR '':'' \<in> set l)"
  shows "GetDatabaseDynamicConfig fs rs c filt cmd =
    Inr (concat (map (\<lambda>l. str_split (CHR '':'') l ! 1)
      (filter (\<lambda>l. str_contains l cmd) (concat (map (\<lambda>f. the (fs f)) (wanted_files c filt rs))))))"
proof -
  have "dynamic_files fs cmd acc xs =
      Inr (acc @ concat (map (\<lambda>l. str_split (CHR '':'') l ! 1) (filter (\<lambda>l. str_contains l cmd) (concat (map (\<lambda>f. the (fs f)) xs)))))"
    if "\<forall>f \<in> set xs. \<exists>ls. fs f = Some ls \<and> (\<forall>l \<in> set ls. str_contains l cmd \<longrightarrow> CHR '':'' \<in> set l)" for acc xs
    using that
  proof (induction xs arbitrary: acc)
    case (Cons f xs)
    then obtain ls where "fs f = Some ls" "\<forall>l \<in> set ls. str_contains l cmd \<longrightarrow> CHR '':'' \<in> set l" by auto
    then show ?case using Cons dynamic_lines_complete [of ls cmd acc] by simp
  qed simp
  from this [OF assms] show ?thesis by (simp add: GetDatabaseDynamicConfig_def)
qed

text \<open>The whole configuration of a server cannot be read if a line of a wanted file has no colon.\<close>

lemma config_lines_panic: "l \<in> set ls \<Longrightarrow> CHR '':'' \<notin> set l \<Longrightarrow> config_lines acc ls = None"
proof (induction ls arbitrary: acc)
  case (Cons k ks)
  then show ?case by (cases "l = k") (auto simp: str_split_no_sep split: list.split)
qed simp

theorem colonless_line_panics:
  assumes "f \<in> set (wanted_files c filt rs)" "\<forall>g \<in> set (wanted_files c filt rs). fs g \<noteq> None"
    and "fs f = Some ls" "l \<in> set ls" "CHR '':'' \<notin> set l"
  shows "GetDatabaseConfig fs rs c filt = None"
proof -
  have "config_files fs acc xs = None" if "f \<in> set xs" "\<forall>g \<in> set xs. fs g \<noteq> None" for acc xs
    using that
  proof (induction xs arbitrary: acc)
    case (Cons g xs)
    show ?case
    proof (cases "g = f")
      case True
      then show ?thesis using config_lines_panic [OF assms(4, 5)] assms(3) by simp
    next
      case False
      then show ?thesis using Cons by (auto split: option.split bind_splits)
    qed
  qed simp
  then show ?thesis using assms by (simp add: GetDatabaseConfig_def)
qed

section \<open>Concrete data\<close>

text \<open>The shares and tags of the default configuration, with 16 GB of memory.\<close>

definition sample_prov_conf :: prov_conf where
  "sample_prov_conf = \<lparr>ProvMem = ''16384'', ProvIops = ''300'', ProvCores = ''4'', ProvDisk = ''20'',
     ProvMemSharedPct = ''threads:16,innodb:60,myisam:10,aria:10,rocksdb:1,tokudb:1,s3:1,archive:1,querycache:0'',
     ProvMemThreadedPct = ''tmp:70,join:20,sort:10'', ProvTags = ''semisync,row'', ProvProxTags = [],
     ProvMaxConnections = 1000, ProvExpireLogDays = 5, ProvProxCores = ''1'', ProvProxMem = ''1'', ProvProxDisk = ''20'',
     PRXServersReadOnMaster = False, ProvDBApplyDynamicConfig = False\<rparr>"

definition sample_prov :: prov where
  "sample_prov = \<lparr>PConf = sample_prov_conf, Cfg = SetConfig sample_prov_conf \<lparr>ClusterConfig = sample_prov_conf, DBTags = [], ProxyTagList = []\<rparr>,
     prov_trace = []\<rparr>"

definition sample_prov_env :: prov_env where
  "sample_prov_env = \<lparr>prov_servers = [0, 1], is_mariadb = (\<lambda>_. True), needs_restart = (\<lambda>_ _ _. False)\<rparr>"

lemma sample_memory: "ParseInt (ProvMem sample_prov_conf) = Some 16384"
  by code_simp

lemma sample_shares:
  "case GetMemoryPctShared sample_prov_conf of
     None \<Rightarrow> False
   | Some (en, b) \<Rightarrow> list_all (\<lambda>e. 0 \<le> pct en e) cache_engines \<and> sum_list (map (pct en) cache_engines) = 83"
  by code_simp

theorem cache_sizes_fit_witness:
  "\<exists>sizes. map (\<lambda>f. f sample_prov_conf) cache_sizes = map (\<lambda>s. Some (dec_int s)) sizes \<and> sum_list sizes \<le> 16384"
proof -
  obtain en b where m: "GetMemoryPctShared sample_prov_conf = Some (en, b)" "\<forall>e \<in> set cache_engines. 0 \<le> pct en e"
    "sum_list (map (pct en) cache_engines) \<le> 100"
    using sample_shares by (auto simp: list_all_iff split: option.splits)
  show ?thesis using cache_sizes_fit [OF sample_memory _ _ m] by auto
qed


theorem last_tag_matches_everything_witness:
  "IsFilterInDBTags (Cfg (DropDBTag sample_prov_env ''row'' (DropDBTag sample_prov_env ''semisync'' sample_prov))) ''mariadb.tag.galera''"
proof -
  have "DBTags (Cfg (DropDBTag sample_prov_env ''semisync'' sample_prov)) = [''row'']" by code_simp
  then show ?thesis
    using last_tag_matches_everything [of "DropDBTag sample_prov_env ''semisync'' sample_prov" "''row''" _ sample_prov_env] by simp
qed

end
