(* ===== verification/Spec2Isabelle.thy ===== *)
theory Spec2Isabelle
  imports StateMachine Gtid Version ErrorTable Cluster Env Sample Election Crash ServerOps Failover FailoverProps FailCheck
    DelayStats SrvCheck Repoint Arbitrator Split Rejoin Topology SrvRefresh Ping Acl ProxySQL ProxySQLProps Rolling Configurator
begin

text \<open>
  A verification library for replication-manager, a high-availability manager for MariaDB and MySQL replication.

  \<^bold>\<open>The program.\<close> A manager monitors clusters of database servers. In every monitoring round it refreshes its view of
  the servers, discovers the topology, raises states (errors and warnings with a code), and decides whether the
  master has to be replaced. A leader change elects a replica, promotes it and repoints the other replicas; an old
  master that comes back is rejoined. Managers that lose sight of each other ask an external arbitrator which one may
  act. Around this core stand proxies, provisioning, backups, an HTTP API and a client.

  \<^bold>\<open>How it is modelled.\<close> Every modelled Go function is a HOL function of the same name over the state it reads and
  writes.
  \<^item> A struct is a record; a server is named by a number (\<^typ>\<open>sid\<close>), so that two slices can share it, and the
    cluster holds the function from numbers to servers.
  \<^item> A nil pointer is \<^const>\<open>None\<close>. A run-time panic is \<^const>\<open>None\<close> of an option result; an error return is a flag
    or an option.
  \<^item> What the databases, the network, the clock and external tools answer is an argument (\<^typ>\<open>dbenv\<close>,
    \<^typ>\<open>rejoin_env\<close>, \<^typ>\<open>mon_env\<close>, \<^typ>\<open>ping_env\<close>, \<^typ>\<open>admin_env\<close>, \<^typ>\<open>roll_env\<close>, the functions of the split-brain round); answers may differ from call to call, and nothing is
    assumed about them but what a theorem states.
  \<^item> Every command sent to the outside is appended to a trace (\<^typ>\<open>dbop list\<close>), so theorems speak about what was sent,
    to whom and in which order. Log lines are left out.
  \<^item> Machine integers wrap where the code can overflow: \<open>uint64\<close> is \<open>64 word\<close>.

  \<^bold>\<open>The theories.\<close>
  \<^item> \<open>Prelude\<close>: Go's strings, numbers, slices, sorting and maps, with the lemmas the components share.
  \<^item> \<open>Registry\<close>, \<open>StateMachine\<close> (\<open>src/utils/state/state.go\<close>): the states of a round and those visible from the last
    one. The locale \<open>state_registry\<close> is the contract of raising and clearing, interpreted on the model. Shown: exactly
    the states raised in a round are visible after it, opened and resolved states partition the change, every
    reachable machine is well formed, the SLA counters stay in bounds.
  \<^item> \<open>Gtid\<close> (\<open>src/utils/gtid/gtid.go\<close>), \<open>Version\<close> (\<open>src/utils/version/version.go\<close>), \<open>ErrorTable\<close>
    (\<open>src/config/error.go\<close>): positions, versions and messages. Shown: printing and parsing are inverse, version
    comparison is the lexicographic order, and \<open>Equal\<close> on positions accepts different positions.
  \<^item> \<open>Cluster\<close>, \<open>Env\<close>, \<open>Sample\<close>: the records of servers, configuration and cluster (\<open>cluster.go\<close>, \<open>srv.go\<close>,
    \<open>srv_has.go\<close>, \<open>srv_get.go\<close>, \<open>cluster_has.go\<close>, \<open>cluster_get.go\<close> under \<open>src/cluster\<close>), the environment, and
    concrete data for the witnesses.
  \<^item> \<open>Election\<close> (\<open>src/cluster/cluster_fail.go\<close>, \<open>cluster_chk.go\<close>): all elections. Shown: an elected server passes every
    safety check, no readable replica is ahead of it, and no candidate is returned only when there is none.
  \<^item> \<open>ServerOps\<close> (\<open>srv.go\<close>, \<open>srv_set.go\<close>, \<open>srv_wait.go\<close>): operations on one server, with the relation \<open>steps\<close> that
    says which commands were sent and that no role changed. The two wait loops without a bound are partial functions;
    that they return is a theorem.
  \<^item> \<open>Crash\<close> (\<open>crash.go\<close>): crash records and the failover history.
  \<^item> \<open>Failover\<close>, \<open>FailoverProps\<close> (\<open>cluster_fail.go\<close>): the leader change, phase by phase. Shown: consistent roles
    after a change, nothing is sent to a failed master, the old master is frozen before any server opens, a manager
    that lost arbitration opens nothing, giving up changes nothing, and a change with a readable candidate completes.
  \<^item> \<open>FailCheck\<close> (\<open>cluster_chk.go\<close>): the decision to fail over. The locale \<open>failover_guard\<close> is the contract of one
    guard, interpreted for each of them. Shown: a round changes something only when every guard allows it, and runs the
    failover exactly when it is due; the failover counter never passes its limit.
  \<^item> \<open>DelayStats\<close> (\<open>cluster_stat.go\<close>): hourly delay statistics, exact averages in place of floating point.
  \<^item> \<open>SrvCheck\<close> (\<open>srv_chk.go\<close>): the checks of one server in a round. Shown: the state given to a replica is a
    function of its replication status, and the settings checks never open a server.
  \<^item> \<open>Arbitrator\<close> (\<open>src/arbitrator/arbitrator.go\<close>, \<open>src/utils/dbhelper/arbitration.go\<close>): the heartbeat table and
    the HTTP handlers. The locale \<open>election_lock\<close> is the abstract lock; its interpretation on the handlers is the
    refinement. Shown: at most one elected manager in every reachable table, the exact answer to a request, and that
    the heartbeat of the winner gives its election away.
  \<^item> \<open>Split\<close> (\<open>cluster_split.go\<close>, \<open>src/server/server.go\<close>): a manager under split brain, composed with the arbitrator:
    of two managers answered one after the other at most one is active.
  \<^item> \<open>Repoint\<close> (\<open>srv_set.go\<close>), \<open>Rejoin\<close> (\<open>srv_rejoin.go\<close>): the rejoin of old masters and replicas. Shown: an old
    master that is ahead of the election is never attached without a flashback, and a replica's rejoin keeps the
    roles and opens no server.
  \<^item> \<open>Topology\<close> (\<open>cluster_topo.go\<close>): a topology discovery, stage by stage, over what the pings of the round left in
    the state (an argument; one ping is \<open>Ping\<close>). The relation \<open>tame\<close> is what every stage keeps. Shown: the replicas found are exactly the listed servers
    that answer and replicate, the master is the old one or a listed server, a manager that lost arbitration opens
    nothing, and the discovery of a standby manager always returns.
  \<^item> \<open>SrvRefresh\<close> (\<open>Refresh\<close> in \<open>srv.go\<close>, \<open>CheckPrivileges\<close> in \<open>srv_chk.go\<close>): one refresh of a server, query by query. The relation
    \<open>local_to\<close> is what every stage keeps; the locale \<open>server_refresh\<close> is the contract the ping relies on, interpreted on
    the refresh. Shown: it implements the abstract \<open>Refresh\<close> of \<open>ServerOps\<close>, touches only its server and opens none;
    the group role is never read on MySQL, the replication user is never checked.
  \<^item> \<open>Ping\<close> (\<open>Ping\<close> in \<open>srv.go\<close>): failure detection and the return of a server. Runs of pings are the inductive relations
    \<open>outage\<close> and \<open>flapping\<close>. Shown: an outage is detected at the configured count and not before, nothing is declared
    failed without it; missed pings need not be consecutive, suspicion ends with the round, alerts of state changes are lost.
  \<^item> \<open>Acl\<close> (\<open>cluster_acl.go\<close>, \<open>cluster_add.go\<close>, the grant tables of \<open>src/config/config.go\<close>): access control of the API.
    The locale \<open>grant_table\<close> is what the compact form of grants relies on, interpreted on the table of the code. Shown:
    saving and loading is a round trip, access needs a grant, a delegated user gets nothing that does not begin with a
    grant of its creator; and where that falls short: prefixes escalate, updates cannot restore.
  \<^item> \<open>ProxySQL\<close>, \<open>ProxySQLProps\<close> (\<open>src/cluster/prx_proxysql.go\<close>, \<open>src/router/proxysql/proxysql.go\<close>): the backend of a cluster in
    ProxySQL. Its admin table is a keyed list of rows, and every statement the code sends has its SQL meaning on it; the
    other answers of ProxySQL are the environment \<^typ>\<open>admin_env\<close>. The locale \<open>backend_op\<close> is the contract of a statement on one
    backend, interpreted for each of them; the relation \<open>kept\<close> is what every part of an operation keeps. Shown: the
    hostgroups of other clusters are never touched, which servers are writers after a failover in both reading modes of the leader,
    and that two refreshes put a replica where it belongs; and where the code falls short: a leader that reads blocks
    its own replacement, and the refresh of a Galera cluster can panic.
  \<^item> \<open>Rolling\<close> (\<open>cluster_roll.go\<close>, \<open>cluster_wait.go\<close>, \<open>srv_wait.go\<close>, \<open>srv_tgl.go\<close>): rolling restarts and reprovisionings beside a running
    monitor, as traces of actions with any environment \<^typ>\<open>roll_env\<close>. The waits are partial functions, since a large number
    of tries makes them run forever. Shown: one server is down at a time and the master comes last, after a switchover
    was asked for; a restart returns if backups end; a wait for a failed server is exact; and where it falls short:
    the maintenance of a replica that is down is switched, and a replica promoted meanwhile is stopped like the others.
  \<^item> \<open>Configurator\<close> (\<open>src/cluster/configurator\<close>, \<open>cluster_add.go\<close>, \<open>cluster_del.go\<close>, \<open>cluster_set.go\<close>): the tags and sizes from which the
    configuration of the servers is generated, and their discovery from a running server. Shown: the sizes of the caches fit into
    the memory, the redo log stays in its bounds, and the configurator and the saved configuration agree after every
    sequence of changes (the relation \<open>prov_step\<close>); and where it falls short: the last tag dropped turns every rule on, the memory of
    RocksDB is not discovered, collations are never case insensitive.

  \<^bold>\<open>Bounds.\<close> Loops over slices are structural recursion. The three tries of an election request and the writes wait are
  counted loops; the waits of the rolling operations are partial functions whose end is proved; no fuel is used anywhere. Sorting is the insertion sort Go uses for short slices; its lemmas only use
  that the result is a sorted permutation.

  \<^bold>\<open>Not modelled.\<close> Proxies other than ProxySQL, provisioning beyond the configurator, backups and jobs, the HTTP and gRPC API, configuration parsing, metrics,
  the client and the regression tests drive external programs or only format and transport data; the vendored S3
  file system is third-party code. Of the modelled parts, the monitoring loop itself, the credential rotation and the discovery of
  Spider shards and of child clusters are still open. Of a refresh, the goroutines it starts, the workload figures, the
  InnoDB status and the state file are left out: no modelled decision reads them. Of ProxySQL, query rules, shard
  proxies, the TLS reload and the password rotation are left out: they send one statement and decide nothing.
\<close>

end
